(* ===== verification/Prelude.thy ===== *)
theory Prelude
  imports Complex_Main "HOL-Library.Word" "HOL-Library.Sublist" "HOL-Library.List_Lexorder"
    "HOL-Library.Char_ord"
begin

text \<open>
  Shared vocabulary of the development: machine integers and durations of the Rust code, the
  operations of the Rust standard library on strings that the components use, and the generic
  lemmas about lists, options and strings that their proofs share.

  A Rust \<open>String\<close> is its UTF-8 byte sequence, so a model string is a \<open>char list\<close> of bytes,
  \<open>length\<close> is \<open>str::len\<close>, and the operations that speak of characters (\<open>trim\<close>, \<open>chars\<close>,
  \<open>is_char_boundary\<close>) read the UTF-8 encoding. Fallible functions return \<open>anyhow + 'a\<close>: the
  left summand is the chain of messages of the error.
\<close>

section \<open>Machine integers and durations\<close>

type_synonym u8 = "8 word"
type_synonym u16 = "16 word"
type_synonym u32 = "32 word"
type_synonym u64 = "64 word"
type_synonym i64 = "64 word"
type_synonym i32 = int \<comment> \<open>exit codes: compared and printed, never added\<close>
type_synonym usize = nat
type_synonym bytes = "8 word list"

text \<open>An instant (\<open>DateTime<Utc>\<close>) is a number of nanoseconds, a \<open>Duration\<close> too.\<close>

type_synonym instant = int
type_synonym duration = nat

text \<open>Facts about the model's own small functions, collected for the component proofs.\<close>

named_theorems str_simps \<open>computation rules of the string operations\<close>
named_theorems rec_simps \<open>field facts of the builders of the model's records\<close>

definition ns_per_sec :: nat where
  "ns_per_sec = 1000000000"

definition from_secs :: "u64 \<Rightarrow> duration" where
  "from_secs s = unat s * ns_per_sec"

definition as_secs :: "duration \<Rightarrow> u64" where
  "as_secs d = of_nat (d div ns_per_sec)"

definition as_millis_u64 :: "duration \<Rightarrow> u64" where
  "as_millis_u64 d = of_nat (d div 1000000)"

text \<open>\<open>(a - b).to_std().unwrap_or(Duration::ZERO)\<close>: a negative difference becomes zero.\<close>

definition since_or_zero :: "instant \<Rightarrow> instant \<Rightarrow> duration" where
  "since_or_zero later earlier = nat (later - earlier)"

definition saturating_add_word :: "'a::len word \<Rightarrow> 'a word \<Rightarrow> 'a word" where
  "saturating_add_word a b = (if unat a + unat b < 2 ^ LENGTH('a) then a + b else - 1)"

definition saturating_sub_word :: "'a::len word \<Rightarrow> 'a word \<Rightarrow> 'a word" where
  "saturating_sub_word a b = (if a < b then 0 else a - b)"

lemma unat_minus_one_word_eq: "unat (- 1 :: 'a::len word) = 2 ^ LENGTH('a) - 1"
  by (simp add: unsigned_minus_1_eq_mask mask_eq_exp_minus_1)

lemma unat_saturating_add_word:
  "unat (saturating_add_word (a::'a::len word) b) = min (unat a + unat b) (2 ^ LENGTH('a) - 1)"
proof (cases "unat a + unat b < 2 ^ LENGTH('a)")
  case True
  then show ?thesis by (simp add: saturating_add_word_def unat_word_ariths)
next
  case False
  then show ?thesis by (simp add: saturating_add_word_def unat_minus_one_word_eq)
qed

lemma unat_saturating_sub_word: "unat (saturating_sub_word a b) = unat a - unat b"
  by (auto simp: saturating_sub_word_def unat_sub not_less word_less_nat_alt word_le_nat_alt)

lemma unat_Suc_of_less:
  fixes i m :: "'a::len word"
  assumes "i < m"
  shows "unat (i + 1) = Suc (unat i)"
proof -
  have "unat i < unat m" using assms by (simp add: word_less_nat_alt)
  moreover have "unat m < 2 ^ LENGTH('a)" by (rule unsigned_less)
  ultimately have "Suc (unat i) < 2 ^ LENGTH('a)" by linarith
  then show ?thesis by (simp add: unat_word_ariths)
qed

section \<open>Strings\<close>

definition bs :: "string list \<Rightarrow> string" where
  \<comment> \<open>pieces of a Rust literal separated by a backslash\<close>
  "bs ps = (case ps of [] \<Rightarrow> [] | p # qs \<Rightarrow> p @ concat (map (\<lambda>q. CHR 0x5C # q) qs))"

abbreviation nl :: char where "nl \<equiv> CHR 0x0A"
abbreviation dquote :: char where "dquote \<equiv> CHR 0x22"
abbreviation squote :: char where "squote \<equiv> CHR 0x27"
abbreviation backslash :: char where "backslash \<equiv> CHR 0x5C"

fun contains :: "string \<Rightarrow> string \<Rightarrow> bool" where
  \<comment> \<open>\<open>hay.contains(needle)\<close>\<close>
  "contains [] needle = (needle = [])"
| "contains (c # cs) needle = (prefix needle (c # cs) \<or> contains cs needle)"

lemma contains_iff_sublist: "contains hay needle \<longleftrightarrow> sublist needle hay"
  by (induction hay needle rule: contains.induct)
    (auto simp: sublist_Cons_right)

lemma contains_append_left [intro]: "contains a n \<Longrightarrow> contains (a @ b) n"
  and contains_append_right [intro]: "contains b n \<Longrightarrow> contains (a @ b) n"
  and contains_refl [simp]: "contains n n"
  by (auto simp: contains_iff_sublist intro: sublist_order.order_trans)

lemma contains_infix: "contains (a @ n @ b) n"
  by (simp add: contains_iff_sublist sublist_appendI)

text \<open>A needle without the separator lies on one side of it.\<close>

lemma contains_around:
  assumes "d \<notin> set n" "n \<noteq> []"
  shows "contains (a @ d # b) n \<longleftrightarrow> contains a n \<or> contains b n"
proof (induction a)
  case Nil
  from assms have "\<not> prefix n (d # b)" by (cases n) auto
  moreover from assms(2) have "\<not> contains [] n" by simp
  ultimately show ?case by simp
next
  case (Cons x a)
  have "prefix n (x # a @ d # b) \<longleftrightarrow> prefix n (x # a)"
    using assms(1) prefix_append [of n "x # a" "d # b"]
    by (cases n) (auto simp: prefix_Cons)
  with Cons show ?case by auto
qed

lemma contains_prefixI [intro]: "prefix n s \<Longrightarrow> contains s n"
  by (auto simp: contains_iff_sublist)

fun str_find :: "string \<Rightarrow> string \<Rightarrow> nat option" where
  \<comment> \<open>\<open>hay.find(needle)\<close>: the first byte offset\<close>
  "str_find [] needle = (if needle = [] then Some 0 else None)"
| "str_find (c # cs) needle =
     (if prefix needle (c # cs) then Some 0 else map_option Suc (str_find cs needle))"

lemma str_find_None: "str_find hay needle = None \<longleftrightarrow> \<not> contains hay needle"
  by (induction hay needle rule: str_find.induct) auto

definition strip_prefix :: "string \<Rightarrow> string \<Rightarrow> string option" where
  "strip_prefix s p = (if prefix p s then Some (drop (length p) s) else None)"

definition strip_suffix :: "string \<Rightarrow> string \<Rightarrow> string option" where
  "strip_suffix s p = (if suffix p s then Some (take (length s - length p) s) else None)"

lemma strip_prefix_append [simp]: "strip_prefix (p @ s) p = Some s"
  by (simp add: strip_prefix_def)

lemma strip_prefix_Some: "strip_prefix s p = Some r \<longleftrightarrow> s = p @ r"
  by (auto simp: strip_prefix_def prefix_def)

lemma strip_suffix_Some: "strip_suffix s p = Some r \<longleftrightarrow> s = r @ p"
  by (auto simp: strip_suffix_def suffix_def)

fun split_on :: "char \<Rightarrow> string \<Rightarrow> string list" where
  \<comment> \<open>\<open>s.split(c)\<close>: always at least one piece\<close>
  "split_on d [] = [[]]"
| "split_on d (c # cs) =
     (if c = d then [] # split_on d cs
      else (case split_on d cs of [] \<Rightarrow> [[c]] | p # ps \<Rightarrow> (c # p) # ps))"

lemma split_on_not_Nil [simp]: "split_on d s \<noteq> []"
  by (induction d s rule: split_on.induct) (auto split: list.splits)

fun join :: "string \<Rightarrow> string list \<Rightarrow> string" where
  "join sep [] = []"
| "join sep [p] = p"
| "join sep (p # q # ps) = p @ sep @ join sep (q # ps)"

lemma join_Cons: "ps \<noteq> [] \<Longrightarrow> join sep (p # ps) = p @ sep @ join sep ps"
  by (cases ps) auto

lemma join_split_on: "join [d] (split_on d s) = s"
proof (induction d s rule: split_on.induct)
  case (1 d)
  then show ?case by simp
next
  case (2 d c cs)
  then show ?case
    by (cases "split_on d cs"; cases "tl (split_on d cs)") (auto simp: join_Cons)
qed

lemma split_on_no_sep: "p \<in> set (split_on d s) \<Longrightarrow> d \<notin> set p"
  by (induction s arbitrary: p) (force split: if_splits list.splits)+

lemma split_on_id: "d \<notin> set s \<Longrightarrow> split_on d s = [s]"
  by (induction d s rule: split_on.induct) auto

lemma split_on_append:
  "d \<notin> set a \<Longrightarrow> split_on d (a @ d # b) = a # split_on d b"
  by (induction a) auto

lemma split_on_join:
  "ps \<noteq> [] \<Longrightarrow> \<forall>p\<in>set ps. d \<notin> set p \<Longrightarrow> split_on d (join [d] ps) = ps"
  by (induction "[d]" ps rule: join.induct) (auto simp: split_on_id split_on_append)

text \<open>\<open>str::lines\<close>: pieces ended by a newline, a carriage return before it dropped.\<close>

definition chop_cr :: "string \<Rightarrow> string" where
  "chop_cr l = (if suffix [CHR 0x0D] l then butlast l else l)"

fun lines_aux :: "string list \<Rightarrow> string list" where
  "lines_aux [] = []"
| "lines_aux [l] = (if l = [] then [] else [l])"
| "lines_aux (l # m # ls) = chop_cr l # lines_aux (m # ls)"

definition lines :: "string \<Rightarrow> string list" where
  "lines s = lines_aux (split_on nl s)"

text \<open>White space (\<open>char::is_whitespace\<close>) in UTF-8.\<close>

definition ws_seqs :: "string list" where
  "ws_seqs =
     [[CHR 0x09], [CHR 0x0A], [CHR 0x0B], [CHR 0x0C], [CHR 0x0D], [CHR 0x20],
      [CHR 0xC2, CHR 0x85], [CHR 0xC2, CHR 0xA0], [CHR 0xE1, CHR 0x9A, CHR 0x80],
      [CHR 0xE2, CHR 0x80, CHR 0x80], [CHR 0xE2, CHR 0x80, CHR 0x81],
      [CHR 0xE2, CHR 0x80, CHR 0x82], [CHR 0xE2, CHR 0x80, CHR 0x83],
      [CHR 0xE2, CHR 0x80, CHR 0x84], [CHR 0xE2, CHR 0x80, CHR 0x85],
      [CHR 0xE2, CHR 0x80, CHR 0x86], [CHR 0xE2, CHR 0x80, CHR 0x87],
      [CHR 0xE2, CHR 0x80, CHR 0x88], [CHR 0xE2, CHR 0x80, CHR 0x89],
      [CHR 0xE2, CHR 0x80, CHR 0x8A], [CHR 0xE2, CHR 0x80, CHR 0xA8],
      [CHR 0xE2, CHR 0x80, CHR 0xA9], [CHR 0xE2, CHR 0x80, CHR 0xAF],
      [CHR 0xE2, CHR 0x81, CHR 0x9F], [CHR 0xE3, CHR 0x80, CHR 0x80]]"

definition ws_prefix :: "string \<Rightarrow> nat" where
  \<comment> \<open>length of the white-space character at the start, 0 if there is none\<close>
  "ws_prefix s = (case find (\<lambda>w. prefix w s) ws_seqs of None \<Rightarrow> 0 | Some w \<Rightarrow> length w)"

definition ws_suffix :: "string \<Rightarrow> nat" where
  "ws_suffix s = (case find (\<lambda>w. suffix w s) ws_seqs of None \<Rightarrow> 0 | Some w \<Rightarrow> length w)"

function trim_start :: "string \<Rightarrow> string" where
  "trim_start s = (if ws_prefix s = 0 \<or> s = [] then s else trim_start (drop (ws_prefix s) s))"
  by pat_completeness auto
termination
  by (relation "measure length") auto

function trim_end :: "string \<Rightarrow> string" where
  "trim_end s =
     (if ws_suffix s = 0 \<or> s = [] then s else trim_end (take (length s - ws_suffix s) s))"
  by pat_completeness auto
termination
  by (relation "measure length") auto

declare trim_start.simps [simp del] trim_end.simps [simp del]

definition trim :: "string \<Rightarrow> string" where
  "trim s = trim_end (trim_start s)"

function split_whitespace_aux :: "string \<Rightarrow> string \<Rightarrow> string list" where
  \<comment> \<open>the second argument is the token read so far, reversed\<close>
  "split_whitespace_aux s tok =
     (case s of
        [] \<Rightarrow> (if tok = [] then [] else [rev tok])
      | c # cs \<Rightarrow>
          (if ws_prefix s = 0 then split_whitespace_aux cs (c # tok)
           else (if tok = [] then [] else [rev tok])
                @ split_whitespace_aux (drop (ws_prefix s) s) []))"
  by pat_completeness auto
termination
  by (relation "measure (\<lambda>(s, tok). length s)") auto

declare split_whitespace_aux.simps [simp del]

definition split_whitespace :: "string \<Rightarrow> string list" where
  "split_whitespace s = split_whitespace_aux s []"

text \<open>ASCII case conversion, character tests.\<close>

definition upper_letters :: string where
  "upper_letters = ''ABCDEFGHIJKLMNOPQRSTUVWXYZ''"

definition lower_letters :: string where
  "lower_letters = ''abcdefghijklmnopqrstuvwxyz''"

definition is_upper :: "char \<Rightarrow> bool" where
  "is_upper c \<longleftrightarrow> c \<in> set upper_letters"

definition is_lower :: "char \<Rightarrow> bool" where
  "is_lower c \<longleftrightarrow> c \<in> set lower_letters"

definition is_digit :: "char \<Rightarrow> bool" where
  "is_digit c \<longleftrightarrow> c \<in> set ''0123456789''"

definition is_ascii_alphanumeric :: "char \<Rightarrow> bool" where
  "is_ascii_alphanumeric c \<longleftrightarrow> is_upper c \<or> is_lower c \<or> is_digit c"

definition is_ascii_hexdigit :: "char \<Rightarrow> bool" where
  "is_ascii_hexdigit c \<longleftrightarrow> is_digit c \<or> c \<in> set ''abcdefABCDEF''"

definition char_lower :: "char \<Rightarrow> char" where
  "char_lower c =
     (case map_of (zip upper_letters lower_letters) c of Some d \<Rightarrow> d | None \<Rightarrow> c)"

definition char_upper :: "char \<Rightarrow> char" where
  "char_upper c =
     (case map_of (zip lower_letters upper_letters) c of Some d \<Rightarrow> d | None \<Rightarrow> c)"

abbreviation to_lower :: "string \<Rightarrow> string" where "to_lower s \<equiv> map char_lower s"
abbreviation to_upper :: "string \<Rightarrow> string" where "to_upper s \<equiv> map char_upper s"

definition eq_ignore_ascii_case :: "string \<Rightarrow> string \<Rightarrow> bool" where
  "eq_ignore_ascii_case a b \<longleftrightarrow> to_lower a = to_lower b"

text \<open>UTF-8 boundaries: a continuation byte is \<open>10xxxxxx\<close>.\<close>

definition in_range :: "int \<Rightarrow> int \<Rightarrow> int \<Rightarrow> bool" where
  "in_range x lo hi \<longleftrightarrow> lo \<le> x \<and> x \<le> hi"

definition is_continuation :: "char \<Rightarrow> bool" where
  "is_continuation c \<longleftrightarrow> in_range (of_char c) 128 191"

definition is_char_boundary :: "string \<Rightarrow> nat \<Rightarrow> bool" where
  "is_char_boundary s i \<longleftrightarrow>
     i = 0 \<or> i = length s \<or> (i < length s \<and> \<not> is_continuation (s ! i))"

fun chars :: "string \<Rightarrow> string list" where
  \<comment> \<open>\<open>str::chars\<close>: each character as its bytes\<close>
  "chars [] = []"
| "chars (c # cs) =
     (case chars cs of
        [] \<Rightarrow> [[c]]
      | u # us \<Rightarrow> (if is_continuation (hd u) then (c # u) # us else [c] # u # us))"

lemma concat_chars [simp]: "concat (chars s) = s"
  by (induction s rule: chars.induct) (auto split: list.splits)

definition take_chars :: "nat \<Rightarrow> string \<Rightarrow> string" where
  \<comment> \<open>\<open>s.chars().take(n).collect()\<close>\<close>
  "take_chars n s = concat (take n (chars s))"

lemma prefix_take_chars: "prefix (take_chars n s) s"
proof -
  have "s = concat (take n (chars s)) @ concat (drop n (chars s))"
    by (metis append_take_drop_id concat_append concat_chars)
  then show ?thesis by (metis prefixI take_chars_def)
qed

text \<open>Decimal numbers: \<open>Display\<close> and \<open>parse\<close>.\<close>

definition digit_char :: "nat \<Rightarrow> char" where
  "digit_char d = ''0123456789'' ! d"

definition digit_val :: "char \<Rightarrow> nat" where
  "digit_val c = (case map_of (zip ''0123456789'' [0..<10]) c of Some d \<Rightarrow> d | None \<Rightarrow> 0)"

fun show_nat :: "nat \<Rightarrow> string" where
  "show_nat n = (if n < 10 then [digit_char n] else show_nat (n div 10) @ [digit_char (n mod 10)])"

declare show_nat.simps [simp del]

definition show_int :: "int \<Rightarrow> string" where
  "show_int i = (if i < 0 then ''-'' @ show_nat (nat (- i)) else show_nat (nat i))"

definition digits_value :: "string \<Rightarrow> nat" where
  "digits_value s = foldl (\<lambda>acc c. 10 * acc + digit_val c) 0 s"

definition parse_nat :: "string \<Rightarrow> nat option" where
  \<comment> \<open>unsigned \<open>parse\<close>: one optional plus sign, then at least one digit, nothing else\<close>
  "parse_nat s =
     (let t = (if prefix ''+'' s then tl s else s)
      in if t \<noteq> [] \<and> list_all is_digit t then Some (digits_value t) else None)"

definition parse_unsigned :: "nat \<Rightarrow> string \<Rightarrow> nat option" where
  \<comment> \<open>\<open>parse::<uN>()\<close>: fails on overflow of \<open>bits\<close> bits\<close>
  "parse_unsigned bits s =
     (case parse_nat s of None \<Rightarrow> None | Some n \<Rightarrow> if n < 2 ^ bits then Some n else None)"

definition parse_i64 :: "string \<Rightarrow> int option" where
  "parse_i64 s =
     (if prefix ''-'' s
      then (if tl s \<noteq> [] \<and> list_all is_digit (tl s) \<and> digits_value (tl s) \<le> 2 ^ 63
            then Some (- int (digits_value (tl s))) else None)
      else (case parse_nat s of None \<Rightarrow> None
            | Some n \<Rightarrow> if n < 2 ^ 63 then Some (int n) else None))"

lemma less_10_cases: "(d::nat) < 10 \<Longrightarrow> d \<in> {0, 1, 2, 3, 4, 5, 6, 7, 8, 9}"
  by auto

lemma digit_val_digit_char: "d < 10 \<Longrightarrow> digit_val (digit_char d) = d"
  by (drule less_10_cases) (auto simp: digit_char_def digit_val_def upt_rec)

lemma is_digit_digit_char: "d < 10 \<Longrightarrow> is_digit (digit_char d)"
  by (drule less_10_cases) (auto simp: digit_char_def is_digit_def)

lemma show_nat_digits: "list_all is_digit (show_nat n) \<and> show_nat n \<noteq> []"
  by (induction n rule: show_nat.induct)
    (subst (1 2) show_nat.simps, simp add: is_digit_digit_char)

lemma digits_value_show_nat: "digits_value (show_nat n) = n"
proof (induction n rule: show_nat.induct)
  case (1 n)
  show ?case
  proof (cases "n < 10")
    case True
    then show ?thesis
      by (subst show_nat.simps) (simp add: digits_value_def digit_val_digit_char)
  next
    case False
    with 1 have "digits_value (show_nat (n div 10)) = n div 10" by simp
    then have "digits_value (show_nat n) = 10 * (n div 10) + n mod 10"
      using False
      by (subst show_nat.simps) (simp add: digits_value_def digit_val_digit_char)
    then show ?thesis by simp
  qed
qed

lemma digit_not_sign: "is_digit c \<Longrightarrow> c \<noteq> CHR ''+'' \<and> c \<noteq> CHR ''-''"
  by (auto simp: is_digit_def)

lemma parse_nat_show_nat: "parse_nat (show_nat n) = Some n"
proof -
  obtain c cs where s: "show_nat n = c # cs"
    using show_nat_digits [of n] by (cases "show_nat n") auto
  have "c \<noteq> CHR ''+''" using show_nat_digits [of n] digit_not_sign by (auto simp: s)
  then show ?thesis
    using show_nat_digits [of n] digits_value_show_nat [of n]
    by (simp add: parse_nat_def s)
qed

lemma parse_unsigned_show_nat: "n < 2 ^ b \<Longrightarrow> parse_unsigned b (show_nat n) = Some n"
  by (simp add: parse_unsigned_def parse_nat_show_nat)

text \<open>Trimming keeps a string that begins and ends with letters or digits.\<close>

lemma ws_seqs_not_alphanumeric:
  "list_all (\<lambda>w. w \<noteq> [] \<and> \<not> is_ascii_alphanumeric (hd w) \<and> \<not> is_ascii_alphanumeric (last w)) ws_seqs"
  by code_simp

lemma ws_prefix_alphanumeric:
  assumes "s \<noteq> []" "is_ascii_alphanumeric (hd s)"
  shows "ws_prefix s = 0"
proof -
  have "\<forall>w\<in>set ws_seqs. \<not> prefix w s"
    using ws_seqs_not_alphanumeric assms by (auto simp: list_all_iff prefix_def)
  then have "find (\<lambda>w. prefix w s) ws_seqs = None" by (simp add: find_None_iff)
  then show ?thesis by (simp add: ws_prefix_def)
qed

lemma ws_suffix_alphanumeric:
  assumes "s \<noteq> []" "is_ascii_alphanumeric (last s)"
  shows "ws_suffix s = 0"
proof -
  have "\<forall>w\<in>set ws_seqs. \<not> suffix w s"
    using ws_seqs_not_alphanumeric assms by (auto simp: list_all_iff suffix_def)
  then have "find (\<lambda>w. suffix w s) ws_seqs = None" by (simp add: find_None_iff)
  then show ?thesis by (simp add: ws_suffix_def)
qed

lemma trim_alphanumeric [str_simps]:
  "s \<noteq> [] \<Longrightarrow> is_ascii_alphanumeric (hd s) \<Longrightarrow> is_ascii_alphanumeric (last s) \<Longrightarrow> trim s = s"
  by (simp add: trim_def trim_start.simps [of s] trim_end.simps [of s] ws_prefix_alphanumeric
      ws_suffix_alphanumeric)

lemma digit_is_alphanumeric: "is_digit c \<Longrightarrow> is_ascii_alphanumeric c"
  by (simp add: is_ascii_alphanumeric_def)

lemma show_nat_ends: "is_ascii_alphanumeric (hd (show_nat n))" "is_ascii_alphanumeric (last (show_nat n))"
  using show_nat_digits [of n] hd_in_set last_in_set
  by (auto simp: list_all_iff intro!: digit_is_alphanumeric)

text \<open>\<open>s.replace(c, by)\<close> for a one-byte pattern.\<close>

definition replace_char :: "char \<Rightarrow> string \<Rightarrow> string \<Rightarrow> string" where
  "replace_char c by s = concat (map (\<lambda>x. if x = c then by else [x]) s)"

section \<open>Options and results\<close>

text \<open>
  An \<open>anyhow::Error\<close> is its chain of messages, the outermost context first: \<open>{}\<close> prints the first
  message, \<open>{:#}\<close> all of them separated by colons, \<open>context\<close> adds one in front.
\<close>

type_synonym anyhow = "string list"

definition err_msg :: "anyhow \<Rightarrow> string" where
  "err_msg e = (case e of [] \<Rightarrow> [] | m # _ \<Rightarrow> m)"

definition err_chain :: "anyhow \<Rightarrow> string" where
  "err_chain e = join '': '' e"

definition with_context :: "string \<Rightarrow> anyhow + 'a \<Rightarrow> anyhow + 'a" where
  "with_context c r = (case r of Inl e \<Rightarrow> Inl (c # e) | Inr x \<Rightarrow> Inr x)"

lemma err_msg_Cons [simp]: "err_msg (m # e) = m"
  by (simp add: err_msg_def)

definition opt_or :: "'a option \<Rightarrow> 'a option \<Rightarrow> 'a option" where
  "opt_or a b = (case a of None \<Rightarrow> b | Some x \<Rightarrow> Some x)"

definition unwrap_or :: "'a option \<Rightarrow> 'a \<Rightarrow> 'a" where
  "unwrap_or a d = (case a of None \<Rightarrow> d | Some x \<Rightarrow> x)"

lemma unwrap_or_simps [simp]: "unwrap_or None d = d" "unwrap_or (Some x) d = x"
  and opt_or_simps [simp]: "opt_or None b = b" "opt_or (Some x) b = Some x"
  by (simp_all add: unwrap_or_def opt_or_def)

definition find_map :: "('a \<Rightarrow> 'b option) \<Rightarrow> 'a list \<Rightarrow> 'b option" where
  "find_map f xs = (case List.map_filter f xs of [] \<Rightarrow> None | y # _ \<Rightarrow> Some y)"

lemma find_map_simps [simp]:
  "find_map f [] = None"
  "find_map f (x # xs) = (case f x of None \<Rightarrow> find_map f xs | Some y \<Rightarrow> Some y)"
  by (simp_all add: find_map_def List.map_filter_def split: option.split)

text \<open>\<open>filter_map\<close> over a collection.\<close>

lemma set_map_filter: "set (List.map_filter f xs) = {y. \<exists>x\<in>set xs. f x = Some y}"
  by (force simp: List.map_filter_def)

end
