(* ===== verification/Fmt.thy ===== *)
theory Fmt
  imports Prelude
begin

text \<open>
  The number and text formatting of Rust that the components share: rounding to the nearest with
  ties to even, \<open>{x:.k}\<close> of a floating point number, \<open>{s:?}\<close> of a string.
\<close>

text \<open>Round to nearest, ties to even.\<close>

definition rne :: "rat \<Rightarrow> int" where
  "rne x =
     (let f = \<lfloor>x\<rfloor>; r = x - of_int f
      in if r < 1/2 then f else if r > 1/2 then f + 1 else if even f then f else f + 1)"

lemma rne_of_int [simp]: "rne (of_int k) = k"
  by (simp add: rne_def)

lemma rne_mono:
  assumes "x \<le> y"
  shows "rne x \<le> rne y"
proof (cases "\<lfloor>x\<rfloor> = \<lfloor>y\<rfloor>")
  case True
  with assms show ?thesis by (auto simp: rne_def Let_def)
next
  case False
  then have "\<lfloor>x\<rfloor> + 1 \<le> \<lfloor>y\<rfloor>" using floor_mono [OF assms] by linarith
  moreover have "rne x \<le> \<lfloor>x\<rfloor> + 1" "\<lfloor>y\<rfloor> \<le> rne y" by (auto simp: rne_def Let_def)
  ultimately show ?thesis by linarith
qed

text \<open>\<open>{x:.k}\<close>: the exact value rounded to \<open>k\<close> decimals, ties to even.\<close>

definition show_fixed :: "nat \<Rightarrow> rat \<Rightarrow> string" where
  "show_fixed k x =
     (let n = nat (rne (\<bar>x\<bar> * 10 ^ k)); d = show_nat (n mod 10 ^ k)
      in (if x < 0 then ''-'' else []) @ show_nat (n div 10 ^ k) @
         (if k = 0 then [] else ''.'' @ replicate (k - length d) CHR ''0'' @ d))"

text \<open>
  \<open>{s:?}\<close>: quotes, backslashes and ASCII control characters escaped; characters beyond ASCII are
  kept, as the library does for the printable ones.
\<close>

definition hex_digit :: "nat \<Rightarrow> char" where
  "hex_digit d = ''0123456789abcdef'' ! d"

definition debug_char :: "char \<Rightarrow> string" where
  "debug_char c =
     (if c = dquote then [backslash, dquote]
      else if c = backslash then [backslash, backslash]
      else if c = nl then [backslash, CHR ''n'']
      else if c = CHR 0x0D then [backslash, CHR ''r'']
      else if c = CHR 0x09 then [backslash, CHR ''t'']
      else if c = CHR 0x00 then [backslash, CHR ''0'']
      else let n = of_char c :: nat
           in if n < 16 then [backslash] @ ''u{'' @ [hex_digit n] @ ''}''
              else if n < 32 \<or> n = 127
              then [backslash] @ ''u{'' @ [hex_digit (n div 16), hex_digit (n mod 16)] @ ''}''
              else [c])"

definition debug_str :: "string \<Rightarrow> string" where
  "debug_str s = [dquote] @ concat (map debug_char s) @ [dquote]"

definition debug_option :: "string option \<Rightarrow> string" where
  "debug_option x = (case x of None \<Rightarrow> ''None'' | Some s \<Rightarrow> ''Some('' @ debug_str s @ '')'')"

end
