(* ===== verification/Retry.thy ===== *)
theory Retry
  imports Fmt
begin

text \<open>
  Retry delays (\<^verbatim>\<open>src/runner/retry.rs\<close>).

  \<open>f64\<close> values are the rationals they denote (finite values only: no delay is a NaN). Every
  arithmetic operation of the code rounds, so the model takes the rounding \<open>fl\<close> and the library's
  \<open>powi\<close>, whose precision Rust leaves open, as fields of \<open>f64_ops\<close>; \<open>ieee64\<close> states what IEEE 754
  guarantees of them and what the results below rely on. A \<open>Duration\<close> is a number of nanoseconds;
  \<open>Duration::from_secs_f64\<close> panics on values out of range, which is \<open>None\<close>.
\<close>

record f64_ops =
  fl :: "rat \<Rightarrow> rat"
  powi_fl :: "rat \<Rightarrow> nat \<Rightarrow> rat"

definition ieee64 :: "f64_ops \<Rightarrow> bool" where
  \<comment> \<open>rounding is monotone and keeps the multiples of 1/4 below \<open>2 ^ 50\<close>; powers of two are exact\<close>
  "ieee64 F \<longleftrightarrow>
     (\<forall>x y. x \<le> y \<longrightarrow> fl F x \<le> fl F y) \<and>
     (\<forall>k::int. \<bar>k\<bar> \<le> 2 ^ 52 \<longrightarrow> fl F (of_int k / 4) = of_int k / 4) \<and>
     (\<forall>n\<le>30. powi_fl F 2 n = 2 ^ n)"

definition exact_f64 :: f64_ops where
  "exact_f64 = \<lparr>fl = (\<lambda>x. x), powi_fl = (\<lambda>x n. x ^ n)\<rparr>"

lemma ieee64_exact: "ieee64 exact_f64"
  by (simp add: ieee64_def exact_f64_def)

definition as_secs_f64 :: "f64_ops \<Rightarrow> duration \<Rightarrow> rat" where
  "as_secs_f64 F d =
     fl F (fl F (of_nat (d div ns_per_sec)) + fl F (of_nat (d mod ns_per_sec) / 1000000000))"

definition from_secs_f64 :: "rat \<Rightarrow> duration option" where
  "from_secs_f64 x =
     (if x < 0 then None
      else let n = rne (x * 1000000000)
           in if n < 2 ^ 64 * 1000000000 then Some (nat n) else None)"

datatype retry_strategy =
  Fixed duration
| Exponential duration duration rat

record retry_config =
  rc_max_attempts :: u32
  rc_strategy :: retry_strategy
  rc_retry_transient_only :: bool

definition default_strategy :: retry_strategy where
  "default_strategy = Exponential (from_secs 1) (from_secs 60) 2"

definition default_retry_config :: retry_config where
  "default_retry_config =
     \<lparr>rc_max_attempts = 3, rc_strategy = default_strategy, rc_retry_transient_only = True\<rparr>"

definition executor_default :: "u32 \<Rightarrow> retry_config" where
  "executor_default retries =
     \<lparr>rc_max_attempts = max (saturating_add_word retries 1) 1,
      rc_strategy = Exponential (from_secs 1) (from_secs 30) 2,
      rc_retry_transient_only = True\<rparr>"

definition delay_for_attempt :: "f64_ops \<Rightarrow> retry_config \<Rightarrow> u32 \<Rightarrow> duration option" where
  "delay_for_attempt F cfg attempt =
     (case rc_strategy cfg of
        Fixed d \<Rightarrow> Some d
      | Exponential init mx mult \<Rightarrow>
          (let delay = fl F (as_secs_f64 F init * powi_fl F mult (unat (min attempt 30)))
           in from_secs_f64 (min delay (as_secs_f64 F mx))))"

text \<open>\<open>rnd\<close> is the value of \<open>rand::random::<f64>()\<close>.\<close>

definition delay_with_jitter ::
  "f64_ops \<Rightarrow> retry_config \<Rightarrow> u32 \<Rightarrow> rat \<Rightarrow> rat \<Rightarrow> duration option" where
  "delay_with_jitter F cfg attempt fraction rnd =
     (case delay_for_attempt F cfg attempt of
        None \<Rightarrow> None
      | Some base \<Rightarrow>
          if fraction \<le> 0 then Some base
          else
            let jitter = fl F (fl F (rnd * as_secs_f64 F base) * max 0 (min 1 fraction))
            in case from_secs_f64 (fl F (as_secs_f64 F base + jitter)) of
                 None \<Rightarrow> None
               | Some tot \<Rightarrow>
                   (case rc_strategy cfg of
                      Exponential _ mx _ \<Rightarrow> Some (min tot mx)
                    | Fixed _ \<Rightarrow> Some tot))"

definition should_retry :: "retry_config \<Rightarrow> u32 \<Rightarrow> bool" where
  "should_retry cfg attempt \<longleftrightarrow> attempt < rc_max_attempts cfg"

section \<open>Lemmas\<close>

lemma fl_mono: "ieee64 F \<Longrightarrow> x \<le> y \<Longrightarrow> fl F x \<le> fl F y"
  by (simp add: ieee64_def)

lemma fl_quarter: "ieee64 F \<Longrightarrow> \<bar>k\<bar> \<le> 2 ^ 52 \<Longrightarrow> fl F (of_int k / 4) = of_int k / 4"
  by (simp add: ieee64_def)

lemma fl_int: "ieee64 F \<Longrightarrow> \<bar>k\<bar> \<le> 2 ^ 50 \<Longrightarrow> fl F (of_int k) = of_int k"
  using fl_quarter [of F "4 * k"] by simp

lemma fl_nat: "ieee64 F \<Longrightarrow> n \<le> 2 ^ 50 \<Longrightarrow> fl F (of_nat n) = of_nat n"
  using fl_int [of F "int n"] by simp

lemma fl_0: "ieee64 F \<Longrightarrow> fl F 0 = 0"
  using fl_nat [of F 0] by simp

lemma as_secs_f64_whole:
  assumes "ieee64 F" "s \<le> 2 ^ 50"
  shows "as_secs_f64 F (s * ns_per_sec) = of_nat s"
  using assms by (simp add: as_secs_f64_def ns_per_sec_def fl_nat fl_0)

lemma from_secs_f64_mono:
  assumes "x \<le> y" "from_secs_f64 x = Some a" "from_secs_f64 y = Some b"
  shows "a \<le> b"
proof -
  have "rne (x * 1000000000) \<le> rne (y * 1000000000)" using assms(1) by (intro rne_mono) simp
  with assms(2,3) show ?thesis
    by (auto simp: from_secs_f64_def Let_def nat_mono split: if_splits)
qed

lemma int_less_2_64: "s < 2 ^ 64 \<Longrightarrow> int s < 2 ^ 64"
  by (metis of_nat_less_iff of_nat_numeral of_nat_power)

lemma rne_whole: "rne (of_nat s * 1000000000) = int s * 1000000000"
  using rne_of_int [of "int s * 1000000000"] by simp

lemma from_secs_f64_whole:
  assumes "s < 2 ^ 64"
  shows "from_secs_f64 (of_nat s) = Some (s * ns_per_sec)"
  using int_less_2_64 [OF assms]
  by (simp add: from_secs_f64_def ns_per_sec_def nat_mult_distrib rne_whole)

lemma from_secs_f64_small:
  assumes "0 \<le> x" "x \<le> of_nat s" "s < 2 ^ 64"
  shows "\<exists>d. from_secs_f64 x = Some d"
proof -
  have "rne (x * 1000000000) \<le> rne (of_nat s * 1000000000)" using assms(2) by (intro rne_mono) simp
  then have "rne (x * 1000000000) < 2 ^ 64 * 1000000000"
    using int_less_2_64 [OF assms(3)] by (simp add: rne_whole)
  then show ?thesis using assms(1) by (simp add: from_secs_f64_def Let_def)
qed

lemma unat_min_30: "unat (min a (30::u32)) = min (unat a) 30"
  by (auto simp: min_def word_le_nat_alt)

text \<open>The executor's schedule in whole seconds.\<close>

definition backoff_secs :: "u32 \<Rightarrow> nat" where
  "backoff_secs attempt = min (2 ^ min (unat attempt) 30) 30"

lemma backoff_secs_bounds: "1 \<le> backoff_secs a \<and> backoff_secs a \<le> 30"
  by (simp add: backoff_secs_def)

lemma executor_delay:
  assumes F: "ieee64 F"
  shows "delay_for_attempt F (executor_default r) a = Some (backoff_secs a * ns_per_sec)"
proof -
  let ?n = "min (unat a) 30"
  have w: "as_secs_f64 F (from_secs 1) = 1" "as_secs_f64 F (from_secs 30) = 30"
    using as_secs_f64_whole [OF F, of 1] as_secs_f64_whole [OF F, of 30]
    by (simp_all add: from_secs_def)
  have p: "powi_fl F 2 ?n = 2 ^ ?n" using F by (simp add: ieee64_def)
  have "(2::nat) ^ ?n \<le> 2 ^ 30" by (rule power_increasing) auto
  then have "(2::nat) ^ ?n \<le> 2 ^ 50" by simp
  then have "fl F (2 ^ ?n) = 2 ^ ?n" using fl_nat [OF F, of "2 ^ ?n"] by simp
  moreover have "min (2 ^ ?n) 30 = (of_nat (backoff_secs a) :: rat)"
    by (simp add: backoff_secs_def of_nat_min)
  ultimately show ?thesis
    using from_secs_f64_whole [of "backoff_secs a"] backoff_secs_bounds [of a]
    by (simp add: delay_for_attempt_def executor_default_def w p unat_min_30 Let_def)
qed

lemma from_secs_f64_quarter:
  assumes "k \<le> 1000"
  shows "from_secs_f64 (of_nat k / 4) = Some (k * 250000000)"
proof -
  have "(of_nat k / 4 * 1000000000 :: rat) = of_int (int k * 250000000)" by simp
  then have "rne (of_nat k / 4 * 1000000000) = int k * 250000000" by (metis rne_of_int)
  then show ?thesis using assms by (simp add: from_secs_f64_def nat_mult_distrib)
qed

lemma jitter_total_bounds:
  assumes F: "ieee64 F" and r: "0 \<le> rnd" "rnd \<le> 1" and b: "b \<le> 30"
  defines "t \<equiv> fl F (of_nat b + fl F (fl F (rnd * of_nat b) * (1/4)))"
  shows "of_nat b \<le> t \<and> t \<le> of_nat (5 * b) / 4"
proof -
  define x where "x = fl F (rnd * of_nat b)"
  define j where "j = fl F (x * (1/4))"
  have q: "fl F (of_nat k / 4) = of_nat k / 4" if "k \<le> 150" for k
    using fl_quarter [OF F, of "int k"] that by simp
  have "rnd * of_nat b \<le> of_nat b" using r by (simp add: mult_left_le_one_le)
  then have "0 \<le> x" "x \<le> of_nat b"
    using fl_mono [OF F, of 0 "rnd * of_nat b"] fl_mono [OF F, of "rnd * of_nat b" "of_nat b"]
      fl_0 [OF F] fl_nat [OF F, of b] r b by (simp_all add: x_def)
  then have "0 \<le> j" "j \<le> of_nat b / 4"
    using fl_mono [OF F, of 0 "x * (1/4)"] fl_mono [OF F, of "x * (1/4)" "of_nat b / 4"]
      fl_0 [OF F] q [of b] b by (simp_all add: j_def)
  then have "fl F (of_nat b) \<le> t" "t \<le> fl F (of_nat (5 * b) / 4)"
    unfolding t_def x_def [symmetric] j_def [symmetric] by (auto intro!: fl_mono [OF F])
  then show ?thesis using fl_nat [OF F, of b] q [of "5 * b"] b by simp
qed

lemma executor_jitter:
  assumes "ieee64 F" "0 \<le> rnd" "rnd \<le> 1"
  shows "\<exists>d. delay_with_jitter F (executor_default r) a (1/4) rnd = Some d \<and>
           backoff_secs a * ns_per_sec \<le> d \<and>
           4 * d \<le> 5 * (backoff_secs a * ns_per_sec) \<and> d \<le> 30 * ns_per_sec"
proof -
  let ?b = "backoff_secs a"
  define t where "t = fl F (of_nat ?b + fl F (fl F (rnd * of_nat ?b) * (1/4)))"
  have b: "?b \<le> 30" "?b < 2 ^ 64" using backoff_secs_bounds [of a] by auto
  have t: "of_nat ?b \<le> t" "t \<le> of_nat (5 * ?b) / 4"
    using jitter_total_bounds [OF assms b(1)] by (simp_all add: t_def)
  have "(of_nat (5 * ?b) / 4 :: rat) \<le> of_nat 150 / 4"
    using b(1) by (intro divide_right_mono of_nat_mono) simp_all
  then have "t \<le> of_nat 38" using t(2) by simp
  then obtain d where d: "from_secs_f64 t = Some d"
    using from_secs_f64_small [of t 38] t(1) by fastforce
  have "?b * ns_per_sec \<le> d" by (rule from_secs_f64_mono [OF t(1) from_secs_f64_whole [OF b(2)] d])
  moreover have "d \<le> 5 * ?b * 250000000"
    using from_secs_f64_mono [OF t(2) d from_secs_f64_quarter] b(1) by simp
  moreover have "delay_with_jitter F (executor_default r) a (1/4) rnd =
                   Some (min d (from_secs 30))"
    using d executor_delay [OF assms(1), of r a] as_secs_f64_whole [OF assms(1), of ?b] b(1)
    by (simp add: delay_with_jitter_def t_def executor_default_def)
  ultimately show ?thesis
    using b(1) by (simp add: from_secs_def ns_per_sec_def)
qed

section \<open>Properties\<close>

text \<open>
  the executor's backoff. Under IEEE rounding the delay before retry \<open>a\<close> is exactly
  \<open>min (2 ^ a) 30\<close> seconds, and with the executor's jitter fraction of one quarter the wait always
  exists (no panic), is never shorter than that delay, at most a quarter longer, and never above
  the strategy's cap of 30 seconds.
\<close>

theorem executor_backoff:
  assumes "ieee64 F" "0 \<le> rnd" "rnd \<le> 1"
  shows "delay_for_attempt F (executor_default r) a =
           Some (min (2 ^ min (unat a) 30) 30 * ns_per_sec) \<and>
         (\<exists>d. delay_with_jitter F (executor_default r) a (1/4) rnd = Some d \<and>
              backoff_secs a * ns_per_sec \<le> d \<and>
              4 * d \<le> 5 * (backoff_secs a * ns_per_sec) \<and> d \<le> 30 * ns_per_sec)"
  using executor_delay [OF assms(1), of r a] executor_jitter [OF assms, of r a]
  by (simp add: backoff_secs_def)

theorem executor_backoff_witness:
  "delay_for_attempt exact_f64 (executor_default 3) 2 =
     Some (min (2 ^ min (unat (2::u32)) 30) 30 * ns_per_sec) \<and>
   (\<exists>d. delay_with_jitter exact_f64 (executor_default 3) 2 (1/4) (1/2) = Some d \<and>
        backoff_secs 2 * ns_per_sec \<le> d \<and>
        4 * d \<le> 5 * (backoff_secs 2 * ns_per_sec) \<and> d \<le> 30 * ns_per_sec)"
  by (rule executor_backoff) (simp_all add: ieee64_exact)

end
