(* ===== verification/Regex.thy ===== *)
theory Regex
  imports Prelude
begin

text \<open>
  The interface of the \<open>regex\<close> crate, which is outside the repository. The model takes the crate as
  an argument \<open>rx\<close>: \<open>rx p\<close> is \<open>Regex::new(p).ok()\<close>, and a compiled expression maps a text to the
  list \<open>captures_iter\<close> yields, its non-overlapping matches in order, each with its start and end
  offset and the texts of its capture groups (the code only reads groups that take part in every
  match). \<open>find\<close>, \<open>is_match\<close> and \<open>replace_all\<close> are defined from it as the crate documents them.

  \<open>literal_rx\<close> is a concrete crate for the witnesses.
\<close>

type_synonym rx_match = "nat \<times> nat \<times> string list"
type_synonym regex = "string \<Rightarrow> rx_match list"
type_synonym regex_crate = "string \<Rightarrow> regex option"

definition re_find :: "regex \<Rightarrow> string \<Rightarrow> nat option" where
  "re_find re text = (case re text of [] \<Rightarrow> None | m # _ \<Rightarrow> Some (fst m))"

definition re_is_match :: "regex \<Rightarrow> string \<Rightarrow> bool" where
  "re_is_match re text \<longleftrightarrow> re text \<noteq> []"

lemma re_find_None [simp]: "re_find re t = None \<longleftrightarrow> \<not> re_is_match re t"
  by (simp add: re_find_def re_is_match_def split: list.split)

text \<open>\<open>Regex::new(p).map(|r| r.is_match(t)).unwrap_or(false)\<close> and its relatives.\<close>

definition rx_matches :: "regex_crate \<Rightarrow> string \<Rightarrow> string \<Rightarrow> bool" where
  "rx_matches rx p text = (case rx p of None \<Rightarrow> False | Some re \<Rightarrow> re_is_match re text)"

text \<open>\<open>replace_all\<close>: the text between the matches is kept; \<open>pos\<close> is where the last match ended.\<close>

fun replace_from :: "nat \<Rightarrow> rx_match list \<Rightarrow> (rx_match \<Rightarrow> string) \<Rightarrow> string \<Rightarrow> string" where
  "replace_from pos [] f text = drop pos text"
| "replace_from pos ((i, j, gs) # ms) f text =
     take (i - pos) (drop pos text) @ f (i, j, gs) @ replace_from j ms f text"

definition replace_all :: "regex \<Rightarrow> (rx_match \<Rightarrow> string) \<Rightarrow> string \<Rightarrow> string" where
  "replace_all re f text = replace_from 0 (re text) f text"

lemma re_find_Some_match: "re_find re t = Some i \<Longrightarrow> re_is_match re t"
  by (metis option.distinct(1) re_find_None)

lemma replace_all_no_match [simp]: "\<not> re_is_match re t \<Longrightarrow> replace_all re f t = t"
  by (simp add: replace_all_def re_is_match_def)

text \<open>
  A crate that compiles every pattern, drops a leading \<open>(?i)\<close> and searches for the rest literally.
  On lower-case texts and patterns free of metacharacters this is what the real crate does.
\<close>

function literal_matches :: "nat \<Rightarrow> string \<Rightarrow> string \<Rightarrow> rx_match list" where
  "literal_matches pos p text =
     (if p = [] then []
      else case str_find text p of
          None \<Rightarrow> []
        | Some i \<Rightarrow>
            (pos + i, pos + i + length p, [])
              # literal_matches (pos + i + length p) p (drop (i + length p) text))"
  by pat_completeness auto
termination
proof (relation "measure (\<lambda>(pos, p, text). length text)", goal_cases)
  case 1
  show ?case by simp
next
  case (2 pos p t i)
  then have "t \<noteq> []" by (cases t) auto
  with 2 show ?case by (cases p) auto
qed

declare literal_matches.simps [simp del]

definition literal_rx :: regex_crate where
  "literal_rx p =
     Some (literal_matches 0 (case strip_prefix p ''(?i)'' of Some q \<Rightarrow> q | None \<Rightarrow> p))"

end
