(* ===== verification/Classifier.thy ===== *)
theory Classifier
  imports Regex
begin

text \<open>
  Error classification (\<^verbatim>\<open>src/parser/classifier.rs\<close>) and the parsed-error builders
  (\<^verbatim>\<open>src/parser/error.rs\<close>).

  The \<open>regex\<close> crate is the argument \<open>rx\<close> (theory \<open>Regex\<close>); the pattern tables are the source's,
  literal by literal. \<open>f64\<close> confidences are decimal literals that are stored and never computed with;
  they are the rationals the literals denote.
\<close>

definition TIMEOUT_MARKER :: string where
  "TIMEOUT_MARKER = ''AFSC_TIMEOUT: test timed out''"

definition CANCELLED_MARKER :: string where
  "CANCELLED_MARKER = ''AFSC_CANCELLED: run cancelled''"

definition POST_INSTALL_MARKER :: string where
  "POST_INSTALL_MARKER = ''AFSC_POST_INSTALL: verification failed''"

datatype error_severity =
  Transient | Configuration | Dependency | Permission | Resource | SevUnknown

record error_classification =
  ec_severity :: error_severity
  ec_category :: string
  ec_suggestion :: "string option"
  ec_retryable :: bool
  ec_confidence :: rat

definition CATEGORIES :: "string list" where
  "CATEGORIES =
     [''cancelled'', ''timeout'', ''post_install'', ''bootstrap_mismatch'',
      ''checksum_mismatch'', ''network'', ''apt_repair_failed'', ''command_not_found'',
      ''permission'', ''dependency'', ''resource'', ''syntax_error'', ''unknown'']"

section \<open>Pattern groups\<close>

definition TIMEOUT_PATTERNS :: "string list" where
  "TIMEOUT_PATTERNS =
     [bs [''(?i)'', ''btest timed out after'']]"

definition SYNTAX_PATTERNS :: "string list" where
  "SYNTAX_PATTERNS =
     [''(?i)syntax error'',
      ''(?i)unexpected token'',
      ''(?i)parse error'']"

definition BOOTSTRAP_PATTERNS :: "string list" where
  "BOOTSTRAP_PATTERNS =
     [''(?i)bootstrap.*mismatch'',
      ''(?i)bootstrap.*verification.*failed'',
      ''(?i)manifest.*mismatch'',
      ''(?i)expected.*bootstrap.*actual'']"

definition CHECKSUM_PATTERNS :: "string list" where
  "CHECKSUM_PATTERNS =
     [''(?i)checksum.*mismatch'',
      ''(?i)checksum.*verification.*failed'',
      bs [''(?i)checksum.*did'', ''s+not'', ''s+match''],
      ''(?i)sha256.*mismatch'',
      ''(?i)hash.*verification.*failed'',
      ''(?i)expected.*hash.*got'',
      ''(?i)integrity.*check.*failed'']"

definition NETWORK_PATTERNS :: "string list" where
  "NETWORK_PATTERNS =
     [''(?i)connection refused'',
      ''(?i)connection timed out'',
      ''(?i)network unreachable'',
      ''(?i)name or service not known'',
      ''(?i)temporary failure in name resolution'',
      ''(?i)could not resolve host'',
      ''(?i)api rate limit exceeded'',
      ''(?i)rate limit'',
      ''(?i)too many requests'',
      bs [''(?i)'', ''b429'', ''b''],
      bs [''(?i)'', ''b5(00|02|03)'', ''b''],
      ''(?i)curl.*failed'',
      ''(?i)wget.*failed'',
      bs [''(?i)curl: '', ''('', ''d+'', '')''],
      ''(?i)ssl_connect|ssl handshake|ssl certificate problem|certificate verify failed'',
      ''(?i)connection reset by peer'',
      ''(?i)tls handshake'',
      ''(?i)unable to fetch some archives'',
      ''(?i)could not fetch release info'',
      ''(?i)ssl certificate problem'',
      ''(?i)unable to acquire.*lock'',
      ''(?i)dpkg.*lock'',
      ''(?i)apt.*lock'']"

definition APT_REPAIR_PATTERNS :: "string list" where
  "APT_REPAIR_PATTERNS =
     [bs [''(?i)dpkg'', ''s+--configure'', ''s+-a'', ''s+failed''],
      bs [''(?i)apt-get'', ''s+-f'', ''s+install'', ''s+failed''],
      bs [''(?i)apt'', ''s+repair.*failed''],
      bs [''(?i)dpkg'', ''s+repair.*failed''],
      ''(?i)unmet dependencies'',
      ''(?i)held broken packages'',
      ''(?i)dpkg was interrupted'',
      ''(?i)dpkg --configure -a'',
      bs [''(?i)try ['`]?(apt|apt-get)'', ''s+(--fix-broken|-f)'', ''s+install''],
      bs [''(?i)you might want to run ['`]?(apt|apt-get)'', ''s+(--fix-broken|-f)'', ''s+install'']]"

definition ROOT_REFUSAL_PATTERNS :: "string list" where
  "ROOT_REFUSAL_PATTERNS =
     [''(?i)don'?t run (this|the) (script|installer) as root'',
      ''(?i)do not run (this|the) (script|installer) as root'',
      ''(?i)must not be run as root'',
      ''(?i)should not be run as root'',
      bs [''(?i)refus'', ''w* to run as root''],
      ''(?i)running as root is not (supported|allowed)'',
      ''(?i)please run as a (regular|normal|non-root) user'']"

definition PERMISSION_PATTERNS :: "string list" where
  "PERMISSION_PATTERNS =
     [''(?i)permission denied'',
      ''(?i)operation not permitted'',
      ''(?i)access denied'',
      ''EACCES'']"

definition DEPENDENCY_PATTERNS :: "string list" where
  "DEPENDENCY_PATTERNS =
     [''(?i)command not found'',
      ''(?i)is required (to|for|by) [^'' @ nl # '']{0,80}(was )?not (found|installed|available)'',
      ''(?i)required tool[^'' @ nl # '']{0,40}(missing|not found)'',
      ''(?i)package.*not found'',
      ''(?i)unable to locate package'',
      ''(?i)no such file or directory'',
      ''(?i)missing dependency'']"

definition RESOURCE_PATTERNS :: "string list" where
  "RESOURCE_PATTERNS =
     [''(?i)no space left on device'',
      ''(?i)out of memory'',
      ''(?i)cannot allocate memory'',
      ''(?i)disk quota exceeded'']"

definition LIBC_PATTERNS :: "string list" where
  "LIBC_PATTERNS =
     [bs [''GLIBC_'', ''d+'', ''.'', ''d+'? not found''],
      bs [''GLIBCXX_'', ''d+'', ''.'', ''d+('', ''.'', ''d+)?'? not found''],
      bs [''(?i)version `?GLIBC[A-Z_]*'', ''d'']]"

definition APT_LOCK_PATTERNS :: "string list" where
  "APT_LOCK_PATTERNS =
     [''(?i)could not get lock /var/lib/(dpkg|apt)'',
      ''(?i)unable to acquire the dpkg frontend lock'',
      ''(?i)unable to lock the administration directory'']"

definition OOM_PATTERNS :: "string list" where
  "OOM_PATTERNS =
     [bs [''(?i)'', ''bout of memory'', ''b''],
      bs [''(?i)'', ''bOOM[- ]?killed?'', ''b''],
      ''(?i)cannot allocate memory'',
      ''(?i)memory ?error'']"

text \<open>\<open>Patterns::get\<close> keeps the expressions that compile, in order; \<open>matches\<close> asks whether one hits.\<close>

definition patterns_get :: "regex_crate \<Rightarrow> string list \<Rightarrow> (string \<times> regex) list" where
  "patterns_get rx sources =
     List.map_filter (\<lambda>p. map_option (\<lambda>re. (p, re)) (rx p)) sources"

definition matches :: "regex_crate \<Rightarrow> string list \<Rightarrow> string \<Rightarrow> bool" where
  "matches rx sources text = list_ex (\<lambda>(p, re). re_is_match re text) (patterns_get rx sources)"

definition is_syntax_error :: "regex_crate \<Rightarrow> string \<Rightarrow> bool" where
  "is_syntax_error rx stderr = matches rx SYNTAX_PATTERNS stderr"

definition is_bootstrap_mismatch :: "regex_crate \<Rightarrow> string \<Rightarrow> bool" where
  "is_bootstrap_mismatch rx stderr = matches rx BOOTSTRAP_PATTERNS stderr"

definition is_checksum_mismatch :: "regex_crate \<Rightarrow> string \<Rightarrow> bool" where
  "is_checksum_mismatch rx stderr = matches rx CHECKSUM_PATTERNS stderr"

definition is_network_error :: "regex_crate \<Rightarrow> string \<Rightarrow> bool" where
  "is_network_error rx stderr = matches rx NETWORK_PATTERNS stderr"

definition is_libc_too_old :: "regex_crate \<Rightarrow> string \<Rightarrow> bool" where
  "is_libc_too_old rx stderr = matches rx LIBC_PATTERNS stderr"

definition is_apt_lock_held :: "regex_crate \<Rightarrow> string \<Rightarrow> bool" where
  "is_apt_lock_held rx stderr = matches rx APT_LOCK_PATTERNS stderr"

definition is_apt_repair_error :: "regex_crate \<Rightarrow> string \<Rightarrow> bool" where
  "is_apt_repair_error rx stderr = matches rx APT_REPAIR_PATTERNS stderr"

definition is_root_refusal :: "regex_crate \<Rightarrow> string \<Rightarrow> bool" where
  "is_root_refusal rx stderr = matches rx ROOT_REFUSAL_PATTERNS stderr"

definition is_permission_error :: "regex_crate \<Rightarrow> string \<Rightarrow> bool" where
  "is_permission_error rx stderr = matches rx PERMISSION_PATTERNS stderr"

definition is_dependency_error :: "regex_crate \<Rightarrow> string \<Rightarrow> bool" where
  "is_dependency_error rx stderr = matches rx DEPENDENCY_PATTERNS stderr"

definition is_resource_error :: "regex_crate \<Rightarrow> string \<Rightarrow> bool" where
  "is_resource_error rx stderr = matches rx RESOURCE_PATTERNS stderr"

definition is_oom :: "regex_crate \<Rightarrow> string \<Rightarrow> bool" where
  "is_oom rx stderr = matches rx OOM_PATTERNS stderr"

section \<open>Classification\<close>

text \<open>
  \<open>classify_error\<close> in two halves, as its early returns group: the markers and the failures the
  text alone decides, then the failures that also look at the exit code.
\<close>

definition classify_tail :: "regex_crate \<Rightarrow> string \<Rightarrow> i32 \<Rightarrow> error_classification" where
  "classify_tail rx stderr exit_code =
    (if exit_code = 127 then
       \<lparr>ec_severity = Dependency, ec_category = ''command_not_found'',
        ec_suggestion = Some ''Required command is not installed'',
        ec_retryable = False, ec_confidence = 95/100\<rparr>
     else if is_root_refusal rx stderr then
       \<lparr>ec_severity = Permission, ec_category = ''permission'',
        ec_suggestion = Some ''Installer refuses to run as root; run as a non-root user (the default afsc-base image does)'',
        ec_retryable = False, ec_confidence = 95/100\<rparr>
     else if is_permission_error rx stderr \<or> exit_code = 126
             \<or> exit_code = 1 \<and> contains stderr ''Permission denied'' then
       \<lparr>ec_severity = Permission, ec_category = ''permission'',
        ec_suggestion = Some ''Check file permissions or run with elevated privileges'',
        ec_retryable = False, ec_confidence = 85/100\<rparr>
     else if is_libc_too_old rx stderr then
       \<lparr>ec_severity = Dependency, ec_category = ''dependency'',
        ec_suggestion = Some ''The downloaded binary needs a newer glibc/libstdc++ than this base image provides; use a newer base (docker.image, e.g. ubuntu:24.04) or a build for this platform'',
        ec_retryable = False, ec_confidence = 9/10\<rparr>
     else if is_dependency_error rx stderr then
       \<lparr>ec_severity = Dependency, ec_category = ''dependency'',
        ec_suggestion = Some ''Install missing dependencies'',
        ec_retryable = False, ec_confidence = 8/10\<rparr>
     else if exit_code = 137 \<or> is_oom rx stderr then
       \<lparr>ec_severity = Resource, ec_category = ''resource'',
        ec_suggestion = Some ''Killed (exit 137 / out of memory): raise [docker].memory_limit or [installers.<name>].memory_limit'',
        ec_retryable = False, ec_confidence = 85/100\<rparr>
     else if is_resource_error rx stderr then
       \<lparr>ec_severity = Resource, ec_category = ''resource'',
        ec_suggestion = Some ''Check available disk space and memory'',
        ec_retryable = False, ec_confidence = 75/100\<rparr>
     else if is_syntax_error rx stderr then
       \<lparr>ec_severity = Configuration, ec_category = ''syntax_error'',
        ec_suggestion = Some ''Fix syntax error in script'',
        ec_retryable = False, ec_confidence = 85/100\<rparr>
     else
       \<lparr>ec_severity = SevUnknown, ec_category = ''unknown'', ec_suggestion = None,
        ec_retryable = False, ec_confidence = 0\<rparr>)"

definition classify_error :: "regex_crate \<Rightarrow> string \<Rightarrow> i32 \<Rightarrow> error_classification" where
  "classify_error rx stderr exit_code =
    (if contains stderr CANCELLED_MARKER then
       \<lparr>ec_severity = SevUnknown, ec_category = ''cancelled'',
        ec_suggestion = Some ''Run was cancelled before this installer finished'',
        ec_retryable = False, ec_confidence = 1\<rparr>
     else if contains stderr TIMEOUT_MARKER \<or> matches rx TIMEOUT_PATTERNS stderr then
       \<lparr>ec_severity = Transient, ec_category = ''timeout'',
        ec_suggestion = Some ''Increase the timeout or add an [installers.<name>] timeout_seconds override'',
        ec_retryable = False, ec_confidence = 95/100\<rparr>
     else if contains stderr POST_INSTALL_MARKER then
       \<lparr>ec_severity = Configuration, ec_category = ''post_install'',
        ec_suggestion = Some ''Installer exited 0 but post-install verification failed; inspect verify_cmd output'',
        ec_retryable = False, ec_confidence = 95/100\<rparr>
     else if is_bootstrap_mismatch rx stderr then
       \<lparr>ec_severity = Configuration, ec_category = ''bootstrap_mismatch'',
        ec_suggestion = Some ''Regenerate manifest_index.sh to fix bootstrap mismatch'',
        ec_retryable = False, ec_confidence = 95/100\<rparr>
     else if is_checksum_mismatch rx stderr then
       \<lparr>ec_severity = Configuration, ec_category = ''checksum_mismatch'',
        ec_suggestion = Some ''Update checksums.yaml with new hash or verify installer integrity'',
        ec_retryable = False, ec_confidence = 95/100\<rparr>
     else if is_apt_lock_held rx stderr then
       \<lparr>ec_severity = Transient, ec_category = ''dependency'',
        ec_suggestion = Some ''Another apt/dpkg process holds the lock; wait for it (unattended-upgrades) and retry'',
        ec_retryable = True, ec_confidence = 9/10\<rparr>
     else if is_network_error rx stderr then
       \<lparr>ec_severity = Transient, ec_category = ''network'',
        ec_suggestion = Some ''Check network connectivity and retry'',
        ec_retryable = True, ec_confidence = 9/10\<rparr>
     else if is_apt_repair_error rx stderr then
       \<lparr>ec_severity = Dependency, ec_category = ''apt_repair_failed'',
        ec_suggestion = Some ''Repair dpkg/apt package state before retrying ACFS'',
        ec_retryable = False, ec_confidence = 9/10\<rparr>
     else classify_tail rx stderr exit_code)"

text \<open>\<open>explain\<close>: the first matching pattern of the groups it walks, then the exit codes.\<close>

definition explain_groups :: "(string \<times> string list) list" where
  "explain_groups =
     [(''timeout'', TIMEOUT_PATTERNS),
      (''bootstrap_mismatch'', BOOTSTRAP_PATTERNS),
      (''checksum_mismatch'', CHECKSUM_PATTERNS),
      (''network'', NETWORK_PATTERNS),
      (''apt_repair_failed'', APT_REPAIR_PATTERNS),
      (''permission'', ROOT_REFUSAL_PATTERNS),
      (''permission'', PERMISSION_PATTERNS),
      (''dependency'', DEPENDENCY_PATTERNS),
      (''resource'', RESOURCE_PATTERNS),
      (''syntax_error'', SYNTAX_PATTERNS)]"

fun explain_group ::
  "string \<Rightarrow> (string \<times> regex) list \<Rightarrow> string \<Rightarrow> (string \<times> string \<times> nat) option" where
  "explain_group cat [] text = None"
| "explain_group cat ((p, re) # res) text =
     (case re_find re text of Some i \<Rightarrow> Some (cat, p, i) | None \<Rightarrow> explain_group cat res text)"

fun explain_search ::
  "regex_crate \<Rightarrow> (string \<times> string list) list \<Rightarrow> string \<Rightarrow> (string \<times> string \<times> nat) option" where
  "explain_search rx [] text = None"
| "explain_search rx ((cat, pats) # gs) text =
     (case explain_group cat (patterns_get rx pats) text of
        Some r \<Rightarrow> Some r
      | None \<Rightarrow> explain_search rx gs text)"

definition explain :: "regex_crate \<Rightarrow> string \<Rightarrow> i32 \<Rightarrow> (string \<times> string \<times> nat) option" where
  "explain rx stderr exit_code =
     (case explain_search rx explain_groups stderr of
        Some r \<Rightarrow> Some r
      | None \<Rightarrow>
          (if exit_code = 127 then Some (''command_not_found'', ''exit code 127'', 0)
           else if exit_code = 126 then Some (''permission'', ''exit code 126'', 0)
           else if exit_code = 137 then Some (''resource'', ''exit code 137 (SIGKILL / OOM)'', 0)
           else None))"

section \<open>Parsed errors\<close>

record parsed_error =
  pe_message :: string
  pe_exit_code :: "i32 option"
  pe_source_file :: "string option"
  pe_line_number :: "u32 option"
  pe_failed_command :: "string option"

definition parsed_error_new :: "string \<Rightarrow> parsed_error" where
  "parsed_error_new message =
     \<lparr>pe_message = message, pe_exit_code = None, pe_source_file = None,
      pe_line_number = None, pe_failed_command = None\<rparr>"

definition parsed_error_with_exit_code :: "parsed_error \<Rightarrow> i32 \<Rightarrow> parsed_error" where
  "parsed_error_with_exit_code e code = e\<lparr>pe_exit_code := Some code\<rparr>"

definition parsed_error_with_source :: "parsed_error \<Rightarrow> string \<Rightarrow> u32 \<Rightarrow> parsed_error" where
  "parsed_error_with_source e file line =
     e\<lparr>pe_source_file := Some file, pe_line_number := Some line\<rparr>"

definition parsed_error_with_command :: "parsed_error \<Rightarrow> string \<Rightarrow> parsed_error" where
  "parsed_error_with_command e cmd = e\<lparr>pe_failed_command := Some cmd\<rparr>"

section \<open>Lemmas\<close>

lemma matches_iff: "matches rx ps t \<longleftrightarrow> (\<exists>p\<in>set ps. \<exists>re. rx p = Some re \<and> re_is_match re t)"
  by (force simp: matches_def patterns_get_def list_ex_iff List.map_filter_def)

text \<open>The five shapes a classification can have in its retry fields.\<close>

lemma classify_tail_not_retryable: "\<not> ec_retryable (classify_tail rx s c)"
  by (simp add: classify_tail_def)

lemma classify_tail_not_transient: "ec_severity (classify_tail rx s c) \<noteq> Transient"
  by (simp add: classify_tail_def)

lemma CATEGORIES_mem:
  "''cancelled'' \<in> set CATEGORIES" "''timeout'' \<in> set CATEGORIES"
  "''post_install'' \<in> set CATEGORIES" "''bootstrap_mismatch'' \<in> set CATEGORIES"
  "''checksum_mismatch'' \<in> set CATEGORIES" "''network'' \<in> set CATEGORIES"
  "''apt_repair_failed'' \<in> set CATEGORIES" "''command_not_found'' \<in> set CATEGORIES"
  "''permission'' \<in> set CATEGORIES" "''dependency'' \<in> set CATEGORIES"
  "''resource'' \<in> set CATEGORIES" "''syntax_error'' \<in> set CATEGORIES"
  "''unknown'' \<in> set CATEGORIES"
  by (simp_all add: CATEGORIES_def)

lemma classify_error_category: "ec_category (classify_error rx s c) \<in> set CATEGORIES"
proof -
  have "ec_category (classify_tail rx s c) \<in> set CATEGORIES"
    by (simp add: classify_tail_def CATEGORIES_mem)
  then show ?thesis by (simp add: classify_error_def CATEGORIES_mem)
qed

lemma classify_error_cancelled:
  "contains s CANCELLED_MARKER \<Longrightarrow>
     ec_category (classify_error rx s c) = ''cancelled'' \<and> \<not> ec_retryable (classify_error rx s c)"
  by (simp add: classify_error_def)

lemma classify_error_timeout:
  "contains s TIMEOUT_MARKER \<Longrightarrow> \<not> contains s CANCELLED_MARKER \<Longrightarrow>
     ec_category (classify_error rx s c) = ''timeout'' \<and> \<not> ec_retryable (classify_error rx s c)"
  by (simp add: classify_error_def)

lemma classify_error_post_install:
  "contains s POST_INSTALL_MARKER \<Longrightarrow> \<not> contains s CANCELLED_MARKER \<Longrightarrow>
     \<not> contains s TIMEOUT_MARKER \<Longrightarrow> \<not> matches rx TIMEOUT_PATTERNS s \<Longrightarrow>
     ec_category (classify_error rx s c) = ''post_install'' \<and> \<not> ec_retryable (classify_error rx s c)"
  by (simp add: classify_error_def)

lemma retryable_classify_error:
  "ec_retryable (classify_error rx s c) \<longleftrightarrow>
     \<not> contains s CANCELLED_MARKER \<and> \<not> contains s TIMEOUT_MARKER \<and>
     \<not> matches rx TIMEOUT_PATTERNS s \<and> \<not> contains s POST_INSTALL_MARKER \<and>
     \<not> is_bootstrap_mismatch rx s \<and> \<not> is_checksum_mismatch rx s \<and>
     (is_apt_lock_held rx s \<or> is_network_error rx s)"
  by (auto simp: classify_error_def classify_tail_not_retryable)

lemma retryable_transient:
  "ec_retryable (classify_error rx s c) \<Longrightarrow> ec_severity (classify_error rx s c) = Transient"
  by (auto simp: classify_error_def classify_tail_not_retryable split: if_splits)

text \<open>What \<open>explain\<close> finds, group by group.\<close>

lemma explain_group_None:
  "explain_group cat (patterns_get rx ps) t = None \<longleftrightarrow> \<not> matches rx ps t"
proof -
  have "explain_group cat res t = None \<longleftrightarrow> \<not> list_ex (\<lambda>(p, re). re_is_match re t) res" for res
    by (induction cat res t rule: explain_group.induct) (auto split: option.splits dest: re_find_Some_match)
  then show ?thesis by (simp add: matches_def)
qed

lemma explain_group_Some:
  "explain_group cat (patterns_get rx ps) t = Some r \<Longrightarrow>
     \<exists>p i re. r = (cat, p, i) \<and> p \<in> set ps \<and> rx p = Some re \<and> re_find re t = Some i"
proof -
  have "explain_group cat res t = Some r \<Longrightarrow>
     \<exists>p i re. r = (cat, p, i) \<and> (p, re) \<in> set res \<and> re_find re t = Some i" for res
    by (induction cat res t rule: explain_group.induct) (auto split: option.splits)
  then show "explain_group cat (patterns_get rx ps) t = Some r \<Longrightarrow> ?thesis"
    by (fastforce simp: patterns_get_def List.map_filter_def)
qed

lemma explain_search_category:
  "map_option fst (explain_search rx gs t) =
     map_option fst (List.find (\<lambda>g. matches rx (snd g) t) gs)"
proof (induction rx gs t rule: explain_search.induct)
  case (1 rx t)
  then show ?case by simp
next
  case (2 rx cat ps gs t)
  show ?case
  proof (cases "explain_group cat (patterns_get rx ps) t")
    case None
    then have "\<not> matches rx ps t" by (simp add: explain_group_None)
    with 2 None show ?thesis by simp
  next
    case (Some r)
    then have "matches rx ps t" using explain_group_None [of cat rx ps t] by auto
    moreover have "fst r = cat" using explain_group_Some [OF Some] by auto
    ultimately show ?thesis using Some by simp
  qed
qed

lemma explain_search_sound:
  "explain_search rx gs t = Some (cat, p, i) \<Longrightarrow>
     \<exists>ps re. (cat, ps) \<in> set gs \<and> p \<in> set ps \<and> rx p = Some re \<and> re_find re t = Some i"
proof (induction rx gs t rule: explain_search.induct)
  case (1 rx t)
  then show ?case by simp
next
  case (2 rx cat' ps gs t)
  show ?case
  proof (cases "explain_group cat' (patterns_get rx ps) t")
    case None
    with 2 show ?thesis by auto
  next
    case (Some r)
    with 2 show ?thesis using explain_group_Some [OF Some] by auto
  qed
qed

section \<open>Properties\<close>

text \<open>
  C4: which failures are retried. A classification is retryable exactly when the text carries
  none of the runner's markers, no bootstrap or checksum mismatch, and shows a held apt lock or a
  network error; the exit code never matters, the severity is then \<open>Transient\<close>, and the category
  always comes from the published list.
\<close>

theorem retry_decision:
  "(ec_retryable (classify_error rx s c) \<longleftrightarrow>
      \<not> contains s CANCELLED_MARKER \<and> \<not> contains s TIMEOUT_MARKER \<and>
      \<not> matches rx TIMEOUT_PATTERNS s \<and> \<not> contains s POST_INSTALL_MARKER \<and>
      \<not> is_bootstrap_mismatch rx s \<and> \<not> is_checksum_mismatch rx s \<and>
      (is_apt_lock_held rx s \<or> is_network_error rx s)) \<and>
   ec_retryable (classify_error rx s c) = ec_retryable (classify_error rx s c') \<and>
   (ec_severity (classify_error rx s c) = Transient \<or> \<not> ec_retryable (classify_error rx s c)) \<and>
   ec_category (classify_error rx s c) \<in> set CATEGORIES"
  using retryable_classify_error [of rx s c] retryable_classify_error [of rx s c']
    retryable_transient [of rx s c] classify_error_category [of rx s c]
  by blast

theorem retry_decision_witness:
  "ec_retryable (classify_error literal_rx ''could not resolve host'' 6) \<and>
   ec_severity (classify_error literal_rx ''could not resolve host'' 6) = Transient"
proof -
  have "\<not> contains ''could not resolve host'' CANCELLED_MARKER \<and>
    \<not> contains ''could not resolve host'' TIMEOUT_MARKER \<and>
    \<not> matches literal_rx TIMEOUT_PATTERNS ''could not resolve host'' \<and>
    \<not> contains ''could not resolve host'' POST_INSTALL_MARKER \<and>
    \<not> is_bootstrap_mismatch literal_rx ''could not resolve host'' \<and>
    \<not> is_checksum_mismatch literal_rx ''could not resolve host'' \<and>
    is_network_error literal_rx ''could not resolve host''"
    by code_simp
  with retry_decision [of literal_rx "''could not resolve host''" 6] show ?thesis by blast
qed

text \<open>
  \<open>explain\<close> names the category the classifier assigns, for texts without a marker, a held apt
  lock, a too old libc or an out-of-memory phrase, and exit codes that decide nothing by
  themselves. (Outside these bounds the two functions really differ, see the next property.)
\<close>

theorem explain_agrees_with_classify:
  assumes "\<not> contains s CANCELLED_MARKER" "\<not> contains s TIMEOUT_MARKER"
    and "\<not> contains s POST_INSTALL_MARKER"
    and "\<not> is_apt_lock_held rx s" "\<not> is_libc_too_old rx s" "\<not> is_oom rx s"
    and "c \<notin> {126, 127, 137}" "c \<noteq> 1 \<or> \<not> contains s ''Permission denied''"
  shows "ec_category (classify_error rx s c) =
           (case explain rx s c of None \<Rightarrow> ''unknown'' | Some (cat, _, _) \<Rightarrow> cat)"
proof -
  let ?g = "List.find (\<lambda>g. matches rx (snd g) s) explain_groups"
  have "explain rx s c = explain_search rx explain_groups s"
    using assms(7) by (simp add: explain_def split: option.split)
  then have e: "map_option fst (explain rx s c) = map_option fst ?g"
    by (simp add: explain_search_category)
  have perm: "\<not> (c = 1 \<and> contains s ''Permission denied'')" using assms(8) by blast
  have "ec_category (classify_error rx s c) =
          (case map_option fst ?g of None \<Rightarrow> ''unknown'' | Some cat \<Rightarrow> cat)"
    using assms(1-7)
    by (simp add: perm classify_error_def classify_tail_def explain_groups_def
        is_bootstrap_mismatch_def is_checksum_mismatch_def is_network_error_def
        is_apt_repair_error_def is_root_refusal_def is_permission_error_def
        is_dependency_error_def is_resource_error_def is_syntax_error_def)
  then show ?thesis unfolding e [symmetric] by (auto split: option.split)
qed

theorem explain_agrees_with_classify_witness:
  "ec_category (classify_error literal_rx ''curl: connection refused'' 7) =
     (case explain literal_rx ''curl: connection refused'' 7 of
        None \<Rightarrow> ''unknown'' | Some (cat, _, _) \<Rightarrow> cat)"
  by (rule explain_agrees_with_classify) (code_simp+)

text \<open>
  beyond those bounds \<open>explain\<close> and the classifier disagree: with exit code 127 and a text that
  says the permission was denied, \<open>explain\<close> reports the permission pattern while the classifier
  lets the exit code decide first and answers \<open>command_not_found\<close>.
\<close>

theorem explain_differs_on_exit_127:
  "explain literal_rx ''permission denied'' 127 =
     Some (''permission'', ''(?i)permission denied'', 0) \<and>
   ec_category (classify_error literal_rx ''permission denied'' 127) = ''command_not_found''"
proof -
  let ?s = "''permission denied''"
  have e: "explain literal_rx ?s 127 = Some (''permission'', ''(?i)permission denied'', 0)"
    by code_simp
  have "\<not> contains ?s CANCELLED_MARKER" "\<not> contains ?s TIMEOUT_MARKER"
    "\<not> contains ?s POST_INSTALL_MARKER" "\<not> matches literal_rx TIMEOUT_PATTERNS ?s"
    "\<not> is_bootstrap_mismatch literal_rx ?s" "\<not> is_checksum_mismatch literal_rx ?s"
    "\<not> is_apt_lock_held literal_rx ?s" "\<not> is_network_error literal_rx ?s"
    "\<not> is_apt_repair_error literal_rx ?s"
    by code_simp+
  then have "ec_category (classify_error literal_rx ?s 127) = ''command_not_found''"
    by (simp add: classify_error_def classify_tail_def)
  with e show ?thesis by blast
qed

end
