(* ===== verification/Advice.thy ===== *)
theory Advice
  imports Fmt Classifier
begin

text \<open>
  Command safety (\<^verbatim>\<open>src/remediation/safety.rs\<close>), remediation outcomes and the risk notes of an
  advice text (\<^verbatim>\<open>src/remediation/outcome.rs\<close>), and the manual suggestions
  (\<^verbatim>\<open>src/remediation/fallback.rs\<close>). Slicing a string at a byte that is not a character boundary
  panics, so \<open>describe\<close> is an option. The ellipsis and the dash of the messages are their UTF-8
  bytes.
\<close>

section \<open>Command safety\<close>

datatype risk_level = Safe | Low | Medium | High | Critical

record safety_check =
  sc_safe :: bool
  sc_reason :: "string option"
  sc_risk_level :: risk_level

definition critical_patterns :: "string list" where
  "critical_patterns =
     [bs [''rm'', ''s+-rf'', ''s+/''],
      bs [''rm'', ''s+-rf'', ''s+'', ''*''],
      ''mkfs'',
      bs [''dd'', ''s+if=.+of=/dev''],
      '':(){ :|:& };:'',
      bs [''>'', ''s*/dev/sd''],
      bs [''chmod'', ''s+-R'', ''s+777'', ''s+/'']]"

definition high_risk_patterns :: "string list" where
  "high_risk_patterns =
     [bs [''sudo'', ''s+rm''],
      bs [''sudo'', ''s+chmod''],
      bs [''sudo'', ''s+chown''],
      bs [''git'', ''s+push'', ''s+--force''],
      bs [''git'', ''s+reset'', ''s+--hard'']]"

fun first_hit :: "regex_crate \<Rightarrow> string list \<Rightarrow> string \<Rightarrow> string option" where
  \<comment> \<open>the first pattern that compiles and matches\<close>
  "first_hit rx [] command = None"
| "first_hit rx (p # ps) command =
     (case rx p of
        Some re \<Rightarrow> (if re_is_match re command then Some p else first_hit rx ps command)
      | None \<Rightarrow> first_hit rx ps command)"

definition is_command_safe :: "regex_crate \<Rightarrow> string \<Rightarrow> safety_check" where
  "is_command_safe rx command =
     (case first_hit rx critical_patterns command of
        Some p \<Rightarrow>
          \<lparr>sc_safe = False, sc_reason = Some (''Matches critical pattern: '' @ p), sc_risk_level = Critical\<rparr>
      | None \<Rightarrow>
     (case first_hit rx high_risk_patterns command of
        Some p \<Rightarrow>
          \<lparr>sc_safe = False, sc_reason = Some (''Matches high-risk pattern: '' @ p), sc_risk_level = High\<rparr>
      | None \<Rightarrow>
          if contains command ''sudo''
          then \<lparr>sc_safe = True, sc_reason = Some ''Command uses sudo'', sc_risk_level = Medium\<rparr>
          else \<lparr>sc_safe = True, sc_reason = None, sc_risk_level = Safe\<rparr>))"

lemma first_hit_None: "first_hit rx ps c = None \<longleftrightarrow> \<not> matches rx ps c"
proof -
  have "first_hit rx ps c = None \<longleftrightarrow> (\<forall>p\<in>set ps. \<forall>re. rx p = Some re \<longrightarrow> \<not> re_is_match re c)"
    by (induction ps) (auto split: option.split)
  then show ?thesis by (auto simp: matches_iff)
qed

lemma first_hit_Some: "first_hit rx ps c = Some p \<Longrightarrow> p \<in> set ps \<and> matches rx [p] c"
  by (induction ps) (auto simp: matches_iff split: option.splits if_splits)

lemma is_command_safe_level:
  "sc_risk_level (is_command_safe rx c) =
     (if matches rx critical_patterns c then Critical
      else if matches rx high_risk_patterns c then High
      else if contains c ''sudo'' then Medium else Safe)"
  by (auto simp: is_command_safe_def first_hit_None [symmetric] split: option.split)

lemma is_command_safe_safe:
  "sc_safe (is_command_safe rx c) \<longleftrightarrow> sc_risk_level (is_command_safe rx c) \<notin> {High, Critical}"
  by (auto simp: is_command_safe_def split: option.split)

lemma is_command_safe_reason:
  "sc_reason (is_command_safe rx c) = None \<longleftrightarrow> sc_risk_level (is_command_safe rx c) = Safe"
  by (auto simp: is_command_safe_def split: option.split)

section \<open>Outcomes\<close>

record risk_note =
  rn_command :: string
  rn_risk :: string
  rn_reason :: string

datatype remediation_outcome =
  NotAttempted
| SkippedRemediation string \<comment> \<open>reason\<close>
| Advised string rat "risk_note list" string \<comment> \<open>suggestion, cost, risks, source\<close>
| VerifiedRefresh string string string string "string option"
    \<comment> \<open>installer, old and new sha256, candidate path, drift score\<close>
| Proposed string "string option" "string option" rat \<comment> \<open>branch, commit, PR url, cost\<close>
| Applied string string "string option" rat \<comment> \<open>branch, sha, PR url, cost\<close>
| FailedRemediation string rat \<comment> \<open>reason, cost\<close>

fun outcome_kind :: "remediation_outcome \<Rightarrow> string" where
  "outcome_kind NotAttempted = ''not_attempted''"
| "outcome_kind (SkippedRemediation _) = ''skipped''"
| "outcome_kind (Advised _ _ _ _) = ''advised''"
| "outcome_kind (VerifiedRefresh _ _ _ _ _) = ''verified''"
| "outcome_kind (Proposed _ _ _ _) = ''proposed''"
| "outcome_kind (Applied _ _ _ _) = ''applied''"
| "outcome_kind (FailedRemediation _ _) = ''failed''"

fun outcome_cost_usd :: "remediation_outcome \<Rightarrow> rat" where
  "outcome_cost_usd (Advised _ c _ _) = c"
| "outcome_cost_usd (Proposed _ _ _ c) = c"
| "outcome_cost_usd (Applied _ _ _ c) = c"
| "outcome_cost_usd (FailedRemediation _ c) = c"
| "outcome_cost_usd _ = 0"

fun attempted :: "remediation_outcome \<Rightarrow> bool" where
  "attempted NotAttempted = False"
| "attempted (SkippedRemediation _) = False"
| "attempted _ = True"

fun succeeded :: "remediation_outcome \<Rightarrow> bool" where
  "succeeded (VerifiedRefresh _ _ _ _ _) = True"
| "succeeded (Applied _ _ _ _) = True"
| "succeeded _ = False"

abbreviation show_fixed4 :: "rat \<Rightarrow> string" where "show_fixed4 \<equiv> show_fixed 4"

definition slice_to :: "nat \<Rightarrow> string \<Rightarrow> string option" where
  \<comment> \<open>\<open>&s[..n]\<close>\<close>
  "slice_to n s = (if is_char_boundary s n then Some (take n s) else None)"

definition ellipsis :: string where
  "ellipsis = [CHR 0xE2, CHR 0x80, CHR 0xA6]"

definition em_dash :: string where
  "em_dash = [CHR 0xE2, CHR 0x80, CHR 0x94]"

definition flagged_count :: "risk_note list \<Rightarrow> nat" where
  "flagged_count risks =
     length (filter (\<lambda>r. rn_risk r = ''Critical'' \<or> rn_risk r = ''High'') risks)"

fun describe :: "remediation_outcome \<Rightarrow> string option" where
  "describe NotAttempted = Some ''not attempted''"
| "describe (SkippedRemediation r) = Some (''skipped: '' @ r)"
| "describe (Advised _ cost risks source) =
     (let flagged = flagged_count risks
      in Some (''advice from '' @ source @ '' ($'' @ show_fixed4 cost @ '')'' @
           (if flagged > 0
            then '', '' @ show_nat flagged @ '' command(s) flagged '' @ em_dash @ '' NOT applied''
            else '', not applied'')))"
| "describe (VerifiedRefresh _ _ sha path score) =
     (case slice_to (min (length sha) 12) sha of
        None \<Rightarrow> None
      | Some p \<Rightarrow> Some (''checksum refresh verified (new sha '' @ p @ ellipsis @ '', candidate '' @
          path @ (case score of None \<Rightarrow> [] | Some s \<Rightarrow> '', drift '' @ s) @ '')''))"
| "describe (Proposed branch _ pr cost) =
     Some (''proposed on branch '' @ branch @ (case pr of None \<Rightarrow> [] | Some u \<Rightarrow> '', PR '' @ u) @
       '' ($'' @ show_fixed4 cost @ '')'')"
| "describe (Applied branch sha _ cost) =
     (case slice_to (min (length sha) 12) sha of
        None \<Rightarrow> None
      | Some p \<Rightarrow> Some (''succeeded: pushed '' @ branch @ '' @ '' @ p @ '' ($'' @ show_fixed4 cost @ '')''))"
| "describe (FailedRemediation r cost) = Some (''failed: '' @ r @ '' ($'' @ show_fixed4 cost @ '')'')"

section \<open>Risk notes of an advice\<close>

fun collect_commands :: "bool \<Rightarrow> string list \<Rightarrow> string list" where
  \<comment> \<open>the loop over the lines; the first argument is \<open>in_fence\<close>\<close>
  "collect_commands in_fence [] = []"
| "collect_commands in_fence (line # ls) =
     (let t = trim line
      in if prefix ''```'' t then collect_commands (\<not> in_fence) ls
         else if in_fence then
           (if t \<noteq> [] \<and> \<not> prefix ''#'' t then [t] else []) @ collect_commands in_fence ls
         else (case strip_prefix t ''$ '' of
             Some cmd \<Rightarrow> cmd # collect_commands in_fence ls
           | None \<Rightarrow>
               (case Option.bind (strip_prefix t ''`$ '') (\<lambda>r. strip_suffix r ''`'') of
                  Some inner \<Rightarrow> inner # collect_commands in_fence ls
                | None \<Rightarrow> collect_commands in_fence ls)))"

fun risk_debug :: "risk_level \<Rightarrow> string" where
  "risk_debug Safe = ''Safe''"
| "risk_debug Low = ''Low''"
| "risk_debug Medium = ''Medium''"
| "risk_debug High = ''High''"
| "risk_debug Critical = ''Critical''"

definition note_of :: "regex_crate \<Rightarrow> string \<Rightarrow> risk_note option" where
  "note_of rx cmd =
     (let check = is_command_safe rx cmd
      in if sc_risk_level check = High \<or> sc_risk_level check = Critical
         then Some \<lparr>rn_command = cmd, rn_risk = risk_debug (sc_risk_level check),
                    rn_reason = unwrap_or (sc_reason check) []\<rparr>
         else None)"

definition annotate_risks :: "regex_crate \<Rightarrow> string \<Rightarrow> risk_note list" where
  "annotate_risks rx text = List.map_filter (note_of rx) (collect_commands False (lines text))"

lemma note_of_Some_iff:
  "note_of rx cmd = Some n \<longleftrightarrow>
     \<not> sc_safe (is_command_safe rx cmd) \<and>
     n = \<lparr>rn_command = cmd, rn_risk = risk_debug (sc_risk_level (is_command_safe rx cmd)),
          rn_reason = unwrap_or (sc_reason (is_command_safe rx cmd)) []\<rparr>"
  by (auto simp: note_of_def Let_def is_command_safe_safe)

lemma note_of_None_iff: "note_of rx cmd = None \<longleftrightarrow> sc_safe (is_command_safe rx cmd)"
  by (auto simp: note_of_def Let_def is_command_safe_safe)

lemma annotate_risks_commands:
  "map rn_command (annotate_risks rx text) =
     filter (\<lambda>c. \<not> sc_safe (is_command_safe rx c)) (collect_commands False (lines text))"
proof -
  have "map rn_command (List.map_filter (note_of rx) cs) =
          filter (\<lambda>c. \<not> sc_safe (is_command_safe rx c)) cs" for cs
    by (induction cs)
      (auto simp: List.map_filter_simps note_of_Some_iff note_of_None_iff split: option.split)
  then show ?thesis by (simp add: annotate_risks_def)
qed

lemma annotate_risks_flagged:
  "flagged_count (annotate_risks rx text) = length (annotate_risks rx text)"
proof -
  have "n \<in> set (annotate_risks rx text) \<Longrightarrow> rn_risk n = ''Critical'' \<or> rn_risk n = ''High''" for n
    by (auto simp: annotate_risks_def List.map_filter_def note_of_def Let_def split: if_splits)
  then show ?thesis by (simp add: flagged_count_def filter_id_conv [THEN iffD2])
qed

section \<open>Manual suggestions\<close>

record fallback_suggestion =
  fs_title :: string
  fs_description :: string
  fs_commands :: "string list"
  fs_documentation_url :: "string option"

definition generate_suggestions :: "error_classification \<Rightarrow> fallback_suggestion list" where
  "generate_suggestions c =
     (case ec_severity c of
        Transient \<Rightarrow>
          [\<lparr>fs_title = ''Retry the operation'',
            fs_description = ''This appears to be a transient error. Try again in a few moments.'',
            fs_commands = [], fs_documentation_url = None\<rparr>]
      | Permission \<Rightarrow>
          [\<lparr>fs_title = ''Check permissions'',
            fs_description = ''The operation was denied due to insufficient permissions.'',
            fs_commands = [''sudo chown -R $USER:$USER ~/.local'', ''chmod +x <script>''],
            fs_documentation_url = None\<rparr>]
      | Dependency \<Rightarrow>
          [\<lparr>fs_title = ''Install missing dependencies'',
            fs_description = ''Required software is not installed.'',
            fs_commands = [''sudo apt update && sudo apt install -y <package>''],
            fs_documentation_url = None\<rparr>]
      | Resource \<Rightarrow>
          [\<lparr>fs_title = ''Free up resources'',
            fs_description = ''The system is low on resources (disk space or memory).'',
            fs_commands = [''df -h'', ''free -h'', ''sudo apt autoremove''],
            fs_documentation_url = None\<rparr>]
      | _ \<Rightarrow>
          [\<lparr>fs_title = ''Check configuration'',
            fs_description = ''Review the error message and configuration files.'',
            fs_commands = [],
            fs_documentation_url =
              Some ''https://github.com/Dicklesworthstone/agentic_coding_flywheel_setup''\<rparr>])"

section \<open>Properties\<close>

text \<open>
  what the safety checker flags in an advice. The risk notes are, in order, exactly the
  commands of the advice (fenced lines and prompt lines) that match a critical or high-risk
  pattern; a command that merely uses sudo is allowed. Every note counts as flagged, so an advice
  with a dangerous command is always described as \<open>NOT applied\<close> with the number of its notes.
\<close>

theorem advice_risks_are_reported:
  "map rn_command (annotate_risks rx text) =
     filter (\<lambda>c. matches rx critical_patterns c \<or> matches rx high_risk_patterns c)
       (collect_commands False (lines text)) \<and>
   (annotate_risks rx text \<noteq> [] \<longrightarrow>
      describe (Advised sg cost (annotate_risks rx text) src) =
        Some (''advice from '' @ src @ '' ($'' @ show_fixed4 cost @ ''), '' @
              show_nat (length (annotate_risks rx text)) @ '' command(s) flagged '' @ em_dash @
              '' NOT applied''))"
proof -
  have "(\<lambda>c. \<not> sc_safe (is_command_safe rx c)) =
          (\<lambda>c. matches rx critical_patterns c \<or> matches rx high_risk_patterns c)"
    by (auto simp: fun_eq_iff is_command_safe_safe is_command_safe_level)
  then show ?thesis by (auto simp: annotate_risks_commands annotate_risks_flagged Let_def)
qed

theorem advice_risks_are_reported_witness:
  "annotate_risks literal_rx ''`$ mkfs /dev/sda`'' \<noteq> [] \<and>
   describe (Advised [] 0 (annotate_risks literal_rx ''`$ mkfs /dev/sda`'') ''claude'') =
     Some (''advice from '' @ ''claude'' @ '' ($'' @ show_fixed4 0 @ ''), '' @
           show_nat (length (annotate_risks literal_rx ''`$ mkfs /dev/sda`'')) @
           '' command(s) flagged '' @ em_dash @ '' NOT applied'')"
proof -
  have ne: "annotate_risks literal_rx ''`$ mkfs /dev/sda`'' \<noteq> []" by code_simp
  with advice_risks_are_reported [of literal_rx "''`$ mkfs /dev/sda`''" "[]" 0 "''claude''"]
  show ?thesis by blast
qed

end
