(* ===== verification/Results.thy ===== *)
theory Results
  imports Advice
begin

text \<open>
  The data shared by both execution backends (\<^verbatim>\<open>src/runner/installer.rs\<close>): test statuses,
  attempt records, checksum states, the test result with its builders, the installer test, and the
  two functions that bound captured output. Clock readings (\<open>Utc::now()\<close>) are arguments.
\<close>

section \<open>Types\<close>

datatype test_status = Pending | Running | Passed | Failed | Skipped | TimedOut | Cancelled

fun test_status_str :: "test_status \<Rightarrow> string" where
  "test_status_str Pending = ''pending''"
| "test_status_str Running = ''running''"
| "test_status_str Passed = ''passed''"
| "test_status_str Failed = ''failed''"
| "test_status_str Skipped = ''skipped''"
| "test_status_str TimedOut = ''timedout''"
| "test_status_str Cancelled = ''cancelled''"

record retry_info =
  ri_attempt :: u32
  ri_error :: string
  ri_wait_ms :: u64

record attempt_record =
  ar_index :: u32
  ar_started_at :: instant
  ar_finished_at :: instant
  ar_status :: test_status
  ar_exit_code :: "i32 option"
  ar_duration_ms :: u64
  ar_stderr_tail :: string
  ar_waited_before_ms :: u64

record telemetry =
  peak_memory_bytes :: u64
  cpu_seconds :: rat
  network_rx_bytes :: u64
  network_tx_bytes :: u64
  samples :: u32

datatype checksum_state = NotChecked | Verified | Mismatch | UnknownState

fun checksum_state_str :: "checksum_state \<Rightarrow> string" where
  "checksum_state_str NotChecked = ''not_checked''"
| "checksum_state_str Verified = ''verified''"
| "checksum_state_str Mismatch = ''mismatch''"
| "checksum_state_str UnknownState = ''unknown''"

record checksum_result =
  cr_matches :: bool
  cr_expected :: string
  cr_actual :: string
  cr_url :: string
  cr_download_ms :: u64
  cr_size_bytes :: u64

record test_result =
  tr_installer_name :: string
  tr_status :: test_status
  tr_success :: bool
  tr_exit_code :: "i32 option"
  tr_stdout :: string
  tr_stderr :: string
  tr_duration :: duration
  tr_duration_ms :: u64
  tr_last_attempt_ms :: u64
  tr_started_at :: instant
  tr_finished_at :: instant
  tr_attempt :: u32
  tr_max_attempts :: u32
  tr_retries :: "retry_info list"
  tr_attempts :: "attempt_record list"
  tr_container_id :: "string option"
  tr_checksum_result :: "checksum_result option"
  tr_checksum_state :: checksum_state
  tr_error :: "error_classification option"
  tr_installed_version :: "string option"
  tr_remediation :: "remediation_outcome option"
  tr_telemetry :: "telemetry option"

section \<open>Builders of a test result\<close>

definition test_result_new :: "instant \<Rightarrow> string \<Rightarrow> test_result" where
  "test_result_new now name =
     \<lparr>tr_installer_name = name, tr_status = Pending, tr_success = False, tr_exit_code = None,
      tr_stdout = [], tr_stderr = [], tr_duration = 0, tr_duration_ms = 0,
      tr_last_attempt_ms = 0, tr_started_at = now, tr_finished_at = now, tr_attempt = 1,
      tr_max_attempts = 3, tr_retries = [], tr_attempts = [], tr_container_id = None,
      tr_checksum_result = None, tr_checksum_state = NotChecked, tr_error = None,
      tr_installed_version = None, tr_remediation = None, tr_telemetry = None\<rparr>"

text \<open>The timing fields every finishing builder sets from the clock.\<close>

definition stamp_finished :: "instant \<Rightarrow> test_result \<Rightarrow> test_result" where
  "stamp_finished now r =
     (let d = since_or_zero now (tr_started_at r)
      in r\<lparr>tr_finished_at := now, tr_duration := d, tr_duration_ms := as_millis_u64 d,
           tr_last_attempt_ms := as_millis_u64 d\<rparr>)"

definition passed :: "instant \<Rightarrow> test_result \<Rightarrow> test_result" where
  "passed now r =
     stamp_finished now (r\<lparr>tr_status := Passed, tr_success := True, tr_exit_code := Some 0\<rparr>)"

definition failed :: "instant \<Rightarrow> i32 \<Rightarrow> string \<Rightarrow> test_result \<Rightarrow> test_result" where
  "failed now exit_code stderr r =
     stamp_finished now
       (r\<lparr>tr_status := Failed, tr_success := False, tr_exit_code := Some exit_code,
          tr_stderr := stderr\<rparr>)"

definition timed_out :: "instant \<Rightarrow> test_result \<Rightarrow> test_result" where
  "timed_out now r = stamp_finished now (r\<lparr>tr_status := TimedOut, tr_success := False\<rparr>)"

definition skipped :: "instant \<Rightarrow> string \<Rightarrow> test_result \<Rightarrow> test_result" where
  "skipped now reason r =
     r\<lparr>tr_status := Skipped, tr_success := False, tr_stderr := reason, tr_finished_at := now,
       tr_duration := 0, tr_duration_ms := 0, tr_last_attempt_ms := 0\<rparr>"

definition cancelled :: "instant \<Rightarrow> string \<Rightarrow> test_result \<Rightarrow> test_result" where
  "cancelled now reason r =
     stamp_finished now
       (r\<lparr>tr_status := Cancelled, tr_success := False, tr_stderr := reason\<rparr>)"

definition with_container_id :: "string \<Rightarrow> test_result \<Rightarrow> test_result" where
  "with_container_id cid r = r\<lparr>tr_container_id := Some cid\<rparr>"

definition with_checksum_result :: "checksum_result \<Rightarrow> test_result \<Rightarrow> test_result" where
  "with_checksum_result c r =
     r\<lparr>tr_checksum_state := (if cr_matches c then Verified else Mismatch),
       tr_checksum_result := Some c\<rparr>"

definition with_checksum_state :: "checksum_state \<Rightarrow> test_result \<Rightarrow> test_result" where
  "with_checksum_state st r = r\<lparr>tr_checksum_state := st\<rparr>"

definition with_error :: "error_classification \<Rightarrow> test_result \<Rightarrow> test_result" where
  "with_error e r = r\<lparr>tr_error := Some e\<rparr>"

definition add_retry :: "string \<Rightarrow> u64 \<Rightarrow> test_result \<Rightarrow> test_result" where
  \<comment> \<open>\<open>attempt += 1\<close> wraps here; the debug build panics on overflow\<close>
  "add_retry err wait_ms r =
     r\<lparr>tr_retries := tr_retries r @
         [\<lparr>ri_attempt = tr_attempt r, ri_error = err, ri_wait_ms = wait_ms\<rparr>],
       tr_attempt := tr_attempt r + 1\<rparr>"

definition retry_count :: "test_result \<Rightarrow> u32" where
  "retry_count r =
     (if length (tr_attempts r) > 1 then of_nat (length (tr_attempts r) - 1)
      else of_nat (length (tr_retries r)))"

definition checksum_verified :: "test_result \<Rightarrow> bool" where
  "checksum_verified r = unwrap_or (map_option cr_matches (tr_checksum_result r)) False"

section \<open>Installer tests\<close>

record installer_test =
  it_name :: string
  it_url :: string
  it_expected_sha256 :: "string option"
  it_script_path :: "string option"
  it_timeout :: duration
  it_timeout_seconds :: u64
  it_retry_count :: u32
  it_tags :: "string list"
  it_environment :: "(string \<times> string) list"
  it_interpreter :: string
  it_args :: "string list"
  it_expect_binary :: "string option"
  it_verify_cmd :: "string option"
  it_version_cmd :: "string option"
  it_memory_limit :: "u64 option"
  it_network :: "string option"
  it_run_as_root :: "bool option"

definition default_interpreter :: string where
  "default_interpreter = ''bash''"

definition installer_test_new :: "string \<Rightarrow> string \<Rightarrow> installer_test" where
  "installer_test_new name url =
     \<lparr>it_name = name, it_url = url, it_expected_sha256 = None, it_script_path = None,
      it_timeout = from_secs 300, it_timeout_seconds = 300, it_retry_count = 3, it_tags = [],
      it_environment = [], it_interpreter = default_interpreter, it_args = [],
      it_expect_binary = None, it_verify_cmd = None, it_version_cmd = None,
      it_memory_limit = None, it_network = None, it_run_as_root = None\<rparr>"

definition with_interpreter :: "string \<Rightarrow> installer_test \<Rightarrow> installer_test" where
  "with_interpreter i t = t\<lparr>it_interpreter := i\<rparr>"

definition with_args :: "string list \<Rightarrow> installer_test \<Rightarrow> installer_test" where
  "with_args a t = t\<lparr>it_args := a\<rparr>"

definition with_expect_binary :: "string \<Rightarrow> installer_test \<Rightarrow> installer_test" where
  "with_expect_binary b t = t\<lparr>it_expect_binary := Some b\<rparr>"

definition with_verify_cmd :: "string \<Rightarrow> installer_test \<Rightarrow> installer_test" where
  "with_verify_cmd c t = t\<lparr>it_verify_cmd := Some c\<rparr>"

definition with_version_cmd :: "string \<Rightarrow> installer_test \<Rightarrow> installer_test" where
  "with_version_cmd c t = t\<lparr>it_version_cmd := Some c\<rparr>"

definition with_memory_limit :: "u64 \<Rightarrow> installer_test \<Rightarrow> installer_test" where
  "with_memory_limit b t = t\<lparr>it_memory_limit := Some b\<rparr>"

definition with_network :: "string \<Rightarrow> installer_test \<Rightarrow> installer_test" where
  "with_network m t = t\<lparr>it_network := Some m\<rparr>"

definition with_run_as_root :: "bool \<Rightarrow> installer_test \<Rightarrow> installer_test" where
  "with_run_as_root b t = t\<lparr>it_run_as_root := Some b\<rparr>"

definition with_script_path :: "string \<Rightarrow> installer_test \<Rightarrow> installer_test" where
  "with_script_path p t = t\<lparr>it_script_path := Some p\<rparr>"

definition with_timeout :: "duration \<Rightarrow> installer_test \<Rightarrow> installer_test" where
  "with_timeout d t = t\<lparr>it_timeout := d, it_timeout_seconds := as_secs d\<rparr>"

definition with_sha256 :: "string \<Rightarrow> installer_test \<Rightarrow> installer_test" where
  "with_sha256 h t = t\<lparr>it_expected_sha256 := Some h\<rparr>"

definition with_retry_count :: "u32 \<Rightarrow> installer_test \<Rightarrow> installer_test" where
  "with_retry_count n t = t\<lparr>it_retry_count := n\<rparr>"

definition with_tags :: "string list \<Rightarrow> installer_test \<Rightarrow> installer_test" where
  "with_tags ts t = t\<lparr>it_tags := ts\<rparr>"

definition with_env :: "string \<Rightarrow> string \<Rightarrow> installer_test \<Rightarrow> installer_test" where
  "with_env k v t = t\<lparr>it_environment := it_environment t @ [(k, v)]\<rparr>"

section \<open>Captured output\<close>

definition DEFAULT_MAX_CAPTURE_BYTES :: usize where
  "DEFAULT_MAX_CAPTURE_BYTES = 4 * 1024 * 1024"

text \<open>
  \<open>String::from_utf8_lossy\<close>: every maximal ill-formed sequence becomes U+FFFD. \<open>conts_needed\<close> is
  the number of continuation bytes a lead byte announces, \<open>good_conts\<close> how many of them follow.
\<close>

definition replacement_char :: string where
  "replacement_char = [CHR 0xEF, CHR 0xBF, CHR 0xBD]"

definition conts_needed :: "char \<Rightarrow> nat option" where
  "conts_needed c =
     (let x = of_char c
      in if in_range x 0 127 then Some 0 else if in_range x 194 223 then Some 1
         else if in_range x 224 239 then Some 2 else if in_range x 240 244 then Some 3 else None)"

definition second_ok :: "char \<Rightarrow> char \<Rightarrow> bool" where
  "second_ok lead c =
     (let x = of_char c
      in if lead = CHR 0xE0 then in_range x 160 191
         else if lead = CHR 0xED then in_range x 128 159
         else if lead = CHR 0xF0 then in_range x 144 191
         else if lead = CHR 0xF4 then in_range x 128 143
         else in_range x 128 191)"

fun good_conts :: "nat \<Rightarrow> char \<Rightarrow> string \<Rightarrow> nat" where
  "good_conts 0 lead cs = 0"
| "good_conts (Suc n) lead [] = 0"
| "good_conts (Suc n) lead (c # cs) =
     (if second_ok lead c then Suc (length (takeWhile is_continuation (take n cs))) else 0)"

function from_utf8_lossy :: "string \<Rightarrow> string" where
  "from_utf8_lossy [] = []"
| "from_utf8_lossy (c # cs) =
     (case conts_needed c of
        None \<Rightarrow> replacement_char @ from_utf8_lossy cs
      | Some n \<Rightarrow>
          (if good_conts n c cs = n
           then (c # take n cs) @ from_utf8_lossy (drop n cs)
           else replacement_char @ from_utf8_lossy (drop (good_conts n c cs) cs)))"
  by pat_completeness auto
termination
  by (relation "measure length") auto

definition bound_capture :: "string \<Rightarrow> usize \<Rightarrow> string" where
  "bound_capture buf max_bytes =
     (if max_bytes = 0 \<or> length buf \<le> max_bytes then from_utf8_lossy buf
      else
        let head_len = max_bytes div 4;
            tail_len = max_bytes - head_len;
            dropped = length buf - head_len - tail_len
        in from_utf8_lossy (take head_len buf) @ [nl] @ ''[afsc: truncated '' @ show_nat dropped @
           '' bytes of output]'' @ [nl] @ from_utf8_lossy (drop (length buf - tail_len) buf))"

function next_boundary :: "string \<Rightarrow> nat \<Rightarrow> nat" where
  \<comment> \<open>\<open>while !text.is_char_boundary(start) { start += 1 }\<close> for \<open>start <= text.len()\<close>\<close>
  "next_boundary s i =
     (if is_char_boundary s i \<or> length s \<le> i then i else next_boundary s (Suc i))"
  by pat_completeness auto
termination
  by (relation "measure (\<lambda>(s, i). length s - i)") auto

declare next_boundary.simps [simp del]

definition tail :: "string \<Rightarrow> usize \<Rightarrow> string" where
  "tail text max_bytes =
     (if length text \<le> max_bytes then text
      else drop (next_boundary text (length text - max_bytes)) text)"

section \<open>Lemmas\<close>

lemma next_boundary_spec:
  "i \<le> length s \<Longrightarrow> i \<le> next_boundary s i \<and> next_boundary s i \<le> length s \<and>
     is_char_boundary s (next_boundary s i) \<and>
     (\<forall>j. i \<le> j \<longrightarrow> j < next_boundary s i \<longrightarrow> \<not> is_char_boundary s j)"
proof (induction s i rule: next_boundary.induct)
  case (1 s i)
  show ?case
  proof (cases "is_char_boundary s i \<or> length s \<le> i")
    case True
    with "1.prems" show ?thesis
      by (subst (1 2 3 4) next_boundary.simps) (auto simp: is_char_boundary_def)
  next
    case False
    with "1.IH" [OF False] have IH: "Suc i \<le> next_boundary s (Suc i) \<and>
        next_boundary s (Suc i) \<le> length s \<and> is_char_boundary s (next_boundary s (Suc i)) \<and>
        (\<forall>j. Suc i \<le> j \<longrightarrow> j < next_boundary s (Suc i) \<longrightarrow> \<not> is_char_boundary s j)"
      by simp
    have "next_boundary s i = next_boundary s (Suc i)"
      using False by (subst next_boundary.simps) simp
    with IH False show ?thesis by (metis Suc_leD Suc_leI le_neq_implies_less)
  qed
qed

definition ascii :: "char \<Rightarrow> bool" where
  "ascii c \<longleftrightarrow> in_range (of_char c) 0 127"

lemma from_utf8_lossy_ascii: "list_all ascii s \<Longrightarrow> from_utf8_lossy s = s"
  by (induction s) (auto simp: ascii_def conts_needed_def)

lemma from_utf8_lossy_length: "length (from_utf8_lossy s) \<le> 3 * length s"
proof (induction s rule: from_utf8_lossy.induct)
  case (2 c cs)
  show ?case
  proof (cases "conts_needed c")
    case None
    with 2(1) show ?thesis by (simp add: replacement_char_def)
  next
    case (Some n)
    show ?thesis
    proof (cases "good_conts n c cs = n")
      case True
      with 2(2) [OF Some] Some show ?thesis by (cases "n \<le> length cs") auto
    next
      case False
      with 2(3) [OF Some] Some show ?thesis by (auto simp: replacement_char_def)
    qed
  qed
qed simp

section \<open>Properties\<close>

text \<open>
  \<open>tail\<close> keeps the longest end of the text that fits. The result is a suffix of at most
  \<open>max_bytes\<close> bytes that begins at a character boundary, and every other such suffix is no longer.
\<close>

theorem tail_is_the_longest_fitting_suffix:
  "\<exists>i. tail s n = drop i s \<and> i \<le> length s \<and> is_char_boundary s i \<and> length (tail s n) \<le> n \<and>
     (\<forall>j. j \<le> length s \<and> is_char_boundary s j \<and> length (drop j s) \<le> n \<longrightarrow>
        length (drop j s) \<le> length (tail s n))"
proof (cases "length s \<le> n")
  case True
  then show ?thesis by (intro exI [of _ 0]) (simp add: tail_def is_char_boundary_def)
next
  case False
  let ?i = "next_boundary s (length s - n)"
  have b: "length s - n \<le> ?i" "?i \<le> length s" "is_char_boundary s ?i"
    "\<And>j. length s - n \<le> j \<Longrightarrow> j < ?i \<Longrightarrow> \<not> is_char_boundary s j"
    using next_boundary_spec [of "length s - n" s] by auto
  have "length (drop j s) \<le> length (drop ?i s)"
    if "j \<le> length s" "is_char_boundary s j" "length (drop j s) \<le> n" for j
  proof -
    have "length s - n \<le> j" using that(3) by auto
    with b(4) [of j] that(2) have "?i \<le> j" by (meson not_le)
    then show ?thesis by auto
  qed
  with False b show ?thesis by (intro exI [of _ ?i]) (auto simp: tail_def)
qed

theorem tail_is_the_longest_fitting_suffix_witness:
  "length (tail ''abcdef'' 4) \<le> 4 \<and> length (drop 2 ''abcdef'') \<le> length (tail ''abcdef'' 4)"
proof -
  have "is_char_boundary ''abcdef'' 2" by code_simp
  moreover obtain i where "length (tail ''abcdef'' 4) \<le> 4"
    "\<forall>j. j \<le> length ''abcdef'' \<and> is_char_boundary ''abcdef'' j \<and> length (drop j ''abcdef'') \<le> 4 \<longrightarrow>
       length (drop j ''abcdef'') \<le> length (tail ''abcdef'' 4)"
    using tail_is_the_longest_fitting_suffix [of "''abcdef''" 4] by blast
  ultimately show ?thesis by (auto dest: spec [of _ 2])
qed

text \<open>
  captured output. Within the limit (or without one) the decoded output is kept whole, and ASCII
  output is not changed at all; beyond it the head keeps a quarter of the limit, the tail the rest,
  and a marker line says how many bytes were dropped. The bound is on the bytes taken: the marker
  and the replacement characters come on top, so the text can be longer than the limit, but never
  longer than three times the limit and the marker.
\<close>

theorem captured_output:
  "(n = 0 \<or> length buf \<le> n \<longrightarrow> bound_capture buf n = from_utf8_lossy buf) \<and>
   (0 < n \<and> n < length buf \<longrightarrow>
     bound_capture buf n =
       from_utf8_lossy (take (n div 4) buf) @ [nl] @ ''[afsc: truncated '' @
       show_nat (length buf - n) @ '' bytes of output]'' @ [nl] @
       from_utf8_lossy (drop (length buf - (n - n div 4)) buf) \<and>
     length (bound_capture buf n) \<le> 3 * n + 36 + length (show_nat (length buf - n))) \<and>
   (list_all ascii buf \<longrightarrow> from_utf8_lossy buf = buf)"
proof -
  have b: "length (from_utf8_lossy (take k buf)) \<le> 3 * k"
    "length (from_utf8_lossy (drop (length buf - k) buf)) \<le> 3 * k" for k
    using from_utf8_lossy_length [of "take k buf"]
      from_utf8_lossy_length [of "drop (length buf - k) buf"] by auto
  have "length buf - n div 4 - (n - n div 4) = length buf - n" by auto
  moreover have "3 * (n div 4) + 3 * (n - n div 4) = 3 * n" by auto
  ultimately show ?thesis
    using b(1) [of "n div 4"] b(2) [of "n - n div 4"] from_utf8_lossy_ascii [of buf]
    by (auto simp: bound_capture_def Let_def)
qed

theorem captured_output_witness:
  "bound_capture ''ok'' 4 = ''ok''"
proof -
  have "list_all ascii ''ok''" by code_simp
  with captured_output [of 4 "''ok''"] show ?thesis by simp
qed

end
