(* ===== verification/Container.thy ===== *)
theory Container
  imports Retry Results
begin

text \<open>
  Container management (\<^verbatim>\<open>src/runner/container.rs\<close>): image planning, the container body the
  checker asks Docker for, image provisioning, the lifecycle of a container and its guard, resource
  telemetry, and the reaper of orphaned containers.

  The Docker daemon is outside the program. A run of an operation is given the daemon's answers
  (\<open>docker_world\<close>) and yields, next to its result, the list of calls that change the daemon's
  state (\<open>docker_event\<close>), in order. SHA-256, the clock, \<open>chrono\<close>'s formatting and parsing and the
  process table are arguments as well.
\<close>

section \<open>Configuration\<close>

record container_config =
  cc_image :: string
  cc_memory_limit :: "u64 option"
  cc_cpu_quota :: "rat option"
  cc_timeout_seconds :: u64
  cc_volumes :: "(string \<times> string) list"
  cc_environment :: "(string \<times> string) list"
  cc_labels :: "(string \<times> string) list"
  cc_network_mode :: "string option"
  cc_run_as_root :: bool
  cc_prepare :: bool
  cc_build_timeout_seconds :: u64
  cc_rebuild :: bool

definition LABEL_MANAGED :: string where "LABEL_MANAGED = ''afsc.managed''"
definition LABEL_RUN_ID :: string where "LABEL_RUN_ID = ''afsc.run_id''"
definition LABEL_INSTALLER :: string where "LABEL_INSTALLER = ''afsc.installer''"
definition LABEL_CREATED_AT :: string where "LABEL_CREATED_AT = ''afsc.created_at''"
definition LABEL_PID :: string where "LABEL_PID = ''afsc.pid''"
definition LABEL_VERSION :: string where "LABEL_VERSION = ''afsc.version''"

definition AFSC_BASE_IMAGE :: string where "AFSC_BASE_IMAGE = ''afsc-base:latest''"
definition CANONICAL_BASE :: string where "CANONICAL_BASE = ''ubuntu:24.04''"

definition default_container_config :: container_config where
  "default_container_config =
     \<lparr>cc_image = AFSC_BASE_IMAGE, cc_memory_limit = Some (2 * 1024 * 1024 * 1024),
      cc_cpu_quota = Some 1, cc_timeout_seconds = 300, cc_volumes = [], cc_environment = [],
      cc_labels = [], cc_network_mode = None, cc_run_as_root = False, cc_prepare = True,
      cc_build_timeout_seconds = 900, cc_rebuild = False\<rparr>"

datatype pull_policy = Always | IfNotPresent | Never

definition parse_policy :: "string \<Rightarrow> pull_policy" where
  \<comment> \<open>the only lower-case forms compared with are ASCII, so ASCII lowering decides them\<close>
  "parse_policy s =
     (if to_lower s = ''always'' then Always
      else if to_lower s = ''never'' then Never else IfNotPresent)"

text \<open>
  \<open>parse_memory_limit\<close>: the product is the wrapping one of the release build.
\<close>

definition ends_with :: "string \<Rightarrow> char \<Rightarrow> bool" where
  "ends_with s c \<longleftrightarrow> s \<noteq> [] \<and> last s = c"

definition memory_unit :: "string \<Rightarrow> string \<times> u64" where
  "memory_unit s =
     (if ends_with s (CHR ''G'') \<or> ends_with s (CHR ''g'') then (butlast s, 1024 * 1024 * 1024)
      else if ends_with s (CHR ''M'') \<or> ends_with s (CHR ''m'') then (butlast s, 1024 * 1024)
      else if ends_with s (CHR ''K'') \<or> ends_with s (CHR ''k'') then (butlast s, 1024)
      else (s, 1))"

definition parse_memory_limit :: "string \<Rightarrow> u64 option" where
  "parse_memory_limit s =
     (let s = trim s
      in if s = [] then None
         else case memory_unit s of (num_str, multiplier) \<Rightarrow>
           map_option (\<lambda>n. of_nat n * multiplier) (parse_unsigned 64 (trim num_str)))"

section \<open>Image plan\<close>

definition tag_char :: "char \<Rightarrow> bool" where
  "tag_char c \<longleftrightarrow> is_ascii_alphanumeric c \<or> c = CHR ''.'' \<or> c = CHR ''_'' \<or> c = CHR ''-''"

definition trim_matches :: "char \<Rightarrow> string \<Rightarrow> string" where
  "trim_matches d s = rev (dropWhile (\<lambda>c. c = d) (rev (dropWhile (\<lambda>c. c = d) s)))"

definition sanitize_for_tag :: "string \<Rightarrow> string" where
  "sanitize_for_tag img =
     trim_matches (CHR ''-'')
       (concat (map (\<lambda>u. if length u = 1 \<and> tag_char (hd u) then u else ''-'') (chars img)))"

definition prepared_image_tag :: "string \<Rightarrow> string \<Rightarrow> string option" where
  "prepared_image_tag base hash =
     map_option
       (\<lambda>short. if base = CANONICAL_BASE then ''afsc-base:'' @ short
                else ''afsc-prepared:'' @ sanitize_for_tag base @ ''-'' @ short)
       (slice_to (min (length hash) 12) hash)"

definition template_hash :: "(string \<Rightarrow> string) \<Rightarrow> string \<Rightarrow> string \<Rightarrow> string" where
  "template_hash sha256_hex template base = sha256_hex (template @ [nl] @ ''BASE='' @ base)"

record image_plan =
  ip_base :: string
  ip_run_image :: string
  ip_prepared :: bool

text \<open>
  \<open>image_plan\<close>: \<open>dockerfile\<close> is what reading the located \<open>Dockerfile.base\<close> gives. The hash is a
  lower-case hex string, so the slice in the tag does not panic; the option of the tag is passed on
  as an error all the same.
\<close>

definition plan_base :: "string \<Rightarrow> string" where
  "plan_base img =
     (if img = AFSC_BASE_IMAGE \<or> prefix ''afsc-base:'' img \<or> prefix ''afsc-prepared:'' img
      then CANONICAL_BASE else img)"

definition image_plan_of ::
  "(string \<Rightarrow> string) \<Rightarrow> anyhow + string \<Rightarrow> container_config \<Rightarrow> anyhow + image_plan" where
  "image_plan_of sha256_hex dockerfile cfg =
     (if \<not> cc_prepare cfg then
        Inr \<lparr>ip_base = cc_image cfg, ip_run_image = cc_image cfg, ip_prepared = False\<rparr>
      else
        let base = plan_base (cc_image cfg)
        in case dockerfile of
             Inl e \<Rightarrow> Inl e
           | Inr template \<Rightarrow>
               (case prepared_image_tag base (template_hash sha256_hex template base) of
                  None \<Rightarrow> Inl [''panic'']
                | Some tag \<Rightarrow> Inr \<lparr>ip_base = base, ip_run_image = tag, ip_prepared = True\<rparr>))"

section \<open>The daemon\<close>

record container_body =
  cb_image :: string
  cb_env :: "string list"
  cb_memory :: "i64 option"
  cb_nano_cpus :: "int option"
  cb_network_mode :: "string option"
  cb_binds :: "string list option"
  cb_labels :: "string \<rightharpoonup> string"
  cb_cmd :: "string list"
  cb_working_dir :: string
  cb_user :: string
  cb_tty :: bool

datatype docker_event =
  EvPull string string
| EvBuild string string
| EvTag string
| EvCreate string container_body
| EvStart string
| EvExec string "string list"
| EvStop string nat
| EvRemove string

record docker_world =
  dw_f64 :: f64_ops
  dw_pid :: u32
  dw_version :: string
  dw_created_at :: string \<comment> \<open>the clock in RFC 3339\<close>
  dw_timestamp :: string \<comment> \<open>the clock as \<open>%Y%m%d-%H%M%S-%3f\<close>\<close>
  dw_random :: u16
  dw_connect_error :: "string option"
  dw_dockerfile :: "anyhow + string"
  dw_image_present :: "string \<Rightarrow> bool"
  dw_pull_error :: "string \<Rightarrow> string \<Rightarrow> string option"
  dw_build_error :: "string \<Rightarrow> anyhow option"
  dw_create :: "string \<Rightarrow> string + string"
  dw_start_error :: "string \<Rightarrow> string option"

text \<open>\<open>rfind(':')\<close>, \<open>rsplit_once(':')\<close>: the last colon.\<close>

definition rsplit_once :: "char \<Rightarrow> string \<Rightarrow> (string \<times> string) option" where
  "rsplit_once d s =
     (if d \<in> set s
      then Some (take (length s - Suc (length (takeWhile (\<lambda>c. c \<noteq> d) (rev s)))) s,
                 rev (takeWhile (\<lambda>c. c \<noteq> d) (rev s)))
      else None)"

definition repo_and_tag :: "string \<Rightarrow> string \<times> string" where
  "repo_and_tag img =
     (case rsplit_once (CHR '':'') img of Some p \<Rightarrow> p | None \<Rightarrow> (img, ''latest''))"

definition ensure_pulled ::
  "docker_world \<Rightarrow> pull_policy \<Rightarrow> string \<Rightarrow> docker_event list \<times> (anyhow + unit)" where
  "ensure_pulled w policy img =
     (if policy \<noteq> Always \<and> dw_image_present w img then ([], Inr ())
      else if policy = Never then
        ([], Inl [''Image '' @ img @ '' not found and pull policy is Never''])
      else case repo_and_tag img of (repo, tag) \<Rightarrow>
        ([EvPull repo tag],
         (case dw_pull_error w repo tag of
            None \<Rightarrow> Inr ()
          | Some e \<Rightarrow> Inl [''Failed to pull image '' @ img @ '': '' @ e])))"

definition ensure_image ::
  "docker_world \<Rightarrow> (string \<Rightarrow> string) \<Rightarrow> container_config \<Rightarrow> pull_policy
    \<Rightarrow> docker_event list \<times> (anyhow + image_plan)" where
  "ensure_image w sha256_hex cfg policy =
     (case image_plan_of sha256_hex (dw_dockerfile w) cfg of
        Inl e \<Rightarrow> ([], Inl e)
      | Inr plan \<Rightarrow>
          if \<not> ip_prepared plan then
            (case ensure_pulled w policy (ip_run_image plan) of
               (evs, Inl e) \<Rightarrow> (evs, Inl e)
             | (evs, Inr _) \<Rightarrow> (evs, Inr plan))
          else
            let present = dw_image_present w (ip_run_image plan);
                need = \<not> (present \<and> \<not> cc_rebuild cfg);
                built = (if need then [EvBuild (ip_run_image plan) (ip_base plan)] else []);
                tag = (if ip_base plan = CANONICAL_BASE then [EvTag (ip_run_image plan)] else [])
            in case (if need then dw_build_error w (ip_run_image plan) else None) of
                 Some e \<Rightarrow> (built, Inl e)
               | None \<Rightarrow> (built @ tag, Inr plan))"

section \<open>The container body\<close>

definition labels_for ::
  "container_config \<Rightarrow> string \<Rightarrow> string \<Rightarrow> u32 \<Rightarrow> string \<Rightarrow> (string \<rightharpoonup> string)" where
  \<comment> \<open>\<open>created\<close> is the clock in RFC 3339, \<open>pid\<close> this process, \<open>version\<close> the crate's version\<close>
  "labels_for cfg installer created pid version =
     fold (\<lambda>(k, v) m. m(k \<mapsto> v)) (cc_labels cfg)
       (Map.empty(LABEL_MANAGED \<mapsto> ''true'', LABEL_INSTALLER \<mapsto> installer,
          LABEL_CREATED_AT \<mapsto> created, LABEL_PID \<mapsto> show_nat (unat pid),
          LABEL_VERSION \<mapsto> version))"

definition container_identity :: "image_plan \<Rightarrow> container_config \<Rightarrow> string \<times> string \<times> string" where
  "container_identity plan cfg =
     (if ip_prepared plan \<and> \<not> cc_run_as_root cfg
      then (''afsc-user'', ''/home/afsc-user'', ''/home/afsc-user'')
      else (''root'', ''/root'', ''/root''))"

definition container_env :: "string \<Rightarrow> (string \<times> string) list \<Rightarrow> string list" where
  "container_env home environment =
     [''DEBIAN_FRONTEND=noninteractive'', ''HOME='' @ home,
      ''PATH='' @ home @ ''/.cargo/bin:'' @ home @ ''/.local/bin:'' @ home @
        ''/.nvm/versions/node/default/bin:/usr/local/sbin:/usr/local/bin:/usr/sbin:/usr/bin:/sbin:/bin'',
      ''CI=true'', ''NONINTERACTIVE=1'', ''RUSTUP_INIT_SKIP_PATH_CHECK=yes'']
     @ map (\<lambda>(k, v). k @ ''='' @ v) environment"

text \<open>\<open>(cpu * 1e9) as i64\<close>: truncation, saturating at the bounds of \<open>i64\<close>.\<close>

definition f64_as_i64 :: "rat \<Rightarrow> int" where
  "f64_as_i64 x = max (- (2 ^ 63)) (min (2 ^ 63 - 1) (if x < 0 then - \<lfloor>- x\<rfloor> else \<lfloor>x\<rfloor>))"

definition bind_of :: "string \<times> string \<Rightarrow> string" where
  "bind_of v =
     (case v of (host, container) \<Rightarrow>
        (case rsplit_once (CHR '':'') host of
           Some (h, mode) \<Rightarrow>
             (if mode \<in> {''ro'', ''rw'', ''z'', ''Z''}
              then h @ '':'' @ container @ '':'' @ mode
              else host @ '':'' @ container)
         | None \<Rightarrow> host @ '':'' @ container))"

definition container_body_of ::
  "f64_ops \<Rightarrow> container_config \<Rightarrow> image_plan \<Rightarrow> (string \<rightharpoonup> string) \<Rightarrow> container_body" where
  "container_body_of F cfg plan labels =
     (case container_identity plan cfg of (user, home, working_dir) \<Rightarrow>
       \<lparr>cb_image = ip_run_image plan,
        cb_env = container_env home (cc_environment cfg),
        cb_memory = cc_memory_limit cfg,
        cb_nano_cpus = map_option (\<lambda>cpu. f64_as_i64 (fl F (cpu * 1000000000))) (cc_cpu_quota cfg),
        cb_network_mode =
          (case cc_network_mode cfg of
             None \<Rightarrow> None
           | Some mode \<Rightarrow> (if trim mode = [] then None else Some (trim mode))),
        cb_binds = (if cc_volumes cfg = [] then None else Some (map bind_of (cc_volumes cfg))),
        cb_labels = labels,
        cb_cmd = [''sleep'', ''86400''],
        cb_working_dir = working_dir,
        cb_user = user,
        cb_tty = True\<rparr>)"

text \<open>
  \<open>create_container\<close>: provision the image, create, start. A failed start returns the error and
  leaves the created container behind.
\<close>

definition hex_digit :: "nat \<Rightarrow> char" where
  "hex_digit n = ''0123456789abcdef'' ! n"

definition show_hex4 :: "u16 \<Rightarrow> string" where
  "show_hex4 r = map (\<lambda>k. hex_digit (unat r div 16 ^ k mod 16)) [3, 2, 1, 0]"

definition container_name_of :: "docker_world \<Rightarrow> string \<Rightarrow> string" where
  "container_name_of w name =
     ''afsc-'' @ name @ ''-'' @ dw_timestamp w @ ''-'' @ show_hex4 (dw_random w)"

definition create_event ::
  "docker_world \<Rightarrow> container_config \<Rightarrow> string \<Rightarrow> image_plan \<Rightarrow> docker_event" where
  "create_event w cfg name plan =
     EvCreate (container_name_of w name)
       (container_body_of (dw_f64 w) cfg plan
         (labels_for cfg name (dw_created_at w) (dw_pid w) (dw_version w)))"

definition create_container ::
  "docker_world \<Rightarrow> (string \<Rightarrow> string) \<Rightarrow> container_config \<Rightarrow> pull_policy \<Rightarrow> string
    \<Rightarrow> docker_event list \<times> (anyhow + string)" where
  "create_container w sha256_hex cfg policy name =
     (case ensure_image w sha256_hex cfg policy of
        (evs, Inl e) \<Rightarrow> (evs, Inl (''Failed to ensure Docker image'' # e))
      | (evs, Inr plan) \<Rightarrow>
          (case dw_create w (container_name_of w name) of
             Inl e \<Rightarrow>
               (evs @ [create_event w cfg name plan],
                Inl [''Failed to create Docker container'', e])
           | Inr cid \<Rightarrow>
               (case dw_start_error w cid of
                  Some e \<Rightarrow>
                    (evs @ [create_event w cfg name plan, EvStart cid],
                     Inl [''Failed to start Docker container'', e])
                | None \<Rightarrow> (evs @ [create_event w cfg name plan, EvStart cid], Inr cid))))"

text \<open>
  \<open>exec_in_container_cancellable\<close>: the answers of one exec call. \<open>es_inputs\<close> is what the select
  loop sees, in order; an exhausted list is the end of the stream. The exit code is the daemon's
  64-bit code cut to 32 bits.
\<close>

datatype exec_input =
  CancelFired | OutChunk string | ErrChunk string | OtherChunk | StreamError

record exec_session =
  es_cancelled_before :: bool
  es_create_error :: "string option"
  es_start :: "string + bool" \<comment> \<open>error, or whether the session is attached\<close>
  es_inputs :: "exec_input list"
  es_exit_code :: "string + int option"

fun exec_loop :: "exec_input list \<Rightarrow> string \<Rightarrow> string \<Rightarrow> (string \<times> string) option" where
  \<comment> \<open>\<open>None\<close> when the cancellation arrived first\<close>
  "exec_loop [] out err = Some (out, err)"
| "exec_loop (CancelFired # ins) out err = None"
| "exec_loop (OutChunk m # ins) out err = exec_loop ins (out @ m) err"
| "exec_loop (ErrChunk m # ins) out err = exec_loop ins out (err @ m)"
| "exec_loop (OtherChunk # ins) out err = exec_loop ins out err"
| "exec_loop (StreamError # ins) out err = Some (out, err)"

definition as_i32 :: "int \<Rightarrow> i32" where
  "as_i32 x = signed_take_bit 31 x"

definition exec_in_container_cancellable ::
  "exec_session \<Rightarrow> string \<Rightarrow> string list
    \<Rightarrow> docker_event list \<times> (anyhow + (i32 \<times> string \<times> string))" where
  "exec_in_container_cancellable s cid command =
     (if es_cancelled_before s then ([], Inl [''cancelled before exec started''])
      else case es_create_error s of
        Some e \<Rightarrow> ([], Inl [''Failed to create exec instance'', e])
      | None \<Rightarrow>
          (case es_start s of
             Inl e \<Rightarrow> ([EvExec cid command], Inl [''Failed to start exec instance'', e])
           | Inr attached \<Rightarrow>
               if \<not> attached then
                 ([EvExec cid command], Inl [''Exec started in detached mode unexpectedly''])
               else case exec_loop (es_inputs s) [] [] of
                 None \<Rightarrow> ([EvExec cid command, EvStop cid 2], Inl [''cancelled while running installer''])
               | Some (out, err) \<Rightarrow>
                   ([EvExec cid command],
                    (case es_exit_code s of
                       Inl e \<Rightarrow> Inl [''Failed to inspect exec for exit code'', e]
                     | Inr code \<Rightarrow>
                         Inr (as_i32 (unwrap_or code (-1)), from_utf8_lossy out,
                              from_utf8_lossy err)))))"

definition exec_in_container ::
  "exec_session \<Rightarrow> string \<Rightarrow> string list
    \<Rightarrow> docker_event list \<times> (anyhow + (i32 \<times> string \<times> string))" where
  \<comment> \<open>with a fresh token, which is never cancelled\<close>
  "exec_in_container s cid command =
     exec_in_container_cancellable
       (s\<lparr>es_cancelled_before := False, es_inputs := filter (\<lambda>x. x \<noteq> CancelFired) (es_inputs s)\<rparr>)
       cid command"

text \<open>The guard: \<open>cleanup\<close> acts once, \<open>drop\<close> cleans up what was not cleaned.\<close>

record container_guard =
  cg_container_id :: string
  cg_cleaned :: bool

definition guard_new :: "string \<Rightarrow> container_guard" where
  "guard_new cid = \<lparr>cg_container_id = cid, cg_cleaned = False\<rparr>"

definition guard_cleanup :: "container_guard \<Rightarrow> docker_event list \<times> container_guard" where
  "guard_cleanup g =
     (if cg_cleaned g then ([], g)
      else ([EvStop (cg_container_id g) 10, EvRemove (cg_container_id g)], g\<lparr>cg_cleaned := True\<rparr>))"

definition guard_drop :: "container_guard \<Rightarrow> docker_event list" where
  "guard_drop g =
     (if cg_cleaned g then [] else [EvStop (cg_container_id g) 5, EvRemove (cg_container_id g)])"

definition cleanup_container :: "string \<Rightarrow> docker_event list" where
  "cleanup_container cid = [EvStop cid 10, EvRemove cid]"

section \<open>Telemetry\<close>

text \<open>
  \<open>spawn_telemetry\<close> samples until it is stopped and once more afterwards. A sample is memory,
  cumulative CPU nanoseconds and network bytes; \<open>None\<close> is a sample the daemon did not give.
\<close>

type_synonym stats_sample = "u64 \<times> u64 \<times> u64 \<times> u64"

record telemetry_state =
  ts_telemetry :: telemetry
  ts_first_cpu :: "u64 option"
  ts_last_cpu :: u64

definition telemetry_init :: telemetry_state where
  "telemetry_init =
     \<lparr>ts_telemetry = \<lparr>peak_memory_bytes = 0, cpu_seconds = 0, network_rx_bytes = 0,
                      network_tx_bytes = 0, samples = 0\<rparr>,
      ts_first_cpu = None, ts_last_cpu = 0\<rparr>"

definition telemetry_sample :: "stats_sample option \<Rightarrow> telemetry_state \<Rightarrow> telemetry_state" where
  "telemetry_sample s st =
     (case s of None \<Rightarrow> st
      | Some (mem, cpu, rx, tx) \<Rightarrow>
          let t = ts_telemetry st
          in \<lparr>ts_telemetry = t\<lparr>samples := samples t + 1,
                  peak_memory_bytes := max (peak_memory_bytes t) mem,
                  network_rx_bytes := rx, network_tx_bytes := tx\<rparr>,
              ts_first_cpu = Some (unwrap_or (ts_first_cpu st) cpu), ts_last_cpu = cpu\<rparr>)"

definition telemetry_final_sample ::
  "stats_sample option \<Rightarrow> telemetry_state \<Rightarrow> telemetry_state" where
  "telemetry_final_sample s st =
     (case s of None \<Rightarrow> st
      | Some (mem, cpu, rx, tx) \<Rightarrow>
          let t = ts_telemetry st
          in \<lparr>ts_telemetry = t\<lparr>samples := samples t + 1,
                  peak_memory_bytes := max (peak_memory_bytes t) mem,
                  network_rx_bytes := max rx (network_rx_bytes t),
                  network_tx_bytes := max tx (network_tx_bytes t)\<rparr>,
              ts_first_cpu = Some (unwrap_or (ts_first_cpu st) cpu), ts_last_cpu = cpu\<rparr>)"

definition run_telemetry ::
  "f64_ops \<Rightarrow> stats_sample option list \<Rightarrow> stats_sample option \<Rightarrow> telemetry" where
  "run_telemetry F ticks final =
     (let st = telemetry_final_sample final (fold telemetry_sample ticks telemetry_init);
          used = saturating_sub_word (ts_last_cpu st) (unwrap_or (ts_first_cpu st) (ts_last_cpu st))
      in (ts_telemetry st)\<lparr>cpu_seconds := fl F (fl F (of_nat (unat used)) / 1000000000)\<rparr>)"

section \<open>Orphans\<close>

record orphan_info =
  oi_id :: string
  oi_name :: string
  oi_installer :: "string option"
  oi_run_id :: "string option"
  oi_pid :: "u32 option"
  oi_created_at :: "instant option"
  oi_reason :: string

record listed_container =
  lc_id :: "string option"
  lc_names :: "string list option"
  lc_labels :: "(string \<rightharpoonup> string) option"

definition orphan_info_of ::
  "(string \<Rightarrow> instant option) \<Rightarrow> listed_container \<Rightarrow> orphan_info" where
  \<comment> \<open>\<open>parse_rfc3339\<close> is chrono's parser\<close>
  "orphan_info_of parse_rfc3339 c =
     (let labels = unwrap_or (lc_labels c) Map.empty
      in \<lparr>oi_id = unwrap_or (lc_id c) [],
          oi_name = dropWhile (\<lambda>x. x = CHR ''/'')
            (case lc_names c of Some (n # _) \<Rightarrow> n | _ \<Rightarrow> []),
          oi_installer = labels LABEL_INSTALLER,
          oi_run_id = labels LABEL_RUN_ID,
          oi_pid = Option.bind (labels LABEL_PID)
            (\<lambda>p. map_option of_nat (parse_unsigned 32 p)),
          oi_created_at = Option.bind (labels LABEL_CREATED_AT) parse_rfc3339,
          oi_reason = []\<rparr>)"

text \<open>The daemon lists the containers that carry the label \<open>afsc.managed=true\<close>.\<close>

definition is_managed :: "listed_container \<Rightarrow> bool" where
  "is_managed c \<longleftrightarrow> Option.bind (lc_labels c) (\<lambda>m. m LABEL_MANAGED) = Some ''true''"

definition list_managed ::
  "(string \<Rightarrow> instant option) \<Rightarrow> listed_container list \<Rightarrow> orphan_info list" where
  "list_managed parse_rfc3339 containers =
     map (orphan_info_of parse_rfc3339) (filter is_managed containers)"

definition owner_dead :: "(u32 \<Rightarrow> bool) \<Rightarrow> orphan_info \<Rightarrow> bool" where
  "owner_dead pid_alive c = (case oi_pid c of Some pid \<Rightarrow> \<not> pid_alive pid | None \<Rightarrow> False)"

definition too_old :: "instant \<Rightarrow> duration \<Rightarrow> orphan_info \<Rightarrow> bool" where
  "too_old now max_age c =
     (case oi_created_at c of
        Some t \<Rightarrow> (if now - t < 0 then False else nat (now - t) > max_age)
      | None \<Rightarrow> False)"

definition orphan_of ::
  "u32 \<Rightarrow> (u32 \<Rightarrow> bool) \<Rightarrow> instant \<Rightarrow> duration \<Rightarrow> orphan_info \<Rightarrow> orphan_info option" where
  \<comment> \<open>one pass of the loop of \<open>orphans\<close>\<close>
  "orphan_of my_pid pid_alive now max_age c =
     (if oi_pid c = Some my_pid then None
      else if \<not> (owner_dead pid_alive c \<or> too_old now max_age c) then None
      else Some (c\<lparr>oi_reason :=
        (if owner_dead pid_alive c
         then ''owner pid '' @ show_nat (unat (unwrap_or (oi_pid c) 0)) @ '' is not running''
         else ''older than '' @ show_nat (unat (as_secs max_age)) @ ''s'')\<rparr>))"

definition orphans ::
  "u32 \<Rightarrow> (u32 \<Rightarrow> bool) \<Rightarrow> instant \<Rightarrow> duration \<Rightarrow> orphan_info list \<Rightarrow> orphan_info list" where
  "orphans my_pid pid_alive now max_age managed =
     List.map_filter (orphan_of my_pid pid_alive now max_age) managed"

definition reap_orphans ::
  "u32 \<Rightarrow> (u32 \<Rightarrow> bool) \<Rightarrow> instant \<Rightarrow> duration \<Rightarrow> orphan_info list
    \<Rightarrow> docker_event list \<times> orphan_info list" where
  "reap_orphans my_pid pid_alive now max_age managed =
     (let os = orphans my_pid pid_alive now max_age managed
      in (concat (map (\<lambda>c. cleanup_container (oi_id c)) os), os))"

section \<open>Lemmas\<close>

lemma fold_updates_other:
  "k \<notin> fst ` set kvs \<Longrightarrow> fold (\<lambda>(k, v) m. m(k \<mapsto> v)) kvs m k = m k"
  by (induction kvs arbitrary: m) auto

lemma labels_for_kept:
  assumes "k \<notin> fst ` set (cc_labels cfg)"
  shows "labels_for cfg name created pid version k =
           (Map.empty(LABEL_MANAGED \<mapsto> ''true'', LABEL_INSTALLER \<mapsto> name,
              LABEL_CREATED_AT \<mapsto> created, LABEL_PID \<mapsto> show_nat (unat pid),
              LABEL_VERSION \<mapsto> version)) k"
  unfolding labels_for_def by (rule fold_updates_other) (use assms in simp)

lemma container_body_labels: "cb_labels (container_body_of F cfg plan labels) = labels"
  by (simp add: container_body_of_def split: prod.split)

lemma label_names_distinct [simp]:
  "LABEL_PID \<noteq> LABEL_VERSION" "LABEL_MANAGED \<noteq> LABEL_VERSION" "LABEL_MANAGED \<noteq> LABEL_PID"
  "LABEL_MANAGED \<noteq> LABEL_CREATED_AT" "LABEL_MANAGED \<noteq> LABEL_INSTALLER"
  by (simp_all add: LABEL_PID_def LABEL_VERSION_def LABEL_MANAGED_def LABEL_CREATED_AT_def
      LABEL_INSTALLER_def)

lemma created_labels:
  assumes "create_event w cfg name plan = EvCreate n body"
    and "{LABEL_MANAGED, LABEL_PID} \<inter> fst ` set (cc_labels cfg) = {}"
  shows "cb_labels body LABEL_MANAGED = Some ''true''"
    and "cb_labels body LABEL_PID = Some (show_nat (unat (dw_pid w)))"
  using assms by (auto simp: create_event_def container_body_labels labels_for_kept)

lemma u32_pid_round_trip:
  "map_option of_nat (parse_unsigned 32 (show_nat (unat p))) = Some (p::u32)"
  using unsigned_less [of p, where ?'a = nat] by (simp add: parse_unsigned_show_nat)

lemma orphan_of_Some:
  "orphan_of my alive now age c = Some o' \<longleftrightarrow>
     oi_pid c \<noteq> Some my \<and> (owner_dead alive c \<or> too_old now age c) \<and>
     (\<exists>why. o' = c\<lparr>oi_reason := why\<rparr> \<and>
        why = (if owner_dead alive c
               then ''owner pid '' @ show_nat (unat (unwrap_or (oi_pid c) 0)) @ '' is not running''
               else ''older than '' @ show_nat (unat (as_secs age)) @ ''s''))"
  by (auto simp: orphan_of_def)

lemma reaped_events:
  "concat (map (\<lambda>c. cleanup_container (oi_id c)) (List.map_filter (orphan_of my alive now age) cs)) =
     concat (map (\<lambda>c. cleanup_container (oi_id c))
       (filter (\<lambda>c. oi_pid c \<noteq> Some my \<and> (owner_dead alive c \<or> too_old now age c)) cs))"
  by (induction cs) (auto simp: List.map_filter_simps orphan_of_def)

lemma memory_unit_suffix:
  "memory_unit (s @ ''G'') = (s, 1024 * 1024 * 1024)" "memory_unit (s @ ''g'') = (s, 1024 * 1024 * 1024)"
  "memory_unit (s @ ''M'') = (s, 1024 * 1024)" "memory_unit (s @ ''m'') = (s, 1024 * 1024)"
  "memory_unit (s @ ''K'') = (s, 1024)" "memory_unit (s @ ''k'') = (s, 1024)"
  by (simp_all add: memory_unit_def ends_with_def butlast_append)

lemma parse_memory_limit_suffixed:
  assumes "memory_unit (show_nat n @ [u]) = (show_nat n, m)" "is_ascii_alphanumeric u" "n < 2 ^ 64"
  shows "parse_memory_limit (show_nat n @ [u]) = Some (of_nat n * m)"
proof -
  have "trim (show_nat n @ [u]) = show_nat n @ [u]" "trim (show_nat n) = show_nat n"
    using show_nat_ends [of n] show_nat_digits [of n] assms(2)
    by (auto intro!: trim_alphanumeric)
  with assms show ?thesis
    by (simp add: parse_memory_limit_def parse_unsigned_show_nat)
qed

lemma takeWhile_rev_no_colon:
  "d \<notin> set b \<Longrightarrow> rsplit_once d (a @ d # b) = Some (a, b)"
proof -
  assume "d \<notin> set b"
  then have "takeWhile (\<lambda>c. c \<noteq> d) (rev b @ d # rev a) = rev b"
    by (subst takeWhile_append2) auto
  then show ?thesis by (simp add: rsplit_once_def)
qed

lemma rsplit_once_None: "d \<notin> set s \<Longrightarrow> rsplit_once d s = None"
  by (simp add: rsplit_once_def)

section \<open>Properties\<close>

text \<open>
  the reaper removes exactly the orphans. Of the containers labelled \<open>afsc.managed=true\<close> it
  stops and removes, in the listed order, those not owned by this process whose owner is known and
  no longer running or that are older than the given age (a container from the future is not old);
  nothing else is touched.
\<close>

theorem reaper_takes_exactly_the_orphans:
  "fst (reap_orphans my alive now age managed) =
     concat (map (\<lambda>c. [EvStop (oi_id c) 10, EvRemove (oi_id c)])
       (filter (\<lambda>c. oi_pid c \<noteq> Some my \<and>
          ((\<exists>p. oi_pid c = Some p \<and> \<not> alive p) \<or>
           (\<exists>t. oi_created_at c = Some t \<and> now - t > int age))) managed))"
proof -
  have cond: "(owner_dead alive c \<or> too_old now age c) \<longleftrightarrow>
      (\<exists>p. oi_pid c = Some p \<and> \<not> alive p) \<or> (\<exists>t. oi_created_at c = Some t \<and> now - t > int age)" for c
    by (auto simp: owner_dead_def too_old_def split: option.splits)
  show ?thesis
    using reaped_events [of my alive now age managed]
    by (simp add: reap_orphans_def orphans_def cond Let_def cleanup_container_def)
qed

text \<open>
  what the checker creates, the reaper recognises. A container made by \<open>create_container\<close>, with
  configured labels that do not override the managed and the pid label, is listed as managed with
  this process as its owner: this process never reaps it, whatever its age, and a later process
  reaps it as soon as this one is gone.
\<close>

theorem created_containers_are_recognised:
  assumes "create_event w cfg name plan = EvCreate n body"
    and "{LABEL_MANAGED, LABEL_PID} \<inter> fst ` set (cc_labels cfg) = {}"
    and "lc_labels c = Some (cb_labels body)" "lc_id c = Some cid"
  shows "list_managed ts [c] = [orphan_info_of ts c] \<and>
         oi_pid (orphan_info_of ts c) = Some (dw_pid w) \<and>
         reap_orphans (dw_pid w) alive now age (list_managed ts [c]) = ([], []) \<and>
         (my \<noteq> dw_pid w \<and> \<not> alive (dw_pid w) \<longrightarrow>
            fst (reap_orphans my alive now age (list_managed ts [c])) =
              [EvStop cid 10, EvRemove cid])"
proof -
  note labels = created_labels [OF assms(1,2)]
  have managed: "list_managed ts [c] = [orphan_info_of ts c]"
    using labels(1) assms(3) by (simp add: list_managed_def is_managed_def)
  moreover have pid: "oi_pid (orphan_info_of ts c) = Some (dw_pid w)" "oi_id (orphan_info_of ts c) = cid"
    using labels(2) assms(3,4) u32_pid_round_trip [of "dw_pid w"]
    by (simp_all add: orphan_info_of_def Let_def)
  ultimately show ?thesis
    by (auto simp: reap_orphans_def orphans_def orphan_of_def List.map_filter_simps
        owner_dead_def cleanup_container_def)
qed

definition sample_world :: docker_world where
  "sample_world =
     \<lparr>dw_f64 = exact_f64, dw_pid = 7, dw_version = ''0.1.0'', dw_created_at = ''t0'',
      dw_timestamp = ''20250101-000000-000'', dw_random = 255, dw_connect_error = None,
      dw_dockerfile = Inl [''missing''], dw_image_present = (\<lambda>_. True),
      dw_pull_error = (\<lambda>_ _. None), dw_build_error = (\<lambda>_. None), dw_create = (\<lambda>_. Inr ''c1''),
      dw_start_error = (\<lambda>_. None)\<rparr>"

definition sample_plan :: image_plan where
  "sample_plan = \<lparr>ip_base = ''img'', ip_run_image = ''img'', ip_prepared = False\<rparr>"

theorem created_containers_are_recognised_witness:
  "\<exists>n body. create_event sample_world default_container_config ''uv'' sample_plan = EvCreate n body \<and>
     reap_orphans 8 (\<lambda>_. False) 0 0
       (list_managed (\<lambda>_. None)
         [\<lparr>lc_id = Some ''c1'', lc_names = None, lc_labels = Some (cb_labels body)\<rparr>]) \<noteq> ([], [])"
proof -
  obtain n body where create: "create_event sample_world default_container_config ''uv'' sample_plan =
      EvCreate n body"
    by (simp add: create_event_def)
  let ?c = "\<lparr>lc_id = Some ''c1'', lc_names = None, lc_labels = Some (cb_labels body)\<rparr>"
  have "{LABEL_MANAGED, LABEL_PID} \<inter> fst ` set (cc_labels default_container_config) = {}"
    "lc_labels ?c = Some (cb_labels body)" "lc_id ?c = Some ''c1''" "8 \<noteq> dw_pid sample_world"
    by (simp_all add: default_container_config_def sample_world_def)
  with created_containers_are_recognised [OF create, of ?c "''c1''" "\<lambda>_. None" "\<lambda>_. False" 0 0 8]
  have "fst (reap_orphans 8 (\<lambda>_. False) 0 0 (list_managed (\<lambda>_. None) [?c])) \<noteq> []"
    by (metis list.distinct(1))
  with create show ?thesis by (metis fst_conv)
qed

text \<open>
  memory limits. A number with a unit letter is read as that many units, whichever case the
  letter has, as long as the product fits 64 bits; beyond that the product wraps, so that
  \<open>17179869184G\<close> is accepted as a limit of zero bytes.
\<close>

theorem memory_limit_value:
  assumes "n < 2 ^ 64" "(u, k) \<in> {(CHR ''G'', 30), (CHR ''g'', 30), (CHR ''M'', 20), (CHR ''m'', 20),
             (CHR ''K'', 10), (CHR ''k'', 10)}"
  shows "(\<exists>v. parse_memory_limit (show_nat n @ [u]) = Some v \<and> unat v = n * 2 ^ k mod 2 ^ 64) \<and>
         parse_memory_limit ''17179869184G'' = Some 0"
proof -
  have alnum: "list_all is_ascii_alphanumeric ''GgMmKk''" by code_simp
  have val: "\<exists>v. parse_memory_limit (show_nat n @ [u]) = Some v \<and> unat v = n * 2 ^ k mod 2 ^ 64"
    if "memory_unit (show_nat n @ [u]) = (show_nat n, 2 ^ k)" "is_ascii_alphanumeric u"
  proof -
    have "of_nat n * 2 ^ k = (of_nat (n * 2 ^ k) :: u64)" by simp
    then have "unat (of_nat n * 2 ^ k :: u64) = n * 2 ^ k mod 2 ^ 64"
      by (simp only: unat_of_nat) simp
    with parse_memory_limit_suffixed [OF that assms(1)] show ?thesis by blast
  qed
  have "''17179869184G'' = show_nat 17179869184 @ ''G''"
    by (simp add: show_nat.simps digit_char_def)
  moreover have "parse_memory_limit (show_nat 17179869184 @ ''G'') =
      Some (of_nat 17179869184 * (1024 * 1024 * 1024))"
    using alnum by (intro parse_memory_limit_suffixed memory_unit_suffix) auto
  moreover have "(of_nat 17179869184 * (1024 * 1024 * 1024) :: u64) = 0"
    by (simp add: word_eq_iff_unsigned [where ?'a = nat]) 
  ultimately have "parse_memory_limit ''17179869184G'' = Some 0" by metis
  moreover have "\<exists>v. parse_memory_limit (show_nat n @ [u]) = Some v \<and> unat v = n * 2 ^ k mod 2 ^ 64"
    using assms(2) alnum by (intro val) (auto simp: memory_unit_suffix)
  ultimately show ?thesis by blast
qed

theorem memory_limit_value_witness:
  "\<exists>v. parse_memory_limit (show_nat 2 @ ''g'') = Some v \<and> unat v = 2 * 2 ^ 30 mod 2 ^ 64"
  using memory_limit_value [of 2 "CHR ''g''" 30] by simp

text \<open>
  the pull reference. An image name without a colon is pulled as \<open>latest\<close>, and a name that ends
  in \<open>:tag\<close> splits exactly there; but a registry with a port and no tag is split at the port, which
  asks for the repository \<open>localhost\<close> and the tag \<open>5000/img\<close>.
\<close>

theorem pull_reference:
  "(CHR '':'' \<notin> set img \<longrightarrow> repo_and_tag img = (img, ''latest'')) \<and>
   (CHR '':'' \<notin> set tag \<longrightarrow> repo_and_tag (img @ '':'' @ tag) = (img, tag)) \<and>
   repo_and_tag ''localhost:5000/img'' = (''localhost'', ''5000/img'')"
  using takeWhile_rev_no_colon [of "CHR '':''" "''5000/img''" "''localhost''"]
  by (simp add: repo_and_tag_def takeWhile_rev_no_colon rsplit_once_None)

theorem pull_reference_witness:
  "repo_and_tag ''ubuntu'' = (''ubuntu'', ''latest'') \<and> repo_and_tag ''a:b/img:v1'' = (''a:b/img'', ''v1'')"
  using pull_reference [of "''ubuntu''" "''v1''"] pull_reference [of "''a:b/img''" "''v1''"] by simp

end
