(* ===== verification/Redact.thy ===== *)
theory Redact
  imports Regex
begin

text \<open>
  Secret redaction (\<^verbatim>\<open>src/reporting/redact.rs\<close>): the rules, in order, each replacing its matches by
  \<open>[redacted:<kind>]\<close>; two rules keep the key or header name that the first group captured.
\<close>

definition RULES :: "(string \<times> string) list" where
  \<open>RULES =
     [(''github_token'', bs [[], ''b(?:ghp|gho|ghu|ghs|ghr)_[A-Za-z0-9]{20,}'', ''b'']),
      (''github_pat'', bs [[], ''bgithub_pat_[A-Za-z0-9_]{20,}'', ''b'']),
      (''slack_token'', bs [[], ''bxox[abpsr]-[A-Za-z0-9-]{10,}'', ''b'']),
      (''slack_webhook'',
       bs [''https://hooks'', ''.slack'', ''.com/services/[A-Za-z0-9/_-]+'']),
      (''aws_access_key'', bs [[], ''b(?:AKIA|ASIA)[0-9A-Z]{16}'', ''b'']),
      (''api_key'', bs [[], ''bsk-(?:ant-|proj-)?[A-Za-z0-9_-]{16,}'', ''b'']),
      (''private_key'',
       bs [''-----BEGIN [A-Z ]*PRIVATE KEY-----['', ''s'',
           ''S]*?-----END [A-Z ]*PRIVATE KEY-----'']),
      (''authorization'',
       bs [''(?i)'', ''b(authorization'', ''s*:'', ''s*(?:bearer|basic|token)'',
           ''s+)[A-Za-z0-9._~+/=-]{8,}'']),
      (''secret_assignment'',
       bs [''(?i)'',
           ''b((?:[A-Z0-9_]*_)?(?:token|password|passwd|secret|api[_-]?key|access[_-]?key)s?'',
           ''s*[=:]'', ''s*["']?)([^'', ''s"'&;]{6,})''])]\<close>

definition redact_rules :: "regex_crate \<Rightarrow> (string \<times> regex) list" where
  "redact_rules rx = List.map_filter (\<lambda>(kind, p). map_option (\<lambda>re. (kind, re)) (rx p)) RULES"

definition redaction_marker :: "string \<Rightarrow> string" where
  "redaction_marker kind = ''[redacted:'' @ kind @ '']''"

definition apply_rule :: "string \<times> regex \<Rightarrow> string \<Rightarrow> string" where
  "apply_rule r out =
     (case r of (kind, re) \<Rightarrow>
        if kind = ''authorization'' \<or> kind = ''secret_assignment''
        then replace_all re (\<lambda>(i, j, gs). (case gs of [] \<Rightarrow> [] | g # _ \<Rightarrow> g) @ redaction_marker kind) out
        else replace_all re (\<lambda>m. redaction_marker kind) out)"

definition redact :: "regex_crate \<Rightarrow> string \<Rightarrow> string" where
  "redact rx text = fold apply_rule (redact_rules rx) text"

definition contains_secret :: "regex_crate \<Rightarrow> string \<Rightarrow> bool" where
  "contains_secret rx text = list_ex (\<lambda>(kind, re). re_is_match re text) (redact_rules rx)"

lemma apply_rule_no_match: "\<not> re_is_match (snd r) t \<Longrightarrow> apply_rule r t = t"
  by (auto simp: apply_rule_def split: prod.split)

lemma fold_apply_rule_no_match:
  "\<forall>r\<in>set rs. \<not> re_is_match (snd r) t \<Longrightarrow> fold apply_rule rs t = t"
  by (induction rs) (auto simp: apply_rule_no_match)

lemma redact_no_secret: "\<not> contains_secret rx t \<Longrightarrow> redact rx t = t"
  by (auto simp: redact_def contains_secret_def list_ex_iff intro!: fold_apply_rule_no_match)

end
