(* ===== verification/Executor.thy ===== *)
theory Executor
  imports Container Redact
begin

text \<open>
  The test runner (\<^verbatim>\<open>src/runner/executor.rs\<close>): the verified install script, checksum parsing,
  post-install checks, one attempt on the Docker and on the local backend, and the classification
  of failures. The retry loop is in theory \<open>RetryLoop\<close>.

  One attempt is a function of what its environment answers (a record per backend: container
  names, exec sessions, downloads, the clock, the checks); the Docker backend also yields the calls
  it made for the installer itself (the exec calls of the post-install checks are answered by
  \<open>da_checks\<close> and not listed).
\<close>

section \<open>Configuration and classification\<close>

definition CURL_BIN :: string where "CURL_BIN = ''curl''"
definition CLASSIFY_STDOUT_TAIL_BYTES :: usize where "CLASSIFY_STDOUT_TAIL_BYTES = 4096"
definition ATTEMPT_STDERR_TAIL_BYTES :: usize where "ATTEMPT_STDERR_TAIL_BYTES = 1024"
definition RETRY_JITTER_FRACTION :: rat where "RETRY_JITTER_FRACTION = 1/4"

datatype execution_backend = Docker container_config pull_policy | Local

record runner_config =
  rn_default_timeout :: duration
  rn_dry_run :: bool
  rn_extra_env :: "(string \<times> string) list"
  rn_backend :: execution_backend
  rn_retry :: retry_config
  rn_max_capture_bytes :: usize

definition default_runner_config :: runner_config where
  "default_runner_config =
     \<lparr>rn_default_timeout = from_secs 300, rn_dry_run = False, rn_extra_env = [],
      rn_backend = Docker default_container_config IfNotPresent,
      rn_retry = executor_default 3, rn_max_capture_bytes = DEFAULT_MAX_CAPTURE_BYTES\<rparr>"

definition finalize_failure ::
  "regex_crate \<Rightarrow> string option \<Rightarrow> test_result \<Rightarrow> test_result" where
  "finalize_failure rx synthetic r =
     (if tr_success r \<or> tr_status r = Passed \<or> tr_error r \<noteq> None then r
      else
        let stdout_tail = tail (tr_stdout r) CLASSIFY_STDOUT_TAIL_BYTES;
            text = unwrap_or synthetic [] @ [nl] @ tr_stderr r @ [nl] @ stdout_tail
        in r\<lparr>tr_error := Some (classify_error rx text (unwrap_or (tr_exit_code r) (-1)))\<rparr>)"

definition classify_result :: "regex_crate \<Rightarrow> test_result \<Rightarrow> error_classification" where
  "classify_result rx r =
     classify_error rx (tr_stderr r @ [nl] @ tail (tr_stdout r) CLASSIFY_STDOUT_TAIL_BYTES)
       (unwrap_or (tr_exit_code r) (-1))"

definition mark_cancelled :: "duration \<Rightarrow> instant \<Rightarrow> string \<Rightarrow> test_result \<Rightarrow> test_result" where
  \<comment> \<open>\<open>elapsed\<close> and \<open>now\<close> are the clock readings\<close>
  "mark_cancelled elapsed now reason r =
     r\<lparr>tr_status := Cancelled, tr_success := False,
       tr_stderr := CANCELLED_MARKER @ '': '' @ reason,
       tr_duration := elapsed, tr_duration_ms := as_millis_u64 elapsed,
       tr_last_attempt_ms := as_millis_u64 elapsed, tr_finished_at := now\<rparr>"

definition shell_quote :: "string \<Rightarrow> string" where
  "shell_quote s =
     [squote] @ replace_char squote [squote, backslash, squote, squote] s @ [squote]"

section \<open>Commands and scripts\<close>

definition installer_args :: "runner_config \<Rightarrow> installer_test \<Rightarrow> string list" where
  "installer_args cfg t = it_args t @ (if rn_dry_run cfg then [''--dry-run''] else [])"

definition installer_command :: "runner_config \<Rightarrow> installer_test \<Rightarrow> string \<Rightarrow> string" where
  "installer_command cfg t script_path =
     it_interpreter t @ '' '' @ shell_quote script_path @
     concat (map (\<lambda>a. '' '' @ shell_quote a) (installer_args cfg t))"

definition staged_path :: "installer_test \<Rightarrow> string" where
  "staged_path t = ''/tmp/installer_'' @ it_name t @ ''.sh''"

definition script_lines :: "string list \<Rightarrow> string" where
  "script_lines ls = join [nl] ls"

definition build_verified_install_script :: "runner_config \<Rightarrow> installer_test \<Rightarrow> string" where
  \<open>build_verified_install_script cfg t =
     (let path = staged_path t; run = installer_command cfg t path; url = it_url t
      in case it_expected_sha256 t of
        Some expected \<Rightarrow> script_lines
          [''set -e'',
           ''rm -f '' @ [squote] @ path @ [squote],
           CURL_BIN @ '' -fsSL '' @ [squote] @ url @ [squote] @ '' -o '' @ [squote] @ path @ [squote],
           ''ACTUAL=$( (command -v sha256sum >/dev/null 2>&1 && sha256sum '' @ [squote] @ path @
             [squote] @ '' || shasum -a 256 '' @ [squote] @ path @ [squote] @ '') | cut -d'' @
             [squote] @ '' '' @ [squote] @ '' -f1)'',
           ''if [ "$ACTUAL" != "'' @ expected @ ''" ]; then'',
           ''  echo "CHECKSUM_MISMATCH: expected='' @ expected @ '' actual=$ACTUAL url='' @ url @ ''" >&2'',
           ''  exit 99'',
           ''fi'',
           ''echo "CHECKSUM_OK $ACTUAL" >&2'',
           ''chmod 0444 '' @ [squote] @ path @ [squote],
           ''set +e'',
           run]
      | None \<Rightarrow> script_lines
          [''set -e'',
           ''rm -f '' @ [squote] @ path @ [squote],
           CURL_BIN @ '' -fsSL '' @ [squote] @ url @ [squote] @ '' -o '' @ [squote] @ path @ [squote],
           ''chmod 0444 '' @ [squote] @ path @ [squote],
           ''set +e'',
           run])\<close>

text \<open>\<open>l.split("actual=").nth(1)\<close>: what follows the first marker, up to the next one.\<close>

definition after_first :: "string \<Rightarrow> string \<Rightarrow> string option" where
  "after_first sep l =
     (case str_find l sep of
        None \<Rightarrow> None
      | Some i \<Rightarrow>
          let rest = drop (i + length sep) l
          in Some (case str_find rest sep of None \<Rightarrow> rest | Some j \<Rightarrow> take j rest))"

definition mismatch_actual :: "string \<Rightarrow> string" where
  "mismatch_actual stderr =
     unwrap_or
       (map_option (\<lambda>s. case split_whitespace s of [] \<Rightarrow> ''unknown'' | w # _ \<Rightarrow> w)
         (Option.bind (List.find (\<lambda>l. contains l ''CHECKSUM_MISMATCH'') (lines stderr))
            (after_first ''actual='')))
       ''unknown''"

definition parse_checksum_result ::
  "string \<Rightarrow> i32 \<Rightarrow> string \<Rightarrow> string option \<Rightarrow> u64 \<Rightarrow> checksum_result option" where
  "parse_checksum_result stderr exit_code url expected_sha256 download_ms =
     (case expected_sha256 of
        None \<Rightarrow> None
      | Some expected \<Rightarrow>
          if exit_code = 99 \<and> contains stderr ''CHECKSUM_MISMATCH'' then
            Some \<lparr>cr_matches = False, cr_expected = expected, cr_actual = mismatch_actual stderr,
                  cr_url = url, cr_download_ms = download_ms, cr_size_bytes = 0\<rparr>
          else if exit_code = 0 \<or> contains stderr ''CHECKSUM_OK'' then
            Some \<lparr>cr_matches = True, cr_expected = expected,
                  cr_actual =
                    unwrap_or
                      (map_option trim
                        (find_map (\<lambda>l. strip_prefix l ''CHECKSUM_OK '') (lines stderr)))
                      expected,
                  cr_url = url, cr_download_ms = download_ms, cr_size_bytes = 0\<rparr>
          else None)"

definition test_timeout :: "runner_config \<Rightarrow> installer_test \<Rightarrow> duration" where
  "test_timeout cfg t = (if as_secs (it_timeout t) > 0 then it_timeout t else rn_default_timeout cfg)"

text \<open>\<open>{:?}\<close> of a \<open>Duration\<close>.\<close>

definition show_fraction :: "nat \<Rightarrow> nat \<Rightarrow> string" where
  "show_fraction width f =
     (if f = 0 then []
      else let d = show_nat f
           in ''.'' @ rev (dropWhile (\<lambda>c. c = CHR ''0'')
                (rev (replicate (width - length d) (CHR ''0'') @ d))))"

definition show_duration_debug :: "duration \<Rightarrow> string" where
  "show_duration_debug d =
     (let secs = d div ns_per_sec; nanos = d mod ns_per_sec
      in if secs > 0 then show_nat secs @ show_fraction 9 nanos @ ''s''
         else if nanos \<ge> 1000000
           then show_nat (nanos div 1000000) @ show_fraction 6 (nanos mod 1000000) @ ''ms''
         else if nanos \<ge> 1000
           then show_nat (nanos div 1000) @ show_fraction 3 (nanos mod 1000) @
                [CHR 0xC2, CHR 0xB5, CHR ''s'']
         else show_nat nanos @ ''ns'')"

definition timeout_message :: "duration \<Rightarrow> string" where
  "timeout_message d =
     TIMEOUT_MARKER @ '' after '' @ show_nat (unat (as_secs d)) @ ''s (Test timed out after '' @
     show_duration_debug d @ '')''"

section \<open>Post-install checks\<close>

text \<open>
  \<open>Exec::run\<close>: what running a command line in the installer's environment answers. The Docker form
  runs \<open>bash -lc\<close> in the container, the local one \<open>bash -c\<close> in the temporary directory.
\<close>

datatype check_outcome = CheckTimedOut | CheckDone "anyhow + (i32 \<times> string \<times> string)"

type_synonym exec_env = "string list \<Rightarrow> check_outcome"

definition exec_argv :: "bool \<Rightarrow> string \<Rightarrow> string list" where
  "exec_argv docker cmd = [''bash'', if docker then ''-lc'' else ''-c'', cmd]"

definition exec_run ::
  "exec_env \<Rightarrow> bool \<Rightarrow> string \<Rightarrow> anyhow + (i32 \<times> string \<times> string)" where
  "exec_run env docker cmd =
     (case env (exec_argv docker cmd) of
        CheckTimedOut \<Rightarrow> Inl [''post-install check timed out'', ''deadline has elapsed'']
      | CheckDone r \<Rightarrow> r)"

definition mark_check_failed :: "i32 option \<Rightarrow> string \<Rightarrow> test_result \<Rightarrow> test_result" where
  \<comment> \<open>the field updates of a failing check; the exit code is kept when the check gave none\<close>
  "mark_check_failed code message r =
     r\<lparr>tr_status := Failed, tr_success := False,
       tr_exit_code := (case code of None \<Rightarrow> tr_exit_code r | Some c \<Rightarrow> Some c),
       tr_stderr := tr_stderr r @ [nl] @ POST_INSTALL_MARKER @ '': '' @ message\<rparr>"

text \<open>The three checks; \<open>Inl\<close> is the early return with the failed result.\<close>

definition check_binary ::
  "(string \<Rightarrow> anyhow + (i32 \<times> string \<times> string)) \<Rightarrow> string option \<Rightarrow> test_result
    \<Rightarrow> test_result + test_result" where
  "check_binary run expect r =
     (case expect of
        None \<Rightarrow> Inr r
      | Some bin \<Rightarrow>
          (case run (''command -v '' @ shell_quote bin) of
             Inr (code, out, err) \<Rightarrow>
               (if code = 0 then Inr r
                else Inl (mark_check_failed (Some code)
                  (''expected binary '' @ [squote] @ bin @ [squote] @ '' not found on PATH'' @ [nl] @ err) r))
           | Inl e \<Rightarrow> Inl (mark_check_failed None (''expect_binary check error: '' @ err_msg e) r)))"

definition check_verify_cmd ::
  "regex_crate \<Rightarrow> (string \<Rightarrow> anyhow + (i32 \<times> string \<times> string)) \<Rightarrow> string option \<Rightarrow> test_result
    \<Rightarrow> test_result + test_result" where
  "check_verify_cmd rx run verify r =
     (case verify of
        None \<Rightarrow> Inr r
      | Some cmd \<Rightarrow>
          (case run cmd of
             Inr (code, out, err) \<Rightarrow>
               (if code = 0 then Inr r
                else Inl (mark_check_failed (Some code)
                  (''verify_cmd exited '' @ show_int code @ [nl] @ redact rx (tail out 1024) @ [nl] @
                   redact rx (tail err 1024)) r))
           | Inl e \<Rightarrow> Inl (mark_check_failed None (''verify_cmd error: '' @ err_msg e) r)))"

definition record_version ::
  "regex_crate \<Rightarrow> (string \<Rightarrow> anyhow + (i32 \<times> string \<times> string)) \<Rightarrow> string option \<Rightarrow> test_result
    \<Rightarrow> test_result" where
  "record_version rx run version r =
     (case version of
        None \<Rightarrow> r
      | Some cmd \<Rightarrow>
          (case run cmd of
             Inr (code, out, err) \<Rightarrow>
               (if code = 0
                then r\<lparr>tr_installed_version :=
                       map_option (\<lambda>l. redact rx (trim l))
                         (List.find (\<lambda>l. trim l \<noteq> []) (lines out))\<rparr>
                else r)
           | Inl e \<Rightarrow> r))"

definition post_install ::
  "regex_crate \<Rightarrow> (string \<Rightarrow> anyhow + (i32 \<times> string \<times> string)) \<Rightarrow> installer_test \<Rightarrow> test_result
    \<Rightarrow> test_result" where
  "post_install rx run t r =
     (case check_binary run (it_expect_binary t) r of
        Inl r' \<Rightarrow> r'
      | Inr r1 \<Rightarrow>
          (case check_verify_cmd rx run (it_verify_cmd t) r1 of
             Inl r' \<Rightarrow> r'
           | Inr r2 \<Rightarrow> record_version rx run (it_version_cmd t) r2))"

section \<open>One attempt in Docker\<close>

record docker_attempt =
  da_world :: docker_world
  da_started :: instant
  da_elapsed :: duration
  da_finished :: instant
  da_telemetry :: "telemetry option"
  da_exec :: "exec_session option" \<comment> \<open>\<open>None\<close> when the attempt ran into its timeout\<close>
  da_cancelled :: bool \<comment> \<open>the token, read after a failed exec\<close>
  da_checks :: exec_env

definition attempt_container_config ::
  "runner_config \<Rightarrow> installer_test \<Rightarrow> container_config \<Rightarrow> container_config" where
  "attempt_container_config cfg t cc =
     cc\<lparr>cc_environment := cc_environment cc @ it_environment t @ rn_extra_env cfg,
        cc_memory_limit := opt_or (it_memory_limit t) (cc_memory_limit cc),
        cc_network_mode := opt_or (it_network t) (cc_network_mode cc),
        cc_run_as_root := unwrap_or (it_run_as_root t) (cc_run_as_root cc)\<rparr>"

definition attach_telemetry :: "telemetry option \<Rightarrow> test_result \<Rightarrow> test_result" where
  "attach_telemetry tel r =
     (case tel of
        None \<Rightarrow> r
      | Some tl' \<Rightarrow> if samples tl' > 0 then r\<lparr>tr_telemetry := Some tl'\<rparr> else r)"

definition set_duration :: "duration \<Rightarrow> test_result \<Rightarrow> test_result" where
  "set_duration d r = r\<lparr>tr_duration := d, tr_duration_ms := as_millis_u64 d\<rparr>"

definition finish_attempt :: "instant \<Rightarrow> test_result \<Rightarrow> test_result" where
  "finish_attempt now r = r\<lparr>tr_finished_at := now, tr_last_attempt_ms := tr_duration_ms r\<rparr>"

definition captured :: "regex_crate \<Rightarrow> runner_config \<Rightarrow> string \<Rightarrow> string" where
  "captured rx cfg s = redact rx (bound_capture s (rn_max_capture_bytes cfg))"

text \<open>The branch of a finished exec: capture, parse the checksum, run the checks.\<close>

definition docker_exec_result ::
  "regex_crate \<Rightarrow> runner_config \<Rightarrow> installer_test \<Rightarrow> docker_attempt
    \<Rightarrow> i32 \<Rightarrow> string \<Rightarrow> string \<Rightarrow> test_result \<Rightarrow> test_result" where
  "docker_exec_result rx cfg t da exit_code out err r =
     (let stderr = captured rx cfg err;
          r1 = set_duration (da_elapsed da)
                 (r\<lparr>tr_stdout := captured rx cfg out, tr_stderr := stderr,
                    tr_exit_code := Some exit_code\<rparr>);
          verdict = (\<lambda>r. if exit_code = 0
                 then post_install rx (exec_run (da_checks da) True) t
                        (r\<lparr>tr_status := Passed, tr_success := True\<rparr>)
                 else r\<lparr>tr_status := Failed, tr_success := False\<rparr>)
      in case parse_checksum_result stderr exit_code (it_url t) (it_expected_sha256 t)
                (as_millis_u64 (da_elapsed da)) of
           Some c \<Rightarrow>
             (if \<not> cr_matches c
              then with_checksum_result c (r1\<lparr>tr_status := Failed, tr_success := False\<rparr>)
              else verdict (with_checksum_result c r1))
         | None \<Rightarrow>
             verdict (if it_expected_sha256 t \<noteq> None
                      then with_checksum_state UnknownState r1 else r1))"

text \<open>The match on the outcome of the exec, with the calls the exec made.\<close>

definition docker_execute ::
  "regex_crate \<Rightarrow> runner_config \<Rightarrow> installer_test \<Rightarrow> docker_attempt \<Rightarrow> string \<Rightarrow> test_result
    \<Rightarrow> docker_event list \<times> test_result" where
  "docker_execute rx cfg t da cid r =
     (let command = [''bash'', ''-c'', build_verified_install_script cfg t]
      in case da_exec da of
           None \<Rightarrow>
             ([EvExec cid command],
              set_duration (test_timeout cfg t)
                (r\<lparr>tr_status := TimedOut, tr_success := False,
                   tr_stderr := timeout_message (test_timeout cfg t)\<rparr>))
         | Some session \<Rightarrow>
             (case exec_in_container_cancellable session cid command of
                (es, Inr (exit_code, out, err)) \<Rightarrow>
                  (es, docker_exec_result rx cfg t da exit_code out err r)
              | (es, Inl e) \<Rightarrow>
                  (es,
                   if da_cancelled da
                   then mark_cancelled (da_elapsed da) (da_finished da) (err_msg e) r
                   else set_duration (da_elapsed da)
                     (r\<lparr>tr_stderr := ''Container execution error: '' @ err_msg e,
                        tr_status := Failed, tr_success := False\<rparr>))))"

definition run_test_docker ::
  "regex_crate \<Rightarrow> (string \<Rightarrow> string) \<Rightarrow> runner_config \<Rightarrow> container_config \<Rightarrow> pull_policy
    \<Rightarrow> installer_test \<Rightarrow> docker_attempt \<Rightarrow> docker_event list \<times> (anyhow + test_result)" where
  "run_test_docker rx sha256_hex cfg cc policy t da =
     (case dw_connect_error (da_world da) of
        Some e \<Rightarrow> ([], Inl [e])
      | None \<Rightarrow>
     (case create_container (da_world da) sha256_hex (attempt_container_config cfg t cc) policy
             (it_name t) of
        (evs, Inl e) \<Rightarrow> (evs, Inl (''Failed to create Docker container'' # e))
      | (evs, Inr cid) \<Rightarrow>
          (case docker_execute rx cfg t da cid
                  (attach_telemetry (da_telemetry da)
                    (with_container_id cid (test_result_new (da_started da) (it_name t)))) of
             (exec_evs, r) \<Rightarrow>
               (case guard_cleanup (guard_new cid) of
                  (clean_evs, guard) \<Rightarrow>
                    (evs @ exec_evs @ clean_evs @ guard_drop guard,
                     Inr (finish_attempt (da_finished da) r))))))"

section \<open>One attempt on the local backend\<close>

datatype local_outcome =
  LocalDone "anyhow + (i32 option \<times> string \<times> string)" \<comment> \<open>exit status, stdout, stderr\<close>
| LocalTimedOut
| LocalCancelled

record local_attempt =
  la_temp_dir :: "anyhow + string"
  la_started :: instant
  la_elapsed :: duration
  la_finished :: instant
  la_curl :: "anyhow + (i32 option \<times> string)" \<comment> \<open>curl's exit status and stderr\<close>
  la_download_ms :: u64
  la_script :: "anyhow + string" \<comment> \<open>the downloaded bytes\<close>
  la_spawn_error :: "anyhow option"
  la_outcome :: local_outcome
  la_checks :: exec_env

definition path_join :: "string \<Rightarrow> string \<Rightarrow> string" where
  "path_join dir name = dir @ ''/'' @ name"

definition local_env :: "runner_config \<Rightarrow> installer_test \<Rightarrow> string \<Rightarrow> (string \<times> string) list" where
  "local_env cfg t home =
     [(''HOME'', home), (''TMPDIR'', home),
      (''XDG_CONFIG_HOME'', path_join home ''.config''),
      (''XDG_DATA_HOME'', path_join home ''.local/share''),
      (''XDG_CACHE_HOME'', path_join home ''.cache''),
      (''PATH'', home @ ''/.local/bin:'' @ home @ ''/.cargo/bin:'' @ home @
         ''/.bun/bin:/usr/local/sbin:/usr/local/bin:/usr/sbin:/usr/bin:/sbin:/bin''),
      (''DEBIAN_FRONTEND'', ''noninteractive''), (''NONINTERACTIVE'', ''1''), (''CI'', ''true''),
      (''RUSTUP_INIT_SKIP_PATH_CHECK'', ''yes'')]
     @ it_environment t @ rn_extra_env cfg"

definition local_checksum ::
  "(string \<Rightarrow> string) \<Rightarrow> installer_test \<Rightarrow> u64 \<Rightarrow> string \<Rightarrow> string \<Rightarrow> checksum_result" where
  "local_checksum sha256_hex t download_ms expected bytes =
     \<lparr>cr_matches = (sha256_hex bytes = expected), cr_expected = expected,
      cr_actual = sha256_hex bytes, cr_url = it_url t, cr_download_ms = download_ms,
      cr_size_bytes = of_nat (length bytes)\<rparr>"

text \<open>A failed early return of the local backend: stamped with the elapsed time.\<close>

definition local_early :: "local_attempt \<Rightarrow> test_result \<Rightarrow> test_result" where
  "local_early la r =
     r\<lparr>tr_finished_at := la_finished la, tr_duration := la_elapsed la,
       tr_duration_ms := as_millis_u64 (la_elapsed la),
       tr_last_attempt_ms := as_millis_u64 (la_elapsed la)\<rparr>"

definition local_exec_result ::
  "regex_crate \<Rightarrow> runner_config \<Rightarrow> installer_test \<Rightarrow> local_attempt \<Rightarrow> i32 option \<Rightarrow> string
    \<Rightarrow> string \<Rightarrow> test_result \<Rightarrow> test_result" where
  "local_exec_result rx cfg t la status out err r =
     (let r1 = set_duration (la_elapsed la)
            (r\<lparr>tr_stdout := captured rx cfg out, tr_stderr := captured rx cfg err,
               tr_exit_code := Some (unwrap_or status (-1))\<rparr>)
      in if status = Some 0
         then post_install rx (exec_run (la_checks la) False) t
                (r1\<lparr>tr_status := Passed, tr_success := True\<rparr>)
         else r1\<lparr>tr_status := Failed, tr_success := False\<rparr>)"

definition local_execute ::
  "regex_crate \<Rightarrow> runner_config \<Rightarrow> installer_test \<Rightarrow> local_attempt \<Rightarrow> test_result
    \<Rightarrow> anyhow + test_result" where
  "local_execute rx cfg t la r =
     (case la_spawn_error la of
        Some e \<Rightarrow> Inl (''Failed to spawn installer process'' # e)
      | None \<Rightarrow>
          Inr (finish_attempt (la_finished la)
            (case la_outcome la of
               LocalDone (Inr (status, out, err)) \<Rightarrow>
                 local_exec_result rx cfg t la status out err r
             | LocalDone (Inl e) \<Rightarrow>
                 set_duration (la_elapsed la)
                   (r\<lparr>tr_stderr := ''Execution error: '' @ err_msg e, tr_status := Failed,
                      tr_success := False\<rparr>)
             | LocalTimedOut \<Rightarrow>
                 set_duration (test_timeout cfg t)
                   (r\<lparr>tr_status := TimedOut, tr_success := False,
                      tr_stderr := timeout_message (test_timeout cfg t)\<rparr>)
             | LocalCancelled \<Rightarrow>
                 mark_cancelled (la_elapsed la) (la_finished la)
                   ''cancelled while running installer'' r)))"

definition run_test_local ::
  "regex_crate \<Rightarrow> (string \<Rightarrow> string) \<Rightarrow> runner_config \<Rightarrow> installer_test \<Rightarrow> local_attempt
    \<Rightarrow> anyhow + test_result" where
  "run_test_local rx sha256_hex cfg t la =
     (let r = test_result_new (la_started la) (it_name t)
      in case la_temp_dir la of
        Inl e \<Rightarrow> Inl (''Failed to create temp directory'' # e)
      | Inr dir \<Rightarrow>
     (case la_curl la of
        Inl e \<Rightarrow> Inl (''Failed to download installer script'' # e)
      | Inr (status, err) \<Rightarrow>
          if status \<noteq> Some 0 then
            Inr (local_early la
              (r\<lparr>tr_stderr := ''Download failed: '' @ from_utf8_lossy err, tr_exit_code := status,
                 tr_status := Failed, tr_success := False,
                 tr_checksum_state :=
                   (if it_expected_sha256 t \<noteq> None then UnknownState else NotChecked)\<rparr>))
          else case it_expected_sha256 t of
            None \<Rightarrow> local_execute rx cfg t la r
          | Some expected \<Rightarrow>
              (case la_script la of
                 Inl e \<Rightarrow> Inl (''Failed to read downloaded script'' # e)
               | Inr bytes \<Rightarrow>
                   let c = local_checksum sha256_hex t (la_download_ms la) expected bytes
                   in if \<not> cr_matches c then
                        Inr (local_early la (with_checksum_result c
                          (r\<lparr>tr_stderr := ''CHECKSUM_MISMATCH: expected='' @ expected @
                               '' actual='' @ cr_actual c @ '' url='' @ it_url t,
                             tr_exit_code := Some 99, tr_status := Failed,
                             tr_success := False\<rparr>)))
                      else local_execute rx cfg t la (with_checksum_result c r))))"

text \<open>One attempt: the token first, then the backend, then the classification.\<close>

record attempt_env =
  ae_cancelled_before :: bool
  ae_now :: instant
  ae_mark_elapsed :: duration \<comment> \<open>clock of the cancellation mark\<close>
  ae_docker :: docker_attempt
  ae_local :: local_attempt

definition run_test ::
  "regex_crate \<Rightarrow> (string \<Rightarrow> string) \<Rightarrow> runner_config \<Rightarrow> installer_test \<Rightarrow> attempt_env
    \<Rightarrow> docker_event list \<times> (anyhow + test_result)" where
  "run_test rx sha256_hex cfg t ae =
     (if ae_cancelled_before ae then
        ([], Inr (finalize_failure rx None
               (mark_cancelled (ae_mark_elapsed ae) (ae_now ae) ''run cancelled before start''
                  (test_result_new (ae_now ae) (it_name t)))))
      else
        case (case rn_backend cfg of
                Docker cc policy \<Rightarrow> run_test_docker rx sha256_hex cfg cc policy t (ae_docker ae)
              | Local \<Rightarrow> ([], run_test_local rx sha256_hex cfg t (ae_local ae))) of
          (evs, Inl e) \<Rightarrow> (evs, Inl e)
        | (evs, Inr r) \<Rightarrow>
            (evs, Inr (if \<not> tr_success r then finalize_failure rx None r else r)))"

section \<open>Lemmas\<close>

text \<open>A result is coherent when its success flag says what its status says.\<close>

definition coherent :: "test_result \<Rightarrow> bool" where
  "coherent r \<longleftrightarrow> (tr_success r \<longleftrightarrow> tr_status r = Passed)"

definition final_status :: "test_status \<Rightarrow> bool" where
  "final_status st \<longleftrightarrow> st = Passed \<or> st = Failed \<or> st = TimedOut \<or> st = Cancelled"

lemmas builder_defs =
  with_checksum_result_def with_checksum_state_def with_container_id_def finish_attempt_def
  set_duration_def mark_cancelled_def local_early_def test_result_new_def mark_check_failed_def

lemma record_version_frame [rec_simps]:
  "tr_status (record_version rx run v r) = tr_status r"
  "tr_success (record_version rx run v r) = tr_success r"
  "tr_checksum_result (record_version rx run v r) = tr_checksum_result r"
  "tr_checksum_state (record_version rx run v r) = tr_checksum_state r"
  "tr_error (record_version rx run v r) = tr_error r"
  "tr_container_id (record_version rx run v r) = tr_container_id r"
  "tr_stderr (record_version rx run v r) = tr_stderr r"
  "tr_stdout (record_version rx run v r) = tr_stdout r"
  by (simp_all add: record_version_def split: option.split sum.split)

lemma mark_check_failed_frame [rec_simps]:
  "tr_status (mark_check_failed c m r) = Failed"
  "\<not> tr_success (mark_check_failed c m r)"
  "tr_checksum_result (mark_check_failed c m r) = tr_checksum_result r"
  "tr_checksum_state (mark_check_failed c m r) = tr_checksum_state r"
  "tr_error (mark_check_failed c m r) = tr_error r"
  "tr_container_id (mark_check_failed c m r) = tr_container_id r"
  "contains (tr_stderr (mark_check_failed c m r)) POST_INSTALL_MARKER"
  using contains_infix [of "tr_stderr r @ [nl]" POST_INSTALL_MARKER "'': '' @ m"]
  by (simp_all add: mark_check_failed_def)

text \<open>A check returns the result it was given, or a failed one with the same frame.\<close>

definition same_frame :: "test_result \<Rightarrow> test_result \<Rightarrow> bool" where
  "same_frame r r' \<longleftrightarrow>
     tr_checksum_result r' = tr_checksum_result r \<and> tr_checksum_state r' = tr_checksum_state r \<and>
     tr_error r' = tr_error r \<and> tr_container_id r' = tr_container_id r"

lemma check_binary_cases:
  "(\<exists>c m. check_binary run b r = Inl (mark_check_failed c m r)) \<or> check_binary run b r = Inr r"
  by (auto simp: check_binary_def split: option.split sum.split prod.split)

lemma check_verify_cmd_cases:
  "(\<exists>c m. check_verify_cmd rx run b r = Inl (mark_check_failed c m r)) \<or>
   check_verify_cmd rx run b r = Inr r"
  by (auto simp: check_verify_cmd_def split: option.split sum.split prod.split)

lemma post_install_cases:
  "(\<exists>c m. post_install rx run t r = mark_check_failed c m r) \<or>
   post_install rx run t r = record_version rx run (it_version_cmd t) r"
  using check_binary_cases [of run "it_expect_binary t" r]
    check_verify_cmd_cases [of rx run "it_verify_cmd t" r]
  by (elim disjE exE) (simp_all add: post_install_def, blast+)

lemma post_install_same_frame: "same_frame r (post_install rx run t r)"
  using post_install_cases [of rx run t r] by (auto simp: same_frame_def rec_simps)

lemma post_install_status:
  "tr_status r = Passed \<Longrightarrow> tr_success r \<Longrightarrow>
     coherent (post_install rx run t r) \<and> final_status (tr_status (post_install rx run t r))"
  using post_install_cases [of rx run t r]
  by (auto simp: coherent_def final_status_def rec_simps)

lemma finalize_failure_frame [rec_simps]:
  "tr_status (finalize_failure rx s r) = tr_status r"
  "tr_success (finalize_failure rx s r) = tr_success r"
  "tr_checksum_result (finalize_failure rx s r) = tr_checksum_result r"
  "tr_checksum_state (finalize_failure rx s r) = tr_checksum_state r"
  "tr_container_id (finalize_failure rx s r) = tr_container_id r"
  "tr_stderr (finalize_failure rx s r) = tr_stderr r"
  "tr_exit_code (finalize_failure rx s r) = tr_exit_code r"
  by (simp_all add: finalize_failure_def Let_def)

lemma finalize_failure_classifies:
  "coherent r \<Longrightarrow> \<not> tr_success r \<Longrightarrow> tr_error (finalize_failure rx s r) \<noteq> None"
  by (auto simp: finalize_failure_def coherent_def Let_def)

lemma finalize_failure_keeps_error:
  "tr_error r \<noteq> None \<Longrightarrow> finalize_failure rx s r = r"
  by (simp add: finalize_failure_def)

end
