(* ===== verification/Attempts.thy ===== *)
theory Attempts
  imports Executor
begin

text \<open>
  What one attempt guarantees on either backend: its result is final and classified, a pinned
  checksum gates the installer, the Docker container is removed on every path that obtained one,
  and shell quoting is exact.
\<close>

section \<open>Results of an attempt\<close>

lemma docker_exec_result_status:
  "coherent (docker_exec_result rx cfg t da c out err r) \<and>
   final_status (tr_status (docker_exec_result rx cfg t da c out err r))"
  using post_install_status
  by (auto simp: docker_exec_result_def Let_def builder_defs coherent_def final_status_def
      split: option.split)

lemma attach_telemetry_frame [rec_simps]:
  "tr_status (attach_telemetry tel r) = tr_status r"
  "tr_success (attach_telemetry tel r) = tr_success r"
  "tr_error (attach_telemetry tel r) = tr_error r"
  "tr_checksum_state (attach_telemetry tel r) = tr_checksum_state r"
  "tr_checksum_result (attach_telemetry tel r) = tr_checksum_result r"
  "tr_container_id (attach_telemetry tel r) = tr_container_id r"
  by (simp_all add: attach_telemetry_def split: option.split)

lemma exec_in_container_events:
  "exec_in_container_cancellable s cid cmd = (es, r) \<Longrightarrow>
     \<forall>e\<in>set es. e = EvExec cid cmd \<or> e = EvStop cid 2"
  by (auto simp: exec_in_container_cancellable_def split: option.splits sum.splits if_splits)

lemma docker_execute_events:
  "docker_execute rx cfg t da cid r = (es, r') \<Longrightarrow>
     \<forall>e\<in>set es. (\<exists>cmd. e = EvExec cid cmd) \<or> e = EvStop cid 2"
  by (auto simp: docker_execute_def Let_def dest!: exec_in_container_events
      split: option.splits sum.splits prod.splits)

lemma docker_execute_cases:
  assumes "docker_execute rx cfg t da cid r = (es, r')"
  obtains (exec) c out err where "r' = docker_exec_result rx cfg t da c out err r"
  | (timeout) "r' = set_duration (test_timeout cfg t)
        (r\<lparr>tr_status := TimedOut, tr_success := False,
           tr_stderr := timeout_message (test_timeout cfg t)\<rparr>)"
  | (cancel) msg where "r' = mark_cancelled (da_elapsed da) (da_finished da) msg r"
  | (error) msg where "r' = set_duration (da_elapsed da)
        (r\<lparr>tr_stderr := msg, tr_status := Failed, tr_success := False\<rparr>)"
  using assms
  by (auto simp: docker_execute_def Let_def split: option.splits sum.splits prod.splits if_splits)

lemma run_test_docker_Inr:
  assumes "run_test_docker rx sha cfg cc pol t da = (evs, Inr r)"
  obtains pre exe cid r' where
    "create_container (da_world da) sha (attempt_container_config cfg t cc) pol
       (it_name t) = (pre, Inr cid)"
    "docker_execute rx cfg t da cid
       (attach_telemetry (da_telemetry da)
         (with_container_id cid (test_result_new (da_started da) (it_name t)))) = (exe, r')"
    "evs = pre @ exe @ [EvStop cid 10, EvRemove cid]"
    "r = finish_attempt (da_finished da) r'"
  using assms
  by (auto simp: run_test_docker_def guard_cleanup_def guard_drop_def guard_new_def
      split: option.splits sum.splits prod.splits)

lemma docker_execute_status:
  assumes "docker_execute rx cfg t da cid r = (es, r')"
  shows "coherent r' \<and> final_status (tr_status r')"
  using assms docker_exec_result_status
  by (cases rule: docker_execute_cases)
    (auto simp: coherent_def final_status_def builder_defs)

lemma run_test_docker_status:
  assumes "run_test_docker rx sha cfg cc pol t da = (evs, Inr r)"
  shows "coherent r \<and> final_status (tr_status r)"
  using assms
  by (cases rule: run_test_docker_Inr)
    (auto simp: finish_attempt_def coherent_def dest: docker_execute_status)

lemma local_exec_result_status:
  "coherent (local_exec_result rx cfg t la st out err r) \<and>
   final_status (tr_status (local_exec_result rx cfg t la st out err r))"
  using post_install_status
  by (auto simp: local_exec_result_def Let_def coherent_def final_status_def set_duration_def)

lemma local_execute_cases:
  assumes "local_execute rx cfg t la r = Inr r'"
  obtains (exec) st out err where "r' = finish_attempt (la_finished la)
      (local_exec_result rx cfg t la st out err r)"
  | (error) msg where "r' = finish_attempt (la_finished la)
      (set_duration (la_elapsed la)
        (r\<lparr>tr_stderr := msg, tr_status := Failed, tr_success := False\<rparr>))"
  | (timeout) "r' = finish_attempt (la_finished la)
      (set_duration (test_timeout cfg t)
        (r\<lparr>tr_status := TimedOut, tr_success := False,
           tr_stderr := timeout_message (test_timeout cfg t)\<rparr>))"
  | (cancel) msg where "r' = finish_attempt (la_finished la)
      (mark_cancelled (la_elapsed la) (la_finished la) msg r)"
  using assms
  by (auto simp: local_execute_def split: option.splits sum.splits local_outcome.splits)

lemma local_execute_status:
  assumes "local_execute rx cfg t la r = Inr r'"
  shows "coherent r' \<and> final_status (tr_status r')"
  using assms
proof (cases rule: local_execute_cases)
  case (exec st out err)
  with local_exec_result_status [of rx cfg t la st out err r] show ?thesis
    by (simp add: coherent_def finish_attempt_def)
qed (auto simp: coherent_def final_status_def builder_defs)

lemma run_test_local_status:
  "run_test_local rx sha cfg t la = Inr r \<Longrightarrow> coherent r \<and> final_status (tr_status r)"
  by (auto simp: run_test_local_def Let_def
      split: sum.splits option.splits if_splits prod.splits dest!: local_execute_status)
    (auto simp: coherent_def final_status_def builder_defs)

text \<open>The error of a result is set by the classification only.\<close>

lemma post_install_error [rec_simps]: "tr_error (post_install rx run t r) = tr_error r"
  using post_install_same_frame [of r rx run t] by (simp add: same_frame_def)

lemma post_install_container: "tr_container_id (post_install rx run t r) = tr_container_id r"
  using post_install_same_frame [of r rx run t] by (simp add: same_frame_def)

lemma docker_execute_error:
  assumes "docker_execute rx cfg t da cid r = (es, r')"
  shows "tr_error r' = tr_error r"
  using assms
  by (cases rule: docker_execute_cases)
    (auto simp: builder_defs docker_exec_result_def Let_def rec_simps split: option.splits)

lemma docker_execute_container:
  assumes "docker_execute rx cfg t da cid r = (es, r')"
  shows "tr_container_id r' = tr_container_id r"
  using assms
proof (cases rule: docker_execute_cases)
  case (exec c out err)
  then show ?thesis
    by (auto simp: docker_exec_result_def Let_def builder_defs post_install_container
        split: option.splits)
qed (simp_all add: builder_defs)

lemma run_test_docker_error:
  assumes "run_test_docker rx sha cfg cc pol t da = (evs, Inr r)"
  shows "tr_error r = None"
  using assms
  by (cases rule: run_test_docker_Inr)
    (auto simp: finish_attempt_def rec_simps builder_defs dest: docker_execute_error)

lemma local_execute_error:
  "local_execute rx cfg t la r = Inr r' \<Longrightarrow> tr_error r' = tr_error r"
  by (erule local_execute_cases) (auto simp: local_exec_result_def Let_def builder_defs rec_simps)

lemma run_test_local_error:
  "run_test_local rx sha cfg t la = Inr r \<Longrightarrow> tr_error r = None"
  by (auto simp: run_test_local_def Let_def builder_defs
      split: sum.splits option.splits if_splits prod.splits dest!: local_execute_error)

text \<open>Checksum facts of a backend result, by the same case analysis.\<close>

definition gated :: "string option \<Rightarrow> test_result \<Rightarrow> bool" where
  \<comment> \<open>a mismatch failed the test; a pass under a pin means a match with that pin\<close>
  "gated pin r \<longleftrightarrow>
     (tr_checksum_state r = Mismatch \<longrightarrow>
        tr_status r = Failed \<and> (\<exists>c. tr_checksum_result r = Some c \<and> \<not> cr_matches c)) \<and>
     (case pin of
        None \<Rightarrow> tr_checksum_state r = NotChecked
      | Some h \<Rightarrow> tr_status r = Passed \<longrightarrow>
          tr_checksum_state r = Verified \<and>
          (\<exists>c. tr_checksum_result r = Some c \<and> cr_matches c \<and> cr_expected c = h))"

lemma post_install_checksum [rec_simps]:
  "tr_checksum_state (post_install rx run t r) = tr_checksum_state r"
  "tr_checksum_result (post_install rx run t r) = tr_checksum_result r"
  using post_install_same_frame [of r rx run t] by (simp_all add: same_frame_def)

lemma parse_checksum_result_pin:
  "parse_checksum_result err c u pin ms = Some cr \<Longrightarrow> pin = Some (cr_expected cr)"
  "parse_checksum_result err 0 u (Some h) ms = Some cr \<Longrightarrow> cr_matches cr"
  "parse_checksum_result err 0 u (Some h) ms \<noteq> None"
  by (auto simp: parse_checksum_result_def split: option.splits if_splits)

lemma docker_exec_result_gated:
  assumes "tr_checksum_state r = NotChecked"
  shows "gated (it_expected_sha256 t) (docker_exec_result rx cfg t da c out err r)"
proof (cases "parse_checksum_result (captured rx cfg err) c (it_url t) (it_expected_sha256 t)
                (as_millis_u64 (da_elapsed da))")
  case None
  with assms parse_checksum_result_pin(3) show ?thesis
    by (cases "c = 0"; cases "it_expected_sha256 t")
      (auto simp: docker_exec_result_def gated_def builder_defs rec_simps Let_def)
next
  case (Some cr)
  with assms parse_checksum_result_pin(1) [OF Some] show ?thesis
    by (auto simp: docker_exec_result_def gated_def builder_defs rec_simps Let_def)
qed

lemma docker_execute_gated:
  assumes "docker_execute rx cfg t da cid r = (es, r')" "tr_checksum_state r = NotChecked"
  shows "gated (it_expected_sha256 t) r'"
  using assms(1)
proof (cases rule: docker_execute_cases)
  case exec
  with docker_exec_result_gated [OF assms(2)] show ?thesis by simp
qed (use assms(2) in \<open>auto simp: gated_def builder_defs split: option.split\<close>)

lemma finish_attempt_frame [rec_simps]:
  "tr_status (finish_attempt now r) = tr_status r"
  "tr_success (finish_attempt now r) = tr_success r"
  "tr_error (finish_attempt now r) = tr_error r"
  "tr_checksum_state (finish_attempt now r) = tr_checksum_state r"
  "tr_checksum_result (finish_attempt now r) = tr_checksum_result r"
  "tr_container_id (finish_attempt now r) = tr_container_id r"
  by (simp_all add: finish_attempt_def)

lemma fresh_result_frame [rec_simps]:
  "tr_checksum_state (with_container_id cid (test_result_new now name)) = NotChecked"
  "tr_checksum_result (with_container_id cid (test_result_new now name)) = None"
  "tr_container_id (with_container_id cid (test_result_new now name)) = Some cid"
  "tr_checksum_state (test_result_new now name) = NotChecked"
  "tr_error (test_result_new now name) = None"
  by (simp_all add: with_container_id_def test_result_new_def)

lemma gated_frame:
  "tr_status r' = tr_status r \<Longrightarrow> tr_checksum_state r' = tr_checksum_state r \<Longrightarrow>
   tr_checksum_result r' = tr_checksum_result r \<Longrightarrow> gated pin r' = gated pin r"
  by (simp add: gated_def cong: option.case_cong)

lemma gated_finish [simp]: "gated pin (finish_attempt now r) = gated pin r"
  by (rule gated_frame) (simp_all add: rec_simps)

lemma run_test_docker_gated:
  assumes "run_test_docker rx sha cfg cc pol t da = (evs, Inr r)"
  shows "gated (it_expected_sha256 t) r"
  using assms
  by (cases rule: run_test_docker_Inr) (auto simp: rec_simps dest!: docker_execute_gated)

text \<open>The local backend hashes the bytes itself.\<close>

lemma local_exec_result_frame [rec_simps]:
  "tr_checksum_state (local_exec_result rx cfg t la st out err r) = tr_checksum_state r"
  "tr_checksum_result (local_exec_result rx cfg t la st out err r) = tr_checksum_result r"
  "tr_error (local_exec_result rx cfg t la st out err r) = tr_error r"
  by (simp_all add: local_exec_result_def Let_def rec_simps set_duration_def)

lemma local_execute_frame:
  assumes "local_execute rx cfg t la r = Inr r'"
  shows "tr_checksum_state r' = tr_checksum_state r \<and>
         tr_checksum_result r' = tr_checksum_result r"
  using assms
  by (cases rule: local_execute_cases)
    (simp_all add: rec_simps set_duration_def mark_cancelled_def)

lemma run_test_local_gated:
  assumes "run_test_local rx sha cfg t la = Inr r"
  shows "gated (it_expected_sha256 t) r"
proof -
  have exec: "gated pin r'"
    if "local_execute rx cfg t la r0 = Inr r'" "tr_checksum_state r0 = NotChecked" "pin = None"
    for r0 r' pin
    using local_execute_frame [OF that(1)] that(2,3) by (simp add: gated_def)
  have pinned: "gated (Some h) r'"
    if "local_execute rx cfg t la (with_checksum_result c r0) = Inr r'" "cr_matches c"
       "cr_expected c = h" for r0 r' c h
    using local_execute_frame [OF that(1)] that(2,3)
    by (simp add: gated_def with_checksum_result_def)
  show ?thesis
    using assms
    by (auto simp: run_test_local_def Let_def rec_simps
        split: sum.splits option.splits if_splits prod.splits elim!: exec pinned)
      (auto simp: gated_def local_early_def with_checksum_result_def local_checksum_def
        test_result_new_def)
qed

section \<open>What the daemon is asked to do\<close>

definition creates_nothing :: "docker_event \<Rightarrow> bool" where
  "creates_nothing e \<longleftrightarrow> (\<forall>n b. e \<noteq> EvCreate n b) \<and> (\<forall>c. e \<noteq> EvRemove c)"

lemma ensure_image_events:
  "ensure_image w sha cfg pol = (es, res) \<Longrightarrow> \<forall>e\<in>set es. creates_nothing e"
  by (auto simp: ensure_image_def ensure_pulled_def Let_def creates_nothing_def
      split: sum.splits prod.splits if_splits option.splits)

lemma create_container_Inr:
  assumes "create_container w sha cfg pol name = (es, Inr cid)"
  obtains pre plan where "ensure_image w sha cfg pol = (pre, Inr plan)"
    "es = pre @ [create_event w cfg name plan, EvStart cid]" "\<forall>e\<in>set pre. creates_nothing e"
  using assms
  by (auto simp: create_container_def dest: ensure_image_events
      split: sum.splits prod.splits option.splits)

lemma create_container_no_remove:
  "create_container w sha cfg pol name = (es, res) \<Longrightarrow> EvRemove c \<notin> set es"
  by (force simp: create_container_def create_event_def creates_nothing_def dest!: ensure_image_events
      split: sum.splits prod.splits option.splits)

section \<open>Shell words\<close>

text \<open>
  How a POSIX shell splits a simple command line into words: blanks separate, single quotes keep
  everything up to the next one, a backslash keeps the next character. Any other character that is
  not plain makes the line more than a simple command (\<open>None\<close>).
\<close>

definition plain_char :: "char \<Rightarrow> bool" where
  "plain_char c \<longleftrightarrow>
     is_ascii_alphanumeric c \<or> c = CHR ''.'' \<or> c = CHR ''_'' \<or> c = CHR ''/'' \<or> c = CHR ''-''"

fun sh_words :: "bool \<Rightarrow> string option \<Rightarrow> string \<Rightarrow> string list option" where
  "sh_words True w [] = None"
| "sh_words False w [] = Some (case w of None \<Rightarrow> [] | Some x \<Rightarrow> [x])"
| "sh_words True w (c # cs) =
     (if c = squote then sh_words False (Some (unwrap_or w [])) cs
      else sh_words True (Some (unwrap_or w [] @ [c])) cs)"
| "sh_words False w (c # cs) =
     (if c = squote then sh_words True (Some (unwrap_or w [])) cs
      else if c = backslash then
        (case cs of [] \<Rightarrow> None
         | d # ds \<Rightarrow> sh_words False (Some (unwrap_or w [] @ [d])) ds)
      else if c = CHR '' '' then
        (case w of None \<Rightarrow> sh_words False None cs
         | Some x \<Rightarrow> map_option ((#) x) (sh_words False None cs))
      else if plain_char c then sh_words False (Some (unwrap_or w [] @ [c])) cs
      else None)"

lemma sh_words_in_quotes:
  "sh_words True (Some w)
     (replace_char squote [squote, backslash, squote, squote] s @ squote # rest) =
   sh_words False (Some (w @ s)) rest"
  by (induction s arbitrary: w) (auto simp: replace_char_def)

lemma sh_words_quoted [str_simps]:
  "sh_words False w (shell_quote s @ rest) = sh_words False (Some (unwrap_or w [] @ s)) rest"
  by (simp add: shell_quote_def sh_words_in_quotes)

lemma sh_words_args:
  "sh_words False (Some w) (concat (map (\<lambda>a. '' '' @ shell_quote a) args)) = Some (w # args)"
  by (induction args arbitrary: w) (simp_all add: str_simps)

lemma sh_words_plain:
  "\<forall>c\<in>set s. plain_char c \<and> c \<noteq> squote \<and> c \<noteq> backslash \<and> c \<noteq> CHR '' '' \<Longrightarrow> s \<noteq> [] \<or> w \<noteq> None \<Longrightarrow>
   sh_words False w (s @ rest) = sh_words False (Some (unwrap_or w [] @ s)) rest"
  by (induction s arbitrary: w) (auto simp: neq_Nil_conv split: option.splits)

lemma plain_char_not_special:
  "plain_char c \<Longrightarrow> c \<noteq> squote \<and> c \<noteq> backslash \<and> c \<noteq> CHR '' ''"
  by (auto simp: plain_char_def is_ascii_alphanumeric_def is_upper_def is_lower_def is_digit_def
      upper_letters_def lower_letters_def)

section \<open>Every attempt is classified\<close>

definition classified :: "test_result \<Rightarrow> bool" where
  "classified r \<longleftrightarrow>
     coherent r \<and> final_status (tr_status r) \<and> (tr_error r = None \<longleftrightarrow> tr_success r)"

lemma finalized_classified:
  assumes "coherent r" "final_status (tr_status r)" "tr_error r = None"
  shows "classified (if \<not> tr_success r then finalize_failure rx None r else r)"
  using assms finalize_failure_classifies [of r rx None]
  by (auto simp: classified_def rec_simps coherent_def)

lemma run_test_is_classified:
  assumes "run_test rx sha cfg t ae = (evs, Inr r)"
  shows "classified r"
proof (cases "ae_cancelled_before ae")
  case True
  with assms show ?thesis
    using finalized_classified [of "mark_cancelled (ae_mark_elapsed ae) (ae_now ae)
        ''run cancelled before start'' (test_result_new (ae_now ae) (it_name t))" rx]
    by (simp add: run_test_def coherent_def final_status_def mark_cancelled_def test_result_new_def)
next
  case False
  with assms obtain r0 where
    "r = (if \<not> tr_success r0 then finalize_failure rx None r0 else r0)"
    "coherent r0" "final_status (tr_status r0)" "tr_error r0 = None"
    by (auto simp: run_test_def split: execution_backend.splits prod.splits sum.splits
        dest: run_test_docker_status run_test_docker_error
          run_test_local_status run_test_local_error)
  with finalized_classified show ?thesis by blast
qed

section \<open>Sample inputs\<close>

text \<open>Concrete attempts: a pinned installer that passes in Docker, and a tampered local script.\<close>

definition sample_test :: installer_test where
  "sample_test = with_args [''--yes''] (with_sha256 ''abc'' (installer_test_new ''uv'' ''https://x.sh''))"

definition sample_docker :: docker_attempt where
  "sample_docker =
     \<lparr>da_world = sample_world, da_started = 0, da_elapsed = 5,
      da_finished = 5, da_telemetry = None,
      da_exec = Some \<lparr>es_cancelled_before = False, es_create_error = None, es_start = Inr True,
        es_inputs = [OutChunk ''done'', ErrChunk ''CHECKSUM_OK abc''],
        es_exit_code = Inr (Some 0)\<rparr>,
      da_cancelled = False, da_checks = (\<lambda>_. CheckTimedOut)\<rparr>"

definition sample_local :: local_attempt where
  "sample_local =
     \<lparr>la_temp_dir = Inr ''/tmp/a'', la_started = 0, la_elapsed = 5, la_finished = 5,
      la_curl = Inr (Some 0, []), la_download_ms = 1, la_script = Inr ''evil'',
      la_spawn_error = None, la_outcome = LocalTimedOut, la_checks = (\<lambda>_. CheckTimedOut)\<rparr>"

definition sample_attempt :: attempt_env where
  "sample_attempt =
     \<lparr>ae_cancelled_before = False, ae_now = 0, ae_mark_elapsed = 0, ae_docker = sample_docker,
      ae_local = sample_local\<rparr>"

definition sample_container_config :: container_config where
  "sample_container_config = default_container_config\<lparr>cc_image := ''img'', cc_prepare := False\<rparr>"

definition sample_config :: runner_config where
  "sample_config =
     default_runner_config\<lparr>rn_backend := Docker sample_container_config IfNotPresent,
       rn_max_capture_bytes := 0\<rparr>"

definition sample_create :: docker_event where
  "sample_create =
     create_event sample_world
       (attempt_container_config sample_config sample_test sample_container_config) ''uv''
       sample_plan"

lemma sample_docker_pieces:
  "create_container sample_world id (attempt_container_config sample_config sample_test
     sample_container_config) IfNotPresent ''uv'' =
     ([sample_create, EvStart ''c1''], Inr ''c1'')"
  by (simp add: create_container_def ensure_image_def ensure_pulled_def image_plan_of_def
      sample_create_def sample_plan_def)
    (simp add: attempt_container_config_def sample_container_config_def sample_world_def)

lemma sample_exec:
  "fst (exec_in_container_cancellable (the (da_exec sample_docker)) ''c1'' cmd) = [EvExec ''c1'' cmd]"
  "snd (exec_in_container_cancellable (the (da_exec sample_docker)) ''c1'' cmd) =
     Inr (0, ''done'', ''CHECKSUM_OK abc'')"
  by (simp_all add: exec_in_container_cancellable_def sample_docker_def) code_simp

lemma sample_captured:
  "captured literal_rx sample_config ''done'' = ''done''"
  "captured literal_rx sample_config ''CHECKSUM_OK abc'' = ''CHECKSUM_OK abc''"
  by (simp_all add: captured_def sample_config_def bound_capture_def) code_simp+

lemma sample_parse:
  "parse_checksum_result ''CHECKSUM_OK abc'' 0 u (Some ''abc'') ms =
     Some \<lparr>cr_matches = True, cr_expected = ''abc'', cr_actual = ''abc'', cr_url = u,
           cr_download_ms = ms, cr_size_bytes = 0\<rparr>"
proof -
  have "map_option trim (find_map (\<lambda>l. strip_prefix l ''CHECKSUM_OK '') (lines ''CHECKSUM_OK abc'')) =
        Some ''abc''"
    by code_simp
  then have "unwrap_or (map_option trim
      (find_map (\<lambda>l. strip_prefix l ''CHECKSUM_OK '') (lines ''CHECKSUM_OK abc''))) ''abc'' = ''abc''"
    by (simp only: unwrap_or_simps)
  then show ?thesis unfolding parse_checksum_result_def by (simp del: map_option_eq_Some)
qed

definition sample_command :: "string list" where
  "sample_command =
     [''bash'', ''-c'', build_verified_install_script sample_config sample_test]"

lemma sample_docker_run:
  obtains r where "run_test_docker literal_rx id sample_config sample_container_config IfNotPresent
      sample_test sample_docker =
      ([sample_create, EvStart ''c1'', EvExec ''c1'' sample_command,
        EvStop ''c1'' 10, EvRemove ''c1''], Inr r)"
    "tr_status r = Passed" "tr_success r"
proof -
  have pin: "it_expected_sha256 sample_test = Some ''abc''" "it_expect_binary sample_test = None"
    "it_verify_cmd sample_test = None" "it_version_cmd sample_test = None"
    by (simp_all add: sample_test_def with_args_def with_sha256_def installer_test_new_def)
  have exec: "exec_in_container_cancellable (the (da_exec sample_docker)) ''c1'' sample_command =
      ([EvExec ''c1'' sample_command], Inr (0, ''done'', ''CHECKSUM_OK abc''))"
    using sample_exec by (simp add: prod_eq_iff)
  have run: "docker_execute literal_rx sample_config sample_test sample_docker ''c1'' r0 =
      ([EvExec ''c1'' sample_command],
       docker_exec_result literal_rx sample_config sample_test sample_docker 0 ''done''
         ''CHECKSUM_OK abc'' r0)" for r0
    using exec by (auto simp: docker_execute_def sample_command_def sample_docker_def)
  have res: "tr_status (docker_exec_result literal_rx sample_config sample_test sample_docker 0
      ''done'' ''CHECKSUM_OK abc'' r0) = Passed"
    "tr_success (docker_exec_result literal_rx sample_config sample_test sample_docker 0
      ''done'' ''CHECKSUM_OK abc'' r0)" for r0
    by (simp_all add: docker_exec_result_def sample_captured sample_parse pin post_install_def
        check_binary_def check_verify_cmd_def record_version_def with_checksum_result_def Let_def)
  have "da_world sample_docker = sample_world" "it_name sample_test = ''uv''"
    "dw_connect_error sample_world = None"
    by (simp_all add: sample_docker_def sample_world_def sample_test_def with_args_def
        with_sha256_def installer_test_new_def)
  with sample_docker_pieces run res that show thesis
    by (simp add: run_test_docker_def guard_cleanup_def guard_new_def guard_drop_def rec_simps)
qed

lemma sample_run:
  obtains r where "run_test literal_rx id sample_config sample_test sample_attempt =
      ([sample_create, EvStart ''c1'', EvExec ''c1'' sample_command,
        EvStop ''c1'' 10, EvRemove ''c1''], Inr r)"
    "tr_status r = Passed" "tr_success r"
proof -
  obtain r where "run_test_docker literal_rx id sample_config sample_container_config IfNotPresent
      sample_test sample_docker =
      ([sample_create, EvStart ''c1'', EvExec ''c1'' sample_command,
        EvStop ''c1'' 10, EvRemove ''c1''], Inr r)"
    "tr_status r = Passed" "tr_success r"
    by (rule sample_docker_run)
  moreover have "rn_backend sample_config = Docker sample_container_config IfNotPresent"
    "\<not> ae_cancelled_before sample_attempt" "ae_docker sample_attempt = sample_docker"
    by (simp_all add: sample_config_def sample_attempt_def)
  ultimately show thesis using that by (simp add: run_test_def)
qed

section \<open>Properties\<close>

text \<open>
  C36: the outcome of an attempt on either backend. Whatever the daemon, the download, the process
  and the checks answer, a result that comes back has a final status, succeeded exactly when it
  passed, and carries an error classification exactly when it did not pass.
\<close>

theorem run_test_classified:
  assumes "run_test rx sha cfg t ae = (evs, Inr r)"
  shows "(tr_success r \<longleftrightarrow> tr_status r = Passed) \<and>
         (tr_status r = Passed \<or> tr_status r = Failed \<or> tr_status r = TimedOut \<or>
          tr_status r = Cancelled) \<and>
         (tr_error r = None \<longleftrightarrow> tr_success r)"
  using run_test_is_classified [OF assms]
  by (simp add: classified_def coherent_def final_status_def)

theorem run_test_classified_witness:
  "\<exists>evs r. run_test literal_rx id sample_config sample_test sample_attempt = (evs, Inr r) \<and>
     tr_status r = Passed \<and> tr_success r \<and> tr_error r = None"
proof -
  obtain evs r where run: "run_test literal_rx id sample_config sample_test sample_attempt =
      (evs, Inr r)" "tr_status r = Passed" by (rule sample_run)
  with run_test_classified [OF run(1)] show ?thesis by blast
qed

lemma run_test_gated:
  assumes "run_test rx sha cfg t ae = (evs, Inr r)"
  shows "gated (it_expected_sha256 t) r"
proof -
  have fin: "gated pin (if \<not> tr_success r0 then finalize_failure rx None r0 else r0)"
    if "gated pin r0" for pin r0
    using that gated_frame [of "finalize_failure rx None r0" r0 pin] by (simp add: rec_simps)
  show ?thesis
  proof (cases "ae_cancelled_before ae")
    case True
    with assms show ?thesis
      by (auto simp: run_test_def gated_def rec_simps mark_cancelled_def test_result_new_def
          split: option.split)
  next
    case False
    with assms obtain r0 where
      "r = (if \<not> tr_success r0 then finalize_failure rx None r0 else r0)"
      "gated (it_expected_sha256 t) r0"
      by (auto simp: run_test_def split: execution_backend.splits prod.splits sum.splits
          dest: run_test_docker_gated run_test_local_gated)
    with fin show ?thesis by simp
  qed
qed



text \<open>
  a mismatched script is never executed on the local backend. When the downloaded bytes do not
  hash to the pin, the attempt fails with exit code 99 and a mismatch that names the actual hash,
  and nothing about the installer process (whether it spawns, what it prints, what the checks
  answer) can change the result.
\<close>

theorem local_mismatch_never_executes:
  assumes "la_temp_dir la = Inr dir" "la_curl la = Inr (Some 0, err)"
    and "it_expected_sha256 t = Some h" "la_script la = Inr bytes" "sha bytes \<noteq> h"
  shows "run_test_local rx sha cfg t
           (la\<lparr>la_spawn_error := se, la_outcome := oc, la_checks := ck\<rparr>) =
         run_test_local rx sha cfg t la \<and>
         (\<exists>r c. run_test_local rx sha cfg t la = Inr r \<and> tr_status r = Failed \<and>
            tr_exit_code r = Some 99 \<and> tr_checksum_state r = Mismatch \<and>
            tr_checksum_result r = Some c \<and> cr_actual c = sha bytes \<and> cr_expected c = h)"
  using assms
  by (simp add: run_test_local_def local_checksum_def local_early_def with_checksum_result_def)

theorem local_mismatch_never_executes_witness:
  "\<exists>r. run_test_local literal_rx id sample_config sample_test sample_local = Inr r \<and>
     tr_status r = Failed \<and> tr_exit_code r = Some 99 \<and> tr_checksum_state r = Mismatch"
proof -
  have "la_temp_dir sample_local = Inr ''/tmp/a''" "la_curl sample_local = Inr (Some 0, [])"
    "it_expected_sha256 sample_test = Some ''abc''" "la_script sample_local = Inr ''evil''"
    "id ''evil'' \<noteq> ''abc''"
    by (simp_all add: sample_local_def sample_test_def with_args_def with_sha256_def)
  from local_mismatch_never_executes [where sha = id and bytes = "''evil''", OF this]
  show ?thesis by blast
qed

text \<open>
  C37: a container does not outlive its attempt. Once the container was created and started, every
  outcome of the attempt (exit, timeout, cancellation, exec error) ends by stopping and removing it,
  exactly once and as the last calls; the result carries the container's id.
\<close>

theorem docker_container_is_removed:
  assumes "run_test_docker rx sha cfg cc pol t da = (evs, Inr r)"
  shows "\<exists>cid name body pre exe. evs = pre @ [EvCreate name body, EvStart cid] @ exe @
             [EvStop cid 10, EvRemove cid] \<and>
           tr_container_id r = Some cid \<and>
           (\<forall>e\<in>set pre. (\<forall>n b. e \<noteq> EvCreate n b) \<and> (\<forall>c. e \<noteq> EvRemove c)) \<and>
           (\<forall>e\<in>set exe. (\<exists>cmd. e = EvExec cid cmd) \<or> e = EvStop cid 2)"
  using assms
proof (cases rule: run_test_docker_Inr)
  case (1 pre exe cid r')
  from 1(1) obtain pre' plan where pre: "pre = pre' @ [create_event (da_world da)
      (attempt_container_config cfg t cc) (it_name t) plan, EvStart cid]"
    "\<forall>e\<in>set pre'. creates_nothing e"
    by (rule create_container_Inr)
  have "tr_container_id r = Some cid"
    using 1(2,4) docker_execute_container [OF 1(2)] by (simp add: rec_simps)
  with 1(3) pre docker_execute_events [OF 1(2)] show ?thesis
    unfolding creates_nothing_def create_event_def
    by (intro exI [of _ cid] exI [of _ pre'] exI [of _ exe] exI) auto
qed

theorem docker_container_is_removed_witness:
  "\<exists>evs r. run_test_docker literal_rx id sample_config sample_container_config IfNotPresent
     sample_test sample_docker = (evs, Inr r) \<and> tr_container_id r = Some ''c1'' \<and>
     last evs = EvRemove ''c1''"
proof -
  obtain r where run: "run_test_docker literal_rx id sample_config sample_container_config
      IfNotPresent sample_test sample_docker =
      ([sample_create, EvStart ''c1'', EvExec ''c1'' sample_command,
        EvStop ''c1'' 10, EvRemove ''c1''], Inr r)"
    by (rule sample_docker_run)
  obtain cid name body pre exe where "[sample_create, EvStart ''c1'', EvExec ''c1'' sample_command,
      EvStop ''c1'' 10, EvRemove ''c1''] = pre @ [EvCreate name body, EvStart cid] @ exe @ [EvStop cid 10, EvRemove cid]" "tr_container_id r = Some cid"
    using docker_container_is_removed [OF run] by blast
  moreover from this(1) have "last [sample_create, EvStart ''c1'', EvExec ''c1'' sample_command,
      EvStop ''c1'' 10, EvRemove ''c1''] = EvRemove cid" by simp
  ultimately show ?thesis using run by auto
qed

text \<open>
  when the daemon creates the container but fails to start it, the attempt ends in an error
  after the creation and no call ever removes that container: it is left to the reaper of orphans.
\<close>

theorem failed_start_leaks_the_container:
  assumes "dw_connect_error (da_world da) = None"
    and "ensure_image (da_world da) sha (attempt_container_config cfg t cc) pol = (pre, Inr plan)"
    and "dw_create (da_world da) (container_name_of (da_world da) (it_name t)) = Inr cid"
    and "dw_start_error (da_world da) cid = Some e"
  shows "\<exists>name body. run_test_docker rx sha cfg cc pol t da =
           (pre @ [EvCreate name body, EvStart cid],
            Inl [''Failed to create Docker container'', ''Failed to start Docker container'', e]) \<and>
         (\<forall>c. EvRemove c \<notin> set (pre @ [EvCreate name body, EvStart cid]))"
  using assms ensure_image_events [OF assms(2)]
  by (auto simp: run_test_docker_def create_container_def create_event_def creates_nothing_def)

theorem failed_start_leaks_the_container_witness:
  "\<exists>evs e. run_test_docker literal_rx id sample_config sample_container_config IfNotPresent
     sample_test (sample_docker\<lparr>da_world :=
       sample_world\<lparr>dw_start_error := (\<lambda>_. Some ''no runtime'')\<rparr>\<rparr>) = (evs, Inl e) \<and>
     (\<exists>n b. EvCreate n b \<in> set evs) \<and> EvRemove ''c1'' \<notin> set evs"
proof -
  let ?da = "sample_docker\<lparr>da_world := sample_world\<lparr>dw_start_error := (\<lambda>_. Some ''no runtime'')\<rparr>\<rparr>"
  have "dw_connect_error (da_world ?da) = None"
    "ensure_image (da_world ?da) id (attempt_container_config sample_config sample_test
       sample_container_config) IfNotPresent =
       ([], Inr \<lparr>ip_base = ''img'', ip_run_image = ''img'', ip_prepared = False\<rparr>)"
    "dw_create (da_world ?da) (container_name_of (da_world ?da) (it_name sample_test)) = Inr ''c1''"
    "dw_start_error (da_world ?da) ''c1'' = Some ''no runtime''"
    by (simp_all add: sample_world_def ensure_image_def ensure_pulled_def image_plan_of_def
        attempt_container_config_def sample_container_config_def)
  from failed_start_leaks_the_container [OF this] show ?thesis by force
qed

text \<open>
  Quoting is exact: a POSIX shell splits the installer's command line into the interpreter, the
  script path and the arguments, each unchanged, whatever characters path and arguments have.
\<close>

lemma installer_command_words:
  assumes "it_interpreter t \<noteq> []" "\<forall>c\<in>set (it_interpreter t). plain_char c"
  shows "sh_words False None (installer_command cfg t path) =
           Some (it_interpreter t # path # it_args t @
             (if rn_dry_run cfg then [''--dry-run''] else []))"
proof -
  have "sh_words False None (it_interpreter t @ '' '' @ shell_quote path @ rest) =
        map_option ((#) (it_interpreter t)) (sh_words False (Some path) rest)" for rest
    using assms plain_char_not_special
    by (subst sh_words_plain) (auto simp: str_simps)
  then show ?thesis
    unfolding installer_command_def
    by (simp only: sh_words_args) (simp add: installer_args_def)
qed

end
