(* ===== verification/RetryLoop.thy ===== *)
theory RetryLoop
  imports Attempts
begin

text \<open>
  The retry loop of the runner (\<^verbatim>\<open>run_test_with_retry\<close> in \<^verbatim>\<open>src/runner/executor.rs\<close>): which results are
  retried, the attempt history, the backoff between attempts and a cancellation during it. The loop
  runs over \<open>u32\<close> indices and ends because the index stays below the number of attempts.
\<close>

section \<open>The loop\<close>

definition should_retry_result :: "regex_crate \<Rightarrow> test_result \<Rightarrow> bool" where
  "should_retry_result rx r =
     (if tr_success r then False
      else if tr_status r = TimedOut \<or> tr_status r = Cancelled \<or> tr_status r = Skipped then False
      else if (case tr_checksum_result r of Some c \<Rightarrow> \<not> cr_matches c | None \<Rightarrow> False) then False
      else case tr_error r of
             Some c \<Rightarrow> ec_retryable c
           | None \<Rightarrow> ec_retryable (classify_result rx r))"

text \<open>
  What the loop meets: the result of attempt \<open>i\<close> (1-based), the token after it and during the
  backoff that follows, the random number of that backoff and the overall clock.
\<close>

record loop_env =
  le_run :: "u32 \<Rightarrow> anyhow + test_result"
  le_cancelled :: "u32 \<Rightarrow> bool"
  le_cancelled_in_backoff :: "u32 \<Rightarrow> bool"
  le_random :: "u32 \<Rightarrow> rat"
  le_started_at :: instant
  le_elapsed :: "u32 \<Rightarrow> duration"
  le_now :: "u32 \<Rightarrow> instant"

definition attempt_record_of :: "u32 \<Rightarrow> u64 \<Rightarrow> test_result \<Rightarrow> attempt_record" where
  "attempt_record_of i waited r =
     \<lparr>ar_index = i, ar_started_at = tr_started_at r, ar_finished_at = tr_finished_at r,
      ar_status = tr_status r, ar_exit_code = tr_exit_code r, ar_duration_ms = tr_duration_ms r,
      ar_stderr_tail = tail (tr_stderr r) ATTEMPT_STDERR_TAIL_BYTES,
      ar_waited_before_ms = waited\<rparr>"

definition finish_test ::
  "loop_env \<Rightarrow> u32 \<Rightarrow> u32 \<Rightarrow> attempt_record list \<Rightarrow> retry_info list \<Rightarrow> test_result \<Rightarrow> test_result" where
  "finish_test le mx i attempts retries r =
     r\<lparr>tr_last_attempt_ms := tr_duration_ms r, tr_attempt := i, tr_max_attempts := mx,
       tr_attempts := attempts, tr_retries := retries, tr_started_at := le_started_at le,
       tr_duration := le_elapsed le i, tr_duration_ms := as_millis_u64 (le_elapsed le i)\<rparr>"

definition cancel_in_backoff ::
  "regex_crate \<Rightarrow> loop_env \<Rightarrow> u32 \<Rightarrow> u32 \<Rightarrow> attempt_record list \<Rightarrow> retry_info list \<Rightarrow> test_result
    \<Rightarrow> test_result" where
  "cancel_in_backoff rx le mx i attempts retries r =
     (finalize_failure rx None
        (mark_cancelled (le_elapsed le i) (le_now le i) ''cancelled during retry backoff'' r))
       \<lparr>tr_attempt := i, tr_max_attempts := mx, tr_attempts := attempts, tr_retries := retries,
        tr_started_at := le_started_at le\<rparr>"

definition wants_retry :: "regex_crate \<Rightarrow> loop_env \<Rightarrow> u32 \<Rightarrow> u32 \<Rightarrow> test_result \<Rightarrow> bool" where
  "wants_retry rx le mx i r \<longleftrightarrow> i < mx \<and> \<not> le_cancelled le i \<and> should_retry_result rx r"

function retry_loop ::
  "regex_crate \<Rightarrow> f64_ops \<Rightarrow> retry_config \<Rightarrow> loop_env \<Rightarrow> u32 \<Rightarrow> u32 \<Rightarrow> attempt_record list
    \<Rightarrow> retry_info list \<Rightarrow> u64 \<Rightarrow> anyhow + test_result" where
  "retry_loop rx F rc le mx i attempts retries waited =
     (case le_run le i of
        Inl e \<Rightarrow> Inl e
      | Inr r \<Rightarrow>
          let attempts' = attempts @ [attempt_record_of i waited r]
          in if \<not> wants_retry rx le mx i r then Inr (finish_test le mx i attempts' retries r)
             else case delay_with_jitter F rc i RETRY_JITTER_FRACTION (le_random le i) of
               None \<Rightarrow> Inl [''panic'']
             | Some wait \<Rightarrow>
                 let retries' = retries @
                       [\<lparr>ri_attempt = i, ri_error = tail (tr_stderr r) ATTEMPT_STDERR_TAIL_BYTES,
                         ri_wait_ms = as_millis_u64 wait\<rparr>]
                 in if le_cancelled_in_backoff le i
                    then Inr (cancel_in_backoff rx le mx i attempts' retries' r)
                    else retry_loop rx F rc le mx (i + 1) attempts' retries' (as_millis_u64 wait))"
  by pat_completeness auto
termination
  by (relation "measure (\<lambda>(rx, F, rc, le, mx, i, attempts, retries, waited). unat mx - unat i)")
    (auto simp: wants_retry_def unat_Suc_of_less word_less_nat_alt)

declare retry_loop.simps [simp del]

definition run_test_with_retry ::
  "regex_crate \<Rightarrow> f64_ops \<Rightarrow> runner_config \<Rightarrow> installer_test \<Rightarrow> loop_env \<Rightarrow> anyhow + test_result" where
  "run_test_with_retry rx F cfg t le =
     retry_loop rx F (rn_retry cfg) le (max (it_retry_count t) 1) 1 [] [] 0"

section \<open>The attempt history\<close>

text \<open>What the loop has recorded before attempt \<open>i\<close>: one retryable attempt per earlier index.\<close>

definition recorded ::
  "regex_crate \<Rightarrow> loop_env \<Rightarrow> u32 \<Rightarrow> attempt_record list \<Rightarrow> retry_info list \<Rightarrow> u64 \<Rightarrow> bool" where
  "recorded rx le mx attempts retries waited \<longleftrightarrow>
     length retries = length attempts \<and> length attempts < unat mx \<and>
     (\<forall>j<length attempts. \<exists>r. le_run le (of_nat (Suc j)) = Inr r \<and>
        wants_retry rx le mx (of_nat (Suc j)) r \<and>
        attempts ! j = attempt_record_of (of_nat (Suc j))
          (if j = 0 then 0 else ri_wait_ms (retries ! (j - 1))) r \<and>
        ri_attempt (retries ! j) = of_nat (Suc j)) \<and>
     waited = (if retries = [] then 0 else ri_wait_ms (last retries))"

text \<open>
  What a returned result says of the loop: attempt \<open>n\<close> was the last, either it was not to be
  retried, or the run was cancelled in the backoff after it.
\<close>

definition loop_outcome ::
  "regex_crate \<Rightarrow> loop_env \<Rightarrow> u32 \<Rightarrow> nat \<Rightarrow> test_result \<Rightarrow> test_result \<Rightarrow> bool" where
  "loop_outcome rx le mx n rl r \<longleftrightarrow>
     n \<le> unat mx \<and> 0 < n \<and> tr_attempt r = of_nat n \<and> tr_max_attempts r = mx \<and>
     le_run le (of_nat n) = Inr rl \<and> length (tr_attempts r) = n \<and>
     recorded rx le mx (butlast (tr_attempts r)) (take (n - 1) (tr_retries r))
       (ar_waited_before_ms (last (tr_attempts r))) \<and>
     last (tr_attempts r) =
       attempt_record_of (of_nat n) (ar_waited_before_ms (last (tr_attempts r))) rl \<and>
     tr_started_at r = le_started_at le \<and>
     (if wants_retry rx le mx (of_nat n) rl
      then le_cancelled_in_backoff le (of_nat n) \<and> length (tr_retries r) = n \<and>
           r = cancel_in_backoff rx le mx (of_nat n) (tr_attempts r) (tr_retries r) rl
      else length (tr_retries r) = n - 1 \<and>
           r = finish_test le mx (of_nat n) (tr_attempts r) (tr_retries r) rl)"

lemma finish_test_frame [rec_simps]:
  "tr_attempt (finish_test le mx i as rs r) = i"
  "tr_max_attempts (finish_test le mx i as rs r) = mx"
  "tr_attempts (finish_test le mx i as rs r) = as"
  "tr_retries (finish_test le mx i as rs r) = rs"
  "tr_started_at (finish_test le mx i as rs r) = le_started_at le"
  "tr_status (finish_test le mx i as rs r) = tr_status r"
  "tr_success (finish_test le mx i as rs r) = tr_success r"
  "tr_error (finish_test le mx i as rs r) = tr_error r"
  by (simp_all add: finish_test_def)

lemma cancel_in_backoff_frame [rec_simps]:
  "tr_attempt (cancel_in_backoff rx le mx i as rs r) = i"
  "tr_max_attempts (cancel_in_backoff rx le mx i as rs r) = mx"
  "tr_attempts (cancel_in_backoff rx le mx i as rs r) = as"
  "tr_retries (cancel_in_backoff rx le mx i as rs r) = rs"
  "tr_started_at (cancel_in_backoff rx le mx i as rs r) = le_started_at le"
  "tr_status (cancel_in_backoff rx le mx i as rs r) = Cancelled"
  "\<not> tr_success (cancel_in_backoff rx le mx i as rs r)"
  by (simp_all add: cancel_in_backoff_def rec_simps mark_cancelled_def)

lemma cancel_in_backoff_error:
  "tr_error r = Some c \<Longrightarrow> tr_error (cancel_in_backoff rx le mx i as rs r) = Some c"
  by (simp add: cancel_in_backoff_def mark_cancelled_def finalize_failure_keeps_error)

lemma attempt_record_waited [simp]: "ar_waited_before_ms (attempt_record_of i w r) = w"
  by (simp add: attempt_record_of_def)

lemma recorded_snoc:
  assumes "recorded rx le mx as rs w" "i = of_nat (Suc (length as))" "le_run le i = Inr r"
    and "wants_retry rx le mx i r" "ri_attempt info = i"
  shows "recorded rx le mx (as @ [attempt_record_of i w r]) (rs @ [info]) (ri_wait_ms info)"
proof -
  have len: "length rs = length as" and bound: "length as < unat mx"
    and w: "w = (if rs = [] then 0 else ri_wait_ms (last rs))"
    using assms(1) by (simp_all add: recorded_def)
  have "unat i = Suc (length as)"
    using bound assms(2) unsigned_less [of mx, where ?'a = nat]
    by (simp add: unat_of_nat del: of_nat_Suc)
  with assms(4) have "Suc (length as) < unat mx"
    by (simp add: wants_retry_def word_less_nat_alt)
  moreover have "w = (if length as = 0 then 0 else ri_wait_ms (rs ! (length as - 1)))"
    using w len by (auto simp: last_conv_nth)
  ultimately show ?thesis
    using assms len unfolding recorded_def
    by (auto simp: nth_append less_Suc_eq)
qed

lemma retry_loop_outcome:
  assumes "retry_loop rx F rc le mx i as rs w = Inr r"
    and "recorded rx le mx as rs w" "i = of_nat (Suc (length as))"
  shows "\<exists>n rl. loop_outcome rx le mx n rl r"
  using assms
proof (induction rx F rc le mx i as rs w rule: retry_loop.induct)
  case (1 rx F rc le mx i as rs w)
  note rec = "1.prems"(2) and i = "1.prems"(3)
  have len: "length rs = length as" "Suc (length as) \<le> unat mx"
    using rec by (auto simp: recorded_def)
  from "1.prems"(1) obtain ri where run: "le_run le i = Inr ri"
    by (auto simp: retry_loop.simps [of rx F rc le mx i] split: sum.splits)
  let ?as = "as @ [attempt_record_of i w ri]"
  show ?case
  proof (cases "wants_retry rx le mx i ri")
    case False
    with "1.prems"(1) run have "r = finish_test le mx i ?as rs ri"
      by (simp add: retry_loop.simps [of rx F rc le mx i])
    with False run rec i len have "loop_outcome rx le mx (Suc (length as)) ri r"
      by (simp add: loop_outcome_def rec_simps)
    then show ?thesis by blast
  next
    case True
    with "1.prems"(1) run obtain wait where
      wait: "delay_with_jitter F rc i RETRY_JITTER_FRACTION (le_random le i) = Some wait"
      by (auto simp: retry_loop.simps [of rx F rc le mx i] Let_def split: option.splits)
    let ?info = "\<lparr>ri_attempt = i, ri_error = tail (tr_stderr ri) ATTEMPT_STDERR_TAIL_BYTES,
                  ri_wait_ms = as_millis_u64 wait\<rparr>"
    show ?thesis
    proof (cases "le_cancelled_in_backoff le i")
      case cancelled: True
      with "1.prems"(1) run wait True have "r = cancel_in_backoff rx le mx i ?as (rs @ [?info]) ri"
        by (simp add: retry_loop.simps [of rx F rc le mx i])
      with True cancelled run rec i len have "loop_outcome rx le mx (Suc (length as)) ri r"
        by (simp add: loop_outcome_def rec_simps)
      then show ?thesis by blast
    next
      case False
      with "1.prems"(1) run wait True have
        "retry_loop rx F rc le mx (i + 1) ?as (rs @ [?info]) (as_millis_u64 wait) = Inr r"
        by (simp add: retry_loop.simps [of rx F rc le mx i])
      moreover have "recorded rx le mx ?as (rs @ [?info]) (as_millis_u64 wait)"
        using recorded_snoc [OF rec i run True, of ?info] by simp
      ultimately show ?thesis
        using "1.IH" [OF run refl _ wait refl False] True i by simp
    qed
  qed
qed

lemma run_test_with_retry_outcome:
  assumes "run_test_with_retry rx F cfg t le = Inr r"
  shows "\<exists>n rl. loop_outcome rx le (max (it_retry_count t) 1) n rl r"
proof -
  have "0 < unat (max (it_retry_count t) 1)"
    by (auto simp: max_def unat_gt_0)
  then have "recorded rx le (max (it_retry_count t) 1) [] [] 0"
    by (simp add: recorded_def)
  with assms show ?thesis
    by (auto simp: run_test_with_retry_def intro: retry_loop_outcome)
qed

section \<open>Interfaces\<close>

text \<open>
  What the loop needs of the runner it drives: every result of an attempt is classified. The
  attempt of theory \<open>Attempts\<close> provides it, on either backend.
\<close>

locale attempt_runner =
  fixes run :: "u32 \<Rightarrow> anyhow + test_result"
  assumes run_classified: "run i = Inr r \<Longrightarrow> classified r"
begin

lemma retried_attempt:
  assumes "run i = Inr r" "wants_retry rx le mx i r"
  shows "tr_status r = Failed \<and> (\<exists>c. tr_error r = Some c \<and> ec_retryable c)"
  using run_classified [OF assms(1)] assms(2)
  by (auto simp: wants_retry_def should_retry_result_def classified_def coherent_def
      final_status_def split: if_splits option.splits)

lemma outcome_classified:
  assumes "le_run le = run" "loop_outcome rx le mx n rl r"
  shows "classified r"
proof (cases "wants_retry rx le mx (of_nat n) rl")
  case True
  have run: "run (of_nat n) = Inr rl" using assms by (simp add: loop_outcome_def)
  from retried_attempt [OF run True] obtain c where "tr_error rl = Some c" by auto
  then have "tr_error (cancel_in_backoff rx le mx (of_nat n) as rs rl) = Some c" for as rs
    by (rule cancel_in_backoff_error)
  with True assms(2) have "tr_error r = Some c" "tr_status r = Cancelled" "\<not> tr_success r"
    using cancel_in_backoff_frame unfolding loop_outcome_def by metis+
  then show ?thesis by (simp add: classified_def coherent_def final_status_def)
next
  case False
  have run: "run (of_nat n) = Inr rl" using assms by (simp add: loop_outcome_def)
  from False assms(2) have
    "tr_error r = tr_error rl" "tr_status r = tr_status rl" "tr_success r = tr_success rl"
    using finish_test_frame unfolding loop_outcome_def by metis+
  with run_classified [OF run] show ?thesis by (simp add: classified_def coherent_def)
qed

end

definition runner_attempts ::
  "regex_crate \<Rightarrow> (string \<Rightarrow> string) \<Rightarrow> runner_config \<Rightarrow> installer_test \<Rightarrow> (u32 \<Rightarrow> attempt_env)
    \<Rightarrow> u32 \<Rightarrow> anyhow + test_result" where
  "runner_attempts rx sha cfg t env i = snd (run_test rx sha cfg t (env i))"

interpretation attempts: attempt_runner "runner_attempts rx sha cfg t env" for rx sha cfg t env
proof
  show "classified r" if "runner_attempts rx sha cfg t env i = Inr r" for i r
    using that run_test_is_classified [of rx sha cfg t "env i" "fst (run_test rx sha cfg t (env i))" r]
    by (simp add: runner_attempts_def prod_eq_iff)
qed

lemma retried_result_classified:
  "run_test_with_retry rx F cfg t le = Inr r \<Longrightarrow> le_run le = runner_attempts rx sha cfg t env \<Longrightarrow>
   classified r"
  using run_test_with_retry_outcome attempts.outcome_classified by blast

text \<open>What the loop needs of the backoff schedule: a wait for every attempt, never a panic.\<close>

locale backoff_schedule =
  fixes wait :: "u32 \<Rightarrow> rat \<Rightarrow> duration option"
  assumes wait_exists: "0 \<le> rnd \<Longrightarrow> rnd \<le> 1 \<Longrightarrow> \<exists>d. wait i rnd = Some d"
begin

lemma loop_returns:
  assumes wait: "wait = (\<lambda>i. delay_with_jitter F rc i RETRY_JITTER_FRACTION)"
    and rnd: "\<And>j. 0 \<le> le_random le j \<and> le_random le j \<le> 1"
    and "\<And>j. i \<le> j \<Longrightarrow> j < n \<Longrightarrow> \<exists>r. le_run le j = Inr r \<and> wants_retry rx le mx j r \<and>
           \<not> le_cancelled_in_backoff le j"
    and "le_run le n = Inr rn" "\<not> wants_retry rx le mx n rn" "i \<le> n"
  shows "\<exists>as rs. retry_loop rx F rc le mx i atts rets w = Inr (finish_test le mx n as rs rn)"
  using assms(3-6)
proof (induction "unat n - unat i" arbitrary: i atts rets w)
  case 0
  then have "i = n" by (simp add: word_le_nat_alt word_unat_eq_iff)
  with "0.prems" show ?case by (auto simp: retry_loop.simps [of rx F rc le mx n])
next
  case (Suc k)
  have less: "i < n" using Suc.hyps(2) by (simp add: word_less_nat_alt)
  then have next_i: "unat (i + 1) = Suc (unat i)" by (rule unat_Suc_of_less)
  with less have le: "i + 1 \<le> n" by (simp add: word_le_nat_alt word_less_nat_alt)
  have later: "\<exists>r. le_run le j = Inr r \<and> wants_retry rx le mx j r \<and> \<not> le_cancelled_in_backoff le j"
    if "i + 1 \<le> j" "j < n" for j
    using Suc.prems(1) [of j] that next_i by (simp add: word_le_nat_alt)
  obtain r where r: "le_run le i = Inr r" "wants_retry rx le mx i r" "\<not> le_cancelled_in_backoff le i"
    using Suc.prems(1) [of i] less by auto
  obtain d where "delay_with_jitter F rc i RETRY_JITTER_FRACTION (le_random le i) = Some d"
    using wait_exists [of "le_random le i" i] rnd [of i] by (auto simp: wait)
  with r have "retry_loop rx F rc le mx i atts rets w =
      retry_loop rx F rc le mx (i + 1) (atts @ [attempt_record_of i w r])
        (rets @ [\<lparr>ri_attempt = i, ri_error = tail (tr_stderr r) ATTEMPT_STDERR_TAIL_BYTES,
                  ri_wait_ms = as_millis_u64 d\<rparr>]) (as_millis_u64 d)"
    by (simp add: retry_loop.simps [of rx F rc le mx i])
  with Suc.hyps(1) [of "i + 1"] Suc.hyps(2) later Suc.prems(2,3) le next_i show ?case by simp
qed

end

lemma executor_schedule:
  assumes "ieee64 F"
  shows "backoff_schedule (\<lambda>i. delay_with_jitter F (executor_default k) i RETRY_JITTER_FRACTION)"
proof
  show "\<exists>d. delay_with_jitter F (executor_default k) i RETRY_JITTER_FRACTION rnd = Some d"
    if "0 \<le> rnd" "rnd \<le> 1" for rnd i
    using executor_jitter [OF assms that, of k i] by (auto simp: RETRY_JITTER_FRACTION_def)
qed

interpretation exact_schedule: backoff_schedule
  "\<lambda>i. delay_with_jitter exact_f64 (executor_default k) i RETRY_JITTER_FRACTION" for k
  by (rule executor_schedule [OF ieee64_exact])

section \<open>Sample inputs\<close>

definition sample_failure :: test_result where
  "sample_failure =
     (test_result_new 0 ''uv'')\<lparr>tr_status := Failed, tr_error := Some
       \<lparr>ec_severity = Transient, ec_category = ''network'', ec_suggestion = None,
        ec_retryable = True, ec_confidence = 1\<rparr>\<rparr>"

definition sample_pass :: test_result where
  "sample_pass = passed 9 (test_result_new 8 ''uv'')"

lemma sample_pass_frame: "tr_success sample_pass" "tr_status sample_pass = Passed"
  by (simp_all add: sample_pass_def passed_def stamp_finished_def Let_def)

definition sample_loop :: "bool \<Rightarrow> loop_env" where
  \<comment> \<open>a transient failure, then a pass; the flag cancels every backoff\<close>
  "sample_loop cancel =
     \<lparr>le_run = (\<lambda>i. Inr (if i = 1 then sample_failure else sample_pass)),
      le_cancelled = (\<lambda>_. False), le_cancelled_in_backoff = (\<lambda>_. cancel),
      le_random = (\<lambda>_. 1/2), le_started_at = 0, le_elapsed = (\<lambda>_. 9), le_now = (\<lambda>_. 9)\<rparr>"

definition sample_runs :: loop_env where
  "sample_runs = (sample_loop False)\<lparr>le_run :=
     runner_attempts literal_rx id sample_config sample_test (\<lambda>_. sample_attempt)\<rparr>"

lemma sample_loop_fields:
  "le_run (sample_loop c) 1 = Inr sample_failure" "le_run (sample_loop c) 2 = Inr sample_pass"
  "le_cancelled_in_backoff (sample_loop c) i = c" "le_random (sample_loop c) i = 1/2"
  by (simp_all add: sample_loop_def)

lemma sample_wants_retry:
  "wants_retry rx (sample_loop c) 3 1 sample_failure"
  "\<not> wants_retry rx (sample_loop c) 3 2 sample_pass"
  by (simp_all add: wants_retry_def sample_loop_def should_retry_result_def sample_failure_def
      test_result_new_def sample_pass_frame)

lemma sample_retry_count: "max (it_retry_count sample_test) 1 = 3"
  "rn_retry sample_config = executor_default 3"
  by (simp_all add: sample_test_def with_args_def with_sha256_def installer_test_new_def max_def
      word_le_nat_alt sample_config_def default_runner_config_def)

section \<open>Properties\<close>

text \<open>
  C2: the attempt history of a returned result. The loop made between one and
  \<open>max retry_count 1\<close> attempts, numbered 1, 2, ..; every attempt but the last failed with a
  retryable classification and was followed by a recorded wait; the last one either was not to be
  retried and decides status and classification, or the run was cancelled in the backoff after it.
  Whatever happened, the result is final and classified.
\<close>

theorem retry_history:
  assumes "run_test_with_retry rx F cfg t le = Inr r" "le_run le = runner_attempts rx sha cfg t env"
  defines "mx \<equiv> max (it_retry_count t) 1"
  shows "classified r \<and> tr_max_attempts r = mx \<and>
    (\<exists>n rl. 0 < n \<and> n \<le> unat mx \<and> tr_attempt r = of_nat n \<and> length (tr_attempts r) = n \<and>
      le_run le (of_nat n) = Inr rl \<and>
      (\<forall>j<n - 1. \<exists>rj c. le_run le (of_nat (Suc j)) = Inr rj \<and> tr_status rj = Failed \<and>
         tr_error rj = Some c \<and> ec_retryable c \<and>
         ar_index (tr_attempts r ! j) = of_nat (Suc j) \<and>
         ar_status (tr_attempts r ! j) = Failed) \<and>
      (if wants_retry rx le mx (of_nat n) rl
       then tr_status r = Cancelled \<and> length (tr_retries r) = n
       else tr_status r = tr_status rl \<and> tr_error r = tr_error rl \<and>
            length (tr_retries r) = n - 1))"
proof -
  obtain n rl where out: "loop_outcome rx le mx n rl r"
    using run_test_with_retry_outcome [OF assms(1)] mx_def by blast
  have early: "\<exists>rj c. le_run le (of_nat (Suc j)) = Inr rj \<and> tr_status rj = Failed \<and>
      tr_error rj = Some c \<and> ec_retryable c \<and> ar_index (tr_attempts r ! j) = of_nat (Suc j) \<and>
      ar_status (tr_attempts r ! j) = Failed" if "j < n - 1" for j
  proof -
    from out that obtain rj w where rj: "le_run le (of_nat (Suc j)) = Inr rj"
      "wants_retry rx le mx (of_nat (Suc j)) rj"
      "butlast (tr_attempts r) ! j = attempt_record_of (of_nat (Suc j)) w rj"
      unfolding loop_outcome_def recorded_def by (metis length_butlast)
    moreover have "tr_attempts r ! j = butlast (tr_attempts r) ! j"
      using out that by (simp add: nth_butlast loop_outcome_def)
    ultimately show ?thesis
      using attempts.retried_attempt [of rx sha cfg t env "of_nat (Suc j)" rj] assms(2)
      by (auto simp: attempt_record_of_def)
  qed
  have "classified r" by (rule attempts.outcome_classified [OF assms(2) out])
  moreover have "if wants_retry rx le mx (of_nat n) rl
       then tr_status r = Cancelled \<and> length (tr_retries r) = n
       else tr_status r = tr_status rl \<and> tr_error r = tr_error rl \<and> length (tr_retries r) = n - 1"
    using out cancel_in_backoff_frame finish_test_frame unfolding loop_outcome_def by metis
  ultimately show ?thesis using out early by (auto simp: loop_outcome_def)
qed

theorem retry_history_witness:
  "\<exists>r. run_test_with_retry literal_rx exact_f64 sample_config sample_test sample_runs = Inr r \<and>
     classified r \<and> tr_max_attempts r = 3"
proof -
  obtain evs r0 where run: "run_test literal_rx id sample_config sample_test sample_attempt =
      (evs, Inr r0)" "tr_success r0" by (rule sample_run)
  then have "le_run sample_runs 1 = Inr r0" "\<not> wants_retry literal_rx sample_runs 3 1 r0"
    by (simp_all add: sample_runs_def runner_attempts_def wants_retry_def should_retry_result_def)
  then obtain r where r: "run_test_with_retry literal_rx exact_f64 sample_config sample_test
      sample_runs = Inr r"
    by (simp add: run_test_with_retry_def sample_retry_count retry_loop.simps [of _ _ _ _ _ 1])
  have le: "le_run sample_runs =
      runner_attempts literal_rx id sample_config sample_test (\<lambda>_. sample_attempt)"
    by (simp add: sample_runs_def)
  from retry_history [OF r le] r show ?thesis by (auto simp: sample_retry_count)
qed

text \<open>
  C3: the loop gets there. With the executor's schedule, IEEE rounding and random numbers between 0
  and 1, when attempt \<open>n\<close> is the first that is not to be retried and no backoff before it is
  cancelled, the loop returns (no panic, no error) after exactly \<open>n\<close> attempts with that attempt's
  verdict. In particular an installer that passes at its \<open>n\<close>-th attempt is reported as passed.
\<close>

theorem retries_until_decided:
  assumes "ieee64 F" "rn_retry cfg = executor_default k"
    and "\<And>j. 0 \<le> le_random le j \<and> le_random le j \<le> 1"
    and "\<And>j. 1 \<le> j \<Longrightarrow> j < n \<Longrightarrow> \<exists>r. le_run le j = Inr r \<and>
           wants_retry rx le (max (it_retry_count t) 1) j r \<and> \<not> le_cancelled_in_backoff le j"
    and "le_run le n = Inr rn" "\<not> wants_retry rx le (max (it_retry_count t) 1) n rn" "1 \<le> n"
  shows "\<exists>r. run_test_with_retry rx F cfg t le = Inr r \<and> tr_attempt r = n \<and>
           tr_status r = tr_status rn \<and> tr_success r = tr_success rn \<and> tr_error r = tr_error rn"
proof -
  obtain as rs where "retry_loop rx F (executor_default k) le (max (it_retry_count t) 1) 1 [] [] 0 =
      Inr (finish_test le (max (it_retry_count t) 1) n as rs rn)"
    using backoff_schedule.loop_returns [OF executor_schedule [OF assms(1)] refl assms(3-7)] by blast
  with assms(2) show ?thesis by (simp add: run_test_with_retry_def rec_simps)
qed

theorem retries_until_decided_witness:
  "\<exists>r. run_test_with_retry literal_rx exact_f64 sample_config sample_test (sample_loop False) =
     Inr r \<and> tr_attempt r = 2 \<and> tr_status r = Passed"
proof -
  have "\<exists>r. le_run (sample_loop False) j = Inr r \<and>
      wants_retry literal_rx (sample_loop False) (max (it_retry_count sample_test) 1) j r \<and>
      \<not> le_cancelled_in_backoff (sample_loop False) j" if "1 \<le> j" "j < 2" for j
  proof -
    have "unat j = 1" using that by (simp add: word_less_nat_alt word_le_nat_alt)
    then have "j = 1" by (simp add: word_unat_eq_iff)
    with sample_wants_retry(1) show ?thesis
      by (simp add: sample_retry_count sample_loop_fields)
  qed
  from retries_until_decided [OF ieee64_exact sample_retry_count(2), of "sample_loop False" 2,
      OF _ this, of sample_pass] sample_wants_retry(2)
  show ?thesis by (simp add: sample_retry_count sample_loop_fields sample_pass_frame) blast
qed

text \<open>
  a run cancelled during a backoff is reported as cancelled, but keeps the classification of the
  attempt before it: the classifier is asked again, and does nothing because the result already
  carries an error. So a cancelled result may say it is retryable and name the transient category.
\<close>

theorem backoff_cancellation_keeps_the_class:
  assumes "le_run le 1 = Inr r1" "tr_error r1 = Some c"
    and "wants_retry rx le (max (it_retry_count t) 1) 1 r1"
    and "delay_with_jitter F (rn_retry cfg) 1 RETRY_JITTER_FRACTION (le_random le 1) = Some d"
    and "le_cancelled_in_backoff le 1"
  shows "\<exists>r. run_test_with_retry rx F cfg t le = Inr r \<and> tr_status r = Cancelled \<and>
           tr_error r = Some c \<and> ec_retryable c"
proof -
  have "ec_retryable c"
    using assms(2,3) by (auto simp: wants_retry_def should_retry_result_def split: if_splits)
  moreover have "\<exists>as rs. run_test_with_retry rx F cfg t le =
      Inr (cancel_in_backoff rx le (max (it_retry_count t) 1) 1 as rs r1)"
    using assms by (auto simp: run_test_with_retry_def retry_loop.simps [of _ _ _ _ _ 1])
  ultimately show ?thesis using cancel_in_backoff_error [OF assms(2)] by (auto simp: rec_simps)
qed

theorem backoff_cancellation_keeps_the_class_witness:
  "\<exists>r c. run_test_with_retry literal_rx exact_f64 sample_config sample_test (sample_loop True) =
     Inr r \<and> tr_status r = Cancelled \<and> tr_error r = Some c \<and> ec_category c = ''network'' \<and>
     ec_retryable c"
proof -
  obtain d where "delay_with_jitter exact_f64 (executor_default 3) 1 RETRY_JITTER_FRACTION (1/2) =
      Some d"
    using exact_schedule.wait_exists [of "1/2"] by auto
  with backoff_cancellation_keeps_the_class [of "sample_loop True" sample_failure _ literal_rx
      sample_test exact_f64 sample_config d] sample_wants_retry(1)
  have "\<exists>r. run_test_with_retry literal_rx exact_f64 sample_config sample_test (sample_loop True) =
      Inr r \<and> tr_status r = Cancelled \<and> tr_error r = tr_error sample_failure"
    by (simp add: sample_retry_count sample_loop_fields) (simp add: sample_failure_def)
  then show ?thesis by (auto simp: sample_failure_def)
qed

end
