(* ===== verification/Parallel.thy ===== *)
theory Parallel
  imports RetryLoop
begin

text \<open>
  The worker pool (\<^verbatim>\<open>src/runner/parallel.rs\<close>): one task per test, a semaphore that bounds how many
  run, the run's cancellation token and the pool's child token that fail-fast cancels. The tasks
  interleave: a step relation gives every atomic action of a task, and the signal that cancels the
  run may come between any two. What a test's run returns is a parameter, the executor's retry
  loop one instance.
\<close>

section \<open>Results a worker makes itself\<close>

definition cancelled_before_start ::
  "regex_crate \<Rightarrow> instant \<Rightarrow> installer_test \<Rightarrow> test_result" where
  "cancelled_before_start rx now t =
     finalize_failure rx None
       (cancelled now (CANCELLED_MARKER @ '' before start'') (test_result_new now (it_name t)))"

definition skipped_by_fail_fast :: "instant \<Rightarrow> installer_test \<Rightarrow> test_result" where
  "skipped_by_fail_fast now t =
     skipped now ''Skipped due to fail-fast'' (test_result_new now (it_name t))"

definition worker_result ::
  "regex_crate \<Rightarrow> instant \<Rightarrow> installer_test \<Rightarrow> anyhow + test_result \<Rightarrow> test_result" where
  "worker_result rx now t outcome =
     (case outcome of
        Inr r \<Rightarrow> r
      | Inl e \<Rightarrow>
          finalize_failure rx None
            (failed now (-1) (''Execution error: '' @ err_msg e) (test_result_new now (it_name t))))"

definition triggers_fail_fast :: "bool \<Rightarrow> test_result \<Rightarrow> bool" where
  "triggers_fail_fast fail_fast r \<longleftrightarrow> fail_fast \<and> \<not> tr_success r \<and> tr_status r \<noteq> Cancelled"

section \<open>The pool\<close>

datatype task_state =
  Queued          \<comment> \<open>waiting for a permit\<close>
| Permitted       \<comment> \<open>holds a permit, nothing checked\<close>
| RunChecked      \<comment> \<open>the run token was not cancelled\<close>
| InFlight        \<comment> \<open>\<open>run_test_with_retry\<close> is running\<close>
| Done test_result
| Panicked

record pool_config =
  pl_tests :: "installer_test list"
  pl_max :: usize
  pl_fail_fast :: bool
  pl_rx :: regex_crate
  pl_now :: "nat \<Rightarrow> instant" \<comment> \<open>the clock a task reads\<close>
  pl_run :: "nat \<Rightarrow> anyhow + test_result \<Rightarrow> bool" \<comment> \<open>what the run of a test may return\<close>

record pool =
  po_tasks :: "task_state list"
  po_permits :: nat
  po_run_cancelled :: bool
  po_pool_cancelled :: bool

definition max_parallel :: "pool_config \<Rightarrow> usize" where
  "max_parallel cfg = max (pl_max cfg) 1"

definition pool_init :: "pool_config \<Rightarrow> pool" where
  "pool_init cfg =
     \<lparr>po_tasks = replicate (length (pl_tests cfg)) Queued, po_permits = max_parallel cfg,
      po_run_cancelled = False, po_pool_cancelled = False\<rparr>"

definition set_task :: "nat \<Rightarrow> task_state \<Rightarrow> pool \<Rightarrow> pool" where
  "set_task i ts s = s\<lparr>po_tasks := (po_tasks s)[i := ts]\<rparr>"

definition release :: "pool \<Rightarrow> pool" where
  "release s = s\<lparr>po_permits := Suc (po_permits s)\<rparr>"

abbreviation task_at :: "pool \<Rightarrow> nat \<Rightarrow> task_state \<Rightarrow> bool" where
  "task_at s i ts \<equiv> i < length (po_tasks s) \<and> po_tasks s ! i = ts"

inductive pool_step :: "pool_config \<Rightarrow> pool \<Rightarrow> pool \<Rightarrow> bool" for cfg where
  acquire: "task_at s i Queued \<Longrightarrow> po_permits s = Suc n \<Longrightarrow>
     pool_step cfg s (set_task i Permitted (s\<lparr>po_permits := n\<rparr>))"
| run_cancelled: "task_at s i Permitted \<Longrightarrow> po_run_cancelled s \<Longrightarrow>
     pool_step cfg s
       (release (set_task i
          (Done (cancelled_before_start (pl_rx cfg) (pl_now cfg i) (pl_tests cfg ! i))) s))"
| run_ok: "task_at s i Permitted \<Longrightarrow> \<not> po_run_cancelled s \<Longrightarrow> pool_step cfg s (set_task i RunChecked s)"
| skip: "task_at s i RunChecked \<Longrightarrow> po_pool_cancelled s \<Longrightarrow>
     pool_step cfg s
       (release (set_task i (Done (skipped_by_fail_fast (pl_now cfg i) (pl_tests cfg ! i))) s))"
| start: "task_at s i RunChecked \<Longrightarrow> \<not> po_pool_cancelled s \<Longrightarrow> pool_step cfg s (set_task i InFlight s)"
| finish: "task_at s i InFlight \<Longrightarrow> pl_run cfg i outcome \<Longrightarrow>
     r = worker_result (pl_rx cfg) (pl_now cfg i) (pl_tests cfg ! i) outcome \<Longrightarrow>
     pool_step cfg s
       (release (set_task i (Done r)
          (s\<lparr>po_pool_cancelled := po_pool_cancelled s \<or> triggers_fail_fast (pl_fail_fast cfg) r\<rparr>)))"
| panic: "task_at s i InFlight \<Longrightarrow> pool_step cfg s (release (set_task i Panicked s))"
| signal: "\<not> po_run_cancelled s \<Longrightarrow>
     pool_step cfg s (s\<lparr>po_run_cancelled := True, po_pool_cancelled := True\<rparr>)"

inductive pool_reachable :: "pool_config \<Rightarrow> pool \<Rightarrow> bool" for cfg where
  init: "pool_reachable cfg (pool_init cfg)"
| step: "pool_reachable cfg s \<Longrightarrow> pool_step cfg s s' \<Longrightarrow> pool_reachable cfg s'"

definition finished_task :: "task_state \<Rightarrow> bool" where
  "finished_task ts \<longleftrightarrow> ts = Panicked \<or> (\<exists>r. ts = Done r)"

text \<open>\<open>run_all\<close> joins the handles in submission order; a panicked worker gives no result.\<close>

definition result_of :: "task_state \<Rightarrow> test_result option" where
  "result_of ts = (case ts of Done r \<Rightarrow> Some r | _ \<Rightarrow> None)"

definition run_all :: "pool \<Rightarrow> test_result list option" where
  "run_all s =
     (if list_all finished_task (po_tasks s)
      then Some (List.map_filter result_of (po_tasks s)) else None)"

section \<open>Invariants\<close>

definition holds_permit :: "task_state \<Rightarrow> bool" where
  "holds_permit ts \<longleftrightarrow> ts = Permitted \<or> ts = RunChecked \<or> ts = InFlight"

lemma task_simps [simp]:
  "holds_permit Permitted" "holds_permit RunChecked" "holds_permit InFlight"
  "\<not> holds_permit Queued" "\<not> holds_permit (Done r)" "\<not> holds_permit Panicked"
  "finished_task (Done r)" "finished_task Panicked"
  "\<not> finished_task Queued" "\<not> finished_task Permitted" "\<not> finished_task RunChecked"
  "\<not> finished_task InFlight"
  "result_of (Done r) = Some r" "result_of Panicked = None"
  by (simp_all add: holds_permit_def finished_task_def result_of_def)

lemma pool_simps [simp]:
  "po_tasks (set_task i ts s) = (po_tasks s)[i := ts]"
  "po_permits (set_task i ts s) = po_permits s"
  "po_run_cancelled (set_task i ts s) = po_run_cancelled s"
  "po_pool_cancelled (set_task i ts s) = po_pool_cancelled s"
  "po_tasks (release s) = po_tasks s" "po_permits (release s) = Suc (po_permits s)"
  "po_run_cancelled (release s) = po_run_cancelled s"
  "po_pool_cancelled (release s) = po_pool_cancelled s"
  by (simp_all add: set_task_def release_def)

definition holders :: "pool \<Rightarrow> nat" where
  "holders s = length (filter holds_permit (po_tasks s))"

lemma filter_update:
  "i < length xs \<Longrightarrow>
     length (filter P (xs[i := x])) + (if P (xs ! i) then 1 else 0) =
     length (filter P xs) + (if P x then 1 else 0)"
proof -
  assume i: "i < length xs"
  then have "filter P xs = filter P (take i xs) @ filter P (xs ! i # drop (Suc i) xs)"
    by (metis filter_append id_take_nth_drop)
  moreover have "filter P (xs[i := x]) = filter P (take i xs) @ filter P (x # drop (Suc i) xs)"
    using i by (simp add: upd_conv_take_nth_drop)
  ultimately show ?thesis by simp
qed

lemma holders_set_task:
  assumes "task_at s i ts"
  shows "holders (set_task i ts' s) + (if holds_permit ts then 1 else 0) =
           holders s + (if holds_permit ts' then 1 else 0)"
  using assms filter_update [of i "po_tasks s" holds_permit ts'] by (simp add: holders_def)

lemma holders_frame [simp]:
  "holders (release s) = holders s"
  "holders (s\<lparr>po_permits := n\<rparr>) = holders s"
  "holders (s\<lparr>po_pool_cancelled := b\<rparr>) = holders s"
  "holders (s\<lparr>po_run_cancelled := b, po_pool_cancelled := c\<rparr>) = holders s"
  "holders (set_task i ts (s\<lparr>po_permits := n\<rparr>)) = holders (set_task i ts s)"
  "holders (set_task i ts (s\<lparr>po_pool_cancelled := b\<rparr>)) = holders (set_task i ts s)"
  by (simp_all add: holders_def)

lemma permits_conserved:
  "pool_reachable cfg s \<Longrightarrow> po_permits s + holders s = max_parallel cfg"
proof (induction rule: pool_reachable.induct)
  case init
  then show ?case by (simp add: pool_init_def holders_def)
next
  case (step s s')
  from step.hyps(2) show ?case
  proof (cases rule: pool_step.cases)
    case (acquire i n)
    with step.IH holders_set_task [of i s Queued Permitted] show ?thesis by simp
  next
    case (run_cancelled i)
    then show ?thesis
      using step.IH holders_set_task [of i s Permitted
          "Done (cancelled_before_start (pl_rx cfg) (pl_now cfg i) (pl_tests cfg ! i))"] by simp
  next
    case (run_ok i)
    with step.IH holders_set_task [of i s Permitted RunChecked] show ?thesis by simp
  next
    case (skip i)
    then show ?thesis
      using step.IH holders_set_task [of i s RunChecked
          "Done (skipped_by_fail_fast (pl_now cfg i) (pl_tests cfg ! i))"] by simp
  next
    case (start i)
    with step.IH holders_set_task [of i s RunChecked InFlight] show ?thesis by simp
  next
    case (finish i outcome r)
    with step.IH holders_set_task [of i s InFlight "Done r"] show ?thesis by simp
  next
    case (panic i)
    with step.IH holders_set_task [of i s InFlight Panicked] show ?thesis by simp
  next
    case signal
    with step.IH show ?thesis by (simp add: holders_def)
  qed
qed

text \<open>What is true of every finished task and of the pool's token.\<close>

definition own_result :: "pool_config \<Rightarrow> nat \<Rightarrow> test_result \<Rightarrow> bool" where
  \<comment> \<open>the result comes from a run of the test, an error of that run included\<close>
  "own_result cfg i r \<longleftrightarrow>
     (\<exists>out. pl_run cfg i out \<and>
        r = worker_result (pl_rx cfg) (pl_now cfg i) (pl_tests cfg ! i) out)"

definition explained :: "pool_config \<Rightarrow> pool \<Rightarrow> nat \<Rightarrow> test_result \<Rightarrow> bool" where
  "explained cfg s i r \<longleftrightarrow>
     own_result cfg i r \<or>
     (po_run_cancelled s \<and> r = cancelled_before_start (pl_rx cfg) (pl_now cfg i) (pl_tests cfg ! i)) \<or>
     (po_pool_cancelled s \<and> r = skipped_by_fail_fast (pl_now cfg i) (pl_tests cfg ! i))"

definition pool_inv :: "pool_config \<Rightarrow> pool \<Rightarrow> bool" where
  "pool_inv cfg s \<longleftrightarrow>
     length (po_tasks s) = length (pl_tests cfg) \<and>
     (\<forall>i r. task_at s i (Done r) \<longrightarrow> explained cfg s i r) \<and>
     (po_run_cancelled s \<longrightarrow> po_pool_cancelled s) \<and>
     (po_pool_cancelled s \<longrightarrow> po_run_cancelled s \<or>
        (\<exists>i r. task_at s i (Done r) \<and> own_result cfg i r \<and> triggers_fail_fast (pl_fail_fast cfg) r))"

lemma pool_invD:
  assumes "pool_inv cfg s"
  shows "length (po_tasks s) = length (pl_tests cfg)"
    and "task_at s i (Done r) \<Longrightarrow> explained cfg s i r"
    and "po_run_cancelled s \<Longrightarrow> po_pool_cancelled s"
    and "po_pool_cancelled s \<Longrightarrow> po_run_cancelled s \<or>
        (\<exists>i r. task_at s i (Done r) \<and> own_result cfg i r \<and> triggers_fail_fast (pl_fail_fast cfg) r)"
  using assms unfolding pool_inv_def by blast+

lemma explained_mono:
  "explained cfg s i r \<Longrightarrow> (po_run_cancelled s \<longrightarrow> po_run_cancelled s') \<Longrightarrow>
   (po_pool_cancelled s \<longrightarrow> po_pool_cancelled s') \<Longrightarrow> explained cfg s' i r"
  by (auto simp: explained_def)

lemma pool_inv_update:
  assumes "pool_inv cfg s" "task_at s i old" "\<And>r. old \<noteq> Done r"
    and "\<And>r. ts = Done r \<Longrightarrow> explained cfg s' i r"
    and "po_tasks s' = (po_tasks s)[i := ts]" "po_run_cancelled s' = po_run_cancelled s"
    and "po_pool_cancelled s' \<longleftrightarrow> po_pool_cancelled s \<or>
           (\<exists>r. ts = Done r \<and> own_result cfg i r \<and> triggers_fail_fast (pl_fail_fast cfg) r)"
  shows "pool_inv cfg s'"
  unfolding pool_inv_def
proof (intro conjI allI impI)
  show "length (po_tasks s') = length (pl_tests cfg)" using assms(1,5) by (simp add: pool_inv_def)
  show "po_pool_cancelled s'" if "po_run_cancelled s'"
    using that assms(1,6,7) by (simp add: pool_inv_def)
  show "explained cfg s' j r" if "task_at s' j (Done r)" for j r
  proof (cases "j = i")
    case True
    with that assms(2,4,5) show ?thesis by auto
  next
    case False
    with that assms(5) have "task_at s j (Done r)" by simp
    with assms(1) have "explained cfg s j r" by (simp add: pool_inv_def)
    then show ?thesis by (rule explained_mono) (use assms(6,7) in auto)
  qed
  show "po_run_cancelled s' \<or> (\<exists>j r. task_at s' j (Done r) \<and> own_result cfg j r \<and>
          triggers_fail_fast (pl_fail_fast cfg) r)" if "po_pool_cancelled s'"
  proof (cases "po_pool_cancelled s")
    case True
    with assms(1) consider "po_run_cancelled s" | j r where "task_at s j (Done r)"
      "own_result cfg j r" "triggers_fail_fast (pl_fail_fast cfg) r"
      by (auto simp: pool_inv_def)
    then show ?thesis
    proof cases
      case 1
      then show ?thesis using assms(6) by simp
    next
      case (2 j r)
      then have "j \<noteq> i" using assms(2,3) by auto
      with 2 assms(5) show ?thesis by auto
    qed
  next
    case False
    with that assms(2,5,7) show ?thesis by auto
  qed
qed

lemma pool_inv_reachable: "pool_reachable cfg s \<Longrightarrow> pool_inv cfg s"
proof (induction rule: pool_reachable.induct)
  case init
  then show ?case by (auto simp: pool_inv_def pool_init_def)
next
  case (step s s')
  from step.hyps(2) show ?case
  proof (cases rule: pool_step.cases)
    case (acquire i n)
    show ?thesis
      by (rule pool_inv_update [OF step.IH, of i Queued Permitted]) (use acquire in auto)
  next
    case (run_cancelled i)
    show ?thesis
      by (rule pool_inv_update [OF step.IH, of i Permitted
            "Done (cancelled_before_start (pl_rx cfg) (pl_now cfg i) (pl_tests cfg ! i))"])
        (use run_cancelled step.IH in \<open>auto simp: explained_def pool_inv_def\<close>)
  next
    case (run_ok i)
    show ?thesis
      by (rule pool_inv_update [OF step.IH, of i Permitted RunChecked]) (use run_ok in auto)
  next
    case (skip i)
    show ?thesis
      by (rule pool_inv_update [OF step.IH, of i RunChecked
            "Done (skipped_by_fail_fast (pl_now cfg i) (pl_tests cfg ! i))"])
        (use skip in \<open>auto simp: explained_def\<close>)
  next
    case (start i)
    show ?thesis
      by (rule pool_inv_update [OF step.IH, of i RunChecked InFlight]) (use start in auto)
  next
    case (finish i outcome r)
    then have "own_result cfg i r" by (auto simp: own_result_def)
    with finish show ?thesis
      by (intro pool_inv_update [OF step.IH, of i InFlight "Done r"]) (auto simp: explained_def)
  next
    case (panic i)
    show ?thesis
      by (rule pool_inv_update [OF step.IH, of i InFlight Panicked]) (use panic in auto)
  next
    case signal
    have "explained cfg s' i r" if "task_at s' i (Done r)" for i r
      using step.IH that signal explained_mono [of cfg s i r s'] by (simp add: pool_inv_def)
    with step.IH signal show ?thesis by (simp add: pool_inv_def)
  qed
qed

section \<open>Progress\<close>

fun task_weight :: "task_state \<Rightarrow> nat" where
  "task_weight Queued = 4"
| "task_weight Permitted = 3"
| "task_weight RunChecked = 2"
| "task_weight InFlight = 1"
| "task_weight (Done r) = 0"
| "task_weight Panicked = 0"

definition pool_weight :: "pool \<Rightarrow> nat" where
  "pool_weight s =
     sum_list (map task_weight (po_tasks s)) + (if po_run_cancelled s then 0 else 1)"

lemma pool_weight_set_task:
  assumes "task_at s i ts" "task_weight ts' < task_weight ts"
    and "po_tasks s' = (po_tasks s)[i := ts']" "po_run_cancelled s' = po_run_cancelled s"
  shows "pool_weight s' < pool_weight s"
proof -
  have "sum_list ((map task_weight (po_tasks s))[i := task_weight ts']) + task_weight ts =
        sum_list (map task_weight (po_tasks s)) + task_weight ts'"
  proof -
    have "task_weight ts \<le> sum_list (map task_weight (po_tasks s))"
      using assms(1) elem_le_sum_list [of i "map task_weight (po_tasks s)"] by auto
    with assms(1) show ?thesis by (subst sum_list_update) auto
  qed
  with assms show ?thesis by (simp add: pool_weight_def map_update)
qed

lemma pool_step_weight:
  assumes "pool_step cfg s s'"
  shows "pool_weight s' < pool_weight s"
  using assms
proof (cases rule: pool_step.cases)
  case (acquire i n)
  then show ?thesis by (intro pool_weight_set_task [of i s Queued Permitted]) auto
next
  case (run_cancelled i)
  then show ?thesis
    by (intro pool_weight_set_task [of i s Permitted
          "Done (cancelled_before_start (pl_rx cfg) (pl_now cfg i) (pl_tests cfg ! i))"]) auto
next
  case (run_ok i)
  then show ?thesis by (intro pool_weight_set_task [of i s Permitted RunChecked]) auto
next
  case (skip i)
  then show ?thesis
    by (intro pool_weight_set_task [of i s RunChecked
          "Done (skipped_by_fail_fast (pl_now cfg i) (pl_tests cfg ! i))"]) auto
next
  case (start i)
  then show ?thesis by (intro pool_weight_set_task [of i s RunChecked InFlight]) auto
next
  case (finish i outcome r)
  then show ?thesis by (intro pool_weight_set_task [of i s InFlight "Done r"]) auto
next
  case (panic i)
  then show ?thesis by (intro pool_weight_set_task [of i s InFlight Panicked]) auto
next
  case signal
  then show ?thesis by (simp add: pool_weight_def)
qed

lemma unfinished_step:
  assumes "pool_reachable cfg s" "\<not> list_all finished_task (po_tasks s)"
    and "\<And>i. \<exists>out. pl_run cfg i out"
  shows "\<exists>s'. pool_step cfg s s'"
proof (cases "\<exists>i. i < length (po_tasks s) \<and> holds_permit (po_tasks s ! i)")
  case True
  then obtain i where i: "i < length (po_tasks s)" "holds_permit (po_tasks s ! i)" by blast
  then consider "task_at s i Permitted" | "task_at s i RunChecked" | "task_at s i InFlight"
    by (auto simp: holds_permit_def)
  then show ?thesis
    by cases (blast intro: pool_step.run_cancelled pool_step.run_ok pool_step.skip pool_step.start
        pool_step.panic)+
next
  case False
  then have "holders s = 0" by (auto simp: holders_def filter_empty_conv in_set_conv_nth)
  with permits_conserved [OF assms(1)] obtain n where n: "po_permits s = Suc n"
    by (cases "po_permits s") (auto simp: max_parallel_def)
  from assms(2) obtain i where "i < length (po_tasks s)" "\<not> finished_task (po_tasks s ! i)"
    by (auto simp: list_all_length)
  with False have "task_at s i Queued" by (cases "po_tasks s ! i") auto
  with n show ?thesis by (blast intro: pool_step.acquire)
qed

lemma no_start_once_cancelled:
  assumes "pool_step cfg s s'" "po_pool_cancelled s"
  shows "po_pool_cancelled s' \<and> (\<forall>i. task_at s' i InFlight \<longrightarrow> task_at s i InFlight)"
  using assms by (cases rule: pool_step.cases) (auto simp: nth_list_update split: if_splits)

lemma run_all_indexed:
  assumes "run_all s = Some rs"
  obtains idx where "sorted_wrt (<) idx"
    "set idx = {i. i < length (po_tasks s) \<and> po_tasks s ! i \<noteq> Panicked}"
    "length rs = length idx" "\<And>k. k < length rs \<Longrightarrow> po_tasks s ! (idx ! k) = Done (rs ! k)"
proof
  let ?ts = "po_tasks s"
  let ?idx = "filter (\<lambda>i. result_of (?ts ! i) \<noteq> None) [0..<length ?ts]"
  have fin: "finished_task (?ts ! i)" if "i < length ?ts" for i
    using assms that by (simp add: run_all_def list_all_length split: if_splits)
  have "rs = List.map_filter result_of (map ((!) ?ts) [0..<length ?ts])"
    using assms by (simp add: run_all_def map_nth split: if_splits)
  then have rs: "rs = map (\<lambda>i. the (result_of (?ts ! i))) ?idx"
    by (simp add: List.map_filter_def filter_map comp_def)
  show "sorted_wrt (<) ?idx" by (intro sorted_wrt_filter) simp
  show "set ?idx = {i. i < length ?ts \<and> ?ts ! i \<noteq> Panicked}"
    using fin by (force simp: finished_task_def)
  show "length rs = length ?idx" by (simp add: rs)
  show "?ts ! (?idx ! k) = Done (rs ! k)" if "k < length rs" for k
  proof -
    have "?idx ! k \<in> set ?idx" using that rs by (metis length_map nth_mem)
    then have "result_of (?ts ! (?idx ! k)) \<noteq> None" by simp
    then obtain r where "?ts ! (?idx ! k) = Done r"
      by (auto simp: result_of_def split: task_state.splits)
    moreover have "rs ! k = the (result_of (?ts ! (?idx ! k)))"
      using that rs by (metis length_map nth_map)
    ultimately show ?thesis by simp
  qed
qed

section \<open>Interface to the executor\<close>

text \<open>What the pool needs of the run of one test; the retry loop of the executor provides it.\<close>

locale classified_runs =
  fixes runs :: "nat \<Rightarrow> anyhow + test_result \<Rightarrow> bool"
  assumes runs_classified: "runs i (Inr r) \<Longrightarrow> classified r"
begin

lemma worker_classified: "runs i out \<Longrightarrow> classified (worker_result rx now t out)"
  using runs_classified finalized_classified [of "failed now (-1) m (test_result_new now n)" rx for m n]
  by (auto simp: worker_result_def failed_def stamp_finished_def test_result_new_def Let_def
      coherent_def final_status_def split: sum.splits)

lemma explained_classified:
  assumes "pl_run cfg = runs" "explained cfg s i r"
  shows "classified r \<or> tr_status r = Skipped"
proof -
  have "classified (cancelled_before_start rx now t)" for rx now t
    using finalized_classified [of "cancelled now m (test_result_new now n)" rx for m n]
    by (auto simp: cancelled_before_start_def cancelled_def stamp_finished_def Let_def
        test_result_new_def coherent_def final_status_def)
  moreover have "tr_status (skipped_by_fail_fast now t) = Skipped" for now t
    by (simp add: skipped_by_fail_fast_def skipped_def)
  ultimately show ?thesis
    using assms worker_classified by (auto simp: explained_def own_result_def)
qed

end

definition pool_runs ::
  "regex_crate \<Rightarrow> f64_ops \<Rightarrow> (string \<Rightarrow> string) \<Rightarrow> runner_config \<Rightarrow> installer_test list
    \<Rightarrow> (nat \<Rightarrow> loop_env) \<Rightarrow> (nat \<Rightarrow> u32 \<Rightarrow> attempt_env) \<Rightarrow> nat \<Rightarrow> anyhow + test_result \<Rightarrow> bool" where
  "pool_runs rx F sha cfg tests les envs i outcome \<longleftrightarrow>
     outcome = run_test_with_retry rx F cfg (tests ! i)
       ((les i)\<lparr>le_run := runner_attempts rx sha cfg (tests ! i) (envs i)\<rparr>)"

interpretation executor_runs: classified_runs "pool_runs rx F sha cfg tests les envs"
  for rx F sha cfg tests les envs
proof
  show "classified r" if "pool_runs rx F sha cfg tests les envs i (Inr r)" for i r
    using that by (auto simp: pool_runs_def dest!: sym [of "Inr r"]
        intro: retried_result_classified [where env = "envs i" and sha = sha])
qed

section \<open>Sample input\<close>

text \<open>Two tests on one permit with fail-fast: the first one cannot be run, the second is skipped.\<close>

definition sample_pool :: pool_config where
  "sample_pool =
     \<lparr>pl_tests = [installer_test_new ''a'' ''u'', installer_test_new ''b'' ''u''], pl_max = 0,
      pl_fail_fast = True, pl_rx = literal_rx, pl_now = (\<lambda>_. 0),
      pl_run = (\<lambda>_ out. out = Inl [''no daemon''])\<rparr>"

definition sample_error :: test_result where
  "sample_error = worker_result literal_rx 0 (installer_test_new ''a'' ''u'') (Inl [''no daemon''])"

definition sample_skip :: test_result where
  "sample_skip = skipped_by_fail_fast 0 (installer_test_new ''b'' ''u'')"

definition sample_final :: pool where
  "sample_final =
     \<lparr>po_tasks = [Done sample_error, Done sample_skip], po_permits = 1, po_run_cancelled = False,
      po_pool_cancelled = True\<rparr>"

lemma sample_error_fails: "\<not> tr_success sample_error" "tr_status sample_error = Failed"
  by (simp_all add: sample_error_def worker_result_def rec_simps failed_def stamp_finished_def Let_def)

lemma sample_pool_run: "pool_reachable sample_pool sample_final"
proof -
  let ?s = "\<lambda>ts n b. \<lparr>po_tasks = ts, po_permits = n, po_run_cancelled = False, po_pool_cancelled = b\<rparr>"
  note defs = sample_pool_def set_task_def release_def
  have 0: "pool_reachable sample_pool (?s [Queued, Queued] 1 False)"
    using pool_reachable.init [of sample_pool]
    by (simp add: pool_init_def max_parallel_def sample_pool_def numeral_2_eq_2)
  have 1: "pool_reachable sample_pool (?s [Permitted, Queued] 0 False)"
    using pool_reachable.step [OF 0 pool_step.acquire [of 0]] by (simp add: defs)
  have 2: "pool_reachable sample_pool (?s [RunChecked, Queued] 0 False)"
    using pool_reachable.step [OF 1 pool_step.run_ok [of 0]] by (simp add: defs)
  have 3: "pool_reachable sample_pool (?s [InFlight, Queued] 0 False)"
    using pool_reachable.step [OF 2 pool_step.start [of 0]] by (simp add: defs)
  have 4: "pool_reachable sample_pool (?s [Done sample_error, Queued] 1 True)"
    using pool_reachable.step [OF 3 pool_step.finish [of 0 _ _ "Inl [''no daemon'']" sample_error]]
    by (simp add: defs sample_error_def [symmetric] triggers_fail_fast_def sample_error_fails)
  have 5: "pool_reachable sample_pool (?s [Done sample_error, Permitted] 0 True)"
    using pool_reachable.step [OF 4 pool_step.acquire [of 1]] by (simp add: defs)
  have 6: "pool_reachable sample_pool (?s [Done sample_error, RunChecked] 0 True)"
    using pool_reachable.step [OF 5 pool_step.run_ok [of 1]] by (simp add: defs)
  show ?thesis
    using pool_reachable.step [OF 6 pool_step.skip [of 1]]
    by (simp add: defs sample_skip_def [symmetric] sample_final_def)
qed

definition executor_pool :: pool_config where
  \<comment> \<open>one test, run by the executor\<close>
  "executor_pool = sample_pool\<lparr>pl_tests := [sample_test], pl_fail_fast := False,
     pl_run := pool_runs literal_rx exact_f64 id sample_config [sample_test] (\<lambda>_. sample_runs)
       (\<lambda>_ _. sample_attempt)\<rparr>"

lemma executor_pool_run:
  obtains r where "pool_reachable executor_pool
    \<lparr>po_tasks = [Done r], po_permits = 1, po_run_cancelled = False, po_pool_cancelled = False\<rparr>"
proof -
  let ?s = "\<lambda>ts n. \<lparr>po_tasks = [ts], po_permits = n, po_run_cancelled = False,
    po_pool_cancelled = False\<rparr>"
  note defs = set_task_def release_def
  have 0: "pool_reachable executor_pool (?s Queued 1)"
    using pool_reachable.init [of executor_pool]
    by (simp add: pool_init_def max_parallel_def executor_pool_def sample_pool_def)
  have 1: "pool_reachable executor_pool (?s Permitted 0)"
    using pool_reachable.step [OF 0 pool_step.acquire [of 0]] by (simp add: defs)
  have 2: "pool_reachable executor_pool (?s RunChecked 0)"
    using pool_reachable.step [OF 1 pool_step.run_ok [of 0]] by (simp add: defs)
  have 3: "pool_reachable executor_pool (?s InFlight 0)"
    using pool_reachable.step [OF 2 pool_step.start [of 0]] by (simp add: defs)
  have "pl_run executor_pool 0 (run_test_with_retry literal_rx exact_f64 sample_config
      ([sample_test] ! 0) (sample_runs\<lparr>le_run := runner_attempts literal_rx id sample_config
        ([sample_test] ! 0) (\<lambda>_. sample_attempt)\<rparr>))"
    by (simp add: executor_pool_def pool_runs_def)
  moreover have "pl_fail_fast executor_pool = False" by (simp add: executor_pool_def)
  ultimately show thesis
    using pool_reachable.step [OF 3 pool_step.finish [of 0 _ executor_pool]] that
    by (simp add: defs triggers_fail_fast_def) blast
qed

section \<open>Properties\<close>

text \<open>
  C34: the pool is never oversubscribed. In every reachable state the permits not taken and the tasks
  that hold one add up to \<open>max_parallel\<close> (at least one), so at most that many installers run at a
  time, and when every task is finished all permits are back.
\<close>

theorem pool_is_never_oversubscribed:
  assumes "pool_reachable cfg s"
  shows "po_permits s + length (filter holds_permit (po_tasks s)) = max (pl_max cfg) 1 \<and>
         length (filter (\<lambda>ts. ts = InFlight) (po_tasks s)) \<le> max (pl_max cfg) 1"
proof -
  have "length (filter (\<lambda>ts. ts = InFlight) xs) \<le> length (filter holds_permit xs)" for xs
    by (induction xs) auto
  with permits_conserved [OF assms] show ?thesis
    by (simp add: holders_def max_parallel_def) (metis add_leD2 le_refl le_trans)
qed

theorem pool_is_never_oversubscribed_witness:
  "po_permits sample_final + length (filter holds_permit (po_tasks sample_final)) =
     max (pl_max sample_pool) 1"
  using pool_is_never_oversubscribed [OF sample_pool_run] by simp

text \<open>
  C22: the results of a finished pool. They come in submission order, one for every worker that did
  not panic; each is the result of a run of its own test (an error of the run turned into a failed,
  classified result) or the worker's own cancelled or skipped result; and with the executor behind
  it every result is final and classified, skipped ones excepted.
\<close>

theorem pool_results_in_submission_order:
  assumes "pool_reachable cfg s" "run_all s = Some rs"
    and "pl_run cfg = pool_runs rx F sha rcfg (pl_tests cfg) les envs"
  shows "\<exists>idx. sorted_wrt (<) idx \<and> length rs = length idx \<and>
           set idx = {i. i < length (pl_tests cfg) \<and> po_tasks s ! i \<noteq> Panicked} \<and>
           (\<forall>k<length rs. explained cfg s (idx ! k) (rs ! k) \<and>
              (classified (rs ! k) \<or> tr_status (rs ! k) = Skipped))"
proof -
  obtain idx where idx: "sorted_wrt (<) idx" "length rs = length idx"
    "set idx = {i. i < length (po_tasks s) \<and> po_tasks s ! i \<noteq> Panicked}"
    "\<And>k. k < length rs \<Longrightarrow> po_tasks s ! (idx ! k) = Done (rs ! k)"
    using run_all_indexed [OF assms(2)] by metis
  have inv: "pool_inv cfg s" by (rule pool_inv_reachable [OF assms(1)])
  have "explained cfg s (idx ! k) (rs ! k)" if "k < length rs" for k
  proof -
    have "idx ! k < length (po_tasks s)" using that idx(2,3) nth_mem [of k idx] by auto
    with pool_invD(2) [OF inv] idx(4) [OF that] show ?thesis by simp
  qed
  moreover from this have "classified (rs ! k) \<or> tr_status (rs ! k) = Skipped"
    if "k < length rs" for k
    using that executor_runs.explained_classified [OF assms(3)] by blast
  ultimately show ?thesis
    using idx(1-3) pool_invD(1) [OF inv] by (intro exI [of _ idx]) simp
qed

theorem pool_results_in_submission_order_witness:
  "\<exists>s rs. pool_reachable executor_pool s \<and> run_all s = Some rs \<and> length rs = 1 \<and>
     (classified (rs ! 0) \<or> tr_status (rs ! 0) = Skipped)"
proof -
  obtain r where run: "pool_reachable executor_pool
      \<lparr>po_tasks = [Done r], po_permits = 1, po_run_cancelled = False, po_pool_cancelled = False\<rparr>"
    by (rule executor_pool_run)
  then have all: "run_all \<lparr>po_tasks = [Done r], po_permits = 1, po_run_cancelled = False,
      po_pool_cancelled = False\<rparr> = Some [r]"
    by (simp add: run_all_def List.map_filter_simps)
  have "pl_run executor_pool = pool_runs literal_rx exact_f64 id sample_config
      (pl_tests executor_pool) (\<lambda>_. sample_runs) (\<lambda>_ _. sample_attempt)"
    by (simp add: executor_pool_def)
  from pool_results_in_submission_order [OF run all this] run all show ?thesis by fastforce
qed

text \<open>
  a test that did not run has a reason. A worker only answers without running its test when a
  signal cancelled the run, or when fail-fast is on and another test, really run, failed without
  being cancelled. And once the pool is cancelled it stays so and no further test starts.
\<close>

theorem unrun_tests_have_a_reason:
  assumes "pool_reachable cfg s" "task_at s i (Done r)" "\<not> own_result cfg i r"
  shows "(po_run_cancelled s \<or>
          (pl_fail_fast cfg \<and> (\<exists>j rj. task_at s j (Done rj) \<and> own_result cfg j rj \<and>
             \<not> tr_success rj \<and> tr_status rj \<noteq> Cancelled))) \<and>
         (pool_step cfg s s' \<longrightarrow>
            po_pool_cancelled s' \<and> (\<forall>j. task_at s' j InFlight \<longrightarrow> task_at s j InFlight))"
proof -
  have inv: "pool_inv cfg s" by (rule pool_inv_reachable [OF assms(1)])
  have c: "po_pool_cancelled s"
    using pool_invD(2) [OF inv assms(2)] pool_invD(3) [OF inv] assms(3) by (auto simp: explained_def)
  with pool_invD(4) [OF inv] have "po_run_cancelled s \<or> (\<exists>j rj. task_at s j (Done rj) \<and> own_result cfg j rj \<and>
      triggers_fail_fast (pl_fail_fast cfg) rj)"
    by simp
  with c no_start_once_cancelled [of cfg s s'] show ?thesis
    by (auto simp: triggers_fail_fast_def)
qed

theorem unrun_tests_have_a_reason_witness:
  "\<exists>j rj. task_at sample_final j (Done rj) \<and> \<not> tr_success rj"
proof -
  have "\<not> own_result sample_pool 1 sample_skip"
    by (auto simp: own_result_def sample_pool_def worker_result_def rec_simps failed_def
        stamp_finished_def Let_def sample_skip_def skipped_by_fail_fast_def skipped_def
        dest!: arg_cong [of _ _ tr_status])
  moreover have "task_at sample_final 1 (Done sample_skip)" "\<not> po_run_cancelled sample_final"
    by (simp_all add: sample_final_def)
  ultimately show ?thesis using unrun_tests_have_a_reason [OF sample_pool_run] by metis
qed

text \<open>
  C35: the pool finishes. Every step, the signal included, lowers a weight that starts at four per
  test and one; and as long as a worker is unfinished some step is possible, provided every run of a
  test returns. So every schedule of the workers ends, after at most that many steps, with a result
  or a panic for every test.
\<close>

theorem pool_finishes:
  assumes "pool_reachable cfg s" "\<And>i. \<exists>out. pl_run cfg i out"
  shows "(pool_step cfg s s' \<longrightarrow> pool_weight s' < pool_weight s) \<and>
         pool_weight (pool_init cfg) = 4 * length (pl_tests cfg) + 1 \<and>
         (run_all s = None \<longrightarrow> (\<exists>s'. pool_step cfg s s'))"
  using pool_step_weight [of cfg s s'] unfinished_step [OF assms(1) _ assms(2)]
  by (auto simp: run_all_def pool_weight_def pool_init_def sum_list_replicate)

theorem pool_finishes_witness:
  "\<exists>s'. pool_step sample_pool (pool_init sample_pool) s'"
proof -
  have "\<exists>out. pl_run sample_pool i out" for i by (simp add: sample_pool_def)
  moreover have "run_all (pool_init sample_pool) = None"
    by (simp add: run_all_def pool_init_def sample_pool_def)
  ultimately show ?thesis using pool_finishes [OF pool_reachable.init, of sample_pool] by blast
qed

end
