(* ===== verification/OrderedMap.thy ===== *)
theory OrderedMap
  imports Prelude
begin

text \<open>
  \<open>BTreeMap\<close>: a map that iterates in key order, as the association list of its entries with
  strictly increasing keys. The locale states the laws the components use of it and the facts that
  follow for whole batches of insertions; its interpretation proves them for the lists.
\<close>

type_synonym ('k, 'v) btree = "('k \<times> 'v) list"

fun bt_insert :: "'k::linorder \<Rightarrow> 'v \<Rightarrow> ('k, 'v) btree \<Rightarrow> ('k, 'v) btree" where
  "bt_insert k v [] = [(k, v)]"
| "bt_insert k v ((a, b) # m) =
     (if k < a then (k, v) # (a, b) # m
      else if k = a then (k, v) # m
      else (a, b) # bt_insert k v m)"

definition bt_remove :: "'k \<Rightarrow> ('k, 'v) btree \<Rightarrow> ('k, 'v) btree" where
  "bt_remove k m = filter (\<lambda>e. fst e \<noteq> k) m"

definition bt_ok :: "('k::linorder, 'v) btree \<Rightarrow> bool" where
  "bt_ok m \<longleftrightarrow> sorted_wrt (<) (map fst m)"

definition bt_extend :: "('k::linorder \<times> 'v) list \<Rightarrow> ('k, 'v) btree \<Rightarrow> ('k, 'v) btree" where
  "bt_extend kvs m = fold (\<lambda>(k, v). bt_insert k v) kvs m"

locale ordered_map =
  fixes get :: "'m \<Rightarrow> 'k \<Rightarrow> 'v option"
    and insert :: "'k \<Rightarrow> 'v \<Rightarrow> 'm \<Rightarrow> 'm"
    and remove :: "'k \<Rightarrow> 'm \<Rightarrow> 'm"
    and ok :: "'m \<Rightarrow> bool"
  assumes get_insert: "ok m \<Longrightarrow> get (insert k v m) a = (if a = k then Some v else get m a)"
    and get_remove: "ok m \<Longrightarrow> get (remove k m) a = (if a = k then None else get m a)"
    and ok_insert: "ok m \<Longrightarrow> ok (insert k v m)"
    and ok_remove: "ok m \<Longrightarrow> ok (remove k m)"
begin

lemma ok_insert_all: "ok m \<Longrightarrow> ok (fold (\<lambda>(k, v). insert k v) kvs m)"
  by (induction kvs arbitrary: m) (auto simp: ok_insert)

lemma get_insert_all:
  "ok m \<Longrightarrow>
     get (fold (\<lambda>(k, v). insert k v) kvs m) a =
       (case map_of (rev kvs) a of Some v \<Rightarrow> Some v | None \<Rightarrow> get m a)"
proof (induction kvs arbitrary: m)
  case (Cons kv kvs)
  obtain k v where kv: "kv = (k, v)" by (cases kv)
  have "ok (insert k v m)" using Cons.prems by (rule ok_insert)
  from Cons.IH [OF this] show ?case
    using Cons.prems by (auto simp: kv get_insert map_add_def split: option.splits)
qed simp

lemma get_remove_all:
  "ok m \<Longrightarrow> get (fold remove ks m) a = (if a \<in> set ks then None else get m a) \<and> ok (fold remove ks m)"
  by (induction ks arbitrary: m) (auto simp: get_remove ok_remove)

end

lemma bt_insert_keys: "fst ` set (bt_insert k v m) = insert k (fst ` set m)"
  by (induction k v m rule: bt_insert.induct) auto

lemma map_of_bt_insert:
  "bt_ok m \<Longrightarrow> map_of (bt_insert k v m) a = (if a = k then Some v else map_of m a)"
  by (induction k v m rule: bt_insert.induct) (auto simp: bt_ok_def)

lemma bt_ok_insert: "bt_ok m \<Longrightarrow> bt_ok (bt_insert k v m)"
proof (induction k v m rule: bt_insert.induct)
  case (2 k v a b m)
  have keys: "set (map fst (bt_insert k v m)) = insert k (set (map fst m))"
    using bt_insert_keys [of k v m] by simp
  from 2 show ?case
    by (cases "k < a"; cases "k = a") (auto simp: bt_ok_def keys simp del: set_map)
qed (simp add: bt_ok_def)

lemma map_of_bt_remove: "map_of (bt_remove k m) a = (if a = k then None else map_of m a)"
  by (induction m) (auto simp: bt_remove_def)

lemma bt_ok_remove: "bt_ok m \<Longrightarrow> bt_ok (bt_remove k m)"
proof -
  have "map fst (filter (\<lambda>e. fst e \<noteq> k) m) = filter (\<lambda>a. a \<noteq> k) (map fst m)"
    by (induction m) auto
  then show "bt_ok m \<Longrightarrow> bt_ok (bt_remove k m)"
    by (simp add: bt_ok_def bt_remove_def sorted_wrt_filter)
qed

interpretation bt: ordered_map map_of bt_insert bt_remove
  "bt_ok :: ('k::linorder, 'v) btree \<Rightarrow> bool"
  by unfold_locales (simp_all add: map_of_bt_insert map_of_bt_remove bt_ok_insert bt_ok_remove)

lemma bt_ok_empty [simp]: "bt_ok []"
  by (simp add: bt_ok_def)

lemma bt_ok_distinct: "bt_ok m \<Longrightarrow> distinct (map fst m)"
  using strict_sorted_iff by (auto simp: bt_ok_def)

lemma map_of_bt_extend:
  "bt_ok m \<Longrightarrow>
     map_of (bt_extend kvs m) a = (case map_of (rev kvs) a of Some v \<Rightarrow> Some v | None \<Rightarrow> map_of m a)"
  unfolding bt_extend_def by (rule bt.get_insert_all)

lemma bt_ok_extend: "bt_ok m \<Longrightarrow> bt_ok (bt_extend kvs m)"
  unfolding bt_extend_def by (rule bt.ok_insert_all)

lemma bt_insert_not_empty [simp]: "bt_insert k v m \<noteq> []"
  by (induction k v m rule: bt_insert.induct) simp_all

lemma bt_extend_empty: "bt_extend kvs m = [] \<longleftrightarrow> kvs = [] \<and> m = []"
  unfolding bt_extend_def by (induction kvs arbitrary: m) (simp_all add: case_prod_beta)

lemma map_of_rev: "distinct (map fst kvs) \<Longrightarrow> map_of (rev kvs) = map_of kvs"
proof -
  assume d: "distinct (map fst kvs)"
  then have "distinct (map fst (rev kvs))" by (simp add: rev_map [symmetric])
  from map_of_inject_set [OF this d] show "map_of (rev kvs) = map_of kvs" by simp
qed

lemma length_bt_insert:
  "bt_ok m \<Longrightarrow> length (bt_insert k v m) = (if k \<in> fst ` set m then length m else Suc (length m))"
  by (induction k v m rule: bt_insert.induct) (auto simp: bt_ok_def)

lemma length_bt_insert_others:
  "bt_ok m \<Longrightarrow> length (bt_insert k v m) = Suc (length (filter (\<lambda>e. fst e \<noteq> k) m))"
proof (induction k v m rule: bt_insert.induct)
  case (2 k v a b m)
  then have "k \<notin> fst ` set m" if "k \<le> a" using that by (auto simp: bt_ok_def)
  then have "filter (\<lambda>e. fst e \<noteq> k) m = m" if "k \<le> a"
    using that by (metis (mono_tags, lifting) filter_True image_eqI)
  with 2 show ?case by (auto simp: bt_ok_def)
qed simp

lemma bt_get_mem: "bt_ok m \<Longrightarrow> map_of m k = Some v \<longleftrightarrow> (k, v) \<in> set m"
  by (rule map_of_eq_Some_iff [OF bt_ok_distinct])

end
