(* ===== verification/Toml.thy ===== *)
theory Toml
  imports OrderedMap Fmt
begin

text \<open>
  TOML values as the settings use them (\<^verbatim>\<open>src/config/resolve.rs\<close>): flattening a table into dotted
  keys, setting a dotted key, reading it back, and the scalars of the environment. A table is a
  \<open>toml::Table\<close>, a map in key order.
\<close>

datatype toml =
  TString string
| TInteger int
| TFloat rat
| TBoolean bool
| TDatetime string
| TArray "toml list"
| TTable "(string \<times> toml) list"

type_synonym toml_table = "(string, toml) btree"

lemma size_table [termination_simp]:
  "e \<in> set t \<Longrightarrow> size (snd e) < Suc (size_list (size_prod (\<lambda>_. 0) size) t)"
proof (induction t)
  case (Cons a t)
  then show ?case by (cases "e = a") (auto simp: size_prod_simp)
qed simp

fun is_table :: "toml \<Rightarrow> bool" where
  "is_table (TTable _) = True"
| "is_table _ = False"

definition dotted :: "string \<Rightarrow> string \<Rightarrow> string" where
  "dotted pre k = (if pre = [] then k else pre @ ''.'' @ k)"

fun flatten :: "toml \<Rightarrow> string \<Rightarrow> (string \<times> toml) list" where
  "flatten (TTable t) pre = concat (map (\<lambda>e. flatten (snd e) (dotted pre (fst e))) t)"
| "flatten v pre = [(pre, v)]"

text \<open>\<open>set_path\<close>: a value in the way that is no table is replaced by one.\<close>

definition subtable :: "string \<Rightarrow> toml_table \<Rightarrow> toml_table" where
  "subtable k t = (case map_of t k of Some (TTable s) \<Rightarrow> s | _ \<Rightarrow> [])"

fun set_parts :: "string list \<Rightarrow> toml \<Rightarrow> toml_table \<Rightarrow> toml_table" where
  "set_parts [] v t = t"
| "set_parts [k] v t = bt_insert k v t"
| "set_parts (k # ks) v t =
     bt_insert k (TTable (set_parts ks v (subtable k t))) t"

abbreviation parts :: "string \<Rightarrow> string list" where
  "parts key \<equiv> split_on (CHR ''.'') key"

definition set_path :: "string \<Rightarrow> toml \<Rightarrow> toml_table \<Rightarrow> toml_table" where
  "set_path key v t = set_parts (parts key) v t"

fun get_parts :: "string list \<Rightarrow> toml_table \<Rightarrow> toml option" where
  "get_parts [] t = None"
| "get_parts [k] t = map_of t k"
| "get_parts (k # ks) t = (case map_of t k of Some (TTable s) \<Rightarrow> get_parts ks s | _ \<Rightarrow> None)"

definition get_path :: "string \<Rightarrow> toml_table \<Rightarrow> toml option" where
  "get_path key t = get_parts (parts key) t"

section \<open>Scalars of the environment\<close>

text \<open>
  \<open>parse::<f64>\<close> on a decimal number, rounded by \<open>R\<close>; infinities and NaN have no decimal point and
  are not looked for.
\<close>

definition exponent_value :: "string \<Rightarrow> int option" where
  "exponent_value s =
     (if prefix ''-'' s
      then (if tl s \<noteq> [] \<and> list_all is_digit (tl s) then Some (- int (digits_value (tl s))) else None)
      else map_option int (parse_nat s))"

definition unsigned_decimal :: "string \<Rightarrow> rat option" where
  "unsigned_decimal s =
     (let m = takeWhile (\<lambda>c. c \<noteq> CHR ''e'' \<and> c \<noteq> CHR ''E'') s;
          e = drop (length m) s;
          ip = takeWhile (\<lambda>c. c \<noteq> CHR ''.'') m;
          fp = drop (Suc (length ip)) m
      in if ip @ fp = [] \<or> \<not> list_all is_digit (ip @ fp) then None
         else
           let x = of_nat (digits_value (ip @ fp)) / 10 ^ length fp
           in if e = [] then Some x
              else map_option (\<lambda>k. if k \<ge> 0 then x * 10 ^ nat k else x / 10 ^ nat (- k))
                     (exponent_value (tl e)))"

definition parse_f64 :: "(rat \<Rightarrow> rat) \<Rightarrow> string \<Rightarrow> rat option" where
  "parse_f64 R s =
     (if prefix ''-'' s then map_option (\<lambda>x. R (- x)) (unsigned_decimal (tl s))
      else map_option R (unsigned_decimal (if prefix ''+'' s then tl s else s)))"

definition parse_scalar :: "(rat \<Rightarrow> rat) \<Rightarrow> string \<Rightarrow> toml" where
  "parse_scalar R s =
     (let t = trim s
      in case parse_i64 t of
           Some i \<Rightarrow> TInteger i
         | None \<Rightarrow>
             (case (if contains t ''.'' then parse_f64 R t else None) of
                Some f \<Rightarrow> TFloat f
              | None \<Rightarrow>
                  if to_lower t = ''true'' then TBoolean True
                  else if to_lower t = ''false'' then TBoolean False
                  else TString t))"

definition ENV_PREFIX :: string where
  "ENV_PREFIX = ''AFSC_''"

definition env_name_for :: "string \<Rightarrow> string" where
  "env_name_for key = ENV_PREFIX @ to_upper (map (\<lambda>c. if c = CHR ''.'' then CHR ''_'' else c) key)"

section \<open>Rendering\<close>

text \<open>\<open>sv\<close> is the \<open>Display\<close> of the library for the values that are no strings, arrays or tables.\<close>

fun render_scalar :: "(toml \<Rightarrow> string) \<Rightarrow> toml \<Rightarrow> string" where
  "render_scalar sv (TString s) = debug_str s"
| "render_scalar sv (TArray vs) = ''['' @ join '', '' (map (render_scalar sv) vs) @ '']''"
| "render_scalar sv v = sv v"

fun render_table :: "(toml \<Rightarrow> string) \<Rightarrow> (string \<Rightarrow> string) \<Rightarrow> toml \<Rightarrow> string \<Rightarrow> string" where
  \<comment> \<open>the second argument names the source of a key\<close>
  "render_table sv src (TTable t) pre =
     concat (map (\<lambda>e. if is_table (snd e) then []
         else fst e @ '' = '' @ render_scalar sv (snd e) @ ''  # '' @ src (dotted pre (fst e)) @ [nl]) t) @
     concat (map (\<lambda>e. if is_table (snd e)
         then [nl] @ ''['' @ dotted pre (fst e) @ '']'' @ [nl] @
              render_table sv src (snd e) (dotted pre (fst e))
         else []) t)"
| "render_table sv src v pre = []"

section \<open>Setting and reading a key\<close>

fun tables_ok :: "toml \<Rightarrow> bool" where
  "tables_ok (TTable t) \<longleftrightarrow> bt_ok t \<and> (\<forall>e\<in>set t. tables_ok (snd e))"
| "tables_ok _ \<longleftrightarrow> True"

lemma set_parts_not_empty [simp]: "ks \<noteq> [] \<Longrightarrow> set_parts ks v t \<noteq> []"
  by (induction ks v t rule: set_parts.induct) simp_all

lemma subtable_ok: "tables_ok (TTable t) \<Longrightarrow> tables_ok (TTable (subtable k t))"
  by (force simp: subtable_def split: option.split toml.split dest: map_of_SomeD)

lemma get_set_parts:
  "ks \<noteq> [] \<Longrightarrow> tables_ok (TTable t) \<Longrightarrow> get_parts ks (set_parts ks v t) = Some v"
proof (induction ks v t rule: set_parts.induct)
  case (3 k l ks v t)
  then show ?case using subtable_ok [of t k] by (simp add: map_of_bt_insert)
qed (simp_all add: map_of_bt_insert)

lemma bt_insert_members: "e \<in> set (bt_insert k v m) \<Longrightarrow> e = (k, v) \<or> e \<in> set m"
  by (induction k v m rule: bt_insert.induct) (auto split: if_splits)

lemma tables_ok_insert:
  "tables_ok v \<Longrightarrow> tables_ok (TTable t) \<Longrightarrow> tables_ok (TTable (bt_insert k v t))"
  by (auto simp: bt_ok_insert dest!: bt_insert_members)

lemma tables_ok_set_parts:
  "tables_ok v \<Longrightarrow> tables_ok (TTable t) \<Longrightarrow> tables_ok (TTable (set_parts ks v t))"
proof (induction ks v t rule: set_parts.induct)
  case (2 k v t)
  then show ?case by (simp only: set_parts.simps tables_ok_insert)
next
  case (3 k l ks v t)
  then show ?case by (simp only: set_parts.simps tables_ok_insert subtable_ok)
qed simp

text \<open>Two keys of which neither lies below the other do not disturb each other.\<close>

definition apart :: "string \<Rightarrow> string \<Rightarrow> bool" where
  "apart a b \<longleftrightarrow> \<not> prefix (parts a) (parts b) \<and> \<not> prefix (parts b) (parts a)"

lemma get_set_parts_apart:
  "\<not> prefix ks ls \<Longrightarrow> \<not> prefix ls ks \<Longrightarrow> tables_ok (TTable t) \<Longrightarrow>
     get_parts ls (set_parts ks v t) = get_parts ls t"
proof (induction ks v t arbitrary: ls rule: set_parts.induct)
  case (2 k v t)
  then show ?case by (cases "(ls, t)" rule: get_parts.cases) (auto simp: map_of_bt_insert)
next
  case (3 k m ks v t)
  have ok: "tables_ok (TTable (subtable k t))" using 3(4) by (rule subtable_ok)
  have empty: "get_parts ls [] = None" for ls by (induction ls "[] :: toml_table" rule: get_parts.induct) auto
  show ?case
  proof (cases ls)
    case (Cons l ls')
    show ?thesis
    proof (cases "l = k \<and> ls' \<noteq> []")
      case True
      then obtain n ls'' where ls: "ls = k # n # ls''" using Cons by (cases ls') auto
      with 3(2,3) have "\<not> prefix (m # ks) (n # ls'')" "\<not> prefix (n # ls'') (m # ks)" by auto
      from 3(1) [OF this ok] show ?thesis
        using 3(4) empty by (auto simp: ls map_of_bt_insert subtable_def split: option.split toml.split)
    next
      case False
      with 3(2-4) Cons show ?thesis by (cases ls') (auto simp: map_of_bt_insert)
    qed
  qed simp
qed simp

lemma parts_not_empty [simp]: "parts key \<noteq> []"
  by (induction key) (auto split: list.split)

text \<open>
  A store of settings: what reading a key gives after any sequence of assignments, as long as the
  keys lie apart.
\<close>

locale setting_store =
  fixes get :: "'k \<Rightarrow> 's \<Rightarrow> 'v option"
    and put :: "'k \<Rightarrow> 'v \<Rightarrow> 's \<Rightarrow> 's"
    and ok :: "'s \<Rightarrow> bool"
    and ok_value :: "'v \<Rightarrow> bool"
    and free :: "'k \<Rightarrow> 'k \<Rightarrow> bool"
  assumes get_put: "ok s \<Longrightarrow> get k (put k v s) = Some v"
    and get_put_free: "ok s \<Longrightarrow> free k l \<Longrightarrow> get l (put k v s) = get l s"
    and ok_put: "ok s \<Longrightarrow> ok_value v \<Longrightarrow> ok (put k v s)"
begin

lemma ok_put_all: "ok s \<Longrightarrow> \<forall>(k, v)\<in>set kvs. ok_value v \<Longrightarrow> ok (fold (\<lambda>(k, v). put k v) kvs s)"
  by (induction kvs arbitrary: s) (auto simp: ok_put)

lemma get_put_all:
  "ok s \<Longrightarrow> \<forall>(k, v)\<in>set kvs. ok_value v \<and> (k = l \<or> free k l) \<Longrightarrow>
     get l (fold (\<lambda>(k, v). put k v) kvs s) =
       (case map_of (rev kvs) l of Some v \<Rightarrow> Some v | None \<Rightarrow> get l s)"
proof (induction kvs arbitrary: s)
  case (Cons kv kvs)
  obtain k v where kv: "kv = (k, v)" by (cases kv)
  have "ok (put k v s)" using Cons.prems by (auto simp: kv intro: ok_put)
  from Cons.IH [OF this] Cons.prems show ?case
    by (auto simp: kv get_put get_put_free map_add_def split: option.splits)
qed simp

end

interpretation settings: setting_store get_path set_path "\<lambda>t. tables_ok (TTable t)" tables_ok apart
proof unfold_locales
  show "tables_ok (TTable s) \<Longrightarrow> get_path k (set_path k v s) = Some v" for s k v
    unfolding get_path_def set_path_def by (rule get_set_parts) simp_all
  show "tables_ok (TTable s) \<Longrightarrow> apart k l \<Longrightarrow> get_path l (set_path k v s) = get_path l s" for s k l v
    unfolding get_path_def set_path_def apart_def by (rule get_set_parts_apart) simp_all
  show "tables_ok (TTable s) \<Longrightarrow> tables_ok v \<Longrightarrow> tables_ok (TTable (set_path k v s))" for s k v
    unfolding set_path_def by (rule tables_ok_set_parts)
qed

section \<open>Flattening and setting are inverse\<close>

text \<open>
  A table that flattening keeps whole: keys in order, not empty and without dots, and no empty
  table inside.
\<close>

fun plain_toml :: "toml \<Rightarrow> bool" where
  "plain_toml (TTable t) \<longleftrightarrow>
     t \<noteq> [] \<and> bt_ok t \<and>
     (\<forall>e\<in>set t. fst e \<noteq> [] \<and> CHR ''.'' \<notin> set (fst e) \<and> plain_toml (snd e))"
| "plain_toml _ \<longleftrightarrow> True"

fun leaves :: "toml \<Rightarrow> (string list \<times> toml) list" where
  \<comment> \<open>the values of a tree with their paths\<close>
  "leaves (TTable t) = concat (map (\<lambda>e. map (\<lambda>(ks, v). (fst e # ks, v)) (leaves (snd e))) t)"
| "leaves v = [([], v)]"

definition under :: "string \<Rightarrow> string list \<Rightarrow> string" where
  "under pre ks = (if ks = [] then pre else dotted pre (join ''.'' ks))"

lemma dotted_dotted: "k \<noteq> [] \<Longrightarrow> dotted (dotted pre k) l = dotted pre (k @ ''.'' @ l)"
  by (simp add: dotted_def)

lemma under_dotted: "k \<noteq> [] \<Longrightarrow> under (dotted pre k) ks = under pre (k # ks)"
  by (cases ks) (simp_all add: under_def dotted_dotted)

lemma flatten_leaves:
  "plain_toml v \<Longrightarrow> flatten v pre = map (\<lambda>(ks, x). (under pre ks, x)) (leaves v)"
proof (induction v pre rule: flatten.induct)
  case (1 t pre)
  have "flatten (snd e) (dotted pre (fst e)) =
      map (\<lambda>(ks, x). (under pre ks, x)) (map (\<lambda>(ks, v). (fst e # ks, v)) (leaves (snd e)))"
    if "e \<in> set t" for e
    using 1 that by (auto simp: under_dotted comp_def case_prod_beta)
  then show ?case by (simp add: map_concat comp_def cong: map_cong)
qed (simp_all add: under_def)

lemma leaves_paths:
  "plain_toml v \<Longrightarrow> (ks, x) \<in> set (leaves v) \<Longrightarrow> \<forall>k\<in>set ks. k \<noteq> [] \<and> CHR ''.'' \<notin> set k"
  by (induction v arbitrary: ks rule: leaves.induct) fastforce+

lemma leaves_not_empty: "plain_toml v \<Longrightarrow> leaves v \<noteq> []"
  by (induction v rule: leaves.induct) (fastforce simp: neq_Nil_conv)+

definition plant :: "(string list \<times> toml) list \<Rightarrow> toml_table \<Rightarrow> toml_table" where
  "plant ls t = fold (\<lambda>(ks, v). set_parts ks v) ls t"

lemma bt_insert_last: "\<forall>a\<in>fst ` set m. a < k \<Longrightarrow> bt_insert k v m = m @ [(k, v)]"
  by (induction k v m rule: bt_insert.induct) (auto simp: not_less_iff_gr_or_eq)

lemma bt_insert_last_again: "\<forall>a\<in>fst ` set m. a < k \<Longrightarrow> bt_insert k v (m @ [(k, w)]) = m @ [(k, v)]"
  by (induction k v m rule: bt_insert.induct) (auto simp: not_less_iff_gr_or_eq)

lemma subtable_last:
  "\<forall>a\<in>fst ` set m. a < k \<Longrightarrow> subtable k m = []"
  "\<forall>a\<in>fst ` set m. a < k \<Longrightarrow> subtable k (m @ [(k, TTable u)]) = u"
proof -
  assume "\<forall>a\<in>fst ` set m. a < k"
  then have "map_of m k = None" by (auto simp: map_of_eq_None_iff)
  then show "subtable k m = []" "subtable k (m @ [(k, TTable u)]) = u"
    by (simp_all add: subtable_def map_add_def)
qed

lemma plant_below:
  assumes "\<forall>a\<in>fst ` set m. a < k"
  shows "\<forall>e\<in>set ls. fst e \<noteq> [] \<Longrightarrow>
    plant (map (\<lambda>(ks, v). (k # ks, v)) ls) (m @ [(k, TTable u)]) = m @ [(k, TTable (plant ls u))]"
proof (induction ls arbitrary: u)
  case (Cons l ls)
  obtain ks v where l: "l = (ks, v)" by (cases l)
  then obtain a as where ks: "ks = a # as" using Cons.prems by (cases ks) auto
  show ?case
    using Cons assms by (simp add: plant_def l ks subtable_last bt_insert_last_again)
qed (simp add: plant_def)

lemma plant_new:
  assumes "\<forall>a\<in>fst ` set m. a < k" "\<forall>e\<in>set ls. fst e \<noteq> []" "ls \<noteq> []"
  shows "plant (map (\<lambda>(ks, v). (k # ks, v)) ls) m = m @ [(k, TTable (plant ls []))]"
proof -
  obtain ks v ls' where l: "ls = (ks, v) # ls'" using assms(3) by (cases ls) auto
  then obtain a as where ks: "ks = a # as" using assms(2) by (cases ks) auto
  from plant_below [OF assms(1), of ls' "set_parts ks v []"] assms(1,2) show ?thesis
    by (simp add: plant_def l ks subtable_last bt_insert_last)
qed

lemma leaves_path_empty: "plain_toml v \<Longrightarrow> is_table v \<Longrightarrow> \<forall>e\<in>set (leaves v). fst e \<noteq> []"
  by (cases v) auto

lemma plant_leaves:
  "plain_toml v \<Longrightarrow> v = TTable t \<Longrightarrow> plant (leaves v) [] = t"
proof (induction v arbitrary: t rule: leaves.induct)
  case (1 t0)
  have one: "plant (map (\<lambda>(ks, v). (fst e # ks, v)) (leaves (snd e))) m = m @ [e]"
    if e: "e \<in> set t0" and m: "\<forall>a\<in>fst ` set m. a < fst e" for e m
  proof (cases "snd e")
    case (TTable s)
    have p: "plain_toml (snd e)" using 1(2) e by auto
    have ls: "plant (leaves (snd e)) [] = s" using 1(1) [OF e p TTable] .
    from plant_new [OF m, of "leaves (snd e)"] leaves_path_empty [OF p] leaves_not_empty [OF p] TTable
    have "plant (map (\<lambda>(ks, v). (fst e # ks, v)) (leaves (snd e))) m = m @ [(fst e, TTable s)]"
      using ls by (simp del: leaves.simps)
    with TTable show ?thesis by (cases e) (simp del: leaves.simps)
  qed (use m in \<open>cases e; simp add: plant_def bt_insert_last\<close>)+
  have "plant (leaves (TTable t2)) t1 = t1 @ t2" if "t0 = t1 @ t2" for t1 t2
    using that
  proof (induction t2 arbitrary: t1)
    case (Cons e t2)
    have "\<forall>a\<in>fst ` set t1. a < fst e"
      using 1(2) Cons.prems by (auto simp: bt_ok_def sorted_wrt_append)
    from one [OF _ this] Cons.IH [of "t1 @ [e]"] Cons.prems show ?case
      by (simp add: plant_def)
  qed (simp add: plant_def)
  from this [of "[]" t0] 1(3) show ?case by simp
qed simp_all

lemma parts_under:
  "\<forall>k\<in>set ks. k \<noteq> [] \<and> CHR ''.'' \<notin> set k \<Longrightarrow> ks \<noteq> [] \<Longrightarrow> parts (under [] ks) = ks"
  by (simp add: under_def dotted_def split_on_join)

lemma set_flatten_is_plant:
  assumes "plain_toml (TTable t)"
  shows "fold (\<lambda>(k, v). set_path k v) (flatten (TTable t) []) m = plant (leaves (TTable t)) m"
proof -
  have "set_path (under [] ks) x = set_parts ks x" if "(ks, x) \<in> set (leaves (TTable t))" for ks x
    using leaves_paths [OF assms that] leaves_path_empty [OF assms] that parts_under
    by (fastforce simp: set_path_def fun_eq_iff)
  moreover have "fold (\<lambda>(k, v). set_path k v) (map (\<lambda>(ks, x). (under [] ks, x)) ls) m =
      fold (\<lambda>(ks, v). set_parts ks v) ls m"
    if "\<And>ks x. (ks, x) \<in> set ls \<Longrightarrow> set_path (under [] ks) x = set_parts ks x" for ls m
    using that by (induction ls arbitrary: m) auto
  ultimately show ?thesis
    by (simp add: flatten_leaves [OF assms] plant_def del: leaves.simps flatten.simps)
qed

section \<open>Properties\<close>

text \<open>
  flattening a table into dotted keys and setting them one by one on an empty table gives the
  table back, whenever its keys have no dots and are not empty and it has no empty table inside.
\<close>

theorem flatten_roundtrip:
  assumes "plain_toml (TTable t)"
  shows "fold (\<lambda>(k, v). set_path k v) (flatten (TTable t) []) [] = t"
  using set_flatten_is_plant [OF assms] plant_leaves [OF assms refl] by simp

theorem flatten_roundtrip_witness:
  "fold (\<lambda>(k, v). set_path k v)
     (flatten (TTable [(''docker'', TTable [(''image'', TString ''u''), (''prepare'', TBoolean False)]),
                       (''top'', TInteger 3)]) []) [] =
   [(''docker'', TTable [(''image'', TString ''u''), (''prepare'', TBoolean False)]), (''top'', TInteger 3)]"
  by (rule flatten_roundtrip) code_simp

end
