(* ===== verification/Checksums.thy ===== *)
theory Checksums
  imports Regex
begin

text \<open>
  The checksum file and its checks (\<^verbatim>\<open>src/checksums/parser.rs\<close>, \<^verbatim>\<open>src/checksums/validator.rs\<close>,
  \<^verbatim>\<open>src/checksums/acfs.rs\<close>): the URL policy, the structural validation, reachability and hash
  checks of the pinned installers, and the cross-check with the ACFS repository.

  A \<open>HashMap\<close> is the association list of its iteration order, which is arbitrary; its keys are
  distinct (\<open>well_formed\<close>). YAML parsing, \<open>Url::parse\<close>, SHA-256 and the network are arguments.
\<close>

section \<open>The file\<close>

record installer_entry =
  ie_url :: "string option"
  ie_sha256 :: "string option"
  ie_version :: "string option"
  ie_enabled :: bool
  ie_tags :: "string list"

type_synonym checksums_file = "(string \<times> installer_entry) list"

definition well_formed :: "checksums_file \<Rightarrow> bool" where
  "well_formed cs \<longleftrightarrow> distinct (map fst cs)"

definition parse_checksums ::
  "(string \<Rightarrow> anyhow + checksums_file) \<Rightarrow> string \<Rightarrow> anyhow + string \<Rightarrow> anyhow + checksums_file" where
  \<comment> \<open>\<open>yaml\<close> is serde's parser, the last argument what reading the file gives\<close>
  "parse_checksums yaml path content =
     (case content of
        Inl e \<Rightarrow> Inl ((''Failed to read checksums file: '' @ path) # e)
      | Inr text \<Rightarrow>
          (case yaml text of
             Inl e \<Rightarrow> Inl ((''Failed to parse checksums YAML: '' @ path) # e)
           | Inr cs \<Rightarrow> Inr cs))"

definition get_enabled_installers :: "checksums_file \<Rightarrow> (string \<times> installer_entry) list" where
  "get_enabled_installers cs = filter (\<lambda>(n, e). ie_enabled e) cs"

section \<open>Validation\<close>

datatype validation_error =
  MissingUrl string | InvalidUrl string string | MissingChecksum string | HttpError string string

record validation_result =
  vr_valid :: bool
  vr_errors :: "validation_error list"
  vr_warnings :: "string list"

definition validation_result_new :: validation_result where
  "validation_result_new = \<lparr>vr_valid = True, vr_errors = [], vr_warnings = []\<rparr>"

definition add_error :: "validation_error \<Rightarrow> validation_result \<Rightarrow> validation_result" where
  "add_error e r = r\<lparr>vr_valid := False, vr_errors := vr_errors r @ [e]\<rparr>"

definition add_warning :: "string \<Rightarrow> validation_result \<Rightarrow> validation_result" where
  "add_warning w r = r\<lparr>vr_warnings := vr_warnings r @ [w]\<rparr>"

definition url_policy_violation :: "string \<Rightarrow> bool \<Rightarrow> string option" where
  "url_policy_violation url allow_file_urls =
     (let lower = to_lower (trim url)
      in if prefix ''https://'' lower then None
         else if prefix ''file://'' lower then
           (if allow_file_urls then None
            else Some ''file:// URLs are only allowed with --allow-file-urls or [general].allow_file_urls = true'')
         else if prefix ''http://'' lower then
           Some ''plain http:// is not allowed; ACFS enforces https''
         else Some ''unsupported URL scheme; ACFS enforces https'')"

definition policy_error ::
  "bool \<Rightarrow> checksums_file \<Rightarrow> string \<Rightarrow> validation_error option" where
  \<comment> \<open>one pass of the loop over the sorted names\<close>
  "policy_error allow_file_urls cs name =
     (case map_of cs name of
        None \<Rightarrow> None
      | Some entry \<Rightarrow>
          if \<not> ie_enabled entry then None
          else case ie_url entry of
            None \<Rightarrow> None
          | Some url \<Rightarrow>
              map_option (\<lambda>reason. InvalidUrl name (url @ '': '' @ reason))
                (url_policy_violation url allow_file_urls))"

definition validate_url_policy :: "checksums_file \<Rightarrow> bool \<Rightarrow> validation_error list" where
  "validate_url_policy cs allow_file_urls =
     List.map_filter (policy_error allow_file_urls cs) (sort (map fst cs))"

definition validate_entry ::
  "(string \<Rightarrow> string option) \<Rightarrow> string \<Rightarrow> installer_entry \<Rightarrow> validation_result
    \<Rightarrow> validation_result" where
  \<comment> \<open>\<open>url_error\<close> is the error of \<open>Url::parse\<close>, if any\<close>
  "validate_entry url_error name entry r =
     (let r1 = (case ie_url entry of
                  Some url \<Rightarrow>
                    (case url_error url of
                       Some e \<Rightarrow> add_error (InvalidUrl name e) r
                     | None \<Rightarrow> r)
                | None \<Rightarrow>
                    (if ie_enabled entry
                     then add_warning (''No URL specified for enabled installer: '' @ name) r
                     else r))
      in if ie_sha256 entry = None \<and> ie_enabled entry
         then add_warning (''No sha256 checksum for enabled installer: '' @ name) r1
         else r1)"

definition validate_checksums ::
  "(string \<Rightarrow> string option) \<Rightarrow> checksums_file \<Rightarrow> bool \<Rightarrow> validation_result" where
  "validate_checksums url_error cs check_urls =
     (let r = fold (\<lambda>(name, entry). validate_entry url_error name entry) cs validation_result_new
      in if check_urls then add_warning ''URL checking not implemented in sync mode'' r else r)"

section \<open>Hash comparison\<close>

definition byte_of :: "char \<Rightarrow> u8" where
  "byte_of c = of_nat (of_char c)"

definition hash_hex_matches :: "string \<Rightarrow> string \<Rightarrow> bool" where
  "hash_hex_matches pinned downloaded =
     (if length pinned \<noteq> length downloaded then False
      else fold (\<lambda>(l, r) diff. or diff (xor (byte_of l) (byte_of r))) (zip pinned downloaded) 0 = 0)"

section \<open>Reachability\<close>

record url_check_result =
  uc_name :: string
  uc_url :: string
  uc_status :: "u16 option"
  uc_response_time_ms :: u64
  uc_reachable :: bool
  uc_error :: "string option"

text \<open>The answers of the network for one URL: the status or the error of HEAD and of the ranged GET.\<close>

record url_answers =
  ua_head :: "string + nat"
  ua_ranged_get :: "string + nat"
  ua_elapsed_ms :: u64

definition head_response :: "url_answers \<Rightarrow> string + nat" where
  "head_response a =
     (case ua_head a of
        Inr st \<Rightarrow> if st \<in> {403, 405, 501} then ua_ranged_get a else Inr st
      | Inl e \<Rightarrow> Inl e)"

definition check_url :: "url_answers \<Rightarrow> string \<Rightarrow> string \<Rightarrow> url_check_result" where
  "check_url a name url =
     (case head_response a of
        Inr st \<Rightarrow>
          \<lparr>uc_name = name, uc_url = url, uc_status = Some (of_nat st),
           uc_response_time_ms = ua_elapsed_ms a, uc_reachable = (200 \<le> st \<and> st < 300),
           uc_error =
             (if 300 \<le> st \<and> st < 400 then Some (''Redirect ('' @ show_nat st @ '')'')
              else if st \<ge> 400 then Some (''HTTP '' @ show_nat st) else None)\<rparr>
      | Inl e \<Rightarrow>
          \<lparr>uc_name = name, uc_url = url, uc_status = None,
           uc_response_time_ms = ua_elapsed_ms a, uc_reachable = False, uc_error = Some e\<rparr>)"

definition check_urls ::
  "(string \<Rightarrow> url_answers) \<Rightarrow> checksums_file \<Rightarrow> url_check_result list" where
  \<comment> \<open>every task answers (the semaphore is never closed, no task panics)\<close>
  "check_urls net cs =
     sort_key uc_name
       (List.map_filter
         (\<lambda>(name, entry).
            if ie_enabled entry
            then map_option (check_url (net name) name) (ie_url entry) else None) cs)"

section \<open>Hash checks\<close>

record hash_check_result =
  hc_name :: string
  hc_url :: string
  hc_expected :: "string option"
  hc_actual :: "string option"
  hc_response_time_ms :: u64
  hc_matches :: bool
  hc_error :: "string option"

text \<open>What fetching gives: a local file's bytes, or the status and the body of the download.\<close>

record fetch_answers =
  fa_file :: "string \<Rightarrow> string + string"
  fa_get :: "string \<Rightarrow> string + (nat \<times> (string + string))"
  fa_elapsed_ms :: u64

definition normalized_pin :: "installer_entry \<Rightarrow> string option" where
  "normalized_pin entry = map_option (\<lambda>h. to_lower (trim h)) (ie_sha256 entry)"

definition pin_matches :: "string option \<Rightarrow> string \<Rightarrow> bool" where
  "pin_matches expected actual =
     (case expected of Some e \<Rightarrow> hash_hex_matches e actual | None \<Rightarrow> False)"

definition hash_result ::
  "string \<Rightarrow> string \<Rightarrow> string option \<Rightarrow> u64 \<Rightarrow> string option \<Rightarrow> bool \<Rightarrow> string option
    \<Rightarrow> hash_check_result" where
  "hash_result name url expected ms actual m err =
     \<lparr>hc_name = name, hc_url = url, hc_expected = expected, hc_actual = actual,
      hc_response_time_ms = ms, hc_matches = m, hc_error = err\<rparr>"

definition check_hash ::
  "(string \<Rightarrow> string) \<Rightarrow> fetch_answers \<Rightarrow> string \<Rightarrow> string \<Rightarrow> string option \<Rightarrow> hash_check_result" where
  "check_hash sha256_hex a name url expected =
     (if unwrap_or expected [] = [] then
        hash_result name url expected 0 None False (Some ''missing sha256 checksum'')
      else case strip_prefix url ''file://'' of
        Some path \<Rightarrow>
          (case fa_file a path of
             Inr bytes \<Rightarrow>
               hash_result name url expected (fa_elapsed_ms a) (Some (sha256_hex bytes))
                 (pin_matches expected (sha256_hex bytes)) None
           | Inl e \<Rightarrow>
               hash_result name url expected (fa_elapsed_ms a) None False
                 (Some (''cannot read '' @ path @ '': '' @ e)))
      | None \<Rightarrow>
          (case fa_get a url of
             Inl e \<Rightarrow> hash_result name url expected (fa_elapsed_ms a) None False (Some e)
           | Inr (st, body) \<Rightarrow>
               if \<not> (200 \<le> st \<and> st < 300) then
                 hash_result name url expected (fa_elapsed_ms a) None False
                   (Some (''HTTP '' @ show_nat st))
               else case body of
                 Inl e \<Rightarrow> hash_result name url expected (fa_elapsed_ms a) None False (Some e)
               | Inr bytes \<Rightarrow>
                   hash_result name url expected (fa_elapsed_ms a) (Some (sha256_hex bytes))
                     (pin_matches expected (sha256_hex bytes))
                     (if pin_matches expected (sha256_hex bytes) then None
                      else Some ''checksum mismatch'')))"

definition hash_task ::
  "(string \<Rightarrow> string) \<Rightarrow> (string \<Rightarrow> fetch_answers) \<Rightarrow> string \<times> installer_entry
    \<Rightarrow> hash_check_result option" where
  \<comment> \<open>one pass of the loop that spawns the tasks\<close>
  "hash_task sha256_hex net ne =
     (case ne of (name, entry) \<Rightarrow>
        if ie_enabled entry
        then map_option (\<lambda>url. check_hash sha256_hex (net name) name url (normalized_pin entry))
          (ie_url entry)
        else None)"

definition check_hashes ::
  "(string \<Rightarrow> string) \<Rightarrow> (string \<Rightarrow> fetch_answers) \<Rightarrow> checksums_file \<Rightarrow> hash_check_result list" where
  "check_hashes sha256_hex net cs =
     sort_key hc_name (List.map_filter (hash_task sha256_hex net) cs)"

section \<open>Lemmas\<close>

lemma byte_of_eq: "byte_of a = byte_of b \<longleftrightarrow> a = b"
proof -
  have "unat (byte_of c) = of_char c" for c
    using nat_of_char_less_256 [of c] by (simp add: byte_of_def unat_of_nat)
  then show ?thesis by (metis char_of_char)
qed

lemma byte_or_zero: "or (a :: u8) b = 0 \<longleftrightarrow> a = 0 \<and> b = 0"
  by (auto simp: bit_eq_iff bit_or_iff)

lemma byte_xor_zero: "xor (a :: u8) b = 0 \<longleftrightarrow> a = b"
  by (auto simp: bit_eq_iff bit_xor_iff)

lemma fold_diff_zero:
  "fold (\<lambda>(l, r) diff. or diff (xor (byte_of l) (byte_of r))) ps (d :: u8) = 0 \<longleftrightarrow>
     d = 0 \<and> (\<forall>(l, r)\<in>set ps. l = r)"
  by (induction ps arbitrary: d) (auto simp: byte_or_zero byte_xor_zero byte_of_eq)

lemma hash_hex_matches_eq [simp]: "hash_hex_matches a b \<longleftrightarrow> a = b"
proof (cases "length a = length b")
  case True
  then have "(\<forall>(l, r)\<in>set (zip a b). l = r) \<longleftrightarrow> a = b"
    by (induction a b rule: list_induct2) auto
  with True show ?thesis by (simp add: hash_hex_matches_def fold_diff_zero)
next
  case False
  then show ?thesis by (auto simp: hash_hex_matches_def)
qed

definition entry_urls_ok :: "(string \<Rightarrow> string option) \<Rightarrow> installer_entry \<Rightarrow> bool" where
  "entry_urls_ok url_error e = (case ie_url e of Some u \<Rightarrow> url_error u = None | None \<Rightarrow> True)"

lemma validate_entry_valid:
  "vr_valid (validate_entry url_error name e r) \<longleftrightarrow> vr_valid r \<and> entry_urls_ok url_error e"
  by (auto simp: validate_entry_def add_error_def add_warning_def entry_urls_ok_def Let_def
      split: option.split)

lemma validate_entry_errors:
  "(vr_errors (validate_entry url_error name e r) = []) \<longleftrightarrow>
     vr_errors r = [] \<and> entry_urls_ok url_error e"
  by (auto simp: validate_entry_def add_error_def add_warning_def entry_urls_ok_def Let_def
      split: option.split)

lemma validate_entries:
  "(vr_valid (fold (\<lambda>(n, e). validate_entry url_error n e) cs r) \<longleftrightarrow>
      vr_valid r \<and> (\<forall>(n, e)\<in>set cs. entry_urls_ok url_error e)) \<and>
   (vr_errors (fold (\<lambda>(n, e). validate_entry url_error n e) cs r) = [] \<longleftrightarrow>
      vr_errors r = [] \<and> (\<forall>(n, e)\<in>set cs. entry_urls_ok url_error e))"
  by (induction cs arbitrary: r) (auto simp: validate_entry_valid validate_entry_errors)

lemma policy_error_Some:
  assumes "distinct (map fst cs)"
  shows "policy_error b cs n = Some err \<longleftrightarrow>
     (\<exists>e u why. (n, e) \<in> set cs \<and> ie_enabled e \<and> ie_url e = Some u \<and>
        url_policy_violation u b = Some why \<and> err = InvalidUrl n (u @ '': '' @ why))"
proof (cases "map_of cs n")
  case None
  then have "n \<notin> fst ` set cs" by (simp add: map_of_eq_None_iff)
  with None show ?thesis by (force simp: policy_error_def)
next
  case (Some e)
  have "policy_error b cs n = Some err \<longleftrightarrow>
     (\<exists>u why. ie_enabled e \<and> ie_url e = Some u \<and> url_policy_violation u b = Some why \<and>
        err = InvalidUrl n (u @ '': '' @ why))"
    by (cases "ie_url e") (auto simp: policy_error_def Some)
  moreover have "(n, e') \<in> set cs \<longleftrightarrow> e' = e" for e'
    using map_of_eq_Some_iff [OF assms, of n e'] Some by auto
  ultimately show ?thesis by auto
qed

lemma set_validate_url_policy:
  assumes "distinct (map fst cs)"
  shows "set (validate_url_policy cs b) =
     {InvalidUrl n (u @ '': '' @ why) |n e u why. (n, e) \<in> set cs \<and> ie_enabled e \<and>
        ie_url e = Some u \<and> url_policy_violation u b = Some why}"
proof -
  have "set (validate_url_policy cs b) =
      {err. \<exists>n\<in>set (map fst cs). policy_error b cs n = Some err}"
    unfolding validate_url_policy_def set_map_filter set_sort by (rule refl)
  also have "\<dots> = {err. \<exists>n. policy_error b cs n = Some err}"
    unfolding policy_error_Some [OF assms] set_map by (rule Collect_cong) (metis fst_conv imageI)
  finally show ?thesis unfolding policy_error_Some [OF assms] by blast
qed

lemma hash_task_Some:
  "hash_task sha net (n, e) = Some r \<longleftrightarrow>
     ie_enabled e \<and> (\<exists>u. ie_url e = Some u \<and> r = check_hash sha (net n) n u (normalized_pin e))"
  by (cases "ie_url e") (auto simp: hash_task_def)

lemma set_check_hashes:
  "r \<in> set (check_hashes sha net cs) \<longleftrightarrow>
     (\<exists>n e u. (n, e) \<in> set cs \<and> ie_enabled e \<and> ie_url e = Some u \<and>
        r = check_hash sha (net n) n u (normalized_pin e))"
proof -
  have "r \<in> set (check_hashes sha net cs) \<longleftrightarrow> (\<exists>n e. (n, e) \<in> set cs \<and> hash_task sha net (n, e) = Some r)"
    by (simp add: check_hashes_def set_map_filter Bex_def)
  then show ?thesis unfolding hash_task_Some by blast
qed

lemma check_hash_matches:
  "hc_matches (check_hash sha a n u pin) \<longleftrightarrow>
     (\<exists>h bytes. pin = Some h \<and> h \<noteq> [] \<and> sha bytes = h \<and>
        (case strip_prefix u ''file://'' of
           Some path \<Rightarrow> fa_file a path = Inr bytes
         | None \<Rightarrow> \<exists>st. fa_get a u = Inr (st, Inr bytes) \<and> 200 \<le> st \<and> st < 300))"
  by (cases pin) (auto simp: check_hash_def hash_result_def pin_matches_def
      split: option.split sum.split prod.split)

section \<open>Properties\<close>

text \<open>
  the URL policy. Without its surrounding white space and in any letter case, a URL passes
  exactly when it begins with \<open>https://\<close>, or with \<open>file://\<close> where file URLs are allowed; and
  \<open>validate_url_policy\<close> reports exactly the enabled installers whose URL does not pass.
\<close>

theorem url_policy_is_exact:
  assumes "well_formed cs"
  shows "(url_policy_violation u b = None \<longleftrightarrow>
            prefix ''https://'' (to_lower (trim u)) \<or> (b \<and> prefix ''file://'' (to_lower (trim u)))) \<and>
         set (validate_url_policy cs b) =
           {InvalidUrl n (u @ '': '' @ why) |n e u why. (n, e) \<in> set cs \<and> ie_enabled e \<and>
              ie_url e = Some u \<and> url_policy_violation u b = Some why}"
proof -
  have "prefix ''file://'' s \<Longrightarrow> \<not> prefix ''https://'' s" for s by (auto simp: prefix_def)
  then have "url_policy_violation u b = None \<longleftrightarrow>
      prefix ''https://'' (to_lower (trim u)) \<or> (b \<and> prefix ''file://'' (to_lower (trim u)))"
    unfolding url_policy_violation_def Let_def by (simp split: if_splits)
  moreover note set_validate_url_policy [of cs b]
  ultimately show ?thesis using assms by (simp add: well_formed_def)
qed

definition sample_checksums :: checksums_file where
  "sample_checksums =
     [(''uv'', \<lparr>ie_url = Some ''http://x'', ie_sha256 = None, ie_version = None, ie_enabled = True,
        ie_tags = []\<rparr>)]"

theorem url_policy_is_exact_witness:
  "validate_url_policy sample_checksums False \<noteq> []"
proof -
  have "url_policy_violation ''http://x'' False =
      Some ''plain http:// is not allowed; ACFS enforces https''" by code_simp
  moreover have "well_formed sample_checksums" by (simp add: well_formed_def sample_checksums_def)
  ultimately have "InvalidUrl ''uv'' (''http://x'' @ '': '' @
      ''plain http:// is not allowed; ACFS enforces https'') \<in> set (validate_url_policy sample_checksums False)"
    using url_policy_is_exact [of sample_checksums "[]" False]
    by (fastforce simp: sample_checksums_def)
  then show ?thesis by auto
qed

text \<open>
  structural validation. A checksum file is valid exactly when every URL in it parses, that of
  disabled installers included; missing URLs and missing hashes only warn, and the flag always
  agrees with the list of errors.
\<close>

theorem validation_verdict:
  "(vr_valid (validate_checksums url_error cs b) \<longleftrightarrow>
      (\<forall>(n, e)\<in>set cs. \<forall>u. ie_url e = Some u \<longrightarrow> url_error u = None)) \<and>
   vr_valid (validate_checksums url_error cs b) =
     (vr_errors (validate_checksums url_error cs b) = [])"
  using validate_entries [of url_error cs validation_result_new]
  by (auto simp: validate_checksums_def validation_result_new_def add_warning_def entry_urls_ok_def
      Let_def split: option.splits prod.splits)

theorem validation_verdict_witness:
  "\<not> vr_valid (validate_checksums (\<lambda>_. Some ''relative URL'') sample_checksums True)"
  using validation_verdict [of "\<lambda>_. Some ''relative URL''" sample_checksums True]
  by (simp add: sample_checksums_def)

text \<open>
  the hash check is sound and complete. There is one result per enabled installer with a URL,
  sorted by name, and it matches exactly when the bytes were fetched (a readable local file or a
  successful download) and their SHA-256 equals the pinned one, trimmed and in lower case; the
  constant-time comparison is equality.
\<close>

theorem hash_check_is_exact:
  "sorted (map hc_name (check_hashes sha net cs)) \<and>
   (r \<in> set (check_hashes sha net cs) \<and> hc_matches r \<longleftrightarrow>
     (\<exists>n e u pin bytes. (n, e) \<in> set cs \<and> ie_enabled e \<and> ie_url e = Some u \<and>
        r = check_hash sha (net n) n u (normalized_pin e) \<and>
        ie_sha256 e = Some pin \<and> to_lower (trim pin) \<noteq> [] \<and> sha bytes = to_lower (trim pin) \<and>
        (case strip_prefix u ''file://'' of
           Some path \<Rightarrow> fa_file (net n) path = Inr bytes
         | None \<Rightarrow> \<exists>st. fa_get (net n) u = Inr (st, Inr bytes) \<and> 200 \<le> st \<and> st < 300)))"
proof -
  have sorted: "sorted (map hc_name (check_hashes sha net cs))" by (simp add: check_hashes_def)
  have m: "hc_matches (check_hash sha (net n) n u (normalized_pin e)) \<longleftrightarrow>
      (\<exists>pin bytes. ie_sha256 e = Some pin \<and> to_lower (trim pin) \<noteq> [] \<and> sha bytes = to_lower (trim pin) \<and>
        (case strip_prefix u ''file://'' of
           Some path \<Rightarrow> fa_file (net n) path = Inr bytes
         | None \<Rightarrow> \<exists>st. fa_get (net n) u = Inr (st, Inr bytes) \<and> 200 \<le> st \<and> st < 300))" for n e u
    unfolding check_hash_matches normalized_pin_def by (cases "ie_sha256 e") auto
  have "r \<in> set (check_hashes sha net cs) \<and> hc_matches r \<longleftrightarrow>
      (\<exists>n e u. (n, e) \<in> set cs \<and> ie_enabled e \<and> ie_url e = Some u \<and>
        r = check_hash sha (net n) n u (normalized_pin e) \<and>
        hc_matches (check_hash sha (net n) n u (normalized_pin e)))"
    unfolding set_check_hashes by blast
  with sorted show ?thesis unfolding m by blast
qed

end
