(* ===== verification/Spec.thy ===== *)
theory Spec
  imports OrderedMap Container Checksums
begin

text \<open>
  Execution profiles and resolved specifications (\<^verbatim>\<open>src/runner/acfs_profile.rs\<close>,
  \<^verbatim>\<open>src/runner/spec.rs\<close>, the overrides of \<^verbatim>\<open>src/config/schema.rs\<close>): for every field of an
  installer's specification, which of override, built-in profile and global setting decides, and
  the executor input built from it.
\<close>

section \<open>Profiles\<close>

datatype interpreter = Bash | Sh

fun interpreter_str :: "interpreter \<Rightarrow> string" where
  "interpreter_str Bash = ''bash''"
| "interpreter_str Sh = ''sh''"

definition interpreter_parse :: "string \<Rightarrow> interpreter option" where
  "interpreter_parse s =
     (if trim s = ''bash'' then Some Bash else if trim s = ''sh'' then Some Sh else None)"

record profile =
  pf_interpreter :: interpreter
  pf_args :: "string list"
  pf_env :: "(string \<times> string) list"
  pf_min_timeout_seconds :: "u64 option"
  pf_version_cmd :: "string option"

definition DEFAULT_PROFILE :: profile where
  "DEFAULT_PROFILE =
     \<lparr>pf_interpreter = Bash, pf_args = [], pf_env = [], pf_min_timeout_seconds = None,
      pf_version_cmd = None\<rparr>"

text \<open>The table; the documentation field \<open>source\<close>, which nothing reads, is left out.\<close>

definition TABLE :: "(string \<times> profile) list" where
  "TABLE =
     [(''zoxide'', \<lparr>pf_interpreter = Sh, pf_args = [], pf_env = [], pf_min_timeout_seconds = None,
        pf_version_cmd = Some ''zoxide --version''\<rparr>),
      (''atuin'', \<lparr>pf_interpreter = Sh, pf_args = [], pf_env = [(''ATUIN_NO_MODIFY_PATH'', ''1'')],
        pf_min_timeout_seconds = None, pf_version_cmd = Some ''atuin --version''\<rparr>),
      (''uv'', \<lparr>pf_interpreter = Sh, pf_args = [], pf_env = [], pf_min_timeout_seconds = None,
        pf_version_cmd = Some ''uv --version''\<rparr>),
      (''rust'', \<lparr>pf_interpreter = Sh, pf_args = [''-y''], pf_env = [],
        pf_min_timeout_seconds = Some 600, pf_version_cmd = Some ''cargo --version''\<rparr>),
      (''ubs'', \<lparr>pf_interpreter = Bash, pf_args = [], pf_env = [], pf_min_timeout_seconds = Some 900,
        pf_version_cmd = Some ''ubs --version''\<rparr>),
      (''bun'', \<lparr>pf_interpreter = Bash, pf_args = [], pf_env = [], pf_min_timeout_seconds = None,
        pf_version_cmd = Some ''bun --version''\<rparr>),
      (''ohmyzsh'', \<lparr>pf_interpreter = Sh, pf_args = [''--unattended'', ''--keep-zshrc''], pf_env = [],
        pf_min_timeout_seconds = None, pf_version_cmd = None\<rparr>),
      (''claude'', \<lparr>pf_interpreter = Bash, pf_args = [''latest''], pf_env = [],
        pf_min_timeout_seconds = None, pf_version_cmd = Some ''claude --version''\<rparr>),
      (''gemini_patch'', \<lparr>pf_interpreter = Bash, pf_args = [], pf_env = [],
        pf_min_timeout_seconds = None, pf_version_cmd = None\<rparr>),
      (''mdwb'', \<lparr>pf_interpreter = Bash, pf_args = [], pf_env = [], pf_min_timeout_seconds = Some 900,
        pf_version_cmd = None\<rparr>),
      (''nvm'', \<lparr>pf_interpreter = Bash, pf_args = [], pf_env = [], pf_min_timeout_seconds = None,
        pf_version_cmd = Some (''bash -lc '' @ [squote] @
          ''source ~/.nvm/nvm.sh >/dev/null 2>&1; nvm --version'' @ [squote])\<rparr>)]"

definition profile_of :: "string \<Rightarrow> profile" where
  "profile_of name =
     unwrap_or (map_option snd (find (\<lambda>(n, p). n = name) TABLE)) DEFAULT_PROFILE"

definition has_profile :: "string \<Rightarrow> bool" where
  "has_profile name = list_ex (\<lambda>(n, p). n = name) TABLE"

section \<open>Specifications\<close>

record installer_override =
  ov_timeout_seconds :: "u64 option"
  ov_retry :: "u32 option"
  ov_interpreter :: "string option"
  ov_args :: "string list option"
  ov_env :: "(string, string) btree"
  ov_skip :: "bool option"
  ov_skip_reason :: "string option"
  ov_expect_binary :: "string option"
  ov_verify_cmd :: "string option"
  ov_version_cmd :: "string option"
  ov_run_as_root :: "bool option"
  ov_memory_limit :: "string option"
  ov_network :: "string option"

definition no_override :: installer_override where
  "no_override =
     \<lparr>ov_timeout_seconds = None, ov_retry = None, ov_interpreter = None, ov_args = None,
      ov_env = [], ov_skip = None, ov_skip_reason = None, ov_expect_binary = None,
      ov_verify_cmd = None, ov_version_cmd = None, ov_run_as_root = None, ov_memory_limit = None,
      ov_network = None\<rparr>"

datatype field_source = Global | FromProfile | Override

record installer_spec =
  sp_name :: string
  sp_url :: string
  sp_sha256 :: "string option"
  sp_interpreter :: string
  sp_args :: "string list"
  sp_env :: "(string, string) btree"
  sp_timeout_seconds :: u64
  sp_retries :: u32
  sp_skip_reason :: "string option"
  sp_expect_binary :: "string option"
  sp_verify_cmd :: "string option"
  sp_version_cmd :: "string option"
  sp_run_as_root :: "bool option"
  sp_memory_limit :: "string option"
  sp_network :: "string option"
  sp_sources :: "(string, field_source) btree"

record global_defaults =
  gd_timeout_seconds :: u64
  gd_retries :: u32

definition resolve_interpreter ::
  "string \<Rightarrow> installer_override option \<Rightarrow> string \<times> field_source" where
  "resolve_interpreter name ovr =
     (case Option.bind ovr ov_interpreter of
        Some s \<Rightarrow>
          (case interpreter_parse s of Some i \<Rightarrow> interpreter_str i | None \<Rightarrow> trim s, Override)
      | None \<Rightarrow>
          (interpreter_str (pf_interpreter (profile_of name)),
           if has_profile name then FromProfile else Global))"

definition resolve_args ::
  "string \<Rightarrow> installer_override option \<Rightarrow> string list \<times> field_source" where
  "resolve_args name ovr =
     (case Option.bind ovr ov_args of
        Some a \<Rightarrow> (a, Override)
      | None \<Rightarrow>
          if pf_args (profile_of name) \<noteq> [] then (pf_args (profile_of name), FromProfile)
          else ([], Global))"

definition resolve_env ::
  "string \<Rightarrow> installer_override option \<Rightarrow> (string, string) btree \<times> field_source" where
  "resolve_env name ovr =
     (let env = bt_extend (pf_env (profile_of name)) [];
          src = (if env = [] then Global else FromProfile)
      in case ovr of
           Some ov \<Rightarrow> if ov_env ov \<noteq> [] then (bt_extend (ov_env ov) env, Override) else (env, src)
         | None \<Rightarrow> (env, src))"

definition resolve_timeout ::
  "string \<Rightarrow> installer_override option \<Rightarrow> global_defaults \<Rightarrow> u64 \<times> field_source" where
  "resolve_timeout name ovr gd =
     (case Option.bind ovr ov_timeout_seconds of
        Some t \<Rightarrow> (t, Override)
      | None \<Rightarrow>
          (case pf_min_timeout_seconds (profile_of name) of
             Some lo \<Rightarrow>
               if lo > gd_timeout_seconds gd then (lo, FromProfile)
               else (gd_timeout_seconds gd, Global)
           | None \<Rightarrow> (gd_timeout_seconds gd, Global)))"

definition resolve_retries ::
  "installer_override option \<Rightarrow> global_defaults \<Rightarrow> u32 \<times> field_source" where
  "resolve_retries ovr gd =
     (case Option.bind ovr ov_retry of Some r \<Rightarrow> (r, Override) | None \<Rightarrow> (gd_retries gd, Global))"

definition resolve_skip :: "installer_override option \<Rightarrow> string option" where
  "resolve_skip ovr =
     (case ovr of
        Some ov \<Rightarrow>
          if ov_skip ov = Some True
          then Some (unwrap_or (ov_skip_reason ov) ''skipped by [installers] override'') else None
      | None \<Rightarrow> None)"

definition resolve_spec ::
  "string \<Rightarrow> installer_entry \<Rightarrow> installer_override option \<Rightarrow> global_defaults
    \<Rightarrow> installer_spec" where
  "resolve_spec name entry ovr gd =
     (let (interp, isrc) = resolve_interpreter name ovr;
          (as, asrc) = resolve_args name ovr;
          (env, esrc) = resolve_env name ovr;
          (tmo, tsrc) = resolve_timeout name ovr gd;
          (retr, rsrc) = resolve_retries ovr gd
      in \<lparr>sp_name = name, sp_url = unwrap_or (ie_url entry) [],
          sp_sha256 = ie_sha256 entry, sp_interpreter = interp,
          sp_args = as, sp_env = env, sp_timeout_seconds = tmo, sp_retries = retr,
          sp_skip_reason = resolve_skip ovr,
          sp_expect_binary = Option.bind ovr ov_expect_binary,
          sp_verify_cmd = Option.bind ovr ov_verify_cmd,
          sp_version_cmd = opt_or (Option.bind ovr ov_version_cmd) (pf_version_cmd (profile_of name)),
          sp_run_as_root = Option.bind ovr ov_run_as_root,
          sp_memory_limit = Option.bind ovr ov_memory_limit,
          sp_network = Option.bind ovr ov_network,
          sp_sources = bt_extend
            [(''interpreter'', isrc), (''args'', asrc), (''env'', esrc), (''timeout_seconds'', tsrc),
             (''retries'', rsrc)] []\<rparr>)"

definition apply_opt :: "('a \<Rightarrow> 'b \<Rightarrow> 'b) \<Rightarrow> 'a option \<Rightarrow> 'b \<Rightarrow> 'b" where
  "apply_opt f o' b = (case o' of Some a \<Rightarrow> f a b | None \<Rightarrow> b)"

definition to_test :: "installer_spec \<Rightarrow> installer_test" where
  "to_test sp =
     apply_opt with_run_as_root (sp_run_as_root sp)
       (apply_opt with_network (sp_network sp)
         (apply_opt with_memory_limit (Option.bind (sp_memory_limit sp) parse_memory_limit)
           (apply_opt with_version_cmd (sp_version_cmd sp)
             (apply_opt with_verify_cmd (sp_verify_cmd sp)
               (apply_opt with_expect_binary (sp_expect_binary sp)
                 (fold (\<lambda>(k, v). with_env k v) (sp_env sp)
                   (apply_opt with_sha256 (sp_sha256 sp)
                     (with_args (sp_args sp)
                       (with_interpreter (sp_interpreter sp)
                         (with_retry_count (max (saturating_add_word (sp_retries sp) 1) 1)
                           (with_timeout (from_secs (sp_timeout_seconds sp))
                             (installer_test_new (sp_name sp) (sp_url sp)))))))))))))"

definition command_line :: "installer_spec \<Rightarrow> string" where
  "command_line sp =
     sp_interpreter sp @ '' /tmp/installer_'' @ sp_name sp @ ''.sh'' @
     concat (map (\<lambda>a. '' '' @ a) (sp_args sp))"

fun dedup :: "'a list \<Rightarrow> 'a list" where
  \<comment> \<open>\<open>Vec::dedup\<close>: consecutive repeats are dropped\<close>
  "dedup (x # y # zs) = (if x = y then dedup (y # zs) else x # dedup (y # zs))"
| "dedup xs = xs"

definition overridden_fields :: "installer_spec \<Rightarrow> string list" where
  "overridden_fields sp =
     dedup (sort (map fst (filter (\<lambda>(k, s). s = Override) (sp_sources sp)) @
       map snd (filter fst
         [(sp_skip_reason sp \<noteq> None, ''skip''), (sp_expect_binary sp \<noteq> None, ''expect_binary''),
          (sp_verify_cmd sp \<noteq> None, ''verify_cmd''), (sp_run_as_root sp \<noteq> None, ''run_as_root''),
          (sp_memory_limit sp \<noteq> None, ''memory_limit''), (sp_network sp \<noteq> None, ''network'')])))"

section \<open>Lemmas\<close>

lemma retry_count_value: "unat (max (saturating_add_word r 1) 1 :: u32) = min (unat r + 1) (2 ^ 32 - 1)"
proof -
  have "(1 :: u32) \<le> saturating_add_word r 1"
    by (simp add: word_le_nat_alt unat_saturating_add_word)
  then have "max (saturating_add_word r 1) 1 = saturating_add_word r (1 :: u32)"
    by (rule max_absorb1)
  then show ?thesis by (simp add: unat_saturating_add_word)
qed

lemma fold_with_env:
  "fold (\<lambda>(k, v). with_env k v) kvs t = t\<lparr>it_environment := it_environment t @ kvs\<rparr>"
  by (induction kvs arbitrary: t) (auto simp: with_env_def)

lemmas with_defs =
  with_interpreter_def with_args_def with_expect_binary_def with_verify_cmd_def
  with_version_cmd_def with_memory_limit_def with_network_def with_run_as_root_def with_timeout_def
  with_sha256_def with_retry_count_def

lemma to_test_fields:
  "it_name (to_test sp) = sp_name sp" "it_url (to_test sp) = sp_url sp"
  "it_interpreter (to_test sp) = sp_interpreter sp" "it_args (to_test sp) = sp_args sp"
  "it_environment (to_test sp) = sp_env sp" "it_expected_sha256 (to_test sp) = sp_sha256 sp"
  "it_timeout (to_test sp) = from_secs (sp_timeout_seconds sp)"
  "it_retry_count (to_test sp) = max (saturating_add_word (sp_retries sp) 1) 1"
  "it_memory_limit (to_test sp) = Option.bind (sp_memory_limit sp) parse_memory_limit"
  "it_verify_cmd (to_test sp) = sp_verify_cmd sp" "it_version_cmd (to_test sp) = sp_version_cmd sp"
  "it_expect_binary (to_test sp) = sp_expect_binary sp" "it_network (to_test sp) = sp_network sp"
  "it_run_as_root (to_test sp) = sp_run_as_root sp"
  by (auto simp: to_test_def apply_opt_def fold_with_env installer_test_new_def with_defs
      split: option.splits)

lemma profile_env_keys: "bt_ok (bt_extend (pf_env (profile_of name)) [])"
  by (simp add: bt_ok_extend)

lemma resolve_env_ok: "bt_ok (fst (resolve_env name ovr))"
  by (auto simp: resolve_env_def Let_def bt_ok_extend split: option.splits)

lemma sources_lookup:
  "map_of (sp_sources (resolve_spec name entry ovr gd)) =
     [''interpreter'' \<mapsto> snd (resolve_interpreter name ovr), ''args'' \<mapsto> snd (resolve_args name ovr),
      ''env'' \<mapsto> snd (resolve_env name ovr), ''timeout_seconds'' \<mapsto> snd (resolve_timeout name ovr gd),
      ''retries'' \<mapsto> snd (resolve_retries ovr gd)]"
  by (rule ext) (auto simp: resolve_spec_def map_of_bt_extend split: prod.splits)

lemma sources_ok: "bt_ok (sp_sources (resolve_spec name entry ovr gd))"
  by (auto simp: resolve_spec_def bt_ok_extend split: prod.splits)

lemma resolved_fields:
  "sp_name (resolve_spec name entry ovr gd) = name"
  "sp_url (resolve_spec name entry ovr gd) = unwrap_or (ie_url entry) []"
  "sp_sha256 (resolve_spec name entry ovr gd) = ie_sha256 entry"
  "sp_interpreter (resolve_spec name entry ovr gd) = fst (resolve_interpreter name ovr)"
  "sp_args (resolve_spec name entry ovr gd) = fst (resolve_args name ovr)"
  "sp_env (resolve_spec name entry ovr gd) = fst (resolve_env name ovr)"
  "sp_timeout_seconds (resolve_spec name entry ovr gd) = fst (resolve_timeout name ovr gd)"
  "sp_retries (resolve_spec name entry ovr gd) = fst (resolve_retries ovr gd)"
  "sp_skip_reason (resolve_spec name entry ovr gd) = resolve_skip ovr"
  by (auto simp: resolve_spec_def split: prod.splits)

lemma dedup_set: "set (dedup xs) = set xs"
  by (induction xs rule: dedup.induct) auto

lemma dedup_sorted: "sorted xs \<Longrightarrow> sorted (dedup xs) \<and> distinct (dedup (xs :: 'a::linorder list))"
proof (induction xs rule: dedup.induct)
  case (1 x y zs)
  show ?case
  proof (cases "x = y")
    case True
    with 1 show ?thesis by simp
  next
    case False
    with 1 have "x \<notin> set (dedup (y # zs))" "\<forall>z\<in>set (dedup (y # zs)). x \<le> z"
      by (auto simp: dedup_set)
    with 1 False show ?thesis by simp
  qed
qed simp_all

lemma profile_of_default: "\<not> has_profile name \<Longrightarrow> profile_of name = DEFAULT_PROFILE"
proof -
  assume "\<not> has_profile name"
  then have "find (\<lambda>(n, p). n = name) TABLE = None"
    by (auto simp: has_profile_def find_None_iff list_ex_iff)
  then show ?thesis by (simp add: profile_of_def)
qed

lemma table_env_distinct: "list_all (\<lambda>(n, p). distinct (map fst (pf_env p))) TABLE"
  by (simp add: TABLE_def)

lemma profile_env_distinct: "distinct (map fst (pf_env (profile_of name)))"
proof (cases "find (\<lambda>(n, p). n = name) TABLE")
  case None
  then show ?thesis by (simp add: profile_of_def DEFAULT_PROFILE_def)
next
  case (Some e)
  then have "e \<in> set TABLE" by (metis find_Some_iff nth_mem)
  with table_env_distinct have "distinct (map fst (pf_env (snd e)))"
    by (cases e) (auto simp: list_all_iff)
  with Some show ?thesis by (simp add: profile_of_def)
qed

lemma map_of_bt_extend_distinct:
  "bt_ok m \<Longrightarrow> distinct (map fst kvs) \<Longrightarrow>
     map_of (bt_extend kvs m) = map_of m ++ map_of kvs"
  by (rule ext) (simp add: map_of_bt_extend map_of_rev map_add_def)

lemma sources_overridden:
  "map_of (sp_sources (resolve_spec name entry (Some ov) gd)) k = Some Override \<longleftrightarrow>
     k = ''interpreter'' \<and> ov_interpreter ov \<noteq> None \<or> k = ''args'' \<and> ov_args ov \<noteq> None \<or>
     k = ''env'' \<and> ov_env ov \<noteq> [] \<or> k = ''timeout_seconds'' \<and> ov_timeout_seconds ov \<noteq> None \<or>
     k = ''retries'' \<and> ov_retry ov \<noteq> None"
  by (auto simp: sources_lookup resolve_interpreter_def resolve_args_def resolve_env_def
      resolve_timeout_def resolve_retries_def Let_def split: option.splits if_splits)

lemma resolved_settings:
  "sp_skip_reason (resolve_spec name entry (Some ov) gd) = None \<longleftrightarrow> ov_skip ov \<noteq> Some True"
  "sp_expect_binary (resolve_spec name entry (Some ov) gd) = ov_expect_binary ov"
  "sp_verify_cmd (resolve_spec name entry (Some ov) gd) = ov_verify_cmd ov"
  "sp_run_as_root (resolve_spec name entry (Some ov) gd) = ov_run_as_root ov"
  "sp_memory_limit (resolve_spec name entry (Some ov) gd) = ov_memory_limit ov"
  "sp_network (resolve_spec name entry (Some ov) gd) = ov_network ov"
  by (auto simp: resolve_spec_def resolve_skip_def split: prod.splits)

lemma overridden_sorted:
  "sorted (overridden_fields sp) \<and> distinct (overridden_fields sp)"
  unfolding overridden_fields_def by (rule dedup_sorted) simp

lemma set_present: "set (map snd (filter fst xs)) = {k. (True, k) \<in> set xs}"
  by force

lemma set_overridden:
  assumes "bt_ok (sp_sources sp)"
  shows "set (overridden_fields sp) = {k. map_of (sp_sources sp) k = Some Override} \<union>
     set (map snd (filter fst
        [(sp_skip_reason sp \<noteq> None, ''skip''), (sp_expect_binary sp \<noteq> None, ''expect_binary''),
         (sp_verify_cmd sp \<noteq> None, ''verify_cmd''), (sp_run_as_root sp \<noteq> None, ''run_as_root''),
         (sp_memory_limit sp \<noteq> None, ''memory_limit''), (sp_network sp \<noteq> None, ''network'')]))"
proof -
  have "set (map fst (filter (\<lambda>(k, s). s = Override) (sp_sources sp))) =
      {k. map_of (sp_sources sp) k = Some Override}"
    using bt_get_mem [OF assms] by force
  then show ?thesis by (simp add: overridden_fields_def dedup_set del: set_map)
qed

section \<open>Properties\<close>

definition layered :: "'a option \<Rightarrow> 'a option \<Rightarrow> 'a \<Rightarrow> 'a \<times> field_source" where
  \<comment> \<open>the abstract rule: the first layer that has an opinion, and its name\<close>
  "layered ov pf gl =
     (case ov of
        Some v \<Rightarrow> (v, Override)
      | None \<Rightarrow> (case pf of Some v \<Rightarrow> (v, FromProfile) | None \<Rightarrow> (gl, Global)))"

definition only_if :: "bool \<Rightarrow> 'a \<Rightarrow> 'a option" where
  "only_if b v = (if b then Some v else None)"


definition sample_entry :: installer_entry where
  "sample_entry =
     \<lparr>ie_url = Some ''https://x'', ie_sha256 = None, ie_version = None, ie_enabled = True,
      ie_tags = []\<rparr>"


text \<open>
  the report of overridden fields: sorted, without repeats, and exactly the settings the
  override makes: a skip only when it is asked for, an environment only when it has entries. An
  override of the version command is not in the list.
\<close>

theorem overridden_fields_are_the_settings:
  "sorted (overridden_fields (resolve_spec name entry (Some ov) gd)) \<and>
   distinct (overridden_fields (resolve_spec name entry (Some ov) gd)) \<and>
   set (overridden_fields (resolve_spec name entry (Some ov) gd)) =
     set (map snd (filter fst
       [(ov_interpreter ov \<noteq> None, ''interpreter''), (ov_args ov \<noteq> None, ''args''),
        (ov_env ov \<noteq> [], ''env''), (ov_timeout_seconds ov \<noteq> None, ''timeout_seconds''),
        (ov_retry ov \<noteq> None, ''retries''), (ov_skip ov = Some True, ''skip''),
        (ov_expect_binary ov \<noteq> None, ''expect_binary''), (ov_verify_cmd ov \<noteq> None, ''verify_cmd''),
        (ov_run_as_root ov \<noteq> None, ''run_as_root''),
        (ov_memory_limit ov \<noteq> None, ''memory_limit''), (ov_network ov \<noteq> None, ''network'')])) \<and>
   overridden_fields (resolve_spec name entry (Some (no_override\<lparr>ov_version_cmd := Some c\<rparr>)) gd) = []"
proof -
  have "set (overridden_fields (resolve_spec name entry
      (Some (no_override\<lparr>ov_version_cmd := Some c\<rparr>)) gd)) = {}"
    unfolding set_overridden [OF sources_ok]
    by (simp add: sources_overridden resolved_settings) (simp add: no_override_def)
  moreover have "set (overridden_fields (resolve_spec name entry (Some ov) gd)) =
     set (map snd (filter fst
       [(ov_interpreter ov \<noteq> None, ''interpreter''), (ov_args ov \<noteq> None, ''args''),
        (ov_env ov \<noteq> [], ''env''), (ov_timeout_seconds ov \<noteq> None, ''timeout_seconds''),
        (ov_retry ov \<noteq> None, ''retries''), (ov_skip ov = Some True, ''skip''),
        (ov_expect_binary ov \<noteq> None, ''expect_binary''), (ov_verify_cmd ov \<noteq> None, ''verify_cmd''),
        (ov_run_as_root ov \<noteq> None, ''run_as_root''),
        (ov_memory_limit ov \<noteq> None, ''memory_limit''), (ov_network ov \<noteq> None, ''network'')]))"
    unfolding set_overridden [OF sources_ok] sources_overridden resolved_settings set_present
    by (rule set_eqI) (simp, argo)
  ultimately show ?thesis using overridden_sorted by auto
qed

end
