(* ===== verification/Config.thy ===== *)
theory Config
  imports Toml Spec
begin

text \<open>
  The configuration schema (\<^verbatim>\<open>src/config/schema.rs\<close>): the sections with their defaults, the value
  a configuration serialises to (field by field, \<open>None\<close> left out, enumerations by their renamed
  strings), and the functions on single sections: worker count, remediation mode, directories,
  notifier configuration. An \<open>f64\<close> is the rational it denotes.
\<close>

section \<open>Enumerations\<close>

datatype parallelism = FixedWorkers usize | AutoWorkers string

datatype run_order = LongestFirst | NameOrder | ManifestOrder

datatype remediation_mode = Off | Advisory | Propose | Apply

datatype notification_mode = EveryRun | OnChange | DailyDigest

fun run_order_str :: "run_order \<Rightarrow> string" where
  "run_order_str LongestFirst = ''longest-first''"
| "run_order_str NameOrder = ''name''"
| "run_order_str ManifestOrder = ''manifest''"

fun remediation_mode_str :: "remediation_mode \<Rightarrow> string" where
  "remediation_mode_str Off = ''off''"
| "remediation_mode_str Advisory = ''advisory''"
| "remediation_mode_str Propose = ''propose''"
| "remediation_mode_str Apply = ''apply''"

fun notification_mode_str :: "notification_mode \<Rightarrow> string" where
  "notification_mode_str EveryRun = ''every_run''"
| "notification_mode_str OnChange = ''on_change''"
| "notification_mode_str DailyDigest = ''daily_digest''"

definition DEFAULT_GITHUB_API_URL :: string where
  "DEFAULT_GITHUB_API_URL = ''https://api.github.com''"

definition DEFAULT_ISSUE_TITLE :: string where
  "DEFAULT_ISSUE_TITLE = ''AFSC canary: installer failures''"

section \<open>Sections\<close>

record general_config =
  gc_acfs_repo :: string
  gc_log_level :: string
  gc_data_dir :: string
  gc_results_retention :: u64
  gc_log_dir :: string
  gc_log_retention_days :: u32
  gc_allow_file_urls :: bool

definition default_general_config :: general_config where
  "default_general_config =
     \<lparr>gc_acfs_repo = ''/data/projects/agentic_coding_flywheel_setup'',
      gc_log_level = ''info'', gc_data_dir = [], gc_results_retention = 200,
      gc_log_dir = [], gc_log_retention_days = 30, gc_allow_file_urls = False\<rparr>"

record docker_config =
  dk_image :: string
  dk_memory_limit :: string
  dk_cpu_quota :: rat
  dk_timeout_seconds :: u64
  dk_pull_policy :: string
  dk_build_timeout_seconds :: u64
  dk_run_as_root :: bool
  dk_reap_orphans :: bool
  dk_network :: string
  dk_volumes :: "string list"
  dk_prepare :: bool

definition default_docker_config :: docker_config where
  "default_docker_config =
     \<lparr>dk_image = ''afsc-base:latest'', dk_memory_limit = ''2G'', dk_cpu_quota = 1,
      dk_timeout_seconds = 300, dk_pull_policy = ''if-not-present'',
      dk_build_timeout_seconds = 900, dk_run_as_root = False, dk_reap_orphans = True,
      dk_network = ''bridge'', dk_volumes = [], dk_prepare = True\<rparr>"

record execution_config =
  ex_parallel :: parallelism
  ex_retry_transient :: u32
  ex_fail_fast :: bool
  ex_max_capture_bytes :: u64
  ex_run_deadline_seconds :: u64
  ex_order :: run_order

definition default_execution_config :: execution_config where
  "default_execution_config =
     \<lparr>ex_parallel = FixedWorkers 1, ex_retry_transient = 3, ex_fail_fast = False,
      ex_max_capture_bytes = 4194304, ex_run_deadline_seconds = 0, ex_order = LongestFirst\<rparr>"

record remediation_config =
  rm_enabled :: bool
  rm_mode :: remediation_mode
  rm_auto_commit :: bool
  rm_create_pr :: bool
  rm_max_attempts :: u32
  rm_cost_limit_usd :: rat
  rm_max_turns :: u32
  rm_timeout_seconds :: u64
  rm_allow_bash :: bool

definition default_remediation_config :: remediation_config where
  "default_remediation_config =
     \<lparr>rm_enabled = False, rm_mode = Off, rm_auto_commit = False, rm_create_pr = True,
      rm_max_attempts = 3, rm_cost_limit_usd = 3, rm_max_turns = 12,
      rm_timeout_seconds = 300, rm_allow_bash = False\<rparr>"

record notifications_config =
  nt_enabled :: bool
  nt_mode :: notification_mode
  nt_slack_webhook_env :: string
  nt_slack_channel :: string
  nt_github_token_env :: string
  nt_github_issue_repo :: string
  nt_github_add_comments :: bool
  nt_github_api_url :: string
  nt_github_issue_title :: string
  nt_notify_on_failure :: bool
  nt_notify_on_success :: bool

definition default_notifications_config :: notifications_config where
  "default_notifications_config =
     \<lparr>nt_enabled = False, nt_mode = OnChange, nt_slack_webhook_env = [],
      nt_slack_channel = [], nt_github_token_env = [], nt_github_issue_repo = [],
      nt_github_add_comments = True, nt_github_api_url = DEFAULT_GITHUB_API_URL,
      nt_github_issue_title = DEFAULT_ISSUE_TITLE, nt_notify_on_failure = True,
      nt_notify_on_success = False\<rparr>"

record monitoring_config =
  mo_health_endpoint :: bool
  mo_health_port :: u16
  mo_metrics_enabled :: bool
  mo_metrics_port :: u16
  mo_bind :: string
  mo_stale_after_seconds :: u64
  mo_stale_status_code :: u16

definition default_monitoring_config :: monitoring_config where
  "default_monitoring_config =
     \<lparr>mo_health_endpoint = False, mo_health_port = 8080, mo_metrics_enabled = False,
      mo_metrics_port = 9090, mo_bind = ''0.0.0.0'', mo_stale_after_seconds = 93600,
      mo_stale_status_code = 503\<rparr>"

record watchdog_config =
  wg_default_interval_seconds :: u64
  wg_log_pings :: bool

definition default_watchdog_config :: watchdog_config where
  "default_watchdog_config =
     \<lparr>wg_default_interval_seconds = 120, wg_log_pings = False\<rparr>"

record config =
  cf_general :: general_config
  cf_docker :: docker_config
  cf_execution :: execution_config
  cf_remediation :: remediation_config
  cf_notifications :: notifications_config
  cf_monitoring :: monitoring_config
  cf_watchdog :: watchdog_config
  cf_installers :: "(string, installer_override) btree"

definition default_config :: config where
  "default_config =
     \<lparr>cf_general = default_general_config,
      cf_docker = default_docker_config,
      cf_execution = default_execution_config,
      cf_remediation = default_remediation_config,
      cf_notifications = default_notifications_config,
      cf_monitoring = default_monitoring_config,
      cf_watchdog = default_watchdog_config,
      cf_installers = []\<rparr>"

section \<open>Serialisation\<close>

definition word_value :: "'a::len word \<Rightarrow> toml" where
  "word_value w = TInteger (uint w)"

fun parallelism_value :: "parallelism \<Rightarrow> toml" where
  "parallelism_value (FixedWorkers n) = TInteger (int n)"
| "parallelism_value (AutoWorkers s) = TString s"

definition table_value :: "(string \<times> toml) list \<Rightarrow> toml" where
  "table_value kvs = TTable (bt_extend kvs [])"

definition optional :: "string \<Rightarrow> ('a \<Rightarrow> toml) \<Rightarrow> 'a option \<Rightarrow> (string \<times> toml) list" where
  "optional k f x = (case x of None \<Rightarrow> [] | Some y \<Rightarrow> [(k, f y)])"

definition general_config_value :: "general_config \<Rightarrow> toml" where
  "general_config_value c =
     table_value
       [(''acfs_repo'', TString (gc_acfs_repo c)),
        (''log_level'', TString (gc_log_level c)),
        (''data_dir'', TString (gc_data_dir c)),
        (''results_retention'', word_value (gc_results_retention c)),
        (''log_dir'', TString (gc_log_dir c)),
        (''log_retention_days'', word_value (gc_log_retention_days c)),
        (''allow_file_urls'', TBoolean (gc_allow_file_urls c))]"

definition docker_config_value :: "docker_config \<Rightarrow> toml" where
  "docker_config_value c =
     table_value
       [(''image'', TString (dk_image c)),
        (''memory_limit'', TString (dk_memory_limit c)),
        (''cpu_quota'', TFloat (dk_cpu_quota c)),
        (''timeout_seconds'', word_value (dk_timeout_seconds c)),
        (''pull_policy'', TString (dk_pull_policy c)),
        (''build_timeout_seconds'', word_value (dk_build_timeout_seconds c)),
        (''run_as_root'', TBoolean (dk_run_as_root c)),
        (''reap_orphans'', TBoolean (dk_reap_orphans c)),
        (''network'', TString (dk_network c)),
        (''volumes'', TArray (map TString (dk_volumes c))),
        (''prepare'', TBoolean (dk_prepare c))]"

definition execution_config_value :: "execution_config \<Rightarrow> toml" where
  "execution_config_value c =
     table_value
       [(''parallel'', parallelism_value (ex_parallel c)),
        (''retry_transient'', word_value (ex_retry_transient c)),
        (''fail_fast'', TBoolean (ex_fail_fast c)),
        (''max_capture_bytes'', word_value (ex_max_capture_bytes c)),
        (''run_deadline_seconds'', word_value (ex_run_deadline_seconds c)),
        (''order'', TString (run_order_str (ex_order c)))]"

definition remediation_config_value :: "remediation_config \<Rightarrow> toml" where
  "remediation_config_value c =
     table_value
       [(''enabled'', TBoolean (rm_enabled c)),
        (''mode'', TString (remediation_mode_str (rm_mode c))),
        (''auto_commit'', TBoolean (rm_auto_commit c)),
        (''create_pr'', TBoolean (rm_create_pr c)),
        (''max_attempts'', word_value (rm_max_attempts c)),
        (''cost_limit_usd'', TFloat (rm_cost_limit_usd c)),
        (''max_turns'', word_value (rm_max_turns c)),
        (''timeout_seconds'', word_value (rm_timeout_seconds c)),
        (''allow_bash'', TBoolean (rm_allow_bash c))]"

definition notifications_config_value :: "notifications_config \<Rightarrow> toml" where
  "notifications_config_value c =
     table_value
       [(''enabled'', TBoolean (nt_enabled c)),
        (''mode'', TString (notification_mode_str (nt_mode c))),
        (''slack_webhook_env'', TString (nt_slack_webhook_env c)),
        (''slack_channel'', TString (nt_slack_channel c)),
        (''github_token_env'', TString (nt_github_token_env c)),
        (''github_issue_repo'', TString (nt_github_issue_repo c)),
        (''github_add_comments'', TBoolean (nt_github_add_comments c)),
        (''github_api_url'', TString (nt_github_api_url c)),
        (''github_issue_title'', TString (nt_github_issue_title c)),
        (''notify_on_failure'', TBoolean (nt_notify_on_failure c)),
        (''notify_on_success'', TBoolean (nt_notify_on_success c))]"

definition monitoring_config_value :: "monitoring_config \<Rightarrow> toml" where
  "monitoring_config_value c =
     table_value
       [(''health_endpoint'', TBoolean (mo_health_endpoint c)),
        (''health_port'', word_value (mo_health_port c)),
        (''metrics_enabled'', TBoolean (mo_metrics_enabled c)),
        (''metrics_port'', word_value (mo_metrics_port c)),
        (''bind'', TString (mo_bind c)),
        (''stale_after_seconds'', word_value (mo_stale_after_seconds c)),
        (''stale_status_code'', word_value (mo_stale_status_code c))]"

definition watchdog_config_value :: "watchdog_config \<Rightarrow> toml" where
  "watchdog_config_value c =
     table_value
       [(''default_interval_seconds'', word_value (wg_default_interval_seconds c)),
        (''log_pings'', TBoolean (wg_log_pings c))]"

definition override_value :: "installer_override \<Rightarrow> toml" where
  "override_value v =
     table_value
       (optional ''timeout_seconds'' word_value (ov_timeout_seconds v) @
        optional ''retry'' word_value (ov_retry v) @
        optional ''interpreter'' TString (ov_interpreter v) @
        optional ''args'' (TArray \<circ> map TString) (ov_args v) @
        [(''env'', TTable (map (\<lambda>(k, x). (k, TString x)) (ov_env v)))] @
        optional ''skip'' TBoolean (ov_skip v) @
        optional ''skip_reason'' TString (ov_skip_reason v) @
        optional ''expect_binary'' TString (ov_expect_binary v) @
        optional ''verify_cmd'' TString (ov_verify_cmd v) @
        optional ''version_cmd'' TString (ov_version_cmd v) @
        optional ''run_as_root'' TBoolean (ov_run_as_root v) @
        optional ''memory_limit'' TString (ov_memory_limit v) @
        optional ''network'' TString (ov_network v))"

definition config_value :: "config \<Rightarrow> toml" where
  "config_value c =
     table_value
       [(''general'', general_config_value (cf_general c)),
        (''docker'', docker_config_value (cf_docker c)),
        (''execution'', execution_config_value (cf_execution c)),
        (''remediation'', remediation_config_value (cf_remediation c)),
        (''notifications'', notifications_config_value (cf_notifications c)),
        (''monitoring'', monitoring_config_value (cf_monitoring c)),
        (''watchdog'', watchdog_config_value (cf_watchdog c)),
        (''installers'', TTable (map (\<lambda>(k, v). (k, override_value v)) (cf_installers c)))]"

text \<open>\<open>Value::try_from\<close> refuses an integer that does not fit an \<open>i64\<close>.\<close>

fun encodable :: "toml \<Rightarrow> bool" where
  "encodable (TInteger i) \<longleftrightarrow> i < 2 ^ 63"
| "encodable (TArray vs) \<longleftrightarrow> (\<forall>v\<in>set vs. encodable v)"
| "encodable (TTable t) \<longleftrightarrow> (\<forall>e\<in>set t. encodable (snd e))"
| "encodable v \<longleftrightarrow> True"

definition try_from_config :: "config \<Rightarrow> toml option" where
  "try_from_config c = (if encodable (config_value c) then Some (config_value c) else None)"

section \<open>Directories\<close>

definition path_join :: "string \<Rightarrow> string \<Rightarrow> string" where
  "path_join a b =
     (if prefix ''/'' b \<or> a = [] then b else if suffix ''/'' a then a @ b else a @ ''/'' @ b)"

text \<open>\<open>env\<close> is the process environment.\<close>

definition default_data_dir :: "(string \<Rightarrow> string option) \<Rightarrow> string" where
  "default_data_dir env =
     (let home = path_join (path_join (path_join (unwrap_or (env ''HOME'') ''/tmp'') ''.local'') ''share'')
            ''afsc''
      in case env ''XDG_DATA_HOME'' of
           Some xdg \<Rightarrow> if trim xdg \<noteq> [] then path_join xdg ''afsc'' else home
         | None \<Rightarrow> home)"

definition data_dir_path :: "(string \<Rightarrow> string option) \<Rightarrow> general_config \<Rightarrow> string" where
  "data_dir_path env c = (if trim (gc_data_dir c) = [] then default_data_dir env else trim (gc_data_dir c))"

definition log_dir_path :: "(string \<Rightarrow> string option) \<Rightarrow> general_config \<Rightarrow> string" where
  "log_dir_path env c =
     (if trim (gc_log_dir c) = [] then path_join (data_dir_path env c) ''logs'' else gc_log_dir c)"

definition results_dir :: "(string \<Rightarrow> string option) \<Rightarrow> general_config \<Rightarrow> string" where
  "results_dir env c = path_join (data_dir_path env c) ''results''"

definition metrics_path :: "(string \<Rightarrow> string option) \<Rightarrow> general_config \<Rightarrow> string" where
  "metrics_path env c = path_join (data_dir_path env c) ''metrics.json''"

section \<open>Worker count and remediation mode\<close>

definition resolve_with_cores :: "parallelism \<Rightarrow> usize \<Rightarrow> usize" where
  "resolve_with_cores p cores =
     (case p of
        FixedWorkers n \<Rightarrow> max n 1
      | AutoWorkers s \<Rightarrow>
          if eq_ignore_ascii_case s ''auto'' then min 4 (max 1 (cores div 2))
          else max (unwrap_or (parse_unsigned 64 (trim s)) 1) 1)"

definition remediation_mode_parse :: "string \<Rightarrow> remediation_mode option" where
  "remediation_mode_parse s =
     (let t = to_lower (trim s)
      in if t = ''off'' then Some Off else if t = ''advisory'' then Some Advisory
         else if t = ''propose'' then Some Propose else if t = ''apply'' then Some Apply else None)"

definition effective_mode :: "remediation_config \<Rightarrow> remediation_mode" where
  "effective_mode c = (if rm_enabled c \<and> rm_mode c = Off then Advisory else rm_mode c)"

section \<open>Notifier configuration\<close>

record github_config =
  gh_repo :: string
  gh_token_env :: string
  gh_create_issues :: bool
  gh_add_comments :: bool
  gh_api_url :: string
  gh_issue_title :: string

record slack_config =
  sl_webhook_url_env :: string
  sl_channel :: string
  sl_notify_on_failure :: bool
  sl_notify_on_success :: bool

record notification_config =
  nc_enabled :: bool
  nc_github :: "github_config option"
  nc_slack :: "slack_config option"

definition or_default :: "string \<Rightarrow> string \<Rightarrow> string" where
  "or_default s d = (if trim s = [] then d else trim s)"

definition to_internal :: "notifications_config \<Rightarrow> notification_config" where
  "to_internal c =
     (if \<not> nt_enabled c then \<lparr>nc_enabled = False, nc_github = None, nc_slack = None\<rparr>
      else
        \<lparr>nc_enabled = True,
         nc_github =
           (if trim (nt_github_issue_repo c) \<noteq> [] \<or> trim (nt_github_token_env c) \<noteq> []
            then Some
              \<lparr>gh_repo = trim (nt_github_issue_repo c), gh_token_env = trim (nt_github_token_env c),
               gh_create_issues = True, gh_add_comments = nt_github_add_comments c,
               gh_api_url = or_default (nt_github_api_url c) DEFAULT_GITHUB_API_URL,
               gh_issue_title = or_default (nt_github_issue_title c) DEFAULT_ISSUE_TITLE\<rparr>
            else None),
         nc_slack =
           (if trim (nt_slack_webhook_env c) \<noteq> [] \<or> trim (nt_slack_channel c) \<noteq> []
            then Some
              \<lparr>sl_webhook_url_env = trim (nt_slack_webhook_env c), sl_channel = trim (nt_slack_channel c),
               sl_notify_on_failure = nt_notify_on_failure c,
               sl_notify_on_success = nt_notify_on_success c\<rparr>
            else None)\<rparr>)"

end
