(* ===== verification/Settings.thy ===== *)
theory Settings
  imports Config Retry
begin

text \<open>
  Resolution of the settings (\<^verbatim>\<open>src/config/resolve.rs\<close>): defaults, the file, the environment and the
  command line, one over the other, with the source of every key and the keys the schema does not
  know. Reading the file, parsing TOML and deserialising the merged table into a configuration are
  parameters.
\<close>

datatype setting_source = DefaultSource | FileSource | EnvSource | CliSource

fun setting_source_str :: "setting_source \<Rightarrow> string" where
  "setting_source_str DefaultSource = ''default''"
| "setting_source_str FileSource = ''file''"
| "setting_source_str EnvSource = ''env''"
| "setting_source_str CliSource = ''cli''"

record cli_overrides =
  co_parallel :: "string option"
  co_timeout_seconds :: "u64 option"
  co_fail_fast :: "bool option"
  co_image :: "string option"
  co_data_dir :: "string option"
  co_acfs_repo :: "string option"
  co_remediation_mode :: "string option"
  co_allow_file_urls :: "bool option"
  co_log_level :: "string option"

definition no_overrides :: cli_overrides where
  "no_overrides =
     \<lparr>co_parallel = None, co_timeout_seconds = None, co_fail_fast = None, co_image = None,
      co_data_dir = None, co_acfs_repo = None, co_remediation_mode = None,
      co_allow_file_urls = None, co_log_level = None\<rparr>"

text \<open>\<open>t as i64\<close> wraps: the word is read as a signed number.\<close>

definition cli_entries :: "(rat \<Rightarrow> rat) \<Rightarrow> cli_overrides \<Rightarrow> (string \<times> toml) list" where
  "cli_entries R c =
     optional ''execution.parallel'' (parse_scalar R) (co_parallel c) @
     optional ''docker.timeout_seconds'' (\<lambda>t. TInteger (sint t)) (co_timeout_seconds c) @
     optional ''execution.fail_fast'' TBoolean (co_fail_fast c) @
     optional ''docker.image'' TString (co_image c) @
     optional ''general.data_dir'' TString (co_data_dir c) @
     optional ''general.acfs_repo'' TString (co_acfs_repo c) @
     optional ''remediation.mode'' TString (co_remediation_mode c) @
     optional ''general.allow_file_urls'' TBoolean (co_allow_file_urls c) @
     optional ''general.log_level'' TString (co_log_level c)"

record settings =
  st_config :: config
  st_sources :: "(string, setting_source) btree"
  st_unknown_keys :: "string list"
  st_config_path :: "string option"

definition source_of :: "settings \<Rightarrow> string \<Rightarrow> setting_source" where
  "source_of s key = unwrap_or (map_of (st_sources s) key) DefaultSource"

definition known_keys :: "string list" where
  "known_keys = map fst (flatten (config_value default_config) [])"

definition INSTALLER_OVERRIDE_KEYS :: "string list" where
  "INSTALLER_OVERRIDE_KEYS =
     [''timeout_seconds'', ''retry'', ''interpreter'', ''args'', ''env'', ''skip'', ''skip_reason'',
      ''expect_binary'', ''verify_cmd'', ''version_cmd'', ''run_as_root'', ''memory_limit'', ''network'']"

definition strip_installers :: "string \<Rightarrow> string option" where
  \<comment> \<open>\<open>key.strip_prefix("installers.")\<close>\<close>
  "strip_installers key =
     (if prefix ''installers.'' key then Some (drop (length ''installers.'') key) else None)"

definition override_field :: "string \<Rightarrow> string option" where
  \<comment> \<open>the second of the at most three pieces between dots, if the key lies under \<open>installers\<close>\<close>
  "override_field key =
     map_option (\<lambda>rest. case parts rest of _ # f # _ \<Rightarrow> f | _ \<Rightarrow> []) (strip_installers key)"

definition is_known :: "string \<Rightarrow> bool" where
  "is_known key \<longleftrightarrow>
     key \<in> set known_keys \<or>
     (case override_field key of None \<Rightarrow> False | Some f \<Rightarrow> f \<in> set INSTALLER_OVERRIDE_KEYS)"

definition unknown_keys :: "toml_table \<Rightarrow> string list" where
  "unknown_keys raw = sort (filter (\<lambda>k. \<not> is_known k) (map fst (flatten (TTable raw) [])))"

record config_world =
  cv_read :: "string \<Rightarrow> anyhow + string"
  cv_parse :: "string \<Rightarrow> anyhow + toml_table" \<comment> \<open>\<open>toml::from_str\<close>\<close>
  cv_decode :: "toml_table \<Rightarrow> anyhow + config" \<comment> \<open>\<open>Value::try_into::<Config>\<close>\<close>

definition load_raw :: "config_world \<Rightarrow> string option \<Rightarrow> anyhow + toml_table" where
  "load_raw w path =
     (case path of
        None \<Rightarrow> Inr []
      | Some p \<Rightarrow>
          (case with_context (''Failed to read config file: '' @ p) (cv_read w p) of
             Inl e \<Rightarrow> Inl e
           | Inr content \<Rightarrow> with_context (''Failed to parse config file: '' @ p) (cv_parse w content)))"

definition default_table :: toml_table where
  "default_table = (case config_value default_config of TTable t \<Rightarrow> t | _ \<Rightarrow> [])"

definition env_entries ::
  "(rat \<Rightarrow> rat) \<Rightarrow> (string \<Rightarrow> string option) \<Rightarrow> (string \<times> toml) list" where
  "env_entries R env =
     List.map_filter (\<lambda>key. map_option (\<lambda>v. (key, parse_scalar R v)) (env (env_name_for key))) known_keys"

definition apply_layer ::
  "setting_source \<Rightarrow> (string \<times> toml) list \<Rightarrow> toml_table \<times> (string, setting_source) btree
    \<Rightarrow> toml_table \<times> (string, setting_source) btree" where
  "apply_layer src kvs ms =
     fold (\<lambda>(k, v) (m, s). (set_path k v m, bt_insert k src s)) kvs ms"

definition merge_layers ::
  "(rat \<Rightarrow> rat) \<Rightarrow> toml_table \<Rightarrow> (string \<Rightarrow> string option) \<Rightarrow> cli_overrides
    \<Rightarrow> toml_table \<times> (string, setting_source) btree" where
  "merge_layers R raw env cli =
     apply_layer CliSource (cli_entries R cli)
       (apply_layer EnvSource (env_entries R env)
         (apply_layer FileSource (flatten (TTable raw) []) (default_table, [])))"

definition resolve ::
  "(rat \<Rightarrow> rat) \<Rightarrow> config_world \<Rightarrow> string option \<Rightarrow> (string \<Rightarrow> string option) \<Rightarrow> cli_overrides
    \<Rightarrow> anyhow + settings" where
  "resolve R w path env cli =
     (case load_raw w path of
        Inl e \<Rightarrow> Inl e
      | Inr raw \<Rightarrow>
          (case merge_layers R raw env cli of
             (merged, sources) \<Rightarrow>
               (case with_context
                   (case path of Some p \<Rightarrow> ''Failed to parse config file: '' @ p
                    | None \<Rightarrow> ''Failed to resolve configuration'') (cv_decode w merged) of
                  Inl e \<Rightarrow> Inl e
                | Inr cfg \<Rightarrow>
                    Inr \<lparr>st_config = cfg, st_sources = sources, st_unknown_keys = unknown_keys raw,
                         st_config_path = path\<rparr>)))"

definition env_map :: "(string \<Rightarrow> string option) \<Rightarrow> string \<Rightarrow> string option" where
  "env_map env k = (if prefix ENV_PREFIX k then env k else None)"

definition render_annotated :: "(toml \<Rightarrow> string) \<Rightarrow> settings \<Rightarrow> string option" where
  "render_annotated sv s =
     map_option (\<lambda>v. render_table sv (\<lambda>key. setting_source_str (source_of s key)) v [])
       (try_from_config (st_config s))"

definition load_config :: "config_world \<Rightarrow> string option \<Rightarrow> anyhow + config" where
  "load_config w path =
     (case path of
        None \<Rightarrow> Inr default_config
      | Some p \<Rightarrow>
          (case with_context (''Failed to read config file: '' @ p) (cv_read w p) of
             Inl e \<Rightarrow> Inl e
           | Inr content \<Rightarrow>
               with_context (''Failed to parse config file: '' @ p)
                 (case cv_parse w content of Inl e \<Rightarrow> Inl e | Inr t \<Rightarrow> cv_decode w t)))"

section \<open>The keys of the schema\<close>

text \<open>Every key of the schema names a section and a field, so two different ones lie apart.\<close>

lemma known_keys_parts: "list_all (\<lambda>k. length (parts k) = 2) known_keys"
  by code_simp

lemma default_table_ok: "tables_ok (TTable default_table)"
  by code_simp

lemma env_names_distinct: "distinct (map env_name_for known_keys)"
  by code_simp

lemma parts_inject: "parts a = parts b \<Longrightarrow> a = b"
  by (metis join_split_on)

lemma known_keys_apart:
  assumes "a \<in> set known_keys" "b \<in> set known_keys" "a \<noteq> b"
  shows "apart a b"
proof -
  have "length (parts a) = 2" "length (parts b) = 2"
    using known_keys_parts assms(1,2) by (auto simp: list_all_iff)
  then have "prefix (parts a) (parts b) \<longrightarrow> a = b" "prefix (parts b) (parts a) \<longrightarrow> a = b"
    by (auto simp: prefix_def dest: parts_inject)
  with assms(3) show ?thesis by (simp add: apart_def)
qed

lemma cli_keys_known:
  "list_all (\<lambda>k. k \<in> set known_keys)
     [''execution.parallel'', ''docker.timeout_seconds'', ''execution.fail_fast'', ''docker.image'',
      ''general.data_dir'', ''general.acfs_repo'', ''remediation.mode'', ''general.allow_file_urls'',
      ''general.log_level'']"
  by code_simp

lemma optional_members: "(k, v) \<in> set (optional a f x) \<longleftrightarrow> k = a \<and> (\<exists>y. x = Some y \<and> v = f y)"
  by (auto simp: optional_def split: option.split)

lemma parse_scalar_leaf: "\<not> is_table (parse_scalar R s)"
  by (simp add: parse_scalar_def Let_def split: option.split)

lemma flatten_leaf: "(k, v) \<in> set (flatten t pre) \<Longrightarrow> \<not> is_table v"
  by (induction t pre arbitrary: k v rule: flatten.induct) auto

lemma leaf_tables_ok: "\<not> is_table v \<Longrightarrow> tables_ok v"
  by (cases v) simp_all

lemma cli_entries_members:
  assumes "(k, v) \<in> set (cli_entries R c)"
  shows "k \<in> set known_keys \<and> \<not> is_table v"
proof -
  have "k \<in> set [''execution.parallel'', ''docker.timeout_seconds'', ''execution.fail_fast'', ''docker.image'',
      ''general.data_dir'', ''general.acfs_repo'', ''remediation.mode'', ''general.allow_file_urls'',
      ''general.log_level'']"
    using assms unfolding cli_entries_def set_append Un_iff optional_members by (elim disjE conjE) simp_all
  moreover have "\<not> is_table v"
    using assms unfolding cli_entries_def set_append Un_iff optional_members
    by (elim disjE conjE exE) (simp_all add: parse_scalar_leaf)
  ultimately show ?thesis using cli_keys_known unfolding list_all_iff by blast
qed

lemma env_entries_members:
  "(k, v) \<in> set (env_entries R env) \<longleftrightarrow>
     k \<in> set known_keys \<and> (\<exists>x. env (env_name_for k) = Some x \<and> v = parse_scalar R x)"
  by (auto simp: env_entries_def set_map_filter)

lemma env_entries_map:
  assumes "key \<in> set known_keys"
  shows "map_of (rev (env_entries R env)) key = map_option (parse_scalar R) (env (env_name_for key))"
proof (cases "env (env_name_for key)")
  case None
  then have "key \<notin> fst ` set (rev (env_entries R env))" by (auto simp: env_entries_members)
  with None show ?thesis by (simp add: map_of_eq_None_iff)
next
  case (Some x)
  have "\<exists>v. map_of (rev (env_entries R env)) key = Some v"
    using Some assms by (metis env_entries_members map_of_eq_None_iff not_None_eq set_rev image_eqI fst_conv)
  then obtain v where "map_of (rev (env_entries R env)) key = Some v" by blast
  moreover from map_of_SomeD [OF this] Some have "v = parse_scalar R x"
    by (simp add: env_entries_members)
  ultimately show ?thesis by (simp add: Some)
qed

section \<open>The layers\<close>

lemma apply_layer_values: "fst (apply_layer src kvs ms) = fold (\<lambda>(k, v). set_path k v) kvs (fst ms)"
  unfolding apply_layer_def by (induction kvs arbitrary: ms) (simp_all add: case_prod_beta)

lemma apply_layer_sources: "snd (apply_layer src kvs ms) = bt_extend (map (\<lambda>(k, v). (k, src)) kvs) (snd ms)"
  unfolding apply_layer_def bt_extend_def by (induction kvs arbitrary: ms) (simp_all add: case_prod_beta)

definition layer_ok :: "string \<Rightarrow> (string \<times> toml) list \<Rightarrow> bool" where
  \<comment> \<open>leaves whose keys are \<open>key\<close> or lie apart from it\<close>
  "layer_ok key kvs \<longleftrightarrow> (\<forall>(k, v)\<in>set kvs. \<not> is_table v \<and> (k = key \<or> apart k key))"

lemma apply_layer_result:
  assumes "layer_ok key kvs" "tables_ok (TTable (fst ms))" "bt_ok (snd ms)"
  shows "tables_ok (TTable (fst (apply_layer src kvs ms)))" "bt_ok (snd (apply_layer src kvs ms))"
    "get_path key (fst (apply_layer src kvs ms)) =
       (case map_of (rev kvs) key of Some v \<Rightarrow> Some v | None \<Rightarrow> get_path key (fst ms))"
    "map_of (snd (apply_layer src kvs ms)) key =
       (case map_of (rev kvs) key of Some v \<Rightarrow> Some src | None \<Rightarrow> map_of (snd ms) key)"
proof -
  have leaves: "\<forall>(k, v)\<in>set kvs. tables_ok v" "\<forall>(k, v)\<in>set kvs. tables_ok v \<and> (k = key \<or> apart k key)"
    using assms(1) leaf_tables_ok by (auto simp: layer_ok_def)
  show "tables_ok (TTable (fst (apply_layer src kvs ms)))"
    unfolding apply_layer_values by (rule settings.ok_put_all [OF assms(2) leaves(1)])
  show "get_path key (fst (apply_layer src kvs ms)) =
       (case map_of (rev kvs) key of Some v \<Rightarrow> Some v | None \<Rightarrow> get_path key (fst ms))"
    unfolding apply_layer_values by (rule settings.get_put_all [OF assms(2) leaves(2)])
  show "bt_ok (snd (apply_layer src kvs ms))"
    unfolding apply_layer_sources by (rule bt_ok_extend [OF assms(3)])
  have "map_of (rev (map (\<lambda>(k, v). (k, src)) kvs)) key = map_option (\<lambda>_. src) (map_of (rev kvs) key)"
    by (simp add: rev_map map_of_map)
  then show "map_of (snd (apply_layer src kvs ms)) key =
       (case map_of (rev kvs) key of Some v \<Rightarrow> Some src | None \<Rightarrow> map_of (snd ms) key)"
    unfolding apply_layer_sources map_of_bt_extend [OF assms(3)] by (simp split: option.split)
qed

lemma known_layers_ok:
  assumes "key \<in> set known_keys"
  shows "layer_ok key (env_entries R env)" "layer_ok key (cli_entries R cli)"
  using known_keys_apart [OF _ assms] cli_entries_members
  by (fastforce simp: layer_ok_def env_entries_members parse_scalar_leaf)+

lemma merge_layers_key:
  assumes "key \<in> set known_keys" "layer_ok key (flatten (TTable raw) [])"
  shows "(get_path key (fst (merge_layers R raw env cli)),
          unwrap_or (map_of (snd (merge_layers R raw env cli)) key) DefaultSource) =
     (case map_of (rev (cli_entries R cli)) key of
        Some v \<Rightarrow> (Some v, CliSource)
      | None \<Rightarrow>
          (case env (env_name_for key) of
             Some x \<Rightarrow> (Some (parse_scalar R x), EnvSource)
           | None \<Rightarrow>
               (case map_of (rev (flatten (TTable raw) [])) key of
                  Some v \<Rightarrow> (Some v, FileSource)
                | None \<Rightarrow> (get_path key default_table, DefaultSource))))"
proof -
  let ?f = "apply_layer FileSource (flatten (TTable raw) []) (default_table, [])"
  let ?e = "apply_layer EnvSource (env_entries R env) ?f"
  have start: "tables_ok (TTable (fst (default_table, [])))" "bt_ok (snd (default_table, []))"
    using default_table_ok by simp_all
  note f = apply_layer_result [OF assms(2) start, of FileSource]
  note e = apply_layer_result [OF known_layers_ok(1) [OF assms(1)] f(1,2), of EnvSource R env]
  note c = apply_layer_result [OF known_layers_ok(2) [OF assms(1)] e(1,2), of CliSource R cli]
  show ?thesis
    unfolding merge_layers_def c(3,4) e(3,4) f(3,4) env_entries_map [OF assms(1)]
    by (simp split: option.split)
qed

text \<open>A key with a dot in its name is never a key of a table that \<open>set_path\<close> builds.\<close>

fun dot_free :: "toml \<Rightarrow> bool" where
  "dot_free (TTable t) \<longleftrightarrow> (\<forall>e\<in>set t. CHR ''.'' \<notin> set (fst e) \<and> dot_free (snd e))"
| "dot_free _ \<longleftrightarrow> True"

lemma dot_free_insert:
  "CHR ''.'' \<notin> set k \<Longrightarrow> dot_free v \<Longrightarrow> dot_free (TTable t) \<Longrightarrow> dot_free (TTable (bt_insert k v t))"
  by (auto dest!: bt_insert_members)

lemma dot_free_subtable: "dot_free (TTable t) \<Longrightarrow> dot_free (TTable (subtable k t))"
proof (cases "map_of t k")
  case (Some v)
  assume "dot_free (TTable t)"
  with map_of_SomeD [OF Some] have "dot_free v" by force
  with Some show ?thesis by (cases v) (simp_all add: subtable_def)
qed (simp add: subtable_def)

lemma dot_free_set_parts:
  "\<forall>k\<in>set ks. CHR ''.'' \<notin> set k \<Longrightarrow> dot_free v \<Longrightarrow> dot_free (TTable t) \<Longrightarrow>
     dot_free (TTable (set_parts ks v t))"
proof (induction ks v t rule: set_parts.induct)
  case (2 k v t)
  then show ?case by (simp add: dot_free_insert del: dot_free.simps)
next
  case (3 k l ks v t)
  then have sub: "dot_free (TTable (set_parts (l # ks) v (subtable k t)))" and k: "CHR ''.'' \<notin> set k"
    using dot_free_subtable [of t k] by (auto simp del: dot_free.simps(1) set_parts.simps)
  show ?case unfolding set_parts.simps by (rule dot_free_insert [OF k sub 3(4)])
qed simp

lemma dot_free_path: "dot_free (TTable t) \<Longrightarrow> get_parts ls t = Some x \<Longrightarrow> k \<in> set ls \<Longrightarrow> CHR ''.'' \<notin> set k"
proof (induction ls t rule: get_parts.induct)
  case (3 a b ls t)
  from 3(3) obtain s where s: "map_of t a = Some (TTable s)" "get_parts (b # ls) s = Some x"
    by (auto split: option.splits toml.splits)
  from 3(2) map_of_SomeD [OF s(1)] have "CHR ''.'' \<notin> set a" "dot_free (TTable s)" by force+
  with 3(1) [OF s(1) refl _ s(2)] 3(4) show ?case by auto
qed (force dest: map_of_SomeD)+

lemma leaf_dot_free: "\<not> is_table v \<Longrightarrow> dot_free v"
  by (cases v) simp_all

lemma dot_free_layer:
  assumes "\<forall>(k, v)\<in>set kvs. \<not> is_table v" "dot_free (TTable (fst ms))"
  shows "dot_free (TTable (fst (apply_layer src kvs ms)))"
proof -
  have "dot_free (TTable m) \<Longrightarrow> dot_free (TTable (fold (\<lambda>(k, v). set_path k v) kvs m))" for m
    using assms(1)
  proof (induction kvs arbitrary: m)
    case (Cons kv kvs)
    obtain k v where kv: "kv = (k, v)" by (cases kv)
    have "\<forall>c\<in>set (parts k). CHR ''.'' \<notin> set c" using split_on_no_sep by fast
    moreover have "dot_free v" using leaf_dot_free Cons.prems(2) by (simp add: kv)
    ultimately have "dot_free (TTable (set_path k v m))"
      unfolding set_path_def by (rule dot_free_set_parts [OF _ _ Cons.prems(1)])
    from Cons.IH [OF this] Cons.prems(2) show ?case by (simp add: kv del: dot_free.simps)
  qed simp
  from this [OF assms(2)] show ?thesis by (simp only: apply_layer_values)
qed

lemma default_dot_free: "dot_free (TTable default_table)"
  by code_simp

lemma merge_layers_dot_free: "dot_free (TTable (fst (merge_layers R raw env cli)))"
  unfolding merge_layers_def
  by (intro dot_free_layer)
    (use default_dot_free cli_entries_members flatten_leaf in
      \<open>auto simp: env_entries_members parse_scalar_leaf simp del: flatten.simps dot_free.simps\<close>)

lemma parse_scalar_nat: "n < 2 ^ 63 \<Longrightarrow> parse_scalar R (show_nat n) = TInteger (int n)"
proof -
  assume n: "n < 2 ^ 63"
  have d: "list_all is_digit (show_nat n)" "show_nat n \<noteq> []" using show_nat_digits by auto
  then have "\<not> prefix ''-'' (show_nat n)" using digit_not_sign by (cases "show_nat n") auto
  then have "parse_i64 (show_nat n) = Some (int n)"
    using n by (simp add: parse_i64_def parse_nat_show_nat)
  moreover have "trim (show_nat n) = show_nat n"
    using trim_alphanumeric [OF d(2) show_nat_ends] .
  ultimately show ?thesis by (simp add: parse_scalar_def)
qed

section \<open>Properties\<close>

text \<open>
  C11: the layers. When the resolution succeeds, the table the configuration is read from holds for
  every key of the schema the value of the command line, else the scalar of its environment variable,
  else the value of the file, else the default, and the settings name exactly that source; the file
  must only not set a key above or below the one in question.
\<close>

theorem settings_precedence:
  assumes "resolve R w path env cli = Inr s" "load_raw w path = Inr raw"
    and "key \<in> set known_keys"
    and "\<forall>k\<in>fst ` set (flatten (TTable raw) []). k = key \<or> apart k key"
  shows "cv_decode w (fst (merge_layers R raw env cli)) = Inr (st_config s) \<and>
    (get_path key (fst (merge_layers R raw env cli)), source_of s key) =
      (case map_of (rev (cli_entries R cli)) key of
         Some v \<Rightarrow> (Some v, CliSource)
       | None \<Rightarrow>
           (case env (env_name_for key) of
              Some x \<Rightarrow> (Some (parse_scalar R x), EnvSource)
            | None \<Rightarrow>
                (case map_of (rev (flatten (TTable raw) [])) key of
                   Some v \<Rightarrow> (Some v, FileSource)
                 | None \<Rightarrow> (get_path key default_table, DefaultSource))))"
proof -
  have "layer_ok key (flatten (TTable raw) [])"
    using assms(4) flatten_leaf by (fastforce simp: layer_ok_def simp del: flatten.simps)
  note key = merge_layers_key [OF assms(3) this, of R env cli]
  have "cv_decode w (fst (merge_layers R raw env cli)) = Inr (st_config s)"
    "st_sources s = snd (merge_layers R raw env cli)"
    using assms(1,2)
    by (auto simp: resolve_def with_context_def split: sum.splits prod.splits option.splits)
  with key show ?thesis by (simp only: source_of_def simp_thms)
qed

definition sample_decode :: "toml_table \<Rightarrow> anyhow + config" where
  "sample_decode t =
     (case get_path ''docker.image'' t of
        Some (TString i) \<Rightarrow> Inr (default_config\<lparr>cf_docker := default_docker_config\<lparr>dk_image := i\<rparr>\<rparr>)
      | _ \<Rightarrow> Inl [''invalid type''])"

definition sample_config_world :: config_world where
  "sample_config_world =
     \<lparr>cv_read = (\<lambda>_. Inr ''text''),
      cv_parse = (\<lambda>_. Inr [(''docker'', TTable [(''image'', TString ''ubuntu:22.04'')])]),
      cv_decode = sample_decode\<rparr>"

lemma docker_image_known: "''docker.image'' \<in> set known_keys"
  by code_simp

lemma sample_settings:
  fixes R :: "rat \<Rightarrow> rat"
  defines "m \<equiv> merge_layers R [(''docker'', TTable [(''image'', TString ''ubuntu:22.04'')])] Map.empty
      (no_overrides\<lparr>co_image := Some ''debian''\<rparr>)"
  shows "get_path ''docker.image'' (fst m) = Some (TString ''debian'')"
    "\<exists>s. resolve R sample_config_world (Some ''c.toml'') Map.empty
        (no_overrides\<lparr>co_image := Some ''debian''\<rparr>) = Inr s"
proof -
  let ?raw = "[(''docker'', TTable [(''image'', TString ''ubuntu:22.04'')])]"
  have f: "flatten (TTable ?raw) [] = [(''docker.image'', TString ''ubuntu:22.04'')]" by code_simp
  have "layer_ok ''docker.image'' (flatten (TTable ?raw) [])" unfolding f by (simp add: layer_ok_def)
  from merge_layers_key [OF docker_image_known this, of R Map.empty "no_overrides\<lparr>co_image := Some ''debian''\<rparr>"]
  show i: "get_path ''docker.image'' (fst m) = Some (TString ''debian'')"
    by (simp add: m_def cli_entries_def no_overrides_def optional_def)
  then show "\<exists>s. resolve R sample_config_world (Some ''c.toml'') Map.empty
        (no_overrides\<lparr>co_image := Some ''debian''\<rparr>) = Inr s"
    by (cases m) (simp add: resolve_def load_raw_def sample_config_world_def with_context_def
        sample_decode_def m_def)
qed

theorem settings_precedence_witness:
  "\<exists>s. resolve id sample_config_world (Some ''c.toml'') Map.empty
        (no_overrides\<lparr>co_image := Some ''debian''\<rparr>) = Inr s \<and> source_of s ''docker.image'' = CliSource"
proof -
  let ?raw = "[(''docker'', TTable [(''image'', TString ''ubuntu:22.04'')])]"
  obtain s where s: "resolve id sample_config_world (Some ''c.toml'') Map.empty
        (no_overrides\<lparr>co_image := Some ''debian''\<rparr>) = Inr s" using sample_settings(2) by blast
  have f: "flatten (TTable ?raw) [] = [(''docker.image'', TString ''ubuntu:22.04'')]" by code_simp
  have raw: "load_raw sample_config_world (Some ''c.toml'') = Inr ?raw"
    by (simp add: load_raw_def sample_config_world_def with_context_def)
  from settings_precedence [OF s raw docker_image_known, unfolded f]
  have "source_of s ''docker.image'' = CliSource"
    by (simp add: cli_entries_def no_overrides_def optional_def)
  with s show ?thesis by blast
qed

text \<open>
  an override of an installer whose name has a dot is lost. Whatever the file says under such a
  name, the table the configuration is read from has no installer of that name: the dotted key is
  taken apart at every dot.
\<close>

theorem dotted_installer_names_are_lost:
  assumes "resolve R w path env cli = Inr s" "load_raw w path = Inr raw" "CHR ''.'' \<in> set name"
  shows "\<exists>merged. cv_decode w merged = Inr (st_config s) \<and> get_parts [''installers'', name] merged = None"
proof -
  have "cv_decode w (fst (merge_layers R raw env cli)) = Inr (st_config s)"
    using assms(1,2)
    by (auto simp: resolve_def with_context_def split: sum.splits prod.splits option.splits)
  moreover have "get_parts [''installers'', name] (fst (merge_layers R raw env cli)) = None"
    using dot_free_path [OF merge_layers_dot_free, of "[''installers'', name]" R raw env cli _ name] assms(3)
    by (cases "get_parts [''installers'', name] (fst (merge_layers R raw env cli))") auto
  ultimately show ?thesis by blast
qed

definition dotted_world :: config_world where
  "dotted_world =
     \<lparr>cv_read = (\<lambda>_. Inr ''text''),
      cv_parse = (\<lambda>_. Inr [(''installers'', TTable [(''foo.sh'', TTable [(''skip'', TBoolean True)])])]),
      cv_decode = (\<lambda>t. case get_parts [''installers'', ''foo.sh''] t of
          None \<Rightarrow> Inr default_config
        | Some _ \<Rightarrow> Inr (default_config\<lparr>cf_installers := [(''foo.sh'', no_override\<lparr>ov_skip := Some True\<rparr>)]\<rparr>))\<rparr>"

theorem dotted_installer_names_are_lost_witness:
  "\<exists>s. resolve id dotted_world (Some ''c.toml'') Map.empty no_overrides = Inr s \<and>
     cf_installers (st_config s) = []"
proof -
  let ?raw = "[(''installers'', TTable [(''foo.sh'', TTable [(''skip'', TBoolean True)])])]"
  have raw: "load_raw dotted_world (Some ''c.toml'') = Inr ?raw"
    by (simp add: load_raw_def dotted_world_def with_context_def)
  obtain m ss where m: "merge_layers id ?raw Map.empty no_overrides = (m, ss)" by fastforce
  have "\<exists>c. cv_decode dotted_world m = Inr c"
    unfolding dotted_world_def config_world.simps
    by (cases "get_parts [''installers'', ''foo.sh''] m") (simp_all del: get_parts.simps)
  then obtain c where "cv_decode dotted_world m = Inr c" by blast
  with raw m obtain s where s: "resolve id dotted_world (Some ''c.toml'') Map.empty no_overrides = Inr s"
    by (simp add: resolve_def with_context_def)
  from dotted_installer_names_are_lost [OF s raw, of "''foo.sh''"]
  obtain m where "cv_decode dotted_world m = Inr (st_config s)"
    "get_parts [''installers'', ''foo.sh''] m = None" by auto
  then have "st_config s = default_config" by (simp add: dotted_world_def)
  with s show ?thesis by (auto simp: default_config_def)
qed

end
