(* ===== verification/Commands.thy ===== *)
theory Commands
  imports Results
begin

text \<open>
  What the remediation does to the outside: \<^verbatim>\<open>git\<close> and \<^verbatim>\<open>gh\<close> processes, files and directories, edit
  sessions and reruns of the installer. A program in this style reads the answers of the outside from
  a function of everything done so far and keeps the list of its actions; \<open>does P m\<close> says that every
  action of \<open>m\<close> satisfies \<open>P\<close>, whatever the outside answers.
\<close>

datatype action =
  Git string "string list" \<comment> \<open>\<open>git -C dir args\<close>\<close>
| Gh string "string list"
| MakeDirs string
| WriteText string string
| ReadText string
| Session nat \<comment> \<open>the edit session of an attempt\<close>
| Rerun nat \<comment> \<open>the installer, run again after an attempt\<close>

text \<open>A process that does not start, or its success, output and error output.\<close>

datatype answer = NotRun string | Answer bool string string

type_synonym world = "action list \<Rightarrow> action \<Rightarrow> answer"
type_synonym 'a io = "world \<Rightarrow> action list \<Rightarrow> 'a \<times> action list"

definition io_return :: "'a \<Rightarrow> 'a io" where
  "io_return x = (\<lambda>w past. (x, past))"

definition io_bind :: "'a io \<Rightarrow> ('a \<Rightarrow> 'b io) \<Rightarrow> 'b io" where
  "io_bind m f = (\<lambda>w past. case m w past of (x, past') \<Rightarrow> f x w past')"

definition io_try :: "('e + 'a) io \<Rightarrow> ('a \<Rightarrow> ('e + 'b) io) \<Rightarrow> ('e + 'b) io" where
  \<comment> \<open>the question mark operator\<close>
  "io_try m f = io_bind m (\<lambda>r. case r of Inl e \<Rightarrow> io_return (Inl e) | Inr x \<Rightarrow> f x)"

definition io_map :: "('a \<Rightarrow> 'b) \<Rightarrow> 'a io \<Rightarrow> 'b io" where
  "io_map g m = io_bind m (\<lambda>x. io_return (g x))"

definition act :: "action \<Rightarrow> answer io" where
  "act a = (\<lambda>w past. (w past a, past @ [a]))"

fun answered :: "answer \<Rightarrow> anyhow + string" where
  "answered (NotRun e) = Inl [e]"
| "answered (Answer ok out err) = (if ok then Inr out else Inl [err])"

definition git_answer :: "string list \<Rightarrow> answer \<Rightarrow> anyhow + string" where
  "git_answer args a =
     (case a of
        NotRun e \<Rightarrow> Inl [''running git'', e]
      | Answer ok out err \<Rightarrow>
          if ok then Inr (trim (from_utf8_lossy out))
          else Inl [''git '' @ join '' '' args @ '' failed: '' @ trim (from_utf8_lossy err)])"

definition git :: "string \<Rightarrow> string list \<Rightarrow> (anyhow + string) io" where
  "git dir args = io_map (git_answer args) (act (Git dir args))"

section \<open>Logs only grow\<close>

text \<open>Everything \<open>m\<close> does in any world satisfies \<open>P\<close>.\<close>

definition does :: "(action \<Rightarrow> bool) \<Rightarrow> 'a io \<Rightarrow> bool" where
  "does P m \<longleftrightarrow> (\<forall>w past. \<exists>new. snd (m w past) = past @ new \<and> (\<forall>a\<in>set new. P a))"

lemma doesI:
  assumes "\<And>w past. \<exists>new. snd (m w past) = past @ new \<and> (\<forall>a\<in>set new. P a)"
  shows "does P m"
  using assms by (simp add: does_def)

lemma doesE:
  assumes "does P m" "m w past = (x, past')"
  obtains new where "past' = past @ new" "\<forall>a\<in>set new. P a"
  using assms unfolding does_def by (metis snd_conv)

named_theorems does_intros

lemma does_return [does_intros]: "does P (io_return x)"
  by (rule doesI) (simp add: io_return_def)

lemma does_act [does_intros]: "P a \<Longrightarrow> does P (act a)"
  by (rule doesI) (simp add: act_def)

lemma does_bind [does_intros]:
  assumes "does P m" "\<And>x. does P (f x)"
  shows "does P (io_bind m f)"
proof (rule doesI)
  fix w past
  obtain x past' where m: "m w past = (x, past')" by force
  then obtain a where a: "past' = past @ a" "\<forall>b\<in>set a. P b" using assms(1) by (elim doesE) blast
  obtain y past'' where f: "f x w past' = (y, past'')" by force
  then obtain b where "past'' = past' @ b" "\<forall>c\<in>set b. P c"
    using assms(2) [of x] by (elim doesE) blast
  with m f a show "\<exists>new. snd (io_bind m f w past) = past @ new \<and> (\<forall>a\<in>set new. P a)"
    by (intro exI [of _ "a @ b"]) (auto simp: io_bind_def)
qed

lemma does_try [does_intros]:
  "does P m \<Longrightarrow> (\<And>x. does P (f x)) \<Longrightarrow> does P (io_try m f)"
  unfolding io_try_def by (intro does_bind) (auto intro: does_return split: sum.splits)

lemma does_map [does_intros]: "does P m \<Longrightarrow> does P (io_map g m)"
  unfolding io_map_def by (intro does_intros)

lemma does_git [does_intros]: "P (Git dir args) \<Longrightarrow> does P (git dir args)"
  unfolding git_def by (intro does_intros)

lemma does_if [does_intros]: "(b \<Longrightarrow> does P m) \<Longrightarrow> (\<not> b \<Longrightarrow> does P n) \<Longrightarrow> does P (if b then m else n)"
  by simp

lemmas io_simps = io_return_def io_bind_def io_try_def io_map_def act_def

end
