(* ===== verification/Naming.thy ===== *)
theory Naming
  imports Parallel "HOL-Library.Multiset"
begin

text \<open>
  Every result carries the name of its test: through one attempt on either backend, the retry loop,
  the pool's workers and the results of tests that never started. The interface of the runner for
  this is the locale \<open>named_runs\<close>.
\<close>

lemma name_simps [rec_simps]:
  "tr_installer_name (test_result_new now n) = n"
  "tr_installer_name (with_container_id cid r) = tr_installer_name r"
  "tr_installer_name (attach_telemetry tel r) = tr_installer_name r"
  "tr_installer_name (set_duration d r) = tr_installer_name r"
  "tr_installer_name (finish_attempt now r) = tr_installer_name r"
  "tr_installer_name (mark_cancelled e now m r) = tr_installer_name r"
  "tr_installer_name (with_checksum_result c r) = tr_installer_name r"
  "tr_installer_name (with_checksum_state s r) = tr_installer_name r"
  "tr_installer_name (finalize_failure rx syn r) = tr_installer_name r"
  "tr_installer_name (skipped now m r) = tr_installer_name r"
  "tr_installer_name (cancelled now m r) = tr_installer_name r"
  "tr_installer_name (failed now code m r) = tr_installer_name r"
  "tr_installer_name (mark_check_failed status m r) = tr_installer_name r"
  "tr_installer_name (local_early la r) = tr_installer_name r"
  "tr_installer_name (finish_test le mx i as rs r) = tr_installer_name r"
  by (simp_all add: test_result_new_def with_container_id_def attach_telemetry_def set_duration_def
      finish_attempt_def mark_cancelled_def with_checksum_result_def with_checksum_state_def
      finalize_failure_def skipped_def cancelled_def failed_def mark_check_failed_def local_early_def
      finish_test_def stamp_finished_def Let_def split: option.split)

lemma post_install_name [rec_simps]:
  "tr_installer_name (post_install rx run t r) = tr_installer_name r"
  using post_install_cases [of rx run t r]
  by (auto simp: rec_simps record_version_def split: option.split sum.split prod.split)

lemma docker_execute_name:
  "docker_execute rx cfg t da cid r = (es, r') \<Longrightarrow> tr_installer_name r' = tr_installer_name r"
  by (erule docker_execute_cases)
    (auto simp: docker_exec_result_def Let_def rec_simps split: option.splits)

lemma run_test_docker_name:
  "run_test_docker rx sha cfg cc pol t da = (evs, Inr r) \<Longrightarrow> tr_installer_name r = it_name t"
  by (erule run_test_docker_Inr) (auto simp: rec_simps dest!: docker_execute_name)

lemma local_execute_name:
  "local_execute rx cfg t la r = Inr r' \<Longrightarrow> tr_installer_name r' = tr_installer_name r"
  by (erule local_execute_cases) (simp_all add: local_exec_result_def Let_def rec_simps)

lemma run_test_local_name:
  "run_test_local rx sha cfg t la = Inr r \<Longrightarrow> tr_installer_name r = it_name t"
  by (auto simp: run_test_local_def Let_def rec_simps
      split: sum.splits option.splits if_splits prod.splits dest!: local_execute_name)

lemma run_test_name:
  "run_test rx sha cfg t ae = (evs, Inr r) \<Longrightarrow> tr_installer_name r = it_name t"
  by (auto simp: run_test_def rec_simps split: if_splits execution_backend.splits prod.splits sum.splits
      dest!: run_test_docker_name run_test_local_name)

lemma cancel_in_backoff_name [rec_simps]:
  "tr_installer_name (cancel_in_backoff rx le mx i as rs r) = tr_installer_name r"
  by (simp add: cancel_in_backoff_def rec_simps)

lemma run_test_with_retry_name:
  assumes "run_test_with_retry rx F cfg t le = Inr r"
    and "\<And>i r. le_run le i = Inr r \<Longrightarrow> tr_installer_name r = it_name t"
  shows "tr_installer_name r = it_name t"
proof -
  obtain n rl where out: "loop_outcome rx le (max (it_retry_count t) 1) n rl r"
    using run_test_with_retry_outcome [OF assms(1)] by blast
  then have "tr_installer_name r = tr_installer_name rl"
    unfolding loop_outcome_def by (metis (no_types, lifting) cancel_in_backoff_name name_simps(15))
  with out assms(2) [of "of_nat n" rl] show ?thesis by (simp add: loop_outcome_def)
qed

section \<open>Interface to the runs\<close>

locale named_runs =
  fixes runs :: "nat \<Rightarrow> anyhow + test_result \<Rightarrow> bool" and tests :: "installer_test list"
  assumes runs_named: "runs i (Inr r) \<Longrightarrow> tr_installer_name r = it_name (tests ! i)"
begin

lemma worker_name: "runs i out \<Longrightarrow> tr_installer_name (worker_result rx now (tests ! i) out) = it_name (tests ! i)"
  using runs_named by (auto simp: worker_result_def rec_simps split: sum.splits)

lemma explained_name:
  assumes "pl_run pc = runs" "pl_tests pc = tests" "explained pc s i r"
  shows "tr_installer_name r = it_name (tests ! i)"
  using assms worker_name
  by (auto simp: explained_def own_result_def cancelled_before_start_def skipped_by_fail_fast_def rec_simps)

lemma tasks_named:
  assumes "pl_run pc = runs" "pl_tests pc = tests" "pool_reachable pc s"
  shows "list_all2 (\<lambda>ts t. \<forall>r. ts = Done r \<longrightarrow> tr_installer_name r = it_name t) (po_tasks s) tests"
proof -
  have inv: "pool_inv pc s" by (rule pool_inv_reachable [OF assms(3)])
  then have len: "length (po_tasks s) = length tests" using assms(2) by (simp add: pool_invD)
  have "tr_installer_name r = it_name (tests ! i)" if "i < length tests" "po_tasks s ! i = Done r" for i r
    using pool_invD(2) [OF inv, of i r] that len explained_name [OF assms(1,2)] by simp
  with len show ?thesis by (simp add: list_all2_conv_all_nth)
qed

lemma pool_names:
  assumes "pl_run pc = runs" "pl_tests pc = tests" "pool_reachable pc s" "run_all s = Some rs"
  shows "mset (map tr_installer_name rs) \<subseteq># mset (map it_name tests)"
proof -
  have "mset (map tr_installer_name (List.map_filter result_of tasks)) \<subseteq># mset (map it_name ts)"
    if "list_all2 (\<lambda>ts t. \<forall>r. ts = Done r \<longrightarrow> tr_installer_name r = it_name t) tasks ts" for tasks ts
    using that
  proof induction
    case (Cons x xs y ys)
    show ?case
    proof (cases "\<exists>r. x = Done r")
      case True
      with Cons show ?thesis by (auto simp: List.map_filter_simps result_of_def)
    next
      case False
      then have "result_of x = None" by (cases x) (simp_all add: result_of_def)
      with Cons show ?thesis
        by (auto simp: List.map_filter_simps intro: subset_mset.trans)
    qed
  qed (simp add: List.map_filter_simps)
  from this [OF tasks_named [OF assms(1-3)]] assms(4) show ?thesis
    by (auto simp: run_all_def split: if_splits)
qed

end

interpretation executor_names: named_runs "pool_runs rx F sha cfg tests les envs" tests
  for rx F sha cfg tests les envs
proof
  show "tr_installer_name r = it_name (tests ! i)"
    if "pool_runs rx F sha cfg tests les envs i (Inr r)" for i r
  proof -
    have run: "run_test_with_retry rx F cfg (tests ! i)
        ((les i)\<lparr>le_run := runner_attempts rx sha cfg (tests ! i) (envs i)\<rparr>) = Inr r"
      using that by (simp add: pool_runs_def)
    have "tr_installer_name r' = it_name (tests ! i)"
      if "runner_attempts rx sha cfg (tests ! i) (envs i) k = Inr r'" for k r'
      using that run_test_name [of rx sha cfg "tests ! i" "envs i k"]
      by (auto simp: runner_attempts_def prod_eq_iff)
    then show ?thesis by (intro run_test_with_retry_name [OF run]) simp
  qed
qed

end
