(* ===== verification/Lock.thy ===== *)
theory Lock
  imports Prelude
begin

text \<open>
  The run lock and atomic writes (\<^verbatim>\<open>src/lock.rs\<close>). \<open>try_acquire\<close> is given twice: as a function of
  what the file system answers it, and as the atomic steps of many processes on one shared
  directory entry, where mutual exclusion is a question about interleavings. \<open>write_atomic\<close> is the
  list of file operations it makes, and a crash may stop them anywhere.
\<close>

section \<open>The lock file\<close>

record lock_holder =
  lh_pid :: u32
  lh_since :: string

definition lock_text :: "u32 \<Rightarrow> string \<Rightarrow> string" where
  "lock_text pid now = show_nat (unat pid) @ [nl] @ now @ [nl]"

definition read_holder :: "string option \<Rightarrow> lock_holder option" where
  "read_holder file =
     (case file of
        None \<Rightarrow> None
      | Some text \<Rightarrow>
          (case lines text of
             [] \<Rightarrow> None
           | l # ls \<Rightarrow>
               (case parse_unsigned 32 (trim l) of
                  None \<Rightarrow> None
                | Some pid \<Rightarrow>
                    Some \<lparr>lh_pid = of_nat pid,
                          lh_since = trim (case ls of [] \<Rightarrow> ''unknown'' | m # _ \<Rightarrow> m)\<rparr>)))"

definition pid_alive :: "(u32 \<Rightarrow> bool) \<Rightarrow> u32 \<Rightarrow> bool" where
  \<comment> \<open>\<open>procs\<close> is the existence of \<open>/proc/{pid}\<close> on Linux\<close>
  "pid_alive procs pid \<longleftrightarrow> pid \<noteq> 0 \<and> procs pid"

definition live_holder :: "(u32 \<Rightarrow> bool) \<Rightarrow> string option \<Rightarrow> lock_holder option" where
  "live_holder procs file =
     (case read_holder file of
        Some h \<Rightarrow> if pid_alive procs (lh_pid h) then Some h else None
      | None \<Rightarrow> None)"

definition unknown_holder :: lock_holder where
  "unknown_holder = \<lparr>lh_pid = 0, lh_since = ''unknown''\<rparr>"

section \<open>\<open>try_acquire\<close> as a function\<close>

datatype open_answer = OpenedNew | AlreadyExists | OpenError string

datatype lock_op = LkWrite string | LkRemove

datatype lock_result = Acquired | HeldBy lock_holder

text \<open>
  \<open>ans k\<close> is what opening answers with \<open>k\<close> further tries left, \<open>file k\<close> what the file then reads.
\<close>

fun acquire_loop ::
  "nat \<Rightarrow> (u32 \<Rightarrow> bool) \<Rightarrow> u32 \<Rightarrow> string \<Rightarrow> (nat \<Rightarrow> open_answer) \<Rightarrow> (nat \<Rightarrow> string option)
    \<Rightarrow> string option \<Rightarrow> lock_op list \<times> (anyhow + lock_result)" where
  "acquire_loop 0 procs pid now ans file final =
     ([], Inr (HeldBy (unwrap_or (read_holder final) unknown_holder)))"
| "acquire_loop (Suc k) procs pid now ans file final =
     (case ans k of
        OpenedNew \<Rightarrow> ([LkWrite (lock_text pid now)], Inr Acquired)
      | AlreadyExists \<Rightarrow>
          (case live_holder procs (file k) of
             Some h \<Rightarrow> ([], Inr (HeldBy h))
           | None \<Rightarrow>
               (case acquire_loop k procs pid now ans file final of
                  (ops, r) \<Rightarrow> (LkRemove # ops, r)))
      | OpenError e \<Rightarrow> ([], Inl [''Failed to create lock'', e]))"

definition try_acquire ::
  "anyhow option \<Rightarrow> (u32 \<Rightarrow> bool) \<Rightarrow> u32 \<Rightarrow> string \<Rightarrow> (nat \<Rightarrow> open_answer)
    \<Rightarrow> (nat \<Rightarrow> string option) \<Rightarrow> string option \<Rightarrow> lock_op list \<times> (anyhow + lock_result)" where
  "try_acquire mkdir_error procs pid now ans file final =
     (case mkdir_error of
        Some e \<Rightarrow> ([], Inl (''Failed to create lock directory'' # e))
      | None \<Rightarrow> acquire_loop 2 procs pid now ans file final)"

section \<open>Many processes\<close>

datatype lock_pc =
  Idle | Opening nat | Writing nat | Reading nat | Removing nat | LastRead | Holding nat
| Refused lock_holder | Released

record lock_state =
  lk_entry :: "nat option" \<comment> \<open>the inode the directory entry names\<close>
  lk_data :: "nat \<Rightarrow> string"
  lk_next :: nat
  lk_pc :: "u32 \<Rightarrow> lock_pc"
  lk_procs :: "u32 \<Rightarrow> bool"

definition lock_file :: "lock_state \<Rightarrow> string option" where
  "lock_file s = map_option (lk_data s) (lk_entry s)"

definition goto :: "u32 \<Rightarrow> lock_pc \<Rightarrow> lock_state \<Rightarrow> lock_state" where
  "goto p c s = s\<lparr>lk_pc := (lk_pc s)(p := c)\<rparr>"

abbreviation at_pc :: "lock_state \<Rightarrow> u32 \<Rightarrow> lock_pc \<Rightarrow> bool" where
  "at_pc s p c \<equiv> lk_procs s p \<and> lk_pc s p = c"

text \<open>The label says whether the step decides to reclaim a lock it takes for stale.\<close>

inductive lock_step :: "(u32 \<Rightarrow> string) \<Rightarrow> lock_state \<Rightarrow> bool \<Rightarrow> lock_state \<Rightarrow> bool" for now where
  start: "at_pc s p Idle \<Longrightarrow> p \<noteq> 0 \<Longrightarrow> lock_step now s False (goto p (Opening 2) s)"
| open_new: "at_pc s p (Opening (Suc k)) \<Longrightarrow> lk_entry s = None \<Longrightarrow>
     lock_step now s False (goto p (Writing (lk_next s))
       (s\<lparr>lk_entry := Some (lk_next s), lk_data := (lk_data s)(lk_next s := []),
          lk_next := Suc (lk_next s)\<rparr>))"
| open_exists: "at_pc s p (Opening (Suc k)) \<Longrightarrow> lk_entry s \<noteq> None \<Longrightarrow>
     lock_step now s False (goto p (Reading k) s)"
| write_pid: "at_pc s p (Writing i) \<Longrightarrow>
     lock_step now s False (goto p (Holding i)
       (s\<lparr>lk_data := (lk_data s)(i := lock_text p (now p))\<rparr>))"
| read_live: "at_pc s p (Reading k) \<Longrightarrow> live_holder (lk_procs s) (lock_file s) = Some h \<Longrightarrow>
     lock_step now s False (goto p (Refused h) s)"
| read_stale: "at_pc s p (Reading k) \<Longrightarrow> live_holder (lk_procs s) (lock_file s) = None \<Longrightarrow>
     lock_step now s True (goto p (Removing k) s)"
| unlink: "at_pc s p (Removing k) \<Longrightarrow>
     lock_step now s False
       (goto p (if k = 0 then LastRead else Opening k) (s\<lparr>lk_entry := None\<rparr>))"
| last_read: "at_pc s p LastRead \<Longrightarrow>
     lock_step now s False
       (goto p (Refused (unwrap_or (read_holder (lock_file s)) unknown_holder)) s)"
| drop_lock: "at_pc s p (Holding i) \<Longrightarrow>
     lock_step now s False (goto p Released (s\<lparr>lk_entry := None\<rparr>))"
| die: "lk_procs s p \<Longrightarrow> lock_step now s False (s\<lparr>lk_procs := (lk_procs s)(p := False)\<rparr>)"

definition lock_init :: "(u32 \<Rightarrow> bool) \<Rightarrow> lock_state" where
  "lock_init procs =
     \<lparr>lk_entry = None, lk_data = (\<lambda>_. []), lk_next = 0, lk_pc = (\<lambda>_. Idle), lk_procs = procs\<rparr>"

text \<open>Reachable states; with the flag \<open>False\<close> only by runs in which nobody reclaims.\<close>

inductive lock_reachable :: "(u32 \<Rightarrow> string) \<Rightarrow> bool \<Rightarrow> lock_state \<Rightarrow> bool" for now reclaims where
  init: "lock_reachable now reclaims (lock_init procs)"
| step: "lock_reachable now reclaims s \<Longrightarrow> lock_step now s l s' \<Longrightarrow> (l \<longrightarrow> reclaims) \<Longrightarrow>
     lock_reachable now reclaims s'"

inductive_cases lock_step_quietE: "lock_step now s False s'"

definition owns :: "lock_state \<Rightarrow> u32 \<Rightarrow> nat \<Rightarrow> bool" where
  "owns s p i \<longleftrightarrow> lk_pc s p = Writing i \<or> lk_pc s p = Holding i"

section \<open>Lemmas\<close>

lemma show_nat_lacks: "\<not> is_digit c \<Longrightarrow> c \<notin> set (show_nat n)"
  using show_nat_digits [of n] by (auto simp: list_all_iff)

lemma control_not_digit: "\<not> is_digit nl" "\<not> is_digit (CHR 0x0D)"
  by (simp_all add: is_digit_def)

lemma lines_lock_text:
  assumes "nl \<notin> set now" "now \<noteq> []"
  shows "lines (lock_text pid now) = [chop_cr (show_nat (unat pid)), chop_cr now]"
proof -
  have "split_on nl (show_nat (unat pid) @ nl # now @ [nl]) = [show_nat (unat pid), now, []]"
    using assms(1) show_nat_lacks [OF control_not_digit(1)]
    by (simp add: split_on_append)
  then show ?thesis by (simp add: lines_def lock_text_def)
qed

lemma chop_cr_show_nat: "chop_cr (show_nat n) = show_nat n"
proof -
  have "\<not> suffix [CHR 0x0D] (show_nat n)"
    using show_nat_lacks [OF control_not_digit(2), of n] set_mono_suffix [of "[CHR 0x0D]"] by auto
  then show ?thesis by (simp add: chop_cr_def)
qed

lemma read_holder_lock_text:
  assumes "nl \<notin> set now" "now \<noteq> []"
  shows "read_holder (Some (lock_text pid now)) =
           Some \<lparr>lh_pid = pid, lh_since = trim (chop_cr now)\<rparr>"
proof -
  have "trim (show_nat (unat pid)) = show_nat (unat pid)"
    using show_nat_ends show_nat_digits by (simp add: trim_alphanumeric)
  moreover have "parse_unsigned 32 (show_nat (unat pid)) = Some (unat pid)"
    using unsigned_less [of pid, where ?'a = nat] by (simp add: parse_unsigned_show_nat)
  ultimately show ?thesis
    using lines_lock_text [OF assms] by (simp add: read_holder_def chop_cr_show_nat)
qed

definition lock_inv :: "(u32 \<Rightarrow> string) \<Rightarrow> lock_state \<Rightarrow> bool" where
  "lock_inv now s \<longleftrightarrow>
     (\<forall>p k. lk_pc s p \<noteq> Removing k) \<and> (\<forall>p. lk_pc s p \<noteq> LastRead) \<and>
     (\<forall>p i. owns s p i \<longrightarrow> lk_entry s = Some i \<and> p \<noteq> 0) \<and>
     (\<forall>p i. lk_pc s p = Holding i \<longrightarrow> lk_data s i = lock_text p (now p)) \<and>
     (\<forall>p q i j. owns s p i \<longrightarrow> owns s q j \<longrightarrow> p = q) \<and>
     (\<forall>p. lk_pc s p \<noteq> Idle \<longrightarrow> p \<noteq> 0)"

lemma lock_simps [simp]:
  "lk_pc (goto p c s) = (lk_pc s)(p := c)" "lk_entry (goto p c s) = lk_entry s"
  "lk_data (goto p c s) = lk_data s" "lk_next (goto p c s) = lk_next s"
  "lk_procs (goto p c s) = lk_procs s"
  by (simp_all add: goto_def)

lemma lock_inv_step: "lock_step now s False s' \<Longrightarrow> lock_inv now s \<Longrightarrow> lock_inv now s'"
  by (erule lock_step_quietE) (auto simp: lock_inv_def owns_def split: if_splits)

lemma lock_inv_reachable: "lock_reachable now False s \<Longrightarrow> lock_inv now s"
proof (induction rule: lock_reachable.induct)
  case (init procs)
  then show ?case by (simp add: lock_inv_def lock_init_def owns_def)
next
  case (step s l s')
  then show ?case using lock_inv_step by auto
qed

section \<open>Atomic writes\<close>

type_synonym files = "string \<rightharpoonup> string" \<comment> \<open>path to contents\<close>

datatype fs_op = FsWrite string string | FsRename string string | FsDelete string

fun fs_apply :: "fs_op \<Rightarrow> files \<Rightarrow> files" where
  "fs_apply (FsWrite p c) fs = fs(p \<mapsto> c)"
| "fs_apply (FsRename a b) fs = (fs(b := fs a))(a := None)"
| "fs_apply (FsDelete p) fs = fs(p := None)"

definition temp_path :: "string \<Rightarrow> string \<Rightarrow> u32 \<Rightarrow> string" where
  "temp_path dir name pid = dir @ ''/.'' @ name @ ''.'' @ show_nat (unat pid) @ ''.tmp''"

definition write_atomic :: "u32 \<Rightarrow> string \<Rightarrow> string \<Rightarrow> string \<Rightarrow> fs_op list" where
  \<comment> \<open>to the file \<open>name\<close> in \<open>dir\<close>; the directory is created first\<close>
  "write_atomic pid dir name contents =
     [FsWrite (temp_path dir name pid) contents,
      FsRename (temp_path dir name pid) (dir @ ''/'' @ name)]"

text \<open>A crash: after any operation, or with a prefix of a write in the file.\<close>

inductive crash :: "fs_op list \<Rightarrow> files \<Rightarrow> files \<Rightarrow> bool" where
  stop: "crash ops fs fs"
| torn: "crash (FsWrite p c # ops) fs (fs(p \<mapsto> take n c))"
| more: "crash ops (fs_apply op fs) fs' \<Longrightarrow> crash (op # ops) fs fs'"

inductive_cases crash_ConsE: "crash (op # ops) fs fs'"
inductive_cases crash_NilE: "crash [] fs fs'"

text \<open>
  The contract of a writer that replaces a file: a crash leaves the old or the new contents, other
  files than its scratch file are untouched, and without a crash the new contents are there.
\<close>

locale atomic_writer =
  fixes ops :: "string \<Rightarrow> string \<Rightarrow> string \<Rightarrow> fs_op list"
    and target :: "string \<Rightarrow> string \<Rightarrow> string"
    and scratch :: "string \<Rightarrow> string \<Rightarrow> string"
  assumes old_or_new: "crash (ops dir name c) fs fs' \<Longrightarrow>
      fs' (target dir name) = fs (target dir name) \<or> fs' (target dir name) = Some c"
    and others: "crash (ops dir name c) fs fs' \<Longrightarrow> q \<noteq> target dir name \<Longrightarrow> q \<noteq> scratch dir name \<Longrightarrow>
      fs' q = fs q"
    and complete: "fold fs_apply (ops dir name c) fs (target dir name) = Some c"
begin

text \<open>What a reader that parses the file or falls back to a default sees after a crash.\<close>

lemma reader_sees_old_or_new:
  assumes "crash (ops dir name c) fs fs'"
  shows "load (fs' (target dir name)) = load (fs (target dir name)) \<or>
         load (fs' (target dir name)) = load (Some c)"
  using old_or_new [OF assms] by metis

end

lemma temp_path_fresh: "temp_path dir name pid \<noteq> dir @ ''/'' @ name"
proof
  assume "temp_path dir name pid = dir @ ''/'' @ name"
  from arg_cong [OF this, of length] show False by (simp add: temp_path_def)
qed

interpretation atomic: atomic_writer "write_atomic pid" "\<lambda>dir name. dir @ ''/'' @ name"
  "\<lambda>dir name. temp_path dir name pid" for pid
proof
  fix dir name c q :: string and fs fs' :: files
  have fresh: "temp_path dir name pid \<noteq> dir @ ''/'' @ name" by (rule temp_path_fresh)
  show "fold fs_apply (write_atomic pid dir name c) fs (dir @ ''/'' @ name) = Some c"
    using fresh by (simp add: write_atomic_def)
  assume crash: "crash (write_atomic pid dir name c) fs fs'"
  then show "fs' (dir @ ''/'' @ name) = fs (dir @ ''/'' @ name) \<or> fs' (dir @ ''/'' @ name) = Some c"
    using fresh by (auto simp: write_atomic_def elim!: crash_ConsE crash_NilE)
  assume "q \<noteq> dir @ ''/'' @ name" "q \<noteq> temp_path dir name pid"
  with crash show "fs' q = fs q"
    by (auto simp: write_atomic_def elim!: crash_ConsE crash_NilE)
qed

section \<open>Properties\<close>

text \<open>
  C25: mutual exclusion as long as nobody reclaims. In every state that processes reach without
  taking a lock for stale, at most one of them owns the lock and the directory entry is its file;
  and while the owner has written its pid and lives, whoever reads the file is refused and told
  that pid, so that no reclaim can start.
\<close>

theorem lock_excludes_without_reclaim:
  assumes "lock_reachable now False s" "owns s p i"
  shows "lk_entry s = Some i \<and> (\<forall>q j. owns s q j \<longrightarrow> q = p) \<and>
         (lk_pc s p = Holding i \<and> lk_procs s p \<and> nl \<notin> set (now p) \<and> now p \<noteq> [] \<longrightarrow>
            (\<exists>h. live_holder (lk_procs s) (lock_file s) = Some h \<and> lh_pid h = p))"
proof -
  have inv: "lock_inv now s" by (rule lock_inv_reachable [OF assms(1)])
  then have entry: "lk_entry s = Some i" "p \<noteq> 0" "\<And>q j. owns s q j \<Longrightarrow> q = p"
    using assms(2) unfolding lock_inv_def by blast+
  have "\<exists>h. live_holder (lk_procs s) (lock_file s) = Some h \<and> lh_pid h = p"
    if "lk_pc s p = Holding i" "lk_procs s p" "nl \<notin> set (now p)" "now p \<noteq> []"
  proof -
    have "lock_file s = Some (lock_text p (now p))"
      using inv that(1) entry(1) by (simp add: lock_file_def lock_inv_def)
    then show ?thesis
      using read_holder_lock_text [OF that(3,4), of p] that(2) entry(2)
      by (simp add: live_holder_def pid_alive_def)
  qed
  with entry show ?thesis by blast
qed

theorem lock_excludes_without_reclaim_witness:
  "\<exists>s. lock_reachable (\<lambda>_. ''t'') False s \<and> owns s 1 0 \<and> lk_entry s = Some 0"
proof -
  note step = lock_reachable.step [where reclaims = False and now = "\<lambda>_. ''t''"]
  let ?s = "\<lambda>e n pcs. \<lparr>lk_entry = e, lk_data = (\<lambda>_. []), lk_next = n, lk_pc = pcs, lk_procs = (\<lambda>_. True)\<rparr>"
  have 0: "lock_reachable (\<lambda>_. ''t'') False (?s None 0 (\<lambda>_. Idle))"
    using lock_reachable.init [of "\<lambda>_. ''t''" False "\<lambda>_. True"] by (simp add: lock_init_def)
  have 1: "lock_reachable (\<lambda>_. ''t'') False (?s None 0 ((\<lambda>_. Idle)(1 := Opening 2)))"
    using step [OF 0 lock_step.start [of _ 1]] by (simp add: goto_def)
  have 2: "lock_reachable (\<lambda>_. ''t'') False (?s (Some 0) 1 ((\<lambda>_. Idle)(1 := Writing 0)))"
    using step [OF 1 lock_step.open_new [of _ 1 1]]
    by (simp add: goto_def numeral_2_eq_2 fun_upd_idem)
  have own: "owns (?s (Some 0) 1 ((\<lambda>_. Idle)(1 := Writing 0))) 1 0" by (simp add: owns_def)
  from 2 own lock_excludes_without_reclaim [OF 2 own] show ?thesis by blast
qed


text \<open>
  what \<open>try_acquire\<close> does with the answers it gets. A live holder is reported and its file left
  alone; a stale or unreadable file is removed and the creation tried once more; the pid file it
  writes on success can be read back; and it never tries more than twice.
\<close>

theorem try_acquire_decisions:
  "(ans 1 = OpenedNew \<longrightarrow>
      try_acquire None procs pid now ans file final =
        ([LkWrite (lock_text pid now)], Inr Acquired)) \<and>
   (ans 1 = AlreadyExists \<and> live_holder procs (file 1) = Some h \<longrightarrow>
      try_acquire None procs pid now ans file final = ([], Inr (HeldBy h)) \<and>
      pid_alive procs (lh_pid h)) \<and>
   (ans 1 = AlreadyExists \<and> live_holder procs (file 1) = None \<and> ans 0 = OpenedNew \<longrightarrow>
      try_acquire None procs pid now ans file final =
        ([LkRemove, LkWrite (lock_text pid now)], Inr Acquired)) \<and>
   (ans 1 = AlreadyExists \<and> live_holder procs (file 1) = None \<and>
      ans 0 = AlreadyExists \<and> live_holder procs (file 0) = None \<longrightarrow>
      try_acquire None procs pid now ans file final =
        ([LkRemove, LkRemove], Inr (HeldBy (unwrap_or (read_holder final) unknown_holder)))) \<and>
   (nl \<notin> set now \<and> now \<noteq> [] \<longrightarrow>
      map_option lh_pid (read_holder (Some (lock_text pid now))) = Some pid)"
  using read_holder_lock_text [of now pid]
  by (auto simp: try_acquire_def numeral_2_eq_2 live_holder_def split: option.splits if_splits)

theorem try_acquire_decisions_witness:
  "try_acquire None (\<lambda>_. False) 7 ''now'' (\<lambda>k. if k = 0 then OpenedNew else AlreadyExists)
     (\<lambda>_. Some []) None = ([LkRemove, LkWrite (lock_text 7 ''now'')], Inr Acquired)"
proof -
  have "live_holder (\<lambda>_. False) (Some []) = None"
    by (simp add: live_holder_def read_holder_def lines_def)
  with try_acquire_decisions [of "\<lambda>k. if k = 0 then OpenedNew else AlreadyExists" "\<lambda>_. False" 7
      "''now''" "\<lambda>_. Some []" None]
  show ?thesis by simp
qed

text \<open>
  atomic writes. Wherever a crash stops \<open>write_atomic\<close>, even in the middle of a write, the target
  holds its old contents or all of the new ones, no file but the target and its temporary file has
  changed, and a write that is not interrupted leaves the new contents.
\<close>

theorem write_atomic_is_atomic:
  assumes "crash (write_atomic pid dir name c) fs fs'"
  shows "(fs' (dir @ ''/'' @ name) = fs (dir @ ''/'' @ name) \<or> fs' (dir @ ''/'' @ name) = Some c) \<and>
         (q = dir @ ''/'' @ name \<or> q = temp_path dir name pid \<or> fs' q = fs q) \<and>
         fold fs_apply (write_atomic pid dir name c) fs (dir @ ''/'' @ name) = Some c"
  using atomic.old_or_new [OF assms] atomic.others [OF assms, of q] atomic.complete by blast

theorem write_atomic_is_atomic_witness:
  "\<exists>fs'. crash (write_atomic 7 ''d'' ''f'' ''new'') (Map.empty(''d/f'' \<mapsto> ''old'')) fs' \<and>
     fs' (temp_path ''d'' ''f'' 7) = Some ''n'' \<and> (fs' ''d/f'' = Some ''old'' \<or> fs' ''d/f'' = Some ''new'')"
proof -
  let ?fs = "Map.empty(''d/f'' \<mapsto> ''old'')"
  have "crash (write_atomic 7 ''d'' ''f'' ''new'') ?fs (?fs(temp_path ''d'' ''f'' 7 \<mapsto> take 1 ''new''))"
    unfolding write_atomic_def by (rule crash.torn)
  moreover from write_atomic_is_atomic [OF this] have
    "(?fs(temp_path ''d'' ''f'' 7 \<mapsto> take 1 ''new'')) ''d/f'' = Some ''old'' \<or>
     (?fs(temp_path ''d'' ''f'' 7 \<mapsto> take 1 ''new'')) ''d/f'' = Some ''new''" by simp
  moreover have "(?fs(temp_path ''d'' ''f'' 7 \<mapsto> take 1 ''new'')) (temp_path ''d'' ''f'' 7) = Some ''n''"
    by simp
  ultimately show ?thesis by blast
qed

end
