(* ===== verification/Persist.thy ===== *)
theory Persist
  imports Config Lock Results Retry "HOL-Library.Product_Lexorder"
begin

text \<open>
  Structured logs and persisted runs (\<^verbatim>\<open>src/reporting/jsonl.rs\<close>): the levelled reporter, log
  rotation, the lines of a results file, how a run is written, listed, found, pruned and read back.
  The JSON text of a line and what \<open>serde_json\<close> reads from a text are parameters; the directory is
  the list of its names.
\<close>

section \<open>Log levels\<close>

datatype log_level = Trace | Debug | Info | Warn | Error

fun level_rank :: "log_level \<Rightarrow> nat" where
  "level_rank Trace = 0"
| "level_rank Debug = 1"
| "level_rank Info = 2"
| "level_rank Warn = 3"
| "level_rank Error = 4"

lemma level_rank_inject: "level_rank a = level_rank b \<longleftrightarrow> a = b"
  by (cases a; cases b) simp_all

text \<open>The derived order of the enumeration.\<close>

instantiation log_level :: linorder
begin

definition less_eq_log_level :: "log_level \<Rightarrow> log_level \<Rightarrow> bool" where
  "a \<le> b \<longleftrightarrow> level_rank a \<le> level_rank b"

definition less_log_level :: "log_level \<Rightarrow> log_level \<Rightarrow> bool" where
  "a < b \<longleftrightarrow> level_rank a < level_rank b"

instance
  by standard (auto simp: less_eq_log_level_def less_log_level_def level_rank_inject)

end

record log_entry =
  lg_timestamp :: instant
  lg_level :: log_level
  lg_component :: string
  lg_event :: string
  lg_data :: string \<comment> \<open>JSON text\<close>
  lg_duration_ms :: "u64 option"
  lg_error :: "string option"
  lg_correlation_id :: "string option"
  lg_installer :: "string option"

definition log_entry_new :: "instant \<Rightarrow> log_level \<Rightarrow> string \<Rightarrow> string \<Rightarrow> log_entry" where
  "log_entry_new now level component event =
     \<lparr>lg_timestamp = now, lg_level = level, lg_component = component, lg_event = event,
      lg_data = ''null'', lg_duration_ms = None, lg_error = None, lg_correlation_id = None,
      lg_installer = None\<rparr>"

section \<open>Reporter\<close>

record jsonl_reporter =
  jr_written :: "log_entry list" \<comment> \<open>the lines of the file\<close>
  jr_min_level :: log_level
  jr_buffer_size :: usize
  jr_pending :: "log_entry list"

definition reporter_new :: "log_level \<Rightarrow> jsonl_reporter" where
  "reporter_new level =
     \<lparr>jr_written = [], jr_min_level = level, jr_buffer_size = 100, jr_pending = []\<rparr>"

definition with_buffer_size :: "usize \<Rightarrow> jsonl_reporter \<Rightarrow> jsonl_reporter" where
  "with_buffer_size n r = r\<lparr>jr_buffer_size := n\<rparr>"

definition reporter_flush :: "jsonl_reporter \<Rightarrow> jsonl_reporter" where
  "reporter_flush r = r\<lparr>jr_written := jr_written r @ jr_pending r, jr_pending := []\<rparr>"

definition reporter_log :: "log_entry \<Rightarrow> jsonl_reporter \<Rightarrow> jsonl_reporter" where
  "reporter_log e r =
     (if lg_level e \<ge> jr_min_level r
      then let r' = r\<lparr>jr_pending := jr_pending r @ [e]\<rparr>
           in if length (jr_pending r') \<ge> jr_buffer_size r' then reporter_flush r' else r'
      else r)"

definition log_if :: "bool \<Rightarrow> log_entry \<Rightarrow> jsonl_reporter \<Rightarrow> jsonl_reporter" where
  "log_if c e r = (if c then reporter_log e r else r)"

definition log_batch :: "log_entry list \<Rightarrow> jsonl_reporter \<Rightarrow> jsonl_reporter" where
  "log_batch es r = fold reporter_log es r"

section \<open>Rotation\<close>

definition log_date :: "string \<Rightarrow> string \<Rightarrow> string option" where
  \<comment> \<open>the part of the name between prefix and extension\<close>
  "log_date pre name =
     (if prefix pre name \<and> suffix ''.jsonl'' name \<and> prefix (pre @ ''_'') name
      then let s = drop (Suc (length pre)) name
           in if suffix ''.jsonl'' s then Some (take (length s - length ''.jsonl'') s) else None
      else None)"

definition log_path :: "string \<Rightarrow> string \<Rightarrow> string \<Rightarrow> string" where
  "log_path dir pre date = dir @ ''/'' @ pre @ ''_'' @ date @ ''.jsonl''"

definition prune_old_logs :: "string \<Rightarrow> string \<Rightarrow> string list \<Rightarrow> string list" where
  \<comment> \<open>the names removed; \<open>cutoff\<close> is the date of the retention limit\<close>
  "prune_old_logs pre cutoff names =
     filter (\<lambda>n. case log_date pre n of None \<Rightarrow> False | Some d \<Rightarrow> d < cutoff) names"

definition list_log_files :: "string \<Rightarrow> string list \<Rightarrow> string list" where
  "list_log_files pre names =
     rev (sort (filter (\<lambda>n. prefix pre n \<and> suffix ''.jsonl'' n) names))"

section \<open>Results files\<close>

record run_header =
  rh_run_id :: string
  rh_started_at :: instant
  rh_tool_version :: string
  rh_backend :: string
  rh_image :: "string option"
  rh_user :: "string option"
  rh_parallel :: usize
  rh_timeout_seconds :: u64
  rh_retries :: u32
  rh_fail_fast :: bool
  rh_acfs_repo :: string
  rh_checksums_sha256 :: "string option"
  rh_config_source :: "string option"
  rh_data_dir :: string
  rh_installers_requested :: "string list"
  rh_installer_count :: usize
  rh_dry_run :: bool
  rh_allow_file_urls :: bool
  rh_image_id :: "string option"
  rh_run_as_root :: bool
  rh_deadline_seconds :: u64
  rh_environment :: "string option"

definition run_header_new :: "string \<Rightarrow> instant \<Rightarrow> string \<Rightarrow> run_header" where
  "run_header_new version now run_id =
     \<lparr>rh_run_id = run_id, rh_started_at = now, rh_tool_version = version, rh_backend = [],
      rh_image = None, rh_user = None, rh_parallel = 0, rh_timeout_seconds = 0, rh_retries = 0,
      rh_fail_fast = False, rh_acfs_repo = [], rh_checksums_sha256 = None, rh_config_source = None,
      rh_data_dir = [], rh_installers_requested = [], rh_installer_count = 0, rh_dry_run = False,
      rh_allow_file_urls = False, rh_image_id = None, rh_run_as_root = False,
      rh_deadline_seconds = 0, rh_environment = None\<rparr>"

record attempt_entry =
  ae_index :: u32
  ae_status :: string
  ae_exit_code :: "i32 option"
  ae_duration_ms :: u64
  ae_waited_before_ms :: u64
  ae_stderr_tail :: string

record error_classification_entry =
  ee_category :: string
  ee_severity :: string
  ee_retryable :: bool
  ee_confidence :: rat

record result_entry =
  re_timestamp :: instant
  re_installer_name :: string
  re_status :: string
  re_duration_ms :: u64
  re_exit_code :: "i32 option"
  re_error_classification :: "error_classification_entry option"
  re_stderr_excerpt :: string
  re_retry_count :: u32
  re_sha256_verified :: bool
  re_checksum_state :: string
  re_checksum_expected :: "string option"
  re_checksum_actual :: "string option"
  re_stdout_tail :: string
  re_stderr_tail :: string
  re_container_id :: "string option"
  re_last_attempt_ms :: u64
  re_attempts :: "attempt_entry list"
  re_installed_version :: "string option"
  re_remediation :: "remediation_outcome option"
  re_telemetry :: "telemetry option"

record run_summary_entry =
  su_run_id :: string
  su_total :: usize
  su_passed :: usize
  su_failed :: usize
  su_skipped :: usize
  su_timed_out :: usize
  su_cancelled :: usize
  su_duration_total_ms :: u64
  su_timestamp_start :: instant
  su_timestamp_end :: instant
  su_interrupted :: bool
  su_exit_code :: i32

record run_info =
  rf_path :: string
  rf_run_id :: string
  rf_started_at :: instant
  rf_total :: usize
  rf_passed :: usize
  rf_failed :: usize
  rf_interrupted :: bool

record run_file =
  fl_header :: "run_header option"
  fl_entries :: "result_entry list"
  fl_summary :: "run_summary_entry option"

definition PERSISTED_TAIL_BYTES :: usize where
  "PERSISTED_TAIL_BYTES = 2048"

fun severity_debug :: "error_severity \<Rightarrow> string" where
  "severity_debug Transient = ''Transient''"
| "severity_debug Configuration = ''Configuration''"
| "severity_debug Dependency = ''Dependency''"
| "severity_debug Permission = ''Permission''"
| "severity_debug Resource = ''Resource''"
| "severity_debug SevUnknown = ''Unknown''"

definition attempt_entry_of :: "attempt_record \<Rightarrow> attempt_entry" where
  "attempt_entry_of a =
     \<lparr>ae_index = ar_index a, ae_status = test_status_str (ar_status a),
      ae_exit_code = ar_exit_code a, ae_duration_ms = ar_duration_ms a,
      ae_waited_before_ms = ar_waited_before_ms a, ae_stderr_tail = ar_stderr_tail a\<rparr>"

definition entry_from :: "test_result \<Rightarrow> result_entry" where
  "entry_from r =
     \<lparr>re_timestamp = tr_finished_at r, re_installer_name = tr_installer_name r,
      re_status = test_status_str (tr_status r), re_duration_ms = tr_duration_ms r,
      re_exit_code = tr_exit_code r,
      re_error_classification =
        map_option (\<lambda>e. \<lparr>ee_category = ec_category e, ee_severity = severity_debug (ec_severity e),
                         ee_retryable = ec_retryable e, ee_confidence = ec_confidence e\<rparr>) (tr_error r),
      re_stderr_excerpt = take_chars 500 (tr_stderr r), re_retry_count = retry_count r,
      re_sha256_verified = (tr_checksum_state r = Verified),
      re_checksum_state = checksum_state_str (tr_checksum_state r),
      re_checksum_expected = map_option cr_expected (tr_checksum_result r),
      re_checksum_actual = map_option cr_actual (tr_checksum_result r),
      re_stdout_tail = tail (tr_stdout r) PERSISTED_TAIL_BYTES,
      re_stderr_tail = tail (tr_stderr r) PERSISTED_TAIL_BYTES,
      re_container_id = tr_container_id r, re_last_attempt_ms = tr_last_attempt_ms r,
      re_attempts = map attempt_entry_of (tr_attempts r),
      re_installed_version = tr_installed_version r, re_remediation = tr_remediation r,
      re_telemetry = tr_telemetry r\<rparr>"

definition count :: "('a \<Rightarrow> bool) \<Rightarrow> 'a list \<Rightarrow> usize" where
  "count p xs = length (filter p xs)"

definition summary_of :: "run_header \<Rightarrow> bool \<Rightarrow> instant \<Rightarrow> test_result list \<Rightarrow> run_summary_entry" where
  \<comment> \<open>the sum of the durations wraps; the debug build panics on overflow\<close>
  "summary_of h interrupted now results =
     \<lparr>su_run_id = rh_run_id h, su_total = length results,
      su_passed = count tr_success results,
      su_failed = count (\<lambda>r. \<not> tr_success r \<and> tr_status r \<noteq> Skipped) results,
      su_skipped = count (\<lambda>r. tr_status r = Skipped) results,
      su_timed_out = count (\<lambda>r. tr_status r = TimedOut) results,
      su_cancelled = count (\<lambda>r. tr_status r = Cancelled) results,
      su_duration_total_ms = sum_list (map tr_duration_ms results),
      su_timestamp_start = rh_started_at h, su_timestamp_end = now, su_interrupted = interrupted,
      su_exit_code = (if \<exists>r\<in>set results. \<not> tr_success r then 1 else 0)\<rparr>"

datatype json_line =
  RunLine run_header | ResultLine result_entry | SummaryLine run_summary_entry

definition run_lines :: "run_header \<Rightarrow> bool \<Rightarrow> instant \<Rightarrow> test_result list \<Rightarrow> json_line list" where
  "run_lines h interrupted now results =
     RunLine h # map (ResultLine \<circ> entry_from) results @ [SummaryLine (summary_of h interrupted now results)]"

text \<open>\<open>enc\<close> is the JSON text of a line with its \<open>kind\<close>.\<close>

definition run_text :: "(json_line \<Rightarrow> string) \<Rightarrow> json_line list \<Rightarrow> string" where
  "run_text enc ls = concat (map (\<lambda>l. enc l @ [nl]) ls)"

definition results_filename :: "string \<Rightarrow> string \<Rightarrow> string" where
  \<comment> \<open>\<open>stamp\<close> is the UTC time in milliseconds\<close>
  "results_filename stamp run_id =
     ''results_'' @ stamp @ ''_'' @ take 8 (filter is_ascii_alphanumeric run_id) @ ''.jsonl''"

definition write_results :: "string \<Rightarrow> string \<Rightarrow> string \<Rightarrow> fs_op list" where
  "write_results dir name contents =
     [FsWrite (dir @ ''/'' @ name @ ''.tmp'') contents,
      FsRename (dir @ ''/'' @ name @ ''.tmp'') (dir @ ''/'' @ name)]"

definition persist_with_header ::
  "(json_line \<Rightarrow> string) \<Rightarrow> string \<Rightarrow> string \<Rightarrow> instant \<Rightarrow> run_header \<Rightarrow> bool \<Rightarrow> test_result list
    \<Rightarrow> fs_op list \<times> string" where
  "persist_with_header enc dir stamp now h interrupted results =
     (let name = results_filename stamp (rh_run_id h)
      in (write_results dir name (run_text enc (run_lines h interrupted now results)),
          dir @ ''/'' @ name))"

section \<open>Reading back\<close>

text \<open>
  What \<open>serde_json\<close> makes of a line: nothing when it is no JSON, else its \<open>kind\<close> and the typed
  readings that succeed.
\<close>

record json_view =
  jv_kind :: "string option"
  jv_run :: "run_header option"
  jv_result :: "result_entry option"
  jv_summary :: "run_summary_entry option"

definition with_header :: "run_header option \<Rightarrow> run_file \<Rightarrow> run_file" where
  "with_header h f = (case h of None \<Rightarrow> f | Some x \<Rightarrow> f\<lparr>fl_header := Some x\<rparr>)"

definition with_entry :: "result_entry option \<Rightarrow> run_file \<Rightarrow> run_file" where
  "with_entry e f = (case e of None \<Rightarrow> f | Some x \<Rightarrow> f\<lparr>fl_entries := fl_entries f @ [x]\<rparr>)"

definition with_summary :: "run_summary_entry option \<Rightarrow> run_file \<Rightarrow> run_file" where
  "with_summary s f = (case s of None \<Rightarrow> f | Some x \<Rightarrow> f\<lparr>fl_summary := Some x\<rparr>)"

definition read_line :: "(string \<Rightarrow> json_view option) \<Rightarrow> string \<Rightarrow> run_file \<Rightarrow> run_file" where
  "read_line js line f =
     (if trim line = [] then f
      else
        (case js line of
           None \<Rightarrow> f
         | Some v \<Rightarrow>
             if jv_kind v = Some ''run'' then with_header (jv_run v) f
             else if jv_kind v = Some ''result'' then with_entry (jv_result v) f
             else if jv_kind v = Some ''summary'' then with_summary (jv_summary v) f
             else if jv_summary v \<noteq> None then with_summary (jv_summary v) f
             else with_entry (jv_result v) f))"

definition empty_run_file :: run_file where
  "empty_run_file = \<lparr>fl_header = None, fl_entries = [], fl_summary = None\<rparr>"

definition read_run_text :: "(string \<Rightarrow> json_view option) \<Rightarrow> string \<Rightarrow> run_file" where
  "read_run_text js content = fold (read_line js) (lines content) empty_run_file"

definition read_run_file :: "(string \<Rightarrow> json_view option) \<Rightarrow> files \<Rightarrow> string \<Rightarrow> run_file option" where
  "read_run_file js fs path = map_option (read_run_text js) (fs path)"

section \<open>Listing and pruning\<close>

definition is_results_name :: "string \<Rightarrow> bool" where
  "is_results_name n \<longleftrightarrow> prefix ''results_'' n \<and> suffix ''.jsonl'' n"

definition result_files :: "string \<Rightarrow> string list \<Rightarrow> string list" where
  "result_files dir names = map (\<lambda>n. dir @ ''/'' @ n) (filter is_results_name names)"

text \<open>\<open>stamp_of\<close> reads a start time from a path (its name, else the time of the file).\<close>

definition run_info_of :: "(string \<Rightarrow> instant) \<Rightarrow> string \<Rightarrow> run_file \<Rightarrow> run_info" where
  "run_info_of stamp_of path f =
     (let (run_id, started) =
            (case fl_header f of
               Some h \<Rightarrow> (rh_run_id h, rh_started_at h)
             | None \<Rightarrow>
                 (case fl_summary f of
                    Some s \<Rightarrow> (su_run_id s, su_timestamp_start s)
                  | None \<Rightarrow> ([], stamp_of path)));
          (tot, p, q, i) =
            (case fl_summary f of
               Some s \<Rightarrow> (su_total s, su_passed s, su_failed s, su_interrupted s)
             | None \<Rightarrow> (length (fl_entries f), 0, 0, False))
      in \<lparr>rf_path = path, rf_run_id = run_id, rf_started_at = started, rf_total = tot,
          rf_passed = p, rf_failed = q, rf_interrupted = i\<rparr>)"

definition run_age :: "run_info \<Rightarrow> instant \<times> string" where
  "run_age r = (rf_started_at r, rf_path r)"

definition newest_first :: "run_info list \<Rightarrow> run_info list" where
  \<comment> \<open>a stable sort by decreasing start, then path\<close>
  "newest_first rs = rev (sort_key run_age (rev rs))"

definition list_runs ::
  "(string \<Rightarrow> json_view option) \<Rightarrow> (string \<Rightarrow> instant) \<Rightarrow> string \<Rightarrow> string list \<Rightarrow> files \<Rightarrow> run_info list" where
  "list_runs js stamp_of dir names fs =
     newest_first
       (List.map_filter (\<lambda>p. map_option (run_info_of stamp_of p) (read_run_file js fs p))
          (result_files dir names))"

definition latest_results :: "run_info list \<Rightarrow> string option" where
  "latest_results runs = (case runs of [] \<Rightarrow> None | r # _ \<Rightarrow> Some (rf_path r))"

definition find_run :: "string \<Rightarrow> run_info list \<Rightarrow> run_info option" where
  "find_run pre runs =
     (if eq_ignore_ascii_case pre ''last'' then (case runs of [] \<Rightarrow> None | r # _ \<Rightarrow> Some r)
      else find (\<lambda>r. prefix pre (rf_run_id r)) runs)"

definition prune_runs :: "usize \<Rightarrow> run_info list \<Rightarrow> fs_op list" where
  "prune_runs keep runs = (if keep = 0 then [] else map (FsDelete \<circ> rf_path) (drop keep runs))"

section \<open>Lemmas\<close>

lemma log_batch_keeps:
  "jr_written (log_batch es r) @ jr_pending (log_batch es r) =
     jr_written r @ jr_pending r @ filter (\<lambda>e. lg_level e \<ge> jr_min_level r) es \<and>
   (length (jr_pending r) < max 1 (jr_buffer_size r) \<longrightarrow>
     length (jr_pending (log_batch es r)) < max 1 (jr_buffer_size r))"
  unfolding log_batch_def
proof (induction es arbitrary: r)
  case (Cons e es)
  have "jr_min_level (reporter_log e r) = jr_min_level r"
    "jr_buffer_size (reporter_log e r) = jr_buffer_size r"
    by (simp_all add: reporter_log_def reporter_flush_def Let_def)
  moreover have "jr_written (reporter_log e r) @ jr_pending (reporter_log e r) =
      jr_written r @ jr_pending r @ (if lg_level e \<ge> jr_min_level r then [e] else [])"
    by (simp add: reporter_log_def reporter_flush_def Let_def)
  moreover have "length (jr_pending r) < max 1 (jr_buffer_size r) \<longrightarrow>
      length (jr_pending (reporter_log e r)) < max 1 (jr_buffer_size r)"
    by (auto simp: reporter_log_def reporter_flush_def Let_def)
  ultimately show ?case using Cons.IH [of "reporter_log e r"] by auto
qed simp

text \<open>The lines of a text of lines.\<close>

lemma split_on_lines:
  "\<forall>x\<in>set xs. nl \<notin> set x \<Longrightarrow> split_on nl (concat (map (\<lambda>x. x @ [nl]) xs)) = xs @ [[]]"
proof (induction xs)
  case (Cons x xs)
  then show ?case
    using split_on_append [of nl x "concat (map (\<lambda>x. x @ [nl]) xs)"] by simp
qed simp

lemma lines_aux_ended: "lines_aux (xs @ [[]]) = map chop_cr xs"
proof (induction xs)
  case (Cons x xs)
  then show ?case by (cases xs) simp_all
qed simp

lemma lines_of_lines:
  "\<forall>x\<in>set xs. nl \<notin> set x \<Longrightarrow> lines (concat (map (\<lambda>x. x @ [nl]) xs)) = map chop_cr xs"
  by (simp add: lines_def split_on_lines lines_aux_ended)

fun reads_as :: "json_line \<Rightarrow> json_view \<Rightarrow> bool" where
  "reads_as (RunLine h) v \<longleftrightarrow> jv_kind v = Some ''run'' \<and> jv_run v = Some h"
| "reads_as (ResultLine e) v \<longleftrightarrow> jv_kind v = Some ''result'' \<and> jv_result v = Some e"
| "reads_as (SummaryLine s) v \<longleftrightarrow> jv_kind v = Some ''summary'' \<and> jv_summary v = Some s"

definition codec_line :: "(json_line \<Rightarrow> string) \<Rightarrow> (string \<Rightarrow> json_view option) \<Rightarrow> json_line \<Rightarrow> bool" where
  \<comment> \<open>one line of JSON that reads back as what was written\<close>
  "codec_line enc js l \<longleftrightarrow>
     nl \<notin> set (enc l) \<and> chop_cr (enc l) = enc l \<and> trim (enc l) \<noteq> [] \<and>
     (\<exists>v. js (enc l) = Some v \<and> reads_as l v)"

fun add_line :: "json_line \<Rightarrow> run_file \<Rightarrow> run_file" where
  "add_line (RunLine h) f = f\<lparr>fl_header := Some h\<rparr>"
| "add_line (ResultLine e) f = f\<lparr>fl_entries := fl_entries f @ [e]\<rparr>"
| "add_line (SummaryLine s) f = f\<lparr>fl_summary := Some s\<rparr>"

lemma read_line_codec: "codec_line enc js l \<Longrightarrow> read_line js (enc l) f = add_line l f"
  by (cases l) (auto simp: codec_line_def read_line_def with_header_def with_entry_def with_summary_def)

lemma read_run_text_lines:
  assumes "\<forall>l\<in>set ls. codec_line enc js l"
  shows "read_run_text js (run_text enc ls) = fold add_line ls empty_run_file"
proof -
  have "lines (run_text enc ls) = map enc ls"
    using lines_of_lines [of "map enc ls"] assms
    by (simp add: run_text_def comp_def codec_line_def)
  moreover have "fold (read_line js) (map enc ls) f = fold add_line ls f" for f
    using assms by (induction ls arbitrary: f) (simp_all add: read_line_codec)
  ultimately show ?thesis by (simp add: read_run_text_def)
qed

lemma add_results: "fold add_line (map (ResultLine \<circ> entry_from) rs) f = f\<lparr>fl_entries := fl_entries f @ map entry_from rs\<rparr>"
  by (induction rs arbitrary: f) simp_all

lemma results_temp_fresh: "dir @ ''/'' @ name @ ''.tmp'' \<noteq> dir @ ''/'' @ name"
  by simp

interpretation results: atomic_writer write_results "\<lambda>dir name. dir @ ''/'' @ name"
  "\<lambda>dir name. dir @ ''/'' @ name @ ''.tmp''"
proof
  fix dir name c q :: string and fs fs' :: files
  show "fold fs_apply (write_results dir name c) fs (dir @ ''/'' @ name) = Some c"
    by (simp add: write_results_def)
  assume crash: "crash (write_results dir name c) fs fs'"
  then show "fs' (dir @ ''/'' @ name) = fs (dir @ ''/'' @ name) \<or> fs' (dir @ ''/'' @ name) = Some c"
    by (auto simp: write_results_def elim!: crash_ConsE crash_NilE)
  assume "q \<noteq> dir @ ''/'' @ name" "q \<noteq> dir @ ''/'' @ name @ ''.tmp''"
  with crash show "fs' q = fs q"
    by (auto simp: write_results_def elim!: crash_ConsE crash_NilE)
qed

text \<open>Sorting and deleting.\<close>

lemma newest_first_filter: "newest_first (filter p rs) = filter p (newest_first rs)"
  by (simp add: newest_first_def filter_sort rev_filter [symmetric])

lemma newest_first_set [simp]: "set (newest_first rs) = set rs"
  by (simp add: newest_first_def)

lemma newest_first_distinct: "distinct (map rf_path (newest_first rs)) \<longleftrightarrow> distinct (map rf_path rs)"
  by (simp add: distinct_map newest_first_def)

lemma newest_first_sorted: "sorted_wrt (\<lambda>a b. run_age b \<le> run_age a) (newest_first rs)"
  using sorted_sort_key [of run_age "rev rs"]
  by (simp add: newest_first_def sorted_wrt_rev sorted_map)

lemma delete_all:
  "fold fs_apply (map FsDelete ps) fs = (\<lambda>p. if p \<in> set ps then None else fs p)"
  by (induction ps arbitrary: fs) (auto simp: fun_eq_iff)

lemma filter_drop_paths:
  assumes "distinct (map f xs)"
  shows "filter (\<lambda>x. f x \<notin> f ` set (drop k xs)) xs = take k xs"
proof -
  have "distinct (map f (take k xs) @ map f (drop k xs))"
    using assms by (simp flip: map_append)
  then have "f x \<notin> f ` set (drop k xs)" if "x \<in> set (take k xs)" for x using that by auto
  then have "filter (\<lambda>x. f x \<notin> f ` set (drop k xs)) (take k xs) = take k xs"
    by (simp add: filter_id_conv)
  moreover have "filter (\<lambda>x. f x \<notin> f ` set (drop k xs)) (drop k xs) = []"
    by (simp add: filter_empty_conv)
  ultimately have "filter (\<lambda>x. f x \<notin> f ` set (drop k xs)) (take k xs @ drop k xs) = take k xs"
    by (simp only: filter_append append_Nil2)
  then show ?thesis by simp
qed

lemma map_filter_restrict:
  "List.map_filter (\<lambda>p. map_option (g p) (if P p then None else h p)) ps =
     filter (\<lambda>r. \<not> Q r) (List.map_filter (\<lambda>p. map_option (g p) (h p)) ps)"
  if "\<And>p x. p \<in> set ps \<Longrightarrow> h p = Some x \<Longrightarrow> Q (g p x) = P p"
  using that by (induction ps) (auto simp: map_filter_simps split: option.split)

lemma run_info_path [simp]: "rf_path (run_info_of st p f) = p"
  by (simp add: run_info_of_def split: prod.split option.split)

lemma list_runs_paths:
  assumes "distinct names"
  shows "distinct (map rf_path (list_runs js st dir names fs))"
proof -
  have "map rf_path (List.map_filter (\<lambda>p. map_option (run_info_of st p) (read_run_file js fs p)) ps) =
      filter (\<lambda>p. read_run_file js fs p \<noteq> None) ps" for ps
    by (induction ps) (auto simp: map_filter_simps)
  moreover have "distinct (result_files dir names)"
    using assms by (auto simp: result_files_def distinct_map inj_on_def)
  ultimately show ?thesis by (simp add: list_runs_def newest_first_distinct)
qed

lemma list_runs_after_prune:
  fixes js st dir names fs
  assumes "distinct names" "keep \<noteq> 0"
  defines "runs \<equiv> list_runs js st dir names fs"
  shows "list_runs js st dir names (fold fs_apply (prune_runs keep runs) fs) = take keep runs"
proof -
  let ?D = "rf_path ` set (drop keep runs)"
  have "fold fs_apply (prune_runs keep runs) fs = (\<lambda>p. if p \<in> ?D then None else fs p)"
    using assms(2) delete_all [of "map rf_path (drop keep runs)" fs]
    by (simp add: prune_runs_def map_map [symmetric] del: map_map)
  then have "read_run_file js (fold fs_apply (prune_runs keep runs) fs) =
      (\<lambda>p. if p \<in> ?D then None else read_run_file js fs p)"
    by (simp add: read_run_file_def fun_eq_iff)
  then have "list_runs js st dir names (fold fs_apply (prune_runs keep runs) fs) =
      newest_first (filter (\<lambda>r. \<not> rf_path r \<in> ?D)
        (List.map_filter (\<lambda>p. map_option (run_info_of st p) (read_run_file js fs p)) (result_files dir names)))"
    unfolding list_runs_def
    by (simp only:) (rule arg_cong [of _ _ newest_first], rule map_filter_restrict, simp)
  also have "\<dots> = filter (\<lambda>r. rf_path r \<notin> ?D) runs"
    by (simp add: newest_first_filter runs_def list_runs_def)
  also have "\<dots> = take keep runs"
    using filter_drop_paths [of rf_path runs keep] list_runs_paths [OF assms(1)] by (simp add: runs_def)
  finally show ?thesis .
qed

lemma count_split: "count p xs = count (\<lambda>x. p x \<and> q x) xs + count (\<lambda>x. p x \<and> \<not> q x) xs"
  by (induction xs) (simp_all add: count_def)

section \<open>Run summaries\<close>

text \<open>The summary of a run in memory (\<^verbatim>\<open>src/reporting/summary.rs\<close>); \<open>F\<close> rounds \<open>f64\<close>.\<close>

record failure_summary =
  fs_installer_name :: string
  fs_error_category :: string
  fs_error_message :: string
  fs_duration :: duration
  fs_retries :: u32

record run_summary =
  rs_run_id :: string
  rs_started_at :: instant
  rs_finished_at :: instant
  rs_total_duration :: duration
  rs_total_tests :: usize
  rs_passed :: usize
  rs_failed :: usize
  rs_skipped :: usize
  rs_timed_out :: usize
  rs_success_rate :: rat
  rs_failures :: "failure_summary list"

definition failure_summary_of :: "test_result \<Rightarrow> failure_summary" where
  "failure_summary_of r =
     \<lparr>fs_installer_name = tr_installer_name r,
      fs_error_category = unwrap_or (map_option ec_category (tr_error r)) ''unknown'',
      fs_error_message = tr_stderr r, fs_duration = tr_duration r, fs_retries = retry_count r\<rparr>"

definition generate_summary ::
  "f64_ops \<Rightarrow> string \<Rightarrow> instant \<Rightarrow> instant \<Rightarrow> test_result list \<Rightarrow> run_summary" where
  "generate_summary F run_id started now results =
     (let tot = length results; p = count (\<lambda>r. tr_status r = Passed) results
      in \<lparr>rs_run_id = run_id, rs_started_at = started, rs_finished_at = now,
          rs_total_duration = since_or_zero now started, rs_total_tests = tot, rs_passed = p,
          rs_failed = count (\<lambda>r. tr_status r = Failed) results,
          rs_skipped = count (\<lambda>r. tr_status r = Skipped) results,
          rs_timed_out = count (\<lambda>r. tr_status r = TimedOut) results,
          rs_success_rate =
            (if tot > 0 then fl F (fl F (fl F (of_nat p) / fl F (of_nat tot)) * 100) else 0),
          rs_failures =
            map failure_summary_of
              (filter (\<lambda>r. tr_status r = Failed \<or> tr_status r = TimedOut) results)\<rparr>)"

definition settled_result :: "test_result \<Rightarrow> bool" where
  \<comment> \<open>final, and successful exactly when passed: what every runner returns\<close>
  "settled_result r \<longleftrightarrow>
     (tr_success r \<longleftrightarrow> tr_status r = Passed) \<and>
     tr_status r \<in> {Passed, Failed, Skipped, TimedOut, Cancelled}"

lemma count_Cons: "count p (x # xs) = (if p x then Suc (count p xs) else count p xs)"
  by (simp add: count_def)

lemma count_Nil [simp]: "count p [] = 0"
  by (simp add: count_def)

lemma settled_counts:
  assumes "\<forall>r\<in>set rs. settled_result r"
  shows "count tr_success rs = count (\<lambda>r. tr_status r = Passed) rs"
    "count (\<lambda>r. \<not> tr_success r \<and> tr_status r \<noteq> Skipped) rs =
       count (\<lambda>r. tr_status r = Failed) rs + count (\<lambda>r. tr_status r = TimedOut) rs +
       count (\<lambda>r. tr_status r = Cancelled) rs"
    "length rs = count (\<lambda>r. tr_status r = Passed) rs + count (\<lambda>r. tr_status r = Failed) rs +
       count (\<lambda>r. tr_status r = TimedOut) rs + count (\<lambda>r. tr_status r = Cancelled) rs +
       count (\<lambda>r. tr_status r = Skipped) rs"
  using assms by (induction rs) (auto simp: settled_result_def count_Cons)

section \<open>Properties\<close>

text \<open>
  the reporter loses nothing. After any sequence of entries, the lines written and the pending
  ones are, in order, exactly the entries of at least the minimum level; what is pending stays below
  the buffer size; and dropping the reporter writes it all.
\<close>

theorem reporter_keeps_the_log:
  assumes "jr_written r = []" "jr_pending r = []"
  shows "jr_written (log_batch es r) @ jr_pending (log_batch es r) =
      filter (\<lambda>e. lg_level e \<ge> jr_min_level r) es \<and>
    length (jr_pending (log_batch es r)) < max 1 (jr_buffer_size r) \<and>
    jr_written (reporter_flush (log_batch es r)) = filter (\<lambda>e. lg_level e \<ge> jr_min_level r) es"
  using log_batch_keeps [of es r] assms by (simp add: reporter_flush_def)

theorem reporter_keeps_the_log_witness:
  "jr_written (reporter_flush (log_batch [log_entry_new 1 Warn ''c'' ''a'', log_entry_new 2 Debug ''c'' ''b'']
     (with_buffer_size 1 (reporter_new Info)))) = [log_entry_new 1 Warn ''c'' ''a'']"
  using reporter_keeps_the_log [of "with_buffer_size 1 (reporter_new Info)"
      "[log_entry_new 1 Warn ''c'' ''a'', log_entry_new 2 Debug ''c'' ''b'']"]
  by (simp add: with_buffer_size_def reporter_new_def log_entry_new_def less_eq_log_level_def)

text \<open>
  C24: a persisted run reads back. When its lines of JSON read back as written, the file that
  \<open>persist_with_header\<close> leaves has the header, one entry per result in order and the summary; and
  wherever a crash stops the writing, the path holds what it held before or this very file.
\<close>

theorem persisted_run_reads_back:
  assumes "\<forall>l\<in>set (run_lines h i now results). codec_line enc js l"
    and "persist_with_header enc dir stamp now h i results = (ops, path)"
  shows "read_run_file js (fold fs_apply ops fs) path =
      Some \<lparr>fl_header = Some h, fl_entries = map entry_from results,
            fl_summary = Some (summary_of h i now results)\<rparr> \<and>
    (crash ops fs fs' \<longrightarrow>
      read_run_file js fs' path = read_run_file js fs path \<or>
      read_run_file js fs' path = read_run_file js (fold fs_apply ops fs) path)"
proof -
  let ?text = "run_text enc (run_lines h i now results)"
  have ops: "ops = write_results dir (results_filename stamp (rh_run_id h)) ?text"
    and path: "path = dir @ ''/'' @ results_filename stamp (rh_run_id h)"
    using assms(2) by (auto simp: persist_with_header_def Let_def)
  have new: "fold fs_apply ops fs path = Some ?text"
    unfolding ops path by (rule results.complete)
  have "read_run_text js ?text =
      \<lparr>fl_header = Some h, fl_entries = map entry_from results,
       fl_summary = Some (summary_of h i now results)\<rparr>"
    unfolding read_run_text_lines [OF assms(1)]
    by (simp add: run_lines_def add_results empty_run_file_def)
  with new show ?thesis
    using results.old_or_new [of dir "results_filename stamp (rh_run_id h)" ?text fs fs']
    by (auto simp: read_run_file_def ops path)
qed

definition sample_header :: run_header where
  "sample_header = run_header_new ''1.0'' 5 ''ab-12''"

definition sample_enc :: "json_line \<Rightarrow> string" where
  "sample_enc l = (case l of RunLine _ \<Rightarrow> ''h'' | ResultLine _ \<Rightarrow> ''r'' | SummaryLine _ \<Rightarrow> ''s'')"

definition sample_js :: "run_header \<Rightarrow> result_entry \<Rightarrow> run_summary_entry \<Rightarrow> string \<Rightarrow> json_view option" where
  "sample_js h e s t =
     map_option (\<lambda>k. \<lparr>jv_kind = Some k, jv_run = Some h, jv_result = Some e, jv_summary = Some s\<rparr>)
       (map_of [(''h'', ''run''), (''r'', ''result''), (''s'', ''summary'')] t)"

theorem persisted_run_reads_back_witness:
  "\<exists>js ops path. persist_with_header sample_enc ''d'' ''t'' 9 sample_header False
      [passed 7 (test_result_new 6 ''uv'')] = (ops, path) \<and>
     map_option (map re_status \<circ> fl_entries) (read_run_file js (fold fs_apply ops Map.empty) path) =
       Some [''passed'']"
proof -
  let ?rs = "[passed 7 (test_result_new 6 ''uv'')]"
  let ?js = "sample_js sample_header (entry_from (hd ?rs)) (summary_of sample_header False 9 ?rs)"
  have "trim ''h'' = ''h'' \<and> trim ''r'' = ''r'' \<and> trim ''s'' = ''s'' \<and> chop_cr ''h'' = ''h'' \<and>
      chop_cr ''r'' = ''r'' \<and> chop_cr ''s'' = ''s''" by code_simp
  then have "\<forall>l\<in>set (run_lines sample_header False 9 ?rs). codec_line sample_enc ?js l"
    by (simp add: run_lines_def codec_line_def sample_enc_def sample_js_def)
  moreover obtain ops path where ops:
    "persist_with_header sample_enc ''d'' ''t'' 9 sample_header False ?rs = (ops, path)"
    by fastforce
  ultimately have "read_run_file ?js (fold fs_apply ops Map.empty) path =
      Some \<lparr>fl_header = Some sample_header, fl_entries = map entry_from ?rs,
            fl_summary = Some (summary_of sample_header False 9 ?rs)\<rparr>"
    using persisted_run_reads_back [of sample_header False 9 ?rs sample_enc ?js "''d''" "''t''" ops path Map.empty]
    by blast
  then have "map_option (map re_status \<circ> fl_entries) (read_run_file ?js (fold fs_apply ops Map.empty) path) =
       Some [''passed'']"
    by (simp add: entry_from_def passed_def stamp_finished_def Let_def)
  with ops show ?thesis by blast
qed

text \<open>
  pruning keeps the newest runs. With a positive limit the readable runs left are exactly the
  first ones of the list before, none of the deleted ones is newer than a kept one, only results
  files are deleted, and every other file is untouched.
\<close>

theorem pruning_keeps_the_newest:
  fixes js st dir names fs
  assumes "distinct names" "keep \<noteq> 0"
  defines "runs \<equiv> list_runs js st dir names fs"
  shows "list_runs js st dir names (fold fs_apply (prune_runs keep runs) fs) = take keep runs \<and>
    (\<forall>a\<in>set (take keep runs). \<forall>b\<in>set (drop keep runs). run_age b \<le> run_age a) \<and>
    (\<forall>p. fold fs_apply (prune_runs keep runs) fs p \<noteq> fs p \<longrightarrow>
       p \<in> rf_path ` set (drop keep runs) \<and> (\<exists>n. is_results_name n \<and> p = dir @ ''/'' @ n))"
proof (intro conjI)
  show "list_runs js st dir names (fold fs_apply (prune_runs keep runs) fs) = take keep runs"
    using list_runs_after_prune [OF assms(1,2)] by (simp add: runs_def)
  have "sorted_wrt (\<lambda>a b. run_age b \<le> run_age a) (take keep runs @ drop keep runs)"
    using newest_first_sorted by (simp add: runs_def list_runs_def)
  then show "\<forall>a\<in>set (take keep runs). \<forall>b\<in>set (drop keep runs). run_age b \<le> run_age a"
    unfolding sorted_wrt_append by blast
  have names: "\<exists>n. is_results_name n \<and> rf_path r = dir @ ''/'' @ n" if "r \<in> set runs" for r
    using that by (force simp: runs_def list_runs_def set_map_filter result_files_def)
  show "\<forall>p. fold fs_apply (prune_runs keep runs) fs p \<noteq> fs p \<longrightarrow>
       p \<in> rf_path ` set (drop keep runs) \<and> (\<exists>n. is_results_name n \<and> p = dir @ ''/'' @ n)"
    using delete_all [of "map rf_path (drop keep runs)" fs] assms(2) names in_set_dropD
    by (fastforce simp: prune_runs_def map_map [symmetric] simp del: map_map split: if_splits)
qed

theorem pruning_keeps_the_newest_witness:
  "list_runs (\<lambda>_. None) length ''d'' [''results_b.jsonl'', ''x'']
     (fold fs_apply (prune_runs 1 (list_runs (\<lambda>_. None) length ''d'' [''results_b.jsonl'', ''x''] (\<lambda>_. Some [])))
       (\<lambda>_. Some [])) =
   take 1 (list_runs (\<lambda>_. None) length ''d'' [''results_b.jsonl'', ''x''] (\<lambda>_. Some []))"
  using pruning_keeps_the_newest [of "[''results_b.jsonl'', ''x'']" 1 "\<lambda>_. None" length "''d''" "\<lambda>_. Some []"]
  by simp

text \<open>
  the two summaries of one run count differently. Over the results the runners return, the
  persisted summary adds up; what it calls failed includes the timed out and the cancelled tests,
  which the summary in memory does not count as failed, and the latter counts cancelled tests
  nowhere at all; and the persisted exit code is 1 as soon as one test was skipped.
\<close>

theorem summaries_count_differently:
  assumes "\<forall>r\<in>set results. settled_result r"
  shows "su_passed (summary_of h i now results) + su_failed (summary_of h i now results) +
      su_skipped (summary_of h i now results) = su_total (summary_of h i now results) \<and>
    su_failed (summary_of h i now results) =
      rs_failed (generate_summary F run_id started now results) +
      rs_timed_out (generate_summary F run_id started now results) +
      su_cancelled (summary_of h i now results) \<and>
    rs_total_tests (generate_summary F run_id started now results) =
      rs_passed (generate_summary F run_id started now results) +
      rs_failed (generate_summary F run_id started now results) +
      rs_timed_out (generate_summary F run_id started now results) +
      rs_skipped (generate_summary F run_id started now results) +
      su_cancelled (summary_of h i now results) \<and>
    (su_exit_code (summary_of h i now results) = 1 \<longleftrightarrow>
       su_failed (summary_of h i now results) + su_skipped (summary_of h i now results) > 0)"
proof -
  have "(\<exists>r\<in>set results. \<not> tr_success r) \<longleftrightarrow>
      0 < count (\<lambda>r. \<not> tr_success r \<and> tr_status r \<noteq> Skipped) results +
        count (\<lambda>r. tr_status r = Skipped) results"
    using assms by (induction results) (auto simp: settled_result_def count_Cons)
  then show ?thesis
    using settled_counts [OF assms] by (simp add: summary_of_def generate_summary_def Let_def)
qed

theorem summaries_count_differently_witness:
  "su_exit_code (summary_of sample_header False 9 [skipped 7 ''no'' (test_result_new 6 ''uv'')]) = 1"
proof -
  have "\<forall>r\<in>set [skipped 7 ''no'' (test_result_new 6 ''uv'')]. settled_result r"
    by (simp add: settled_result_def skipped_def test_result_new_def)
  from summaries_count_differently [OF this, of sample_header False 9 exact_f64 "[]" 0] show ?thesis
    by (simp add: summary_of_def skipped_def count_Cons)
qed

end
