(* ===== verification/History.thy ===== *)
theory History
  imports Persist
begin

text \<open>
  Run history (\<^verbatim>\<open>src/reporting/history.rs\<close>): timelines of installers, the difference of two runs,
  flakiness and the CUSUM detector of lasting breakage. The probabilities are \<open>f64\<close>: \<open>F\<close> rounds
  them; the CUSUM statistic moves in halves below the length of the series, where \<open>f64\<close> is exact.
\<close>

definition FAILURE_STATUSES :: "string list" where
  "FAILURE_STATUSES = [''failed'', ''timedout'', ''cancelled'']"

definition is_failure_status :: "string \<Rightarrow> bool" where
  "is_failure_status s \<longleftrightarrow> s \<in> set FAILURE_STATUSES"

record loaded_run =
  lr_info :: run_info
  lr_header :: "run_header option"
  lr_entries :: "result_entry list"
  lr_summary :: "run_summary_entry option"

definition run_id_of :: "loaded_run \<Rightarrow> string" where
  "run_id_of r = rf_run_id (lr_info r)"

definition started_at_of :: "loaded_run \<Rightarrow> instant" where
  "started_at_of r = rf_started_at (lr_info r)"

definition entry_of :: "string \<Rightarrow> loaded_run \<Rightarrow> result_entry option" where
  "entry_of installer r = find (\<lambda>e. re_installer_name e = installer) (lr_entries r)"

definition category_of :: "result_entry \<Rightarrow> string option" where
  "category_of e = map_option ee_category (re_error_classification e)"

definition failing_set :: "loaded_run \<Rightarrow> (string, string) btree" where
  "failing_set r =
     bt_extend
       (map (\<lambda>e. (re_installer_name e, unwrap_or (category_of e) ''unknown''))
         (filter (\<lambda>e. is_failure_status (re_status e)) (lr_entries r))) []"

section \<open>Assessment\<close>

record assessment =
  am_trials :: nat
  am_passes :: nat
  am_pass_probability :: rat
  am_flaky :: bool
  am_broken_since :: "string option"
  am_script_versions :: nat

definition short_id :: "string \<Rightarrow> string" where
  "short_id run_id = take_chars 8 run_id"

definition assessment_label :: "f64_ops \<Rightarrow> assessment \<Rightarrow> string option" where
  "assessment_label F a =
     (case am_broken_since a of
        Some run \<Rightarrow> Some (''broken since '' @ short_id run)
      | None \<Rightarrow>
          if am_flaky a
          then Some (''flaky ('' @ show_fixed 0 (fl F (am_pass_probability a * 100)) @ ''% pass)'')
          else None)"

definition FLAKY_MIN_TRIALS :: usize where "FLAKY_MIN_TRIALS = 5"
definition FLAKY_MIN_FAILURES :: usize where "FLAKY_MIN_FAILURES = 2"
definition CUSUM_FAIL :: rat where "CUSUM_FAIL = 1"
definition CUSUM_PASS :: rat where "CUSUM_PASS = - 1 / 2"
definition CUSUM_THRESHOLD :: rat where "CUSUM_THRESHOLD = 3"

text \<open>The loop over the outcomes: \<open>i\<close> is the index, the statistic and the crossing are carried.\<close>

fun cusum :: "bool list \<Rightarrow> nat \<Rightarrow> rat \<Rightarrow> nat option \<Rightarrow> rat \<times> nat option" where
  "cusum [] i stat crossed = (stat, crossed)"
| "cusum (p # ps) i stat crossed =
     (let stat1 = max (stat + (if p then CUSUM_PASS else CUSUM_FAIL)) 0;
          crossed1 = (if stat1 \<ge> CUSUM_THRESHOLD \<and> crossed = None then Some i else crossed)
      in if p \<and> crossed1 \<noteq> None then cusum ps (Suc i) 0 None
         else cusum ps (Suc i) stat1 crossed1)"

fun streak_start :: "bool list \<Rightarrow> nat \<Rightarrow> nat" where
  \<comment> \<open>\<open>while start > 0 && !series[start - 1].1 { start -= 1 }\<close>\<close>
  "streak_start ps 0 = 0"
| "streak_start ps (Suc i) = (if \<not> ps ! i then streak_start ps i else Suc i)"

definition assess_outcomes :: "f64_ops \<Rightarrow> (string \<times> bool) list \<Rightarrow> assessment" where
  "assess_outcomes F series =
     (let ps = map snd series;
          trials = length series;
          passes = count (\<lambda>p. p) ps;
          failures = trials - passes;
          prob = fl F (fl F (of_nat passes + 1) / fl F (of_nat trials + 2));
          broken = map_option (\<lambda>i. fst (series ! streak_start ps i)) (snd (cusum ps 0 0 None));
          interleaved = (\<exists>p\<in>set (dropWhile (\<lambda>p. p) ps). p)
      in \<lparr>am_trials = trials, am_passes = passes, am_pass_probability = prob,
          am_flaky =
            broken = None \<and> trials \<ge> FLAKY_MIN_TRIALS \<and> failures \<ge> FLAKY_MIN_FAILURES \<and>
            interleaved \<and> prob < fl F (9 / 10),
          am_broken_since = broken, am_script_versions = 0\<rparr>)"

section \<open>Differences of two runs\<close>

record diff_entry =
  de_installer :: string
  de_before :: "string option"
  de_after :: "string option"
  de_category_before :: "string option"
  de_category_after :: "string option"
  de_change :: string

record run_diff =
  rd_from_run :: string
  rd_to_run :: string
  rd_from_started_at :: instant
  rd_to_started_at :: instant
  rd_changes :: "diff_entry list"
  rd_unchanged :: nat

definition change_of :: "result_entry option \<Rightarrow> result_entry option \<Rightarrow> string option" where
  \<comment> \<open>\<open>None\<close>: no change (counted when both runs have the installer)\<close>
  "change_of a b =
     (case (a, b) of
        (None, Some _) \<Rightarrow> Some ''added''
      | (Some _, None) \<Rightarrow> Some ''removed''
      | (Some x, Some y) \<Rightarrow>
          (let was = is_failure_status (re_status x); now = is_failure_status (re_status y)
           in if re_status x = re_status y \<and> category_of x = category_of y then None
              else if \<not> was \<and> now then Some ''regressed''
              else if was \<and> \<not> now then Some ''recovered''
              else Some ''changed'')
      | (None, None) \<Rightarrow> None)"

definition diff_entry_of :: "loaded_run \<Rightarrow> loaded_run \<Rightarrow> string \<Rightarrow> diff_entry option" where
  "diff_entry_of f t name =
     (let a = entry_of name f; b = entry_of name t
      in map_option
           (\<lambda>c. \<lparr>de_installer = name, de_before = map_option re_status a,
                 de_after = map_option re_status b, de_category_before = Option.bind a category_of,
                 de_category_after = Option.bind b category_of, de_change = c\<rparr>) (change_of a b))"

definition run_names :: "loaded_run \<Rightarrow> loaded_run \<Rightarrow> string list" where
  \<comment> \<open>a \<open>BTreeSet\<close> in its order\<close>
  "run_names f t = map fst (bt_extend (map (\<lambda>e. (re_installer_name e, ())) (lr_entries f @ lr_entries t)) [])"

definition diff_runs :: "loaded_run \<Rightarrow> loaded_run \<Rightarrow> run_diff" where
  "diff_runs f t =
     \<lparr>rd_from_run = run_id_of f, rd_to_run = run_id_of t,
      rd_from_started_at = started_at_of f, rd_to_started_at = started_at_of t,
      rd_changes = List.map_filter (diff_entry_of f t) (run_names f t),
      rd_unchanged =
        count (\<lambda>n. entry_of n f \<noteq> None \<and> entry_of n t \<noteq> None \<and> diff_entry_of f t n = None) (run_names f t)\<rparr>"

definition regressions :: "run_diff \<Rightarrow> diff_entry list" where
  "regressions d = filter (\<lambda>c. de_change c = ''regressed'') (rd_changes d)"

definition recoveries :: "run_diff \<Rightarrow> diff_entry list" where
  "recoveries d = filter (\<lambda>c. de_change c = ''recovered'') (rd_changes d)"

section \<open>History\<close>

type_synonym history = "loaded_run list" \<comment> \<open>newest first\<close>

definition load_recent ::
  "(string \<Rightarrow> json_view option) \<Rightarrow> (string \<Rightarrow> instant) \<Rightarrow> string \<Rightarrow> string list \<Rightarrow> files \<Rightarrow> nat option
    \<Rightarrow> history" where
  \<comment> \<open>no limit is \<open>usize::MAX\<close>\<close>
  "load_recent js st dir names fs limit =
     List.map_filter
       (\<lambda>info. map_option
          (\<lambda>f. \<lparr>lr_info = info, lr_header = fl_header f, lr_entries = fl_entries f,
                lr_summary = fl_summary f\<rparr>) (read_run_file js fs (rf_path info)))
       (case limit of None \<Rightarrow> list_runs js st dir names fs
        | Some n \<Rightarrow> take n (list_runs js st dir names fs))"

definition from_runs :: "loaded_run list \<Rightarrow> history" where
  "from_runs runs = rev (sort_key started_at_of (rev runs))"

definition latest_run :: "history \<Rightarrow> loaded_run option" where
  "latest_run h = (case h of [] \<Rightarrow> None | r # _ \<Rightarrow> Some r)"

definition history_find :: "string \<Rightarrow> history \<Rightarrow> loaded_run option" where
  "history_find pre h =
     (if eq_ignore_ascii_case pre ''last'' then latest_run h
      else find (\<lambda>r. prefix pre (run_id_of r)) h)"

fun previous_run :: "string \<Rightarrow> history \<Rightarrow> loaded_run option" where
  "previous_run rid [] = None"
| "previous_run rid (r # rs) =
     (if run_id_of r = rid then (case rs of [] \<Rightarrow> None | q # _ \<Rightarrow> Some q) else previous_run rid rs)"

definition runs_within :: "instant \<Rightarrow> duration \<Rightarrow> history \<Rightarrow> loaded_run list" where
  "runs_within now window h =
     filter (\<lambda>r. started_at_of r \<ge> now - int window \<and> started_at_of r \<le> now) h"

definition history_installers :: "history \<Rightarrow> string list" where
  "history_installers h =
     map fst (bt_extend (concat (map (\<lambda>r. map (\<lambda>e. (re_installer_name e, ())) (lr_entries r)) h)) [])"

record history_entry =
  he_run_id :: string
  he_started_at :: instant
  he_status :: string
  he_duration_ms :: u64
  he_attempts :: nat
  he_script_sha256 :: "string option"
  he_installed_version :: "string option"
  he_category :: "string option"

definition installer_timeline :: "string \<Rightarrow> history \<Rightarrow> history_entry list" where
  "installer_timeline installer h =
     sort_key he_started_at
       (List.map_filter
         (\<lambda>run. map_option
            (\<lambda>e. \<lparr>he_run_id = run_id_of run, he_started_at = started_at_of run,
                  he_status = re_status e, he_duration_ms = re_duration_ms e,
                  he_attempts = max (length (re_attempts e)) 1,
                  he_script_sha256 = re_checksum_expected e,
                  he_installed_version = re_installed_version e, he_category = category_of e\<rparr>)
            (entry_of installer run)) (rev h))"

definition considered :: "string \<Rightarrow> history \<Rightarrow> history_entry list" where
  "considered installer h =
     filter (\<lambda>e. he_status e \<noteq> ''skipped'' \<and> he_status e \<noteq> ''cancelled'') (installer_timeline installer h)"

definition median_duration_ms :: "string \<Rightarrow> history \<Rightarrow> u64 option" where
  "median_duration_ms installer h =
     (let d = sort (map he_duration_ms (considered installer h))
      in if d = [] then None else Some (d ! (length d div 2)))"

fun segment_start :: "history_entry list \<Rightarrow> nat \<Rightarrow> nat \<Rightarrow> string option \<Rightarrow> nat" where
  "segment_start [] i start last_hash = start"
| "segment_start (e # es) i start last_hash =
     (case he_script_sha256 e of
        None \<Rightarrow> segment_start es (Suc i) start last_hash
      | Some h \<Rightarrow>
          segment_start es (Suc i)
            (case last_hash of Some prev \<Rightarrow> if prev \<noteq> h then i else start | None \<Rightarrow> start) (Some h))"

definition assess :: "f64_ops \<Rightarrow> string \<Rightarrow> history \<Rightarrow> assessment" where
  "assess F installer h =
     (let es = considered installer h;
          versions = card (set (List.map_filter he_script_sha256 es));
          series = map (\<lambda>e. (he_run_id e, he_status e = ''passed'')) (drop (segment_start es 0 0 None) es)
      in (assess_outcomes F series)\<lparr>am_script_versions := versions\<rparr>)"

definition failed_installers :: "loaded_run \<Rightarrow> string list" where
  "failed_installers r = map fst (failing_set r)"

section \<open>The detector\<close>

lemma cusum_append:
  "cusum (ps @ qs) i st c = (case cusum ps i st c of (st', c') \<Rightarrow> cusum qs (i + length ps) st' c')"
proof (induction ps arbitrary: i st c)
  case (Cons p ps)
  then show ?case by (simp only: append_Cons cusum.simps Let_def split: if_split) simp
qed simp

definition cusum_inv :: "rat \<times> nat option \<Rightarrow> bool" where
  "cusum_inv sc \<longleftrightarrow> 0 \<le> fst sc \<and> (snd sc = None \<longrightarrow> fst sc < CUSUM_THRESHOLD)"

lemma cusum_step_inv:
  "cusum_inv (st, c) \<Longrightarrow> cusum_inv (cusum [p] i st c) \<and> (p \<longrightarrow> snd (cusum [p] i st c) = None)"
  by (auto simp: cusum_inv_def CUSUM_THRESHOLD_def CUSUM_PASS_def CUSUM_FAIL_def Let_def)

lemma cusum_prefix_inv:
  "cusum_inv (cusum ps 0 0 None) \<and> ((ps = [] \<or> last ps) \<longrightarrow> snd (cusum ps 0 0 None) = None)"
proof (induction ps rule: rev_induct)
  case Nil
  then show ?case by (simp add: cusum_inv_def CUSUM_THRESHOLD_def)
next
  case (snoc p ps)
  obtain st c where sc: "cusum ps 0 0 None = (st, c)" by fastforce
  with snoc cusum_step_inv [of st c p "length ps"] show ?case
    by (simp add: cusum_append del: cusum.simps)
qed

lemma cusum_failures_crossed: "cusum (replicate n False) i st (Some c) = (fst (cusum (replicate n False) i st (Some c)), Some c)"
  by (induction n arbitrary: i st) (simp_all add: Let_def)

lemma cusum_failures:
  "0 \<le> st \<Longrightarrow> st < CUSUM_THRESHOLD \<Longrightarrow>
     (case snd (cusum (replicate n False) i st None) of
        None \<Rightarrow> st + of_nat n < CUSUM_THRESHOLD
      | Some j \<Rightarrow> i \<le> j \<and> j < i + n \<and> st + of_nat n \<ge> CUSUM_THRESHOLD)"
proof (induction n arbitrary: i st)
  case (Suc n)
  show ?case
  proof (cases "st + 1 \<ge> CUSUM_THRESHOLD")
    case True
    have "snd (cusum (replicate n False) (Suc i) (st + 1) (Some i)) = Some i"
      by (subst cusum_failures_crossed) simp
    moreover have "(0 :: rat) \<le> of_nat n" by simp
    then have "st + of_nat (Suc n) \<ge> CUSUM_THRESHOLD" using True by simp
    ultimately show ?thesis using True Suc.prems by (simp add: CUSUM_FAIL_def Let_def)
  next
    case False
    with Suc.IH [of "st + 1" "Suc i"] Suc.prems show ?thesis
      by (auto simp: CUSUM_FAIL_def Let_def add.assoc split: option.splits)
  qed
qed simp

lemma streak_start_at:
  assumes "\<forall>k<length ts. \<not> (ps @ ts) ! (length ps + k)" "ps = [] \<or> last ps"
  shows "j \<le> length ts \<Longrightarrow> streak_start (ps @ ts) (length ps + j) = length ps"
proof (induction j)
  case 0
  show ?case
  proof (cases "length ps")
    case (Suc m)
    then have "ps \<noteq> []" by auto
    with assms(2) Suc have "(ps @ ts) ! m" by (simp add: nth_append last_conv_nth)
    with Suc show ?thesis by simp
  qed simp
next
  case (Suc j)
  with assms(1) show ?case by simp
qed

lemma trailing_failures:
  obtains pre ts where "series = pre @ ts" "\<forall>x\<in>set ts. \<not> snd x" "pre = [] \<or> snd (last pre)"
proof
  let ?r = "rev series"
  show "series = rev (dropWhile (\<lambda>x. \<not> snd x) ?r) @ rev (takeWhile (\<lambda>x. \<not> snd x) ?r)"
    by (metis rev_append rev_rev_ident takeWhile_dropWhile_id)
  show "\<forall>x\<in>set (rev (takeWhile (\<lambda>x. \<not> snd x) ?r)). \<not> snd x" by (auto dest: set_takeWhileD)
  show "rev (dropWhile (\<lambda>x. \<not> snd x) ?r) = [] \<or> snd (last (rev (dropWhile (\<lambda>x. \<not> snd x) ?r)))"
    using hd_dropWhile [of "\<lambda>x. \<not> snd x" ?r] by (auto simp: last_rev)
qed

definition statistic :: "(string \<times> bool) list \<Rightarrow> rat" where
  "statistic series = fst (cusum (map snd series) 0 0 None)"

lemma broken_since_split:
  assumes "series = pre @ ts" "\<forall>x\<in>set ts. \<not> snd x" "pre = [] \<or> snd (last pre)"
  shows "am_broken_since (assess_outcomes F series) =
    (if ts \<noteq> [] \<and> statistic pre + of_nat (length ts) \<ge> CUSUM_THRESHOLD then Some (fst (hd ts)) else None)"
proof -
  let ?ps = "map snd pre"
  have last: "?ps = [] \<or> last ?ps" using assms(3) by (cases "pre = []") (simp_all add: last_map)
  obtain st where st: "cusum ?ps 0 0 None = (st, None)" and inv: "0 \<le> st" "st < CUSUM_THRESHOLD"
    using cusum_prefix_inv [of ?ps] last by (cases "cusum ?ps 0 0 None") (auto simp: cusum_inv_def)
  have fails: "map snd ts = replicate (length ts) False"
    using assms(2) by (auto simp: list_eq_iff_nth_eq)
  have run: "cusum (map snd series) 0 0 None = cusum (replicate (length ts) False) (length pre) st None"
    by (simp add: assms(1) cusum_append st fails)
  have stat: "statistic pre = st" by (simp add: statistic_def st)
  show ?thesis
  proof (cases "snd (cusum (map snd series) 0 0 None)")
    case None
    with cusum_failures [OF inv, of "length ts" "length pre"] run have "st + of_nat (length ts) < CUSUM_THRESHOLD"
      by simp
    with None stat show ?thesis by (simp add: assess_outcomes_def Let_def)
  next
    case (Some j)
    with cusum_failures [OF inv, of "length ts" "length pre"] run
    have j: "length pre \<le> j" "j < length pre + length ts" "st + of_nat (length ts) \<ge> CUSUM_THRESHOLD"
      by simp_all
    have "\<forall>k<length (map snd ts). \<not> (?ps @ map snd ts) ! (length ?ps + k)"
      using assms(2) by (simp add: nth_append)
    from streak_start_at [OF this last, of "j - length pre"] j
    have "streak_start (map snd series) j = length pre" by (simp add: assms(1))
    moreover have "ts \<noteq> []" using j by auto
    ultimately show ?thesis
      using Some j stat
      by (simp add: assess_outcomes_def Let_def) (simp add: assms(1) nth_append hd_conv_nth)
  qed
qed

section \<open>The segment of the current script\<close>

definition hash_after :: "history_entry list \<Rightarrow> string option \<Rightarrow> string option" where
  "hash_after es last_hash = fold (\<lambda>e h. opt_or (he_script_sha256 e) h) es last_hash"

lemma segment_start_bounds:
  "start \<le> i \<Longrightarrow> start \<le> segment_start es i start h \<and>
     (segment_start es i start h = start \<or>
      i \<le> segment_start es i start h \<and> segment_start es i start h < i + length es)"
proof (induction es i start h rule: segment_start.induct)
  case (2 e es i start h)
  show ?case
  proof (cases "he_script_sha256 e")
    case None
    with 2 show ?thesis by (auto simp: le_Suc_eq)
  next
    case (Some x)
    have "(case h of Some prev \<Rightarrow> if prev \<noteq> x then i else start | None \<Rightarrow> start) \<le> Suc i"
      using 2(3) by (auto split: option.split)
    from 2(2) [OF Some this] 2(3) Some show ?thesis
      by (auto split: option.splits if_splits)
  qed
qed simp

lemma segment_start_hash:
  assumes "\<forall>e\<in>set (drop start ds). \<forall>x. he_script_sha256 e = Some x \<longrightarrow> h = Some x"
    and "start \<le> length ds"
  shows "\<forall>e\<in>set (drop (segment_start es (length ds) start h) (ds @ es)).
      \<forall>x. he_script_sha256 e = Some x \<longrightarrow> hash_after es h = Some x"
  using assms
proof (induction es "length ds" start h arbitrary: ds rule: segment_start.induct)
  case (1 start h)
  then show ?case by (simp add: hash_after_def)
next
  case (2 e es start h)
  show ?case
  proof (cases "he_script_sha256 e")
    case None
    have "\<forall>d\<in>set (drop start (ds @ [e])). \<forall>x. he_script_sha256 d = Some x \<longrightarrow> h = Some x"
      using 2(3,4) None by auto
    from 2(1) [OF None _ this] 2(4) None show ?thesis by (simp add: hash_after_def)
  next
    case (Some y)
    let ?s = "case h of Some prev \<Rightarrow> if prev \<noteq> y then length ds else start | None \<Rightarrow> start"
    have "\<forall>d\<in>set (drop ?s (ds @ [e])). \<forall>x. he_script_sha256 d = Some x \<longrightarrow> Some y = Some x"
      using 2(3,4) Some by (auto split: option.split)
    moreover have "?s \<le> length (ds @ [e])" using 2(4) by (auto split: option.split)
    ultimately show ?thesis
      using 2(2) [OF Some, of "ds @ [e]"] Some by (simp add: hash_after_def)
  qed
qed

lemma hash_after_append: "hash_after (ds @ es) h = hash_after es (hash_after ds h)"
  by (simp add: hash_after_def)

text \<open>A segment that starts past the beginning starts at an entry whose hash differs from the one before.\<close>

lemma segment_start_change:
  assumes "start = 0 \<or> changes_at ds start" "h = hash_after ds None"
    and changes_at: "\<And>xs k. changes_at xs k \<longleftrightarrow>
      k < length xs \<and> (\<exists>x y. he_script_sha256 (xs ! k) = Some x \<and> hash_after (take k xs) None = Some y \<and> x \<noteq> y)"
  shows "segment_start es (length ds) start h = 0 \<or>
    changes_at (ds @ es) (segment_start es (length ds) start h)"
  using assms(1,2)
proof (induction es arbitrary: ds start h)
  case Nil
  then show ?case by simp
next
  case (Cons e es)
  have grow: "start = 0 \<or> changes_at (ds @ [e]) start"
    using Cons.prems(1) by (auto simp: changes_at nth_append)
  show ?case
  proof (cases "he_script_sha256 e")
    case None
    with Cons.IH [OF grow, of h] Cons.prems(2) show ?thesis
      by (simp add: hash_after_append) (simp add: hash_after_def)
  next
    case (Some x)
    let ?s = "case h of Some prev \<Rightarrow> if prev \<noteq> x then length ds else start | None \<Rightarrow> start"
    have new: "Some x = hash_after (ds @ [e]) None"
      by (simp add: hash_after_append) (simp add: hash_after_def Some)
    have "?s = 0 \<or> changes_at (ds @ [e]) ?s"
      using grow Cons.prems(2) Some by (auto simp: changes_at split: option.split)
    from Cons.IH [OF this new] Some show ?thesis by simp
  qed
qed

section \<open>Differences\<close>

lemma bt_ok_run_names: "bt_ok (bt_extend (map (\<lambda>e. (g e, ())) xs) [])"
  by (simp add: bt_ok_extend)

lemma fst_bt_extend: "fst ` set (bt_extend kvs m) = fst ` set kvs \<union> fst ` set m"
  unfolding bt_extend_def
  by (induction kvs arbitrary: m) (auto simp: bt_insert_keys case_prod_beta)

lemma run_names_distinct: "distinct (run_names f t)"
  unfolding run_names_def by (intro bt_ok_distinct bt_ok_run_names)

lemma set_run_names:
  "set (run_names f t) = re_installer_name ` (set (lr_entries f) \<union> set (lr_entries t))"
  by (simp add: run_names_def fst_bt_extend image_Un image_image)

lemma entry_of_none: "entry_of n r = None \<longleftrightarrow> n \<notin> re_installer_name ` set (lr_entries r)"
  by (auto simp: entry_of_def find_None_iff)

lemma sorted_run_names: "sorted (run_names f t)"
  using bt_ok_run_names [of re_installer_name "lr_entries f @ lr_entries t"]
  by (simp add: run_names_def bt_ok_def strict_sorted_iff)

lemma run_names_sym: "run_names f t = run_names t f"
  by (rule sorted_distinct_set_unique)
     (simp_all add: sorted_run_names run_names_distinct set_run_names Un_commute)

lemma length_map_filter: "length (List.map_filter g xs) = count (\<lambda>x. g x \<noteq> None) xs"
  by (induction xs) (auto simp: count_def List.map_filter_simps split: option.splits)

lemma regressed_iff:
  "change_of a b = Some ''regressed'' \<longleftrightarrow>
     (\<exists>x y. a = Some x \<and> b = Some y \<and> \<not> is_failure_status (re_status x) \<and> is_failure_status (re_status y))"
  by (auto simp: change_of_def Let_def split: option.splits)

lemma recovered_iff: "change_of b a = Some ''recovered'' \<longleftrightarrow> change_of a b = Some ''regressed''"
  by (auto simp: change_of_def Let_def split: option.splits)

lemma changed_sorted: "sorted (map de_installer (List.map_filter (diff_entry_of f t) ns))" if "sorted ns"
proof -
  have "map de_installer (List.map_filter (diff_entry_of f t) ns) =
      filter (\<lambda>n. diff_entry_of f t n \<noteq> None) ns"
    by (induction ns) (auto simp: List.map_filter_simps diff_entry_of_def Let_def split: option.splits)
  then show ?thesis using that by (simp add: sorted_wrt_filter)
qed

lemma changed_installers:
  "map de_installer (filter (\<lambda>c. de_change c = k) (List.map_filter (diff_entry_of f t) ns)) =
     filter (\<lambda>n. change_of (entry_of n f) (entry_of n t) = Some k) ns"
  by (induction ns)
     (auto simp: List.map_filter_simps diff_entry_of_def Let_def split: option.splits)

text \<open>
  Comparing two runs accounts for every installer either of them has, once, in name order: it is
  a change or it is counted as unchanged. Comparing them in the other direction mirrors the answer:
  what regressed in one direction is what recovered in the other.
\<close>

theorem run_comparison_is_exact:
  "length (rd_changes (diff_runs f t)) + rd_unchanged (diff_runs f t) =
     card (re_installer_name ` (set (lr_entries f) \<union> set (lr_entries t))) \<and>
   sorted (map de_installer (rd_changes (diff_runs f t))) \<and>
   map de_installer (recoveries (diff_runs t f)) = map de_installer (regressions (diff_runs f t)) \<and>
   set (map de_installer (regressions (diff_runs f t))) =
     {n. \<exists>x y. entry_of n f = Some x \<and> entry_of n t = Some y \<and>
       \<not> is_failure_status (re_status x) \<and> is_failure_status (re_status y)}"
proof (intro conjI)
  let ?d = "diff_entry_of f t" and ?ns = "run_names f t"
  have same: "(?d n \<noteq> None) \<longleftrightarrow> \<not> (entry_of n f \<noteq> None \<and> entry_of n t \<noteq> None \<and> ?d n = None)"
    if "n \<in> set ?ns" for n
  proof -
    from that have "entry_of n f \<noteq> None \<or> entry_of n t \<noteq> None"
      unfolding entry_of_none by (auto simp: set_run_names)
    then show ?thesis
      by (auto simp: diff_entry_of_def Let_def change_of_def split: option.splits)
  qed
  have "filter (\<lambda>n. ?d n \<noteq> None) ?ns =
      filter (\<lambda>n. \<not> (entry_of n f \<noteq> None \<and> entry_of n t \<noteq> None \<and> ?d n = None)) ?ns"
    by (rule filter_cong [OF refl same])
  then have "length (rd_changes (diff_runs f t)) + rd_unchanged (diff_runs f t) = length ?ns"
    using sum_length_filter_compl
      [of "\<lambda>n. entry_of n f \<noteq> None \<and> entry_of n t \<noteq> None \<and> ?d n = None" ?ns]
    by (simp add: diff_runs_def length_map_filter count_def)
  then show "length (rd_changes (diff_runs f t)) + rd_unchanged (diff_runs f t) =
      card (re_installer_name ` (set (lr_entries f) \<union> set (lr_entries t)))"
    using distinct_card [OF run_names_distinct, of f t] by (simp add: set_run_names)
  show "sorted (map de_installer (rd_changes (diff_runs f t)))"
    by (simp add: diff_runs_def changed_sorted sorted_run_names)
  show "map de_installer (recoveries (diff_runs t f)) = map de_installer (regressions (diff_runs f t))"
    by (simp add: recoveries_def regressions_def diff_runs_def changed_installers run_names_sym [of t f]
        recovered_iff)
  show "set (map de_installer (regressions (diff_runs f t))) =
      {n. \<exists>x y. entry_of n f = Some x \<and> entry_of n t = Some y \<and>
        \<not> is_failure_status (re_status x) \<and> is_failure_status (re_status y)}"
  proof -
    have "n \<in> set ?ns" if "entry_of n f = Some x" for n x
    proof -
      from that have "entry_of n f \<noteq> None" by simp
      then show ?thesis unfolding entry_of_none by (auto simp: set_run_names)
    qed
    then show ?thesis
      unfolding regressions_def diff_runs_def run_diff.simps changed_installers regressed_iff
      by (simp only: set_filter) blast
  qed
qed

section \<open>Properties of the assessment\<close>

text \<open>
  An installer is reported as broken exactly when its series of outcomes ends in a streak of
  failures that brings the detector, from where the last pass left it, to the threshold; the run
  named is the first failure of that streak, never an earlier one. How much of the threshold the
  streak itself has to make up depends on what came before: after F F P F P one more failure is
  enough.
\<close>

theorem broken_since_the_streak:
  assumes "\<forall>x\<in>set streak. \<not> snd x" "pre = [] \<or> snd (last pre)"
  shows "am_broken_since (assess_outcomes F (pre @ streak)) =
      (if streak \<noteq> [] \<and> statistic pre + of_nat (length streak) \<ge> CUSUM_THRESHOLD
       then Some (fst (hd streak)) else None) \<and>
    0 \<le> statistic pre \<and> statistic pre < CUSUM_THRESHOLD"
proof
  show "am_broken_since (assess_outcomes F (pre @ streak)) =
      (if streak \<noteq> [] \<and> statistic pre + of_nat (length streak) \<ge> CUSUM_THRESHOLD
       then Some (fst (hd streak)) else None)"
    by (rule broken_since_split [OF refl assms])
  show "0 \<le> statistic pre \<and> statistic pre < CUSUM_THRESHOLD"
    using cusum_prefix_inv [of "map snd pre"] assms(2)
    by (cases "pre = []") (auto simp: cusum_inv_def statistic_def last_map)
qed

lemma broken_since_the_streak_witness:
  "am_broken_since (assess_outcomes exact_f64
     ([(''r1'', False), (''r2'', False), (''r3'', True), (''r4'', False), (''r5'', True)] @ [(''r6'', False)])) =
     Some ''r6''"
  using broken_since_the_streak [of "[(''r6'', False)]"
      "[(''r1'', False), (''r2'', False), (''r3'', True), (''r4'', False), (''r5'', True)]"
      exact_f64, THEN conjunct1]
  by (simp add: statistic_def CUSUM_THRESHOLD_def CUSUM_PASS_def CUSUM_FAIL_def Let_def)

text \<open>
  An assessment looks only at the outcomes of the script now pinned: the series assessed is a
  final segment of the outcomes considered, no entry of it carries a hash other than the last one
  recorded, and unless it is all of them it starts at an entry whose hash differs from the last one
  recorded before it.
\<close>

theorem assessment_is_of_the_current_script:
  "\<exists>old current. considered installer h = old @ current \<and>
     am_trials (assess F installer h) = length current \<and>
     am_passes (assess F installer h) = count (\<lambda>e. he_status e = ''passed'') current \<and>
     {x. Some x \<in> he_script_sha256 ` set current} \<subseteq> {x. hash_after (considered installer h) None = Some x} \<and>
     (old = [] \<or> current \<noteq> [] \<and> he_script_sha256 (hd current) \<noteq> None \<and> hash_after old None \<noteq> None \<and>
       he_script_sha256 (hd current) \<noteq> hash_after old None)"
proof (intro exI conjI)
  let ?es = "considered installer h"
  let ?s = "segment_start ?es 0 0 None"
  show "?es = take ?s ?es @ drop ?s ?es" by simp
  show "am_trials (assess F installer h) = length (drop ?s ?es)"
    by (simp add: assess_def assess_outcomes_def Let_def)
  show "am_passes (assess F installer h) = count (\<lambda>e. he_status e = ''passed'') (drop ?s ?es)"
    by (simp add: assess_def assess_outcomes_def Let_def count_def filter_map o_def)
  show "{x. Some x \<in> he_script_sha256 ` set (drop ?s ?es)} \<subseteq> {x. hash_after ?es None = Some x}"
    using segment_start_hash [of 0 "[]" None ?es] by (auto dest: sym)
  have "?s = 0 \<or> ?s < length ?es \<and> (\<exists>x y. he_script_sha256 (?es ! ?s) = Some x \<and>
      hash_after (take ?s ?es) None = Some y \<and> x \<noteq> y)"
    using segment_start_change [of 0 _ "[]" None ?es] by (simp add: hash_after_def)
  then show "take ?s ?es = [] \<or> drop ?s ?es \<noteq> [] \<and> he_script_sha256 (hd (drop ?s ?es)) \<noteq> None \<and>
      hash_after (take ?s ?es) None \<noteq> None \<and>
      he_script_sha256 (hd (drop ?s ?es)) \<noteq> hash_after (take ?s ?es) None"
    by (auto simp: hd_drop_conv_nth)
qed

end
