(* ===== verification/Check.thy ===== *)
theory Check
  imports Naming History Settings
begin

text \<open>
  The check command (\<^verbatim>\<open>src/main.rs\<close>) and the exit codes (\<^verbatim>\<open>src/error.rs\<close>): which installers a run
  selects and in which order, the executor's configuration, the sequential run, how the results are
  combined, and what the process returns. What is printed is left out but for the numbers in it.
  Docker, the files read and the signal handler are arguments.
\<close>

section \<open>Errors and exit codes\<close>

datatype signal = Interrupt | Terminate

datatype afsc_error =
  Usage string | ConfigError string | Infra string | InstallerFailures usize usize
| ValidationDrift string | ChecksumsInvalid string | Interrupted signal | Other anyhow

fun exit_code :: "afsc_error \<Rightarrow> int" where
  "exit_code (Usage m) = 2"
| "exit_code (ConfigError m) = 2"
| "exit_code (ChecksumsInvalid m) = 2"
| "exit_code (Infra m) = 3"
| "exit_code (InstallerFailures f t) = 1"
| "exit_code (ValidationDrift m) = 4"
| "exit_code (Interrupted Interrupt) = 130"
| "exit_code (Interrupted Terminate) = 143"
| "exit_code (Other e) = 1"

fun is_silent :: "afsc_error \<Rightarrow> bool" where
  "is_silent (InstallerFailures f t) = True"
| "is_silent (ValidationDrift m) = True"
| "is_silent (ChecksumsInvalid m) = True"
| "is_silent e = False"

fun afsc_error_str :: "afsc_error \<Rightarrow> string" where
  "afsc_error_str (Usage m) = m"
| "afsc_error_str (ConfigError m) = m"
| "afsc_error_str (Infra m) = m"
| "afsc_error_str (InstallerFailures f t) =
     show_nat f @ '' of '' @ show_nat t @ '' installers failed''"
| "afsc_error_str (ValidationDrift m) = m"
| "afsc_error_str (ChecksumsInvalid m) = m"
| "afsc_error_str (Interrupted Interrupt) = ''interrupted (SIGINT)''"
| "afsc_error_str (Interrupted Terminate) = ''terminated (SIGTERM)''"
| "afsc_error_str (Other e) = err_chain e"

definition main_exit :: "afsc_error + unit \<Rightarrow> string list \<times> int" where
  \<comment> \<open>the lines on stderr and the process's exit code\<close>
  "main_exit res =
     (case res of
        Inr _ \<Rightarrow> ([], 0)
      | Inl e \<Rightarrow> (if is_silent e then [] else [''Error: '' @ afsc_error_str e], exit_code e))"

section \<open>The command line\<close>

datatype output_format = Human | Json | Jsonl | Prometheus | Markdown

record check_args =
  ca_installers :: "string list"
  ca_parallel :: "string option"
  ca_timeout :: "u64 option"
  ca_dry_run :: bool
  ca_remediate :: bool
  ca_fail_fast :: bool
  ca_local :: bool
  ca_reap :: bool
  ca_yes :: bool
  ca_allow_concurrent :: bool
  ca_rebuild_base :: bool
  ca_failed_from :: "string option"

record status_args =
  sa_detailed :: bool
  sa_list :: bool
  sa_run :: "string option"
  sa_history :: "string option"
  sa_last :: "usize option"
  sa_diff :: "string list"

datatype remediate_mode_arg = AdvisoryArg | ProposeArg | ApplyArg

datatype config_cmd = ShowConfig bool | DefaultConfig | ValidateConfig bool

record refresh_args =
  ra_from_last_run :: bool
  ra_only :: "string list"
  ra_mode :: "remediate_mode_arg option"
  ra_no_verify :: bool
  ra_local :: bool
  ra_yes :: bool

datatype commands =
  CheckCmd check_args
| ServeCmd "u16 option" "u16 option"
| ListCmd bool
| StatusCmd status_args
| ValidateCmd "string option" bool bool bool
| RemediateChecksums refresh_args
| DoctorCmd bool
| NotifyCmd bool "string option" bool
| ClassifyErrorCmd string int bool
| ConfigCmd config_cmd

record cli =
  cm_command :: commands
  cm_format :: output_format
  cm_quiet :: bool
  cm_acfs_repo :: "string option"
  cm_data_dir :: "string option"
  cm_image :: "string option"
  cm_allow_file_urls :: bool
  cm_watchdog :: bool

definition flag :: "bool \<Rightarrow> bool option" where
  "flag b = (if b then Some True else None)"

definition cli_overrides_of :: "cli \<Rightarrow> cli_overrides" where
  "cli_overrides_of c =
     (let o1 = no_overrides\<lparr>co_image := cm_image c, co_data_dir := cm_data_dir c,
                 co_acfs_repo := cm_acfs_repo c, co_allow_file_urls := flag (cm_allow_file_urls c)\<rparr>
      in case cm_command c of
           CheckCmd a \<Rightarrow> o1\<lparr>co_parallel := ca_parallel a, co_timeout_seconds := ca_timeout a,
             co_fail_fast := flag (ca_fail_fast a)\<rparr>
         | _ \<Rightarrow> o1)"

definition local_consent :: "bool \<Rightarrow> string option \<Rightarrow> bool \<Rightarrow> afsc_error + unit" where
  \<comment> \<open>\<open>allow\<close> is the variable \<open>AFSC_ALLOW_LOCAL\<close>, \<open>terminal\<close> whether stdin is one\<close>
  "local_consent yes allow terminal =
     (if yes \<or> allow = Some ''1'' \<or> terminal then Inr ()
      else Inl (Usage
        ''--local executes installer scripts on this host; not attached to a terminal, so pass --yes (or set AFSC_ALLOW_LOCAL=1) to confirm''))"

record check_options =
  op_installers :: "string list"
  op_parallel :: usize
  op_timeout :: u64
  op_dry_run :: bool
  op_remediate :: bool
  op_fail_fast :: bool
  op_local :: bool
  op_format :: output_format
  op_quiet :: bool
  op_retries :: u32
  op_rebuild_base :: bool
  op_failed_from :: "string option"

section \<open>Dispatch\<close>

text \<open>The handler a command line ends in; the run lock is held while \<open>Checking True\<close> runs.\<close>

datatype invocation =
  Reaping | Checking bool check_options | Serving "u16 option" "u16 option" | Listing bool
| ShowingStatus status_args | Validating "string option" bool bool bool
| Classifying string int bool | Diagnosing bool
| RefreshingChecksums bool "string list" "remediate_mode_arg option" bool bool
| Notifying "string option" bool | Configuring config_cmd

definition check_options_of :: "nat \<Rightarrow> config \<Rightarrow> cli \<Rightarrow> check_args \<Rightarrow> check_options" where
  "check_options_of cores cfg c a =
     \<lparr>op_installers = ca_installers a, op_parallel = resolve_with_cores (ex_parallel (cf_execution cfg)) cores,
      op_timeout = dk_timeout_seconds (cf_docker cfg), op_dry_run = ca_dry_run a,
      op_remediate = ca_remediate a, op_fail_fast = ex_fail_fast (cf_execution cfg),
      op_local = ca_local a, op_format = cm_format c, op_quiet = cm_quiet c,
      op_retries = ex_retry_transient (cf_execution cfg), op_rebuild_base = ca_rebuild_base a,
      op_failed_from = ca_failed_from a\<rparr>"

definition run_check ::
  "nat \<Rightarrow> (bool \<Rightarrow> afsc_error + unit) \<Rightarrow> anyhow + lock_result \<Rightarrow> config \<Rightarrow> cli \<Rightarrow> check_args
    \<Rightarrow> afsc_error + invocation" where
  "run_check cores consent lock cfg c a =
     (if ca_reap a then Inr Reaping
      else
        case (if ca_local a \<and> \<not> ca_dry_run a then consent (ca_yes a) else Inr ()) of
          Inl e \<Rightarrow> Inl e
        | Inr _ \<Rightarrow>
            if ca_dry_run a \<or> ca_allow_concurrent a
            then Inr (Checking False (check_options_of cores cfg c a))
            else
              (case lock of
                 Inl e \<Rightarrow> Inl (Infra (err_msg e))
               | Inr (HeldBy h) \<Rightarrow> Inl (Infra (
                   ''another check is running (pid '' @ show_nat (unat (lh_pid h)) @ '', since '' @
                   lh_since h @ ''); wait for it or pass --allow-concurrent''))
               | Inr Acquired \<Rightarrow> Inr (Checking True (check_options_of cores cfg c a))))"

definition run_command ::
  "nat \<Rightarrow> (bool \<Rightarrow> afsc_error + unit) \<Rightarrow> anyhow + lock_result \<Rightarrow> config \<Rightarrow> cli
    \<Rightarrow> afsc_error + invocation" where
  "run_command cores consent lock cfg c =
     (if (cm_format c = Prometheus \<or> cm_format c = Markdown) \<and>
         (case cm_command c of StatusCmd _ \<Rightarrow> False | _ \<Rightarrow> True)
      then Inl (Usage
        ''--format prometheus and --format markdown are only supported for the status command'')
      else
        case cm_command c of
          CheckCmd a \<Rightarrow> run_check cores consent lock cfg c a
        | ServeCmd hp mp \<Rightarrow> Inr (Serving hp mp)
        | ListCmd r \<Rightarrow> Inr (Listing r)
        | StatusCmd a \<Rightarrow> Inr (ShowingStatus a)
        | ValidateCmd p u h pr \<Rightarrow> Inr (Validating p u h pr)
        | ClassifyErrorCmd s code ex \<Rightarrow> Inr (Classifying s code ex)
        | DoctorCmd l \<Rightarrow> Inr (Diagnosing l)
        | RemediateChecksums a \<Rightarrow>
            (case (if ra_local a \<and> \<not> ra_no_verify a then consent (ra_yes a) else Inr ()) of
               Inl e \<Rightarrow> Inl e
             | Inr _ \<Rightarrow> Inr (RefreshingChecksums (ra_from_last_run a) (ra_only a) (ra_mode a)
                 (\<not> ra_no_verify a) (ra_local a)))
        | NotifyCmd last_run run digest \<Rightarrow>
            Inr (Notifying (if last_run then Some ''last'' else run) digest)
        | ConfigCmd cmd \<Rightarrow> Inr (Configuring cmd))"

section \<open>Selection\<close>

datatype request = NothingToRerun string | Requested "string list"

definition requested_installers :: "anyhow + history \<Rightarrow> check_options \<Rightarrow> afsc_error + request" where
  \<comment> \<open>the argument is what \<open>History::load\<close> returns\<close>
  "requested_installers loaded opts =
     (case op_failed_from opts of
        None \<Rightarrow> Inr (Requested (op_installers opts))
      | Some run_ref \<Rightarrow>
          (case loaded of
             Inl e \<Rightarrow> Inl (Other e)
           | Inr h \<Rightarrow>
               (case history_find run_ref h of
                  None \<Rightarrow> Inl (Usage (''no run matches '' @ debug_str run_ref @ '' (try: status --list)''))
                | Some run \<Rightarrow>
                    if failed_installers run = [] then Inr (NothingToRerun (run_id_of run))
                    else Inr (Requested (failed_installers run)))))"

definition enabled_entries :: "string list \<Rightarrow> checksums_file \<Rightarrow> (string \<times> installer_entry) list" where
  "enabled_entries requested cs =
     sort_key fst
       (filter (\<lambda>(name, entry). ie_enabled entry \<and> (requested = [] \<or> name \<in> set requested)) cs)"

fun validation_error_str :: "validation_error \<Rightarrow> string" where
  "validation_error_str (MissingUrl n) = ''Missing URL for installer: '' @ n"
| "validation_error_str (InvalidUrl n why) = ''Invalid URL for installer '' @ n @ '': '' @ why"
| "validation_error_str (MissingChecksum n) = ''Missing sha256 checksum for installer: '' @ n"
| "validation_error_str (HttpError u why) = ''HTTP error checking URL '' @ u @ '': '' @ why"

definition policy_errors :: "string list \<Rightarrow> checksums_file \<Rightarrow> bool \<Rightarrow> validation_error list" where
  "policy_errors requested cs allow_file_urls =
     filter (\<lambda>e. requested = [] \<or> (\<exists>n\<in>set requested. contains (validation_error_str e) n))
       (validate_url_policy cs allow_file_urls)"

definition policy_failure :: "validation_error list \<Rightarrow> afsc_error" where
  "policy_failure es =
     ConfigError (show_nat (length es) @ '' installer URL(s) violate the URL policy:'' @ nl # ''  '' @
       join (nl # ''  '') (map validation_error_str es))"

section \<open>Order\<close>

fun position :: "'a \<Rightarrow> 'a list \<Rightarrow> nat option" where
  "position x [] = None"
| "position x (y # ys) = (if x = y then Some 0 else map_option Suc (position x ys))"

definition usize_max :: usize where "usize_max = 2 ^ 64 - 1"

definition manifest_order :: "(string \<Rightarrow> string list option) \<Rightarrow> string option \<Rightarrow> string list" where
  \<comment> \<open>\<open>keys\<close>: the string keys of the mapping \<open>installers\<close> of a YAML text, in its order\<close>
  "manifest_order keys content = (case content of None \<Rightarrow> [] | Some t \<Rightarrow> unwrap_or (keys t) [])"

definition manifest_rank :: "string list \<Rightarrow> string \<Rightarrow> usize" where
  "manifest_rank manifest n = unwrap_or (position n manifest) usize_max"

definition duration_rank :: "history \<Rightarrow> string \<Rightarrow> u64" where
  \<comment> \<open>\<open>u64::MAX - d\<close>, an unknown duration is 0\<close>
  "duration_rank h n = (case median_duration_ms n h of Some d \<Rightarrow> - 1 - d | None \<Rightarrow> 0)"

definition order_specs ::
  "run_order \<Rightarrow> string list \<Rightarrow> history \<Rightarrow> installer_spec list \<Rightarrow> installer_spec list" where
  "order_specs order manifest h specs =
     (case order of
        NameOrder \<Rightarrow> sort_key sp_name specs
      | ManifestOrder \<Rightarrow> sort_key (\<lambda>s. (manifest_rank manifest (sp_name s), sp_name s)) specs
      | LongestFirst \<Rightarrow> sort_key (\<lambda>s. (duration_rank h (sp_name s), sp_name s)) specs)"

definition check_specs ::
  "config \<Rightarrow> check_options \<Rightarrow> string list \<Rightarrow> string list \<Rightarrow> history \<Rightarrow> checksums_file
    \<Rightarrow> installer_spec list" where
  "check_specs cfg opts requested manifest h cs =
     order_specs (ex_order (cf_execution cfg)) manifest h
       (map (\<lambda>(name, entry). resolve_spec name entry (map_of (cf_installers cfg) name)
               \<lparr>gd_timeout_seconds = op_timeout opts, gd_retries = op_retries opts\<rparr>)
         (enabled_entries requested cs))"

section \<open>Configuration of the run\<close>

definition runs_as_root :: "config \<Rightarrow> bool" where
  "runs_as_root cfg \<longleftrightarrow> dk_run_as_root (cf_docker cfg) \<or> \<not> dk_prepare (cf_docker cfg)"

definition check_header ::
  "(string \<Rightarrow> string option) \<Rightarrow> string \<Rightarrow> instant \<Rightarrow> string \<Rightarrow> settings \<Rightarrow> check_options \<Rightarrow> string list
    \<Rightarrow> checksums_file \<Rightarrow> string option \<Rightarrow> string option \<Rightarrow> run_header" where
  \<comment> \<open>the last two: the hash of the checksum file, the JSON of the environment\<close>
  "check_header env version now run_id st opts requested cs sha environment =
     (let cfg = st_config st; docker = \<not> op_local opts
      in \<lparr>rh_run_id = run_id, rh_started_at = now, rh_tool_version = version,
          rh_backend = (if docker then ''docker'' else ''local''),
          rh_image = (if docker then Some (dk_image (cf_docker cfg)) else None),
          rh_user = (if docker then Some (if runs_as_root cfg then ''root'' else ''afsc-user'') else None),
          rh_parallel = op_parallel opts, rh_timeout_seconds = op_timeout opts, rh_retries = op_retries opts,
          rh_fail_fast = op_fail_fast opts, rh_acfs_repo = gc_acfs_repo (cf_general cfg),
          rh_checksums_sha256 = sha, rh_config_source = st_config_path st,
          rh_data_dir = data_dir_path env (cf_general cfg), rh_installers_requested = requested,
          rh_installer_count = length (enabled_entries requested cs), rh_dry_run = op_dry_run opts,
          rh_allow_file_urls = gc_allow_file_urls (cf_general cfg), rh_image_id = None,
          rh_run_as_root = (docker \<and> runs_as_root cfg),
          rh_deadline_seconds = ex_run_deadline_seconds (cf_execution cfg),
          rh_environment = environment\<rparr>)"

fun volume_parts :: "string list \<Rightarrow> (string \<times> string) option" where
  \<comment> \<open>of \<open>splitn(3, ':')\<close>: host and container, the mode kept with the host\<close>
  "volume_parts (host # container # []) = Some (host, container)"
| "volume_parts (host # container # mode) = Some (host @ '':'' @ join '':'' mode, container)"
| "volume_parts _ = None"

definition volume_of :: "string \<Rightarrow> (string \<times> string) option" where
  "volume_of spec = volume_parts (split_on (CHR '':'') spec)"

definition network_mode_of :: "string \<Rightarrow> string option" where
  "network_mode_of n = (if trim n = [] \<or> n = ''bridge'' then None else Some n)"

definition build_runner_config ::
  "config \<Rightarrow> bool \<Rightarrow> u64 \<Rightarrow> u32 \<Rightarrow> bool \<Rightarrow> string \<Rightarrow> runner_config" where
  "build_runner_config cfg local tmo retries rebuild_base run_id =
     (let d = cf_docker cfg
      in default_runner_config
           \<lparr>rn_default_timeout := from_secs tmo, rn_dry_run := False,
            rn_backend :=
              (if local then Local
               else Docker
                 \<lparr>cc_image = dk_image d, cc_memory_limit = parse_memory_limit (dk_memory_limit d),
                  cc_cpu_quota = Some (dk_cpu_quota d), cc_timeout_seconds = tmo,
                  cc_volumes = List.map_filter volume_of (dk_volumes d), cc_environment = [],
                  cc_labels = [(''afsc.run_id'', run_id)],
                  cc_network_mode = network_mode_of (dk_network d),
                  cc_run_as_root = dk_run_as_root d, cc_prepare = dk_prepare d,
                  cc_build_timeout_seconds = dk_build_timeout_seconds d, cc_rebuild = rebuild_base\<rparr>
                 (parse_policy (dk_pull_policy d))),
            rn_retry := executor_default retries,
            rn_max_capture_bytes := unat (ex_max_capture_bytes (cf_execution cfg))\<rparr>)"

section \<open>The run\<close>

text \<open>
  What the sequential loop meets: the outcome of test \<open>i\<close>, and the run's token right after it and
  when test \<open>i\<close> is answered without running.
\<close>

record run_env =
  rv_run :: "nat \<Rightarrow> anyhow + test_result"
  rv_cancelled_after :: "nat \<Rightarrow> bool"
  rv_cancelled_at :: "nat \<Rightarrow> bool"
  rv_now :: "nat \<Rightarrow> instant"

definition unstarted_result :: "regex_crate \<Rightarrow> run_env \<Rightarrow> nat \<Rightarrow> installer_test \<Rightarrow> test_result" where
  "unstarted_result rx rv i t =
     (if rv_cancelled_at rv i
      then finalize_failure rx None
             (cancelled (rv_now rv i) (CANCELLED_MARKER @ '' before start'')
               (test_result_new (rv_now rv i) (it_name t)))
      else skipped (rv_now rv i) ''Skipped due to fail-fast'' (test_result_new (rv_now rv i) (it_name t)))"

fun unstarted_results ::
  "regex_crate \<Rightarrow> run_env \<Rightarrow> nat \<Rightarrow> installer_test list \<Rightarrow> test_result list" where
  "unstarted_results rx rv i [] = []"
| "unstarted_results rx rv i (t # ts) = unstarted_result rx rv i t # unstarted_results rx rv (Suc i) ts"

fun sequential_run ::
  "regex_crate \<Rightarrow> bool \<Rightarrow> run_env \<Rightarrow> nat \<Rightarrow> installer_test list \<Rightarrow> anyhow + test_result list" where
  "sequential_run rx fail_fast rv i [] = Inr []"
| "sequential_run rx fail_fast rv i (t # ts) =
     (case rv_run rv i of
        Inl e \<Rightarrow> Inl e
      | Inr r \<Rightarrow>
          if rv_cancelled_after rv i \<or> (fail_fast \<and> \<not> tr_success r)
          then Inr (r # unstarted_results rx rv (Suc i) ts)
          else (case sequential_run rx fail_fast rv (Suc i) ts of
                  Inl e \<Rightarrow> Inl e
                | Inr rs \<Rightarrow> Inr (r # rs)))"

definition skipped_results :: "instant \<Rightarrow> installer_spec list \<Rightarrow> test_result list" where
  "skipped_results now specs =
     List.map_filter
       (\<lambda>s. map_option (\<lambda>reason. skipped now (''skipped: '' @ reason) (test_result_new now (sp_name s)))
              (sp_skip_reason s)) specs"

definition runnable_tests :: "installer_spec list \<Rightarrow> installer_test list" where
  "runnable_tests specs = map to_test (filter (\<lambda>s. sp_skip_reason s = None \<and> sp_url s \<noteq> []) specs)"

text \<open>The results of the runnable tests: of the loop, or of any finished schedule of the pool.\<close>

inductive test_runs ::
  "regex_crate \<Rightarrow> check_options \<Rightarrow> run_env \<Rightarrow> pool_config \<Rightarrow> installer_test list
    \<Rightarrow> anyhow + test_result list \<Rightarrow> bool" for rx opts rv pc tests where
  sequential: "op_parallel opts \<le> 1 \<Longrightarrow>
     test_runs rx opts rv pc tests (sequential_run rx (op_fail_fast opts) rv 0 tests)"
| pooled: "op_parallel opts > 1 \<Longrightarrow> pl_tests pc = tests \<Longrightarrow> pl_max pc = op_parallel opts \<Longrightarrow>
     pl_fail_fast pc = op_fail_fast opts \<Longrightarrow> pl_rx pc = rx \<Longrightarrow>
     pool_reachable pc s \<Longrightarrow> run_all s = Some rs \<Longrightarrow> test_runs rx opts rv pc tests (Inr rs)"

inductive_cases test_runs_errorE: "test_runs rx opts rv pc tests (Inl e)"
inductive_cases test_runsE: "test_runs rx opts rv pc tests (Inr rs)"

definition all_results :: "instant \<Rightarrow> installer_spec list \<Rightarrow> test_result list \<Rightarrow> test_result list" where
  "all_results now specs rs = sort_key tr_installer_name (rs @ skipped_results now specs)"

section \<open>The verdict\<close>

definition is_failure :: "test_result \<Rightarrow> bool" where
  "is_failure r \<longleftrightarrow> tr_status r = Failed \<or> tr_status r = TimedOut \<or> tr_status r = Cancelled"

definition any_failed :: "bool \<Rightarrow> bool \<Rightarrow> test_result list \<Rightarrow> bool" where
  "any_failed deadline_exceeded signalled rs =
     (\<exists>r\<in>set rs. is_failure r \<and> \<not> (deadline_exceeded \<and> \<not> signalled \<and> tr_status r = Cancelled))"

record run_counts =
  rc_total :: usize
  rc_passed :: usize
  rc_failed :: usize
  rc_failed_only :: usize
  rc_timed_out :: usize
  rc_skipped :: usize
  rc_cancelled :: usize
  rc_duration_ms :: u64

definition summary_counts :: "test_result list \<Rightarrow> run_counts" where
  "summary_counts rs =
     \<lparr>rc_total = length rs, rc_passed = count tr_success rs, rc_failed = count is_failure rs,
      rc_failed_only = count (\<lambda>r. tr_status r = Failed) rs,
      rc_timed_out = count (\<lambda>r. tr_status r = TimedOut) rs,
      rc_skipped = count (\<lambda>r. tr_status r = Skipped) rs,
      rc_cancelled = count (\<lambda>r. tr_status r = Cancelled) rs,
      rc_duration_ms = sum_list (map tr_duration_ms rs)\<rparr>"

definition reported_exit_code :: "signal option \<Rightarrow> bool \<Rightarrow> int" where
  "reported_exit_code sig bad =
     (case sig of
        Some Interrupt \<Rightarrow> 130
      | Some Terminate \<Rightarrow> 143
      | None \<Rightarrow> if bad then 1 else 0)"

definition check_result :: "signal option \<Rightarrow> bool \<Rightarrow> test_result list \<Rightarrow> afsc_error + unit" where
  "check_result sig bad rs =
     (case sig of
        Some s \<Rightarrow> Inl (Interrupted s)
      | None \<Rightarrow>
          if bad then Inl (InstallerFailures (count is_failure rs) (length rs)) else Inr ())"

definition wants_remediation :: "check_options \<Rightarrow> bool \<Rightarrow> bool \<Rightarrow> bool" where
  "wants_remediation opts bad interrupted \<longleftrightarrow> op_remediate opts \<and> bad \<and> \<not> interrupted"

section \<open>The command\<close>

text \<open>
  What the command meets: the checksum file, the history, the names in manifest order, Docker's
  answers (preflight and image), the outcome of the tests, and the signal and deadline as it reads
  them after the run. Reaping, remediation, persisting and notifying cannot change the verdict.
\<close>

record check_world =
  cw_exists :: bool
  cw_checksums :: "anyhow + checksums_file"
  cw_history :: "anyhow + history"
  cw_manifest :: "string list"
  cw_preflight :: "afsc_error + unit"
  cw_image :: "afsc_error + unit"
  cw_tests :: "installer_test list \<Rightarrow> anyhow + test_result list"
  cw_now :: instant
  cw_deadline_hit :: bool
  cw_signal :: "signal option"

datatype check_outcome =
  NothingRerun string | Planned "installer_spec list" | Ran "test_result list"

definition after_docker :: "check_world \<Rightarrow> check_options \<Rightarrow> afsc_error + unit" where
  "after_docker w opts =
     (if op_local opts then Inr ()
      else case cw_preflight w of Inl e \<Rightarrow> Inl e | Inr _ \<Rightarrow> cw_image w)"

definition run_specs ::
  "check_world \<Rightarrow> check_options \<Rightarrow> installer_spec list \<Rightarrow> check_outcome option \<times> (afsc_error + unit)" where
  "run_specs w opts specs =
     (if op_dry_run opts then (Some (Planned specs), Inr ())
      else case after_docker w opts of
        Inl e \<Rightarrow> (None, Inl e)
      | Inr _ \<Rightarrow>
          (case cw_tests w (runnable_tests specs) of
             Inl e \<Rightarrow> (None, Inl (Other e))
           | Inr rs \<Rightarrow>
               let all = all_results (cw_now w) specs rs
               in (Some (Ran all),
                   check_result (cw_signal w)
                     (any_failed (cw_deadline_hit w) (cw_signal w \<noteq> None) all) all)))"

definition cmd_check ::
  "check_world \<Rightarrow> config \<Rightarrow> check_options \<Rightarrow> check_outcome option \<times> (afsc_error + unit)" where
  "cmd_check w cfg opts =
     (let path = path_join (gc_acfs_repo (cf_general cfg)) ''checksums.yaml''
      in if \<not> cw_exists w
         then (None, Inl (ConfigError (''checksums.yaml not found at '' @ debug_str path @
                '' (set [general].acfs_repo or --acfs-repo)'')))
         else case cw_checksums w of
           Inl e \<Rightarrow> (None, Inl (Other e))
         | Inr cs \<Rightarrow>
             (case requested_installers (cw_history w) opts of
                Inl e \<Rightarrow> (None, Inl e)
              | Inr (NothingToRerun rid) \<Rightarrow> (Some (NothingRerun rid), Inr ())
              | Inr (Requested req) \<Rightarrow>
                  let es = policy_errors req cs (gc_allow_file_urls (cf_general cfg))
                  in if es \<noteq> [] then (None, Inl (policy_failure es))
                     else run_specs w opts
                       (check_specs cfg opts req (cw_manifest w)
                         (case cw_history w of Inr h \<Rightarrow> h | Inl _ \<Rightarrow> []) cs)))"

section \<open>Names and order\<close>

lemma to_test_name: "it_name (to_test s) = sp_name s"
  by (simp add: to_test_fields)

lemma unstarted_names: "map tr_installer_name (unstarted_results rx rv i ts) = map it_name ts"
  by (induction ts arbitrary: i) (simp_all add: unstarted_result_def rec_simps)

context named_runs
begin

lemma sequential_names:
  assumes "\<And>i. runs i (rv_run rv i)" "sequential_run rx ff rv 0 tests = Inr rs"
  shows "map tr_installer_name rs = map it_name tests"
proof -
  have "map tr_installer_name rs = map it_name ts"
    if "sequential_run rx ff rv i ts = Inr rs" "ts = drop i tests" for i ts rs
    using that
  proof (induction ts arbitrary: i rs)
    case (Cons t ts)
    then have i: "i < length tests" "tests ! i = t" "ts = drop (Suc i) tests"
      by (metis Cons.prems(2) drop_eq_Nil2 linorder_not_less list.distinct(1))
        (metis Cons.prems(2) hd_drop_conv_nth drop_eq_Nil2 linorder_not_less list.distinct(1) list.sel(1),
         metis Cons.prems(2) drop_Suc list.sel(3) tl_drop)
    have "tr_installer_name r = it_name t" if "rv_run rv i = Inr r" for r
      using runs_named [of i r] assms(1) [of i] that i(2) by simp
    with Cons.prems(1) Cons.IH [of "Suc i"] i(3) show ?case
      by (auto simp: unstarted_names split: sum.splits if_splits)
  qed simp
  from this [OF assms(2)] show ?thesis by simp
qed

lemma test_run_names:
  assumes "test_runs rx opts rv pc tests (Inr rs)" "\<And>i. runs i (rv_run rv i)" "pl_run pc = runs"
  shows "mset (map tr_installer_name rs) \<subseteq># mset (map it_name tests)"
    and "op_parallel opts \<le> 1 \<Longrightarrow> mset (map tr_installer_name rs) = mset (map it_name tests)"
  using assms(1) sequential_names [OF assms(2)] pool_names [OF assms(3)]
  by (auto elim!: test_runsE simp del: mset_map simp: eq_commute [of "Inr rs"])

end

definition accounted :: "installer_spec \<Rightarrow> bool" where
  \<comment> \<open>skipped by an override, or with a URL to run\<close>
  "accounted s \<longleftrightarrow> sp_skip_reason s \<noteq> None \<or> sp_url s \<noteq> []"

lemma skipped_names:
  "map tr_installer_name (skipped_results now specs) =
     map sp_name (filter (\<lambda>s. sp_skip_reason s \<noteq> None) specs)"
  by (induction specs)
    (auto simp: skipped_results_def List.map_filter_simps rec_simps split: option.split)

lemma runnable_names:
  "map it_name (runnable_tests specs) =
     map sp_name (filter (\<lambda>s. sp_skip_reason s = None \<and> sp_url s \<noteq> []) specs)"
  by (simp add: runnable_tests_def to_test_name)

lemma accounted_names:
  "mset (map sp_name (filter (\<lambda>s. sp_skip_reason s = None \<and> sp_url s \<noteq> []) specs)) +
   mset (map sp_name (filter (\<lambda>s. sp_skip_reason s \<noteq> None) specs)) =
   mset (map sp_name (filter accounted specs))"
  by (induction specs) (auto simp: accounted_def)

lemma mset_order_specs: "mset (order_specs order manifest h specs) = mset specs"
  by (cases order) (simp_all add: order_specs_def)

lemma cmd_check_Ran:
  assumes "fst (cmd_check w cfg opts) = Some (Ran rs)"
  obtains req cs ts_rs where
    "cw_checksums w = Inr cs" "requested_installers (cw_history w) opts = Inr (Requested req)"
    "cw_tests w (runnable_tests (check_specs cfg opts req (cw_manifest w)
        (case cw_history w of Inr h \<Rightarrow> h | Inl _ \<Rightarrow> []) cs)) = Inr ts_rs"
    "rs = all_results (cw_now w) (check_specs cfg opts req (cw_manifest w)
        (case cw_history w of Inr h \<Rightarrow> h | Inl _ \<Rightarrow> []) cs) ts_rs"
    "snd (cmd_check w cfg opts) =
       check_result (cw_signal w) (any_failed (cw_deadline_hit w) (cw_signal w \<noteq> None) rs) rs"
  using assms
  by (auto simp: cmd_check_def run_specs_def Let_def split: if_splits sum.splits request.splits)

section \<open>Sample input\<close>

text \<open>One entry without a URL, one that an override skips.\<close>

definition sample_checksums :: checksums_file where
  "sample_checksums = [(''a'', sample_entry\<lparr>ie_url := None\<rparr>), (''b'', sample_entry)]"

definition sample_check_config :: config where
  "sample_check_config =
     default_config\<lparr>cf_installers := [(''b'', no_override\<lparr>ov_skip := Some True\<rparr>)],
       cf_execution := default_execution_config\<lparr>ex_order := NameOrder\<rparr>\<rparr>"

definition sample_options :: check_options where
  "sample_options =
     \<lparr>op_installers = [], op_parallel = 1, op_timeout = 300, op_dry_run = False, op_remediate = False,
      op_fail_fast = False, op_local = True, op_format = Human, op_quiet = False, op_retries = 3,
      op_rebuild_base = False, op_failed_from = None\<rparr>"

definition sample_run_env :: "installer_test list \<Rightarrow> run_env" where
  "sample_run_env ts =
     \<lparr>rv_run = (\<lambda>i. run_test_with_retry literal_rx exact_f64 sample_config (ts ! i)
        (sample_runs\<lparr>le_run := runner_attempts literal_rx id sample_config (ts ! i) (\<lambda>_. sample_attempt)\<rparr>)),
      rv_cancelled_after = (\<lambda>_. False), rv_cancelled_at = (\<lambda>_. False), rv_now = (\<lambda>_. 0)\<rparr>"

definition sample_check_world :: check_world where
  "sample_check_world =
     \<lparr>cw_exists = True, cw_checksums = Inr sample_checksums, cw_history = Inr [], cw_manifest = [],
      cw_preflight = Inr (), cw_image = Inr (),
      cw_tests = (\<lambda>ts. sequential_run literal_rx False (sample_run_env ts) 0 ts), cw_now = 0,
      cw_deadline_hit = False, cw_signal = None\<rparr>"

definition sample_skipped :: test_result where
  "sample_skipped = skipped 0 ''skipped: skipped by [installers] override'' (test_result_new 0 ''b'')"

lemma sample_check:
  "cmd_check sample_check_world sample_check_config sample_options = (Some (Ran [sample_skipped]), Inr ())"
proof -
  have "enabled_entries [] sample_checksums = sample_checksums"
    "policy_errors [] sample_checksums False = []"
    by code_simp+
  moreover have "\<not> is_failure sample_skipped" by (simp add: is_failure_def sample_skipped_def skipped_def)
  moreover have "skipped_results 0 [resolve_spec ''a'' (sample_entry\<lparr>ie_url := None\<rparr>) None gd,
      resolve_spec ''b'' sample_entry (Some (no_override\<lparr>ov_skip := Some True\<rparr>)) gd] = [sample_skipped]"
    "runnable_tests [resolve_spec ''a'' (sample_entry\<lparr>ie_url := None\<rparr>) None gd,
      resolve_spec ''b'' sample_entry (Some (no_override\<lparr>ov_skip := Some True\<rparr>)) gd] = []" for gd
    by (simp_all add: skipped_results_def runnable_tests_def List.map_filter_simps resolved_fields
        resolve_skip_def no_override_def sample_skipped_def)
  moreover have "sort_key sp_name [resolve_spec ''a'' e1 o1 gd, resolve_spec ''b'' e2 o2 gd] =
      [resolve_spec ''a'' e1 o1 gd, resolve_spec ''b'' e2 o2 gd]" for e1 e2 :: installer_entry and o1 o2 gd
    by (simp add: resolved_fields)
  ultimately show ?thesis
    by (simp add: cmd_check_def run_specs_def after_docker_def requested_installers_def check_specs_def
        order_specs_def sample_check_world_def sample_check_config_def sample_options_def Let_def
        default_general_config_def default_config_def all_results_def check_result_def any_failed_def)
      (simp add: sample_checksums_def all_results_def any_failed_def check_result_def Let_def)
qed

section \<open>Properties\<close>





text \<open>
  names that the checksum file does not have, or does not enable, are ignored. When none of the
  requested installers is an enabled entry and nothing outside fails, the run is empty, complete and
  successful: exit code 0, without a message.
\<close>

theorem unknown_installers_pass:
  assumes "cw_exists w" "cw_checksums w = Inr cs" "op_failed_from opts = None" "op_installers opts = req"
    and "req \<noteq> []" "\<forall>(n, e)\<in>set cs. ie_enabled e \<longrightarrow> n \<notin> set req"
    and "policy_errors req cs (gc_allow_file_urls (cf_general cfg)) = []"
    and "\<not> op_dry_run opts" "op_local opts" "cw_tests w [] = Inr []" "cw_signal w = None"
  shows "fst (cmd_check w cfg opts) = Some (Ran []) \<and> main_exit (snd (cmd_check w cfg opts)) = ([], 0)"
proof -
  have "filter (\<lambda>(n, e). ie_enabled e \<and> (req = [] \<or> n \<in> set req)) cs = []"
    using assms(5,6) by (auto simp: filter_empty_conv)
  then have "enabled_entries req cs = []" unfolding enabled_entries_def by (simp only: sort_key_simps)
  then have "check_specs cfg opts req m h cs = []" for m h
    by (simp add: check_specs_def order_specs_def split: run_order.split)
  with assms show ?thesis
    by (simp add: cmd_check_def Let_def requested_installers_def run_specs_def after_docker_def
        runnable_tests_def all_results_def skipped_results_def any_failed_def check_result_def
        main_exit_def List.map_filter_simps)
qed

theorem unknown_installers_pass_witness:
  "main_exit (snd (cmd_check sample_check_world sample_check_config
     (sample_options\<lparr>op_installers := [''nosuch'']\<rparr>))) = ([], 0)"
proof -
  have "policy_errors [''nosuch''] sample_checksums False = []" by code_simp
  moreover have "\<forall>(n, e)\<in>set sample_checksums. ie_enabled e \<longrightarrow> n \<notin> set [''nosuch'']"
    by (simp add: sample_checksums_def)
  ultimately show ?thesis
    using unknown_installers_pass [of sample_check_world sample_checksums
        "sample_options\<lparr>op_installers := [''nosuch'']\<rparr>" "[''nosuch'']" sample_check_config]
    by (simp add: sample_check_world_def sample_options_def sample_check_config_def default_config_def
        default_general_config_def)
qed

text \<open>
  an error of the runner itself (not of an installer) is treated differently by the two ways to
  run. With one worker it ends the command: no result of any test is kept or reported, and the exit
  code is 1 as for a failed installer. With more workers it never does: the pool turns it into a
  failed result.
\<close>

theorem runner_errors_end_a_sequential_run:
  assumes "rv_run rv 0 = Inl e" "runnable_tests specs = t # ts"
    and "test_runs rx opts rv pc (t # ts) (cw_tests w (t # ts))"
    and "\<not> op_dry_run opts" "op_local opts"
  shows "(fst (run_specs w opts specs) = None \<longleftrightarrow> op_parallel opts \<le> 1) \<and>
    (op_parallel opts \<le> 1 \<longrightarrow>
       snd (run_specs w opts specs) = Inl (Other e) \<and> snd (main_exit (snd (run_specs w opts specs))) = 1)"
  using assms(3)
proof (cases rule: test_runs.cases)
  case sequential
  with assms show ?thesis by (simp add: run_specs_def after_docker_def main_exit_def)
next
  case (pooled s rs)
  with assms show ?thesis by (simp add: run_specs_def after_docker_def Let_def)
qed

theorem runner_errors_end_a_sequential_run_witness:
  "snd (run_specs (sample_check_world\<lparr>cw_tests := (\<lambda>_. Inl [''no daemon''])\<rparr>) sample_options
     [resolve_spec ''uv'' sample_entry None \<lparr>gd_timeout_seconds = 300, gd_retries = 3\<rparr>]) =
   Inl (Other [''no daemon''])"
proof -
  let ?s = "resolve_spec ''uv'' sample_entry None \<lparr>gd_timeout_seconds = 300, gd_retries = 3\<rparr>"
  let ?rv = "(sample_run_env [])\<lparr>rv_run := (\<lambda>_. Inl [''no daemon''])\<rparr>"
  let ?w = "sample_check_world\<lparr>cw_tests := (\<lambda>_. Inl [''no daemon''])\<rparr>"
  have tests: "runnable_tests [?s] = [to_test ?s]"
    by (simp add: runnable_tests_def resolved_fields resolve_skip_def sample_entry_def)
  have "test_runs literal_rx sample_options ?rv sample_pool [to_test ?s] (cw_tests ?w [to_test ?s])"
    using test_runs.sequential [of sample_options literal_rx ?rv sample_pool "[to_test ?s]"]
    by (simp add: sample_options_def)
  from runner_errors_end_a_sequential_run [OF _ tests this] show ?thesis by (simp add: sample_options_def)
qed

text \<open>
  the order of a run. Every order keeps the selected installers; by name and by manifest they are
  sorted as the words say; and longest first, an installer whose duration is unknown comes before
  all known ones, and the known durations never increase.
\<close>

theorem installers_run_in_order:
  "mset (order_specs order manifest h specs) = mset specs \<and>
   sorted (map sp_name (order_specs NameOrder manifest h specs)) \<and>
   sorted (map (manifest_rank manifest \<circ> sp_name) (order_specs ManifestOrder manifest h specs)) \<and>
   sorted_wrt (\<lambda>s t. case (median_duration_ms (sp_name s) h, median_duration_ms (sp_name t) h) of
       (None, _) \<Rightarrow> True
     | (Some d, None) \<Rightarrow> d = - 1
     | (Some d, Some d') \<Rightarrow> d' \<le> d) (order_specs LongestFirst manifest h specs)"
proof (intro conjI)
  show "mset (order_specs order manifest h specs) = mset specs" by (rule mset_order_specs)
  show "sorted (map sp_name (order_specs NameOrder manifest h specs))" by (simp add: order_specs_def)
  have fsts: "sorted (map (fst \<circ> f) xs)" if "sorted (map f xs)" for f :: "'a \<Rightarrow> 'b::linorder \<times> 'c::linorder" and xs
    using that by (induction xs) (auto simp: less_eq_prod_def)
  have "sorted (map (fst \<circ> (\<lambda>s. (manifest_rank manifest (sp_name s), sp_name s)))
      (order_specs ManifestOrder manifest h specs))"
    by (rule fsts) (simp add: order_specs_def)
  then show "sorted (map (manifest_rank manifest \<circ> sp_name) (order_specs ManifestOrder manifest h specs))"
    by (simp add: comp_def)
  have "sorted (map (fst \<circ> (\<lambda>s. (duration_rank h (sp_name s), sp_name s)))
      (order_specs LongestFirst manifest h specs))"
    by (rule fsts) (simp add: order_specs_def)
  then have "sorted_wrt (\<lambda>s t. duration_rank h (sp_name s) \<le> duration_rank h (sp_name t))
      (order_specs LongestFirst manifest h specs)"
    by (simp add: comp_def sorted_map)
  then show "sorted_wrt (\<lambda>s t. case (median_duration_ms (sp_name s) h, median_duration_ms (sp_name t) h) of
       (None, _) \<Rightarrow> True
     | (Some d, None) \<Rightarrow> d = - 1
     | (Some d, Some d') \<Rightarrow> d' \<le> d) (order_specs LongestFirst manifest h specs)"
  proof (rule sorted_wrt_mono_rel [rotated])
    fix s t
    have known: "b \<le> a" if "- 1 - a \<le> - 1 - b" for a b :: u64
    proof -
      have "unat (- 1 - c) = unat (- 1 :: u64) - unat c" "unat c \<le> unat (- 1 :: u64)" for c :: u64
        using word_order.extremum [of c] by (simp_all add: unat_sub word_le_nat_alt)
      with that show ?thesis unfolding word_le_nat_alt by (metis diff_le_mono2 diff_diff_cancel)
    qed
    have unknown: "a = - 1" if "- 1 - a \<le> 0" for a :: u64
    proof -
      from that have "- 1 - a = 0" by (simp only: word_le_0_iff)
      then show ?thesis by (simp only: eq_iff_diff_eq_0 [symmetric])
    qed
    assume "duration_rank h (sp_name s) \<le> duration_rank h (sp_name t)"
    with known unknown show "case (median_duration_ms (sp_name s) h, median_duration_ms (sp_name t) h) of
       (None, _) \<Rightarrow> True
     | (Some d, None) \<Rightarrow> d = - 1
     | (Some d, Some d') \<Rightarrow> d' \<le> d"
      unfolding duration_rank_def
      by (cases "median_duration_ms (sp_name s) h"; cases "median_duration_ms (sp_name t) h")
        (simp_all only: option.case prod.case)
  qed
qed

section \<open>Volumes\<close>

lemma rsplit_once_last: "d \<notin> set b \<Longrightarrow> rsplit_once d (a @ d # b) = Some (a, b)"
proof -
  assume "d \<notin> set b"
  then have "takeWhile (\<lambda>c. c \<noteq> d) (rev b @ d # rev a) = rev b" by (subst takeWhile_append2) auto
  then show ?thesis by (simp add: rsplit_once_def)
qed

text \<open>
  a volume of the configuration reaches Docker as it is written, \<open>host:container\<close> with or without
  one of the modes \<open>ro\<close>, \<open>rw\<close>, \<open>z\<close> and \<open>Z\<close>. With any other mode (as the list \<open>ro,Z\<close>) the bind is
  wrong: the mode takes the place of the container path.
\<close>

theorem volumes_reach_docker:
  assumes "CHR '':'' \<notin> set host" "CHR '':'' \<notin> set container" "CHR '':'' \<notin> set mode"
  shows "map_option bind_of (volume_of (host @ '':'' @ container)) = Some (host @ '':'' @ container) \<and>
    map_option bind_of (volume_of (host @ '':'' @ container @ '':'' @ mode)) =
      Some (if mode \<in> {''ro'', ''rw'', ''z'', ''Z''} then host @ '':'' @ container @ '':'' @ mode
            else host @ '':'' @ mode @ '':'' @ container)"
proof -
  have "volume_of (host @ '':'' @ container) = Some (host, container)"
    using assms by (simp add: volume_of_def split_on_append split_on_id)
  moreover have "volume_of (host @ '':'' @ container @ '':'' @ mode) = Some (host @ '':'' @ mode, container)"
    using assms by (simp add: volume_of_def split_on_append split_on_id)
  moreover have "rsplit_once (CHR '':'') host = None" using assms(1) by (simp add: rsplit_once_def)
  moreover have "rsplit_once (CHR '':'') (host @ '':'' @ mode) = Some (host, mode)"
    using rsplit_once_last [OF assms(3)] by simp
  ultimately show ?thesis by (simp add: bind_of_def)
qed

theorem volumes_reach_docker_witness:
  "map_option bind_of (volume_of ''/srv/x:/x:ro,Z'') = Some ''/srv/x:ro,Z:/x'' \<and>
   map_option bind_of (volume_of ''/srv/x:/x:ro'') = Some ''/srv/x:/x:ro''"
  using volumes_reach_docker [of "''/srv/x''" "''/x''" "''ro,Z''"]
    volumes_reach_docker [of "''/srv/x''" "''/x''" "''ro''"] by simp

end
