(* ===== verification/Ledger.thy ===== *)
theory Ledger
  imports OrderedMap Lock "HOL-Library.Product_Lexorder"
begin

text \<open>
  The script ledger (\<^verbatim>\<open>src/checksums/ledger.rs\<close>): installer scripts stored under their SHA-256, with
  an index per installer that is pruned to five entries. An operation is the list of file
  operations it makes, from the files it finds; an I/O error stops it at a point where a crash
  could have stopped it too. SHA-256 and the JSON of the index (\<open>enc\<close>, \<open>dec\<close>) are parameters.
\<close>

section \<open>Index and paths\<close>

definition KEEP_PER_INSTALLER :: usize where
  "KEEP_PER_INSTALLER = 5"

record ledger_entry =
  le_sha256 :: string
  le_size :: u64
  le_first_seen :: instant
  le_last_seen :: instant
  le_last_verified_pass_run :: "string option"
  le_url :: "string option"

record ledger_index =
  li_installer :: string
  li_entries :: "(string, ledger_entry) btree"

definition ledger_root :: "string \<Rightarrow> string" where
  "ledger_root data_dir = data_dir @ ''/scripts''"

definition ledger_dir :: "string \<Rightarrow> string \<Rightarrow> string" where
  "ledger_dir base installer = base @ ''/'' @ installer"

definition index_path :: "string \<Rightarrow> string \<Rightarrow> string" where
  "index_path base installer = ledger_dir base installer @ ''/'' @ ''index.json''"

definition script_path :: "string \<Rightarrow> string \<Rightarrow> string \<Rightarrow> string" where
  "script_path base installer sha = ledger_dir base installer @ ''/'' @ sha @ ''.sh''"

definition load_index ::
  "(string \<Rightarrow> ledger_index option) \<Rightarrow> string \<Rightarrow> string \<Rightarrow> files \<Rightarrow> ledger_index" where
  "load_index dec base installer fs =
     unwrap_or (Option.bind (fs (index_path base installer)) dec)
       \<lparr>li_installer = installer, li_entries = []\<rparr>"

definition save_index ::
  "(ledger_index \<Rightarrow> string) \<Rightarrow> u32 \<Rightarrow> string \<Rightarrow> ledger_index \<Rightarrow> fs_op list" where
  "save_index enc pid base idx =
     write_atomic pid (ledger_dir base (li_installer idx)) ''index.json'' (enc idx)"

section \<open>Pruning\<close>

definition age_key :: "ledger_entry \<Rightarrow> bool \<times> instant" where
  "age_key e = (le_last_verified_pass_run e \<noteq> None, le_last_seen e)"

definition by_age :: "ledger_index \<Rightarrow> ledger_entry list" where
  "by_age idx = sort_key age_key (map snd (li_entries idx))"

definition doomed :: "ledger_index \<Rightarrow> string list" where
  "doomed idx =
     (if length (li_entries idx) \<le> KEEP_PER_INSTALLER then []
      else map le_sha256 (take (length (li_entries idx) - KEEP_PER_INSTALLER) (by_age idx)))"

definition prune_index :: "ledger_index \<Rightarrow> ledger_index" where
  "prune_index idx = idx\<lparr>li_entries := fold bt_remove (doomed idx) (li_entries idx)\<rparr>"

fun prune_files :: "string \<Rightarrow> string \<Rightarrow> string list \<Rightarrow> files \<Rightarrow> fs_op list" where
  "prune_files base installer [] fs = []"
| "prune_files base installer (sha # shas) fs =
     (let path = script_path base installer sha
      in if fs path = None then prune_files base installer shas fs
         else FsDelete path # prune_files base installer shas (fs(path := None)))"

section \<open>Operations\<close>

definition touch_entry ::
  "instant \<Rightarrow> string \<Rightarrow> string \<Rightarrow> string option \<Rightarrow> string option \<Rightarrow> ledger_entry option
    \<Rightarrow> ledger_entry" where
  "touch_entry now sha bytes url verified old =
     (let e = (case old of
                 Some e \<Rightarrow> e
               | None \<Rightarrow>
                   \<lparr>le_sha256 = sha, le_size = of_nat (length bytes), le_first_seen = now,
                    le_last_seen = now, le_last_verified_pass_run = None, le_url = url\<rparr>);
          e = e\<lparr>le_last_seen := now, le_size := of_nat (length bytes)\<rparr>;
          e = (if verified \<noteq> None then e\<lparr>le_last_verified_pass_run := verified\<rparr> else e)
      in if url \<noteq> None then e\<lparr>le_url := url\<rparr> else e)"

definition touch_index ::
  "instant \<Rightarrow> string \<Rightarrow> string \<Rightarrow> string option \<Rightarrow> string option \<Rightarrow> ledger_index \<Rightarrow> ledger_index" where
  "touch_index now sha bytes url verified idx =
     idx\<lparr>li_entries :=
       bt_insert sha (touch_entry now sha bytes url verified (map_of (li_entries idx) sha))
         (li_entries idx)\<rparr>"

definition record_script ::
  "(ledger_index \<Rightarrow> string) \<Rightarrow> (string \<Rightarrow> ledger_index option) \<Rightarrow> (string \<Rightarrow> string) \<Rightarrow> u32 \<Rightarrow> string
    \<Rightarrow> instant \<Rightarrow> string \<Rightarrow> string \<Rightarrow> string option \<Rightarrow> string option \<Rightarrow> files
    \<Rightarrow> fs_op list \<times> string" where
  "record_script enc dec sha256_hex pid base now installer bytes url verified fs =
     (let sha = sha256_hex bytes;
          store = (if fs (script_path base installer sha) = None
                   then write_atomic pid (ledger_dir base installer) (sha @ ''.sh'') bytes else []);
          fs' = fold fs_apply store fs;
          idx = touch_index now sha bytes url verified (load_index dec base installer fs');
          idx' = prune_index idx
      in (store @ prune_files base (li_installer idx) (doomed idx) fs' @
            save_index enc pid base idx', sha))"

definition mark_verified ::
  "(ledger_index \<Rightarrow> string) \<Rightarrow> (string \<Rightarrow> ledger_index option) \<Rightarrow> u32 \<Rightarrow> string \<Rightarrow> instant
    \<Rightarrow> string \<Rightarrow> string \<Rightarrow> string \<Rightarrow> files \<Rightarrow> fs_op list \<times> bool" where
  "mark_verified enc dec pid base now installer sha run_id fs =
     (let idx = load_index dec base installer fs
      in case map_of (li_entries idx) sha of
           None \<Rightarrow> ([], False)
         | Some e \<Rightarrow>
             (save_index enc pid base
                (idx\<lparr>li_entries := bt_insert sha
                   (e\<lparr>le_last_verified_pass_run := Some run_id, le_last_seen := now\<rparr>)
                   (li_entries idx)\<rparr>), True))"

text \<open>\<open>Iterator::max_by_key\<close>: the last of the greatest elements.\<close>

fun max_by_key :: "('a \<Rightarrow> 'k::linorder) \<Rightarrow> 'a list \<Rightarrow> 'a option" where
  "max_by_key f [] = None"
| "max_by_key f (x # xs) =
     (case max_by_key f xs of
        None \<Rightarrow> Some x
      | Some y \<Rightarrow> Some (if f x \<le> f y then y else x))"

definition ledger_get :: "string \<Rightarrow> files \<Rightarrow> string \<Rightarrow> string \<Rightarrow> string option" where
  "ledger_get base fs installer sha = fs (script_path base installer sha)"

definition latest_of ::
  "string \<Rightarrow> string \<Rightarrow> files \<Rightarrow> ledger_entry list \<Rightarrow> (ledger_entry \<times> string) option" where
  "latest_of base installer fs es =
     (case max_by_key le_last_seen es of
        None \<Rightarrow> None
      | Some e \<Rightarrow> map_option (\<lambda>b. (e, b)) (fs (script_path base installer (le_sha256 e))))"

definition latest_verified ::
  "(string \<Rightarrow> ledger_index option) \<Rightarrow> string \<Rightarrow> files \<Rightarrow> string \<Rightarrow> (ledger_entry \<times> string) option" where
  "latest_verified dec base fs installer =
     latest_of base installer fs
       (filter (\<lambda>e. le_last_verified_pass_run e \<noteq> None)
         (map snd (li_entries (load_index dec base installer fs))))"

definition latest ::
  "(string \<Rightarrow> ledger_index option) \<Rightarrow> string \<Rightarrow> files \<Rightarrow> string \<Rightarrow> (ledger_entry \<times> string) option" where
  "latest dec base fs installer =
     latest_of base installer fs (map snd (li_entries (load_index dec base installer fs)))"

section \<open>Pruning keeps the best\<close>

lemma max_by_key_None [simp]: "max_by_key f xs = None \<longleftrightarrow> xs = []"
  by (cases xs) (auto split: option.splits)

lemma max_by_key_Some:
  "max_by_key f xs = Some x \<Longrightarrow> x \<in> set xs \<and> (\<forall>y\<in>set xs. f y \<le> f x)"
  by (induction xs arbitrary: x) (auto split: option.splits if_splits)

lemma fold_bt_remove: "fold bt_remove ks m = filter (\<lambda>e. fst e \<notin> set ks) m"
  by (induction ks arbitrary: m) (auto simp: bt_remove_def intro: filter_cong)

definition keyed :: "ledger_index \<Rightarrow> bool" where
  \<comment> \<open>entries are filed under their own hash, each once\<close>
  "keyed idx \<longleftrightarrow> bt_ok (li_entries idx) \<and> (\<forall>(k, e)\<in>set (li_entries idx). le_sha256 e = k)"

lemma keyed_keys: "keyed idx \<Longrightarrow> distinct (map fst (li_entries idx))"
  by (simp add: keyed_def bt_ok_distinct)

lemma keyed_shas: "keyed idx \<Longrightarrow> map le_sha256 (map snd (li_entries idx)) = map fst (li_entries idx)"
  by (auto simp: keyed_def)

lemma keyed_distinct: "keyed idx \<Longrightarrow> distinct (map le_sha256 (by_age idx))"
proof -
  assume k: "keyed idx"
  have "distinct (map le_sha256 (map snd (li_entries idx)))"
    unfolding keyed_shas [OF k] by (rule keyed_keys [OF k])
  moreover have "distinct (map f (sort_key g xs)) = distinct (map f xs)"
    for f :: "ledger_entry \<Rightarrow> string" and g :: "ledger_entry \<Rightarrow> bool \<times> instant" and xs
    by (simp add: distinct_map)
  ultimately show ?thesis by (simp only: by_age_def)
qed

lemma set_by_age: "set (by_age idx) = snd ` set (li_entries idx)"
  by (simp add: by_age_def)

text \<open>
  Pruning: at most five entries stay, all of them old ones, and every dropped entry is at most as
  good as every kept one, verified before unverified and then newer before older.
\<close>

lemma prune_entries:
  assumes "keyed idx"
  shows "li_entries (prune_index idx) = filter (\<lambda>e. fst e \<notin> set (doomed idx)) (li_entries idx)"
    and "keyed (prune_index idx)"
    and "length (li_entries (prune_index idx)) = min KEEP_PER_INSTALLER (length (li_entries idx))"
proof -
  show entries: "li_entries (prune_index idx) =
      filter (\<lambda>e. fst e \<notin> set (doomed idx)) (li_entries idx)"
    by (simp add: prune_index_def fold_bt_remove)
  have "map fst (filter (\<lambda>e. fst e \<notin> S) m) = filter (\<lambda>a. a \<notin> S) (map fst m)"
    for S and m :: "(string, ledger_entry) btree"
    by (induction m) auto
  with assms show "keyed (prune_index idx)"
    by (auto simp: keyed_def entries bt_ok_def sorted_wrt_filter)
  show "length (li_entries (prune_index idx)) = min KEEP_PER_INSTALLER (length (li_entries idx))"
  proof (cases "length (li_entries idx) \<le> KEEP_PER_INSTALLER")
    case True
    then show ?thesis by (simp add: entries doomed_def)
  next
    case False
    let ?n = "length (li_entries idx) - KEEP_PER_INSTALLER"
    have "length (by_age idx) = length (li_entries idx)" by (simp add: by_age_def)
    then have "card (set (doomed idx)) = ?n"
      using False distinct_card [OF distinct_take [OF keyed_distinct [OF assms], of ?n]]
      by (simp add: doomed_def take_map)
    moreover have keys: "set (doomed idx) \<subseteq> set (map fst (li_entries idx))"
    proof -
      have "set (doomed idx) \<subseteq> le_sha256 ` set (by_age idx)"
        by (auto simp: doomed_def dest: in_set_takeD)
      also have "\<dots> = set (map fst (li_entries idx))"
        using keyed_shas [OF assms] by (metis list.set_map set_by_age image_image)
      finally show ?thesis .
    qed
    moreover have dist: "distinct (map fst (li_entries idx))"
      using keyed_keys [OF assms] .
    moreover have "length (filter (\<lambda>e. fst e \<notin> set (doomed idx)) (li_entries idx)) =
        card (set (map fst (li_entries idx)) - set (doomed idx))"
    proof -
      have len: "length (filter (\<lambda>e. fst e \<notin> S) m) = length (filter (\<lambda>a. a \<notin> S) (map fst m))"
        for S and m :: "(string, ledger_entry) btree"
        by (induction m) auto
      show ?thesis
        unfolding len distinct_length_filter [OF dist]
        by (intro arg_cong [where f = card]) auto
    qed
    ultimately show ?thesis
      using False distinct_card [OF dist] by (simp add: entries card_Diff_subset finite_subset)
  qed
qed

lemma prune_best:
  assumes "keyed idx" "(k, e) \<in> set (li_entries idx)" "k \<in> set (doomed idx)"
    and "(k', e') \<in> set (li_entries (prune_index idx))"
  shows "age_key e \<le> age_key e'"
proof -
  let ?n = "length (li_entries idx) - KEEP_PER_INSTALLER"
  have inj: "x = y" if "x \<in> set (by_age idx)" "y \<in> set (by_age idx)" "le_sha256 x = le_sha256 y" for x y
    using keyed_distinct [OF assms(1)] that by (simp add: distinct_map inj_on_def)
  have k: "le_sha256 e = k" "le_sha256 e' = k'" "e \<in> set (by_age idx)" "e' \<in> set (by_age idx)"
    using assms prune_entries(1) [OF assms(1)] by (force simp: keyed_def set_by_age)+
  have "e \<in> set (take ?n (by_age idx))"
    using assms(3) k inj by (auto simp: doomed_def split: if_splits dest: in_set_takeD)
  moreover have "e' \<notin> set (take ?n (by_age idx))"
    using assms(3,4) k prune_entries(1) [OF assms(1)] by (auto simp: doomed_def split: if_splits)
  then have "e' \<in> set (drop ?n (by_age idx))"
    using k(4) by (metis Un_iff append_take_drop_id set_append)
  moreover have "sorted (map age_key (take ?n (by_age idx) @ drop ?n (by_age idx)))"
    by (simp add: by_age_def)
  ultimately show ?thesis unfolding map_append sorted_append by auto
qed

section \<open>Files\<close>

lemma crash_full: "crash ops fs (fold fs_apply ops fs)"
  by (induction ops arbitrary: fs) (auto intro: crash.intros)

lemma crash_append:
  "crash (a @ b) fs fs' \<Longrightarrow> crash a fs fs' \<or> crash b (fold fs_apply a fs) fs'"
proof (induction a arbitrary: fs)
  case (Cons op a)
  then show ?case by (auto elim!: crash_ConsE intro: crash.intros)
qed simp

lemma script_path_inject [simp]: "script_path base inst k = script_path base inst k' \<longleftrightarrow> k = k'"
  by (simp add: script_path_def)

lemma script_path_eq:
  "ledger_dir base inst @ ''/'' @ k @ ''.sh'' = script_path base inst k"
  "ledger_dir base inst @ CHR ''/'' # k @ ''.sh'' = script_path base inst k"
  and index_path_eq:
  "ledger_dir base inst @ ''/'' @ ''index.json'' = index_path base inst"
  "ledger_dir base inst @ ''/index.json'' = index_path base inst"
  by (simp_all add: script_path_def index_path_def)

lemma path_ends [simp]:
  "last (script_path base inst k) = CHR ''h''" "last (index_path base inst) = CHR ''n''"
  "last (temp_path dir name pid) = CHR ''p''"
  by (simp_all add: script_path_def index_path_def temp_path_def)

lemma paths_differ [simp]:
  "script_path base inst k \<noteq> index_path base inst'"
  "index_path base inst' \<noteq> script_path base inst k"
  "script_path base inst k \<noteq> temp_path dir name pid"
  "index_path base inst \<noteq> temp_path dir name pid"
  by (auto dest: arg_cong [where f = last])

lemma prune_files_frame:
  "crash (prune_files base inst shas fs) fs fs' \<Longrightarrow>
     (q \<notin> script_path base inst ` set shas \<longrightarrow> fs' q = fs q) \<and> (fs' q = fs q \<or> fs' q = None)"
proof (induction base inst shas fs arbitrary: fs' rule: prune_files.induct)
  case (1 base inst fs)
  then show ?case by (auto elim: crash_NilE)
next
  case (2 base inst sha shas fs)
  show ?case
  proof (cases "fs (script_path base inst sha) = None")
    case True
    with 2 show ?thesis by (simp add: Let_def)
  next
    case False
    with "2.prems" consider "fs' = fs"
      | "crash (prune_files base inst shas (fs(script_path base inst sha := None)))
           (fs(script_path base inst sha := None)) fs'"
      by (auto simp: Let_def elim: crash_ConsE)
    then show ?thesis
    proof cases
      case 2
      with "2.IH"(2) [OF refl False 2] show ?thesis by (auto split: if_splits)
    qed simp
  qed
qed

section \<open>The invariant\<close>

definition addressed :: "(string \<Rightarrow> string) \<Rightarrow> string \<Rightarrow> string \<Rightarrow> files \<Rightarrow> bool" where
  "addressed sha256_hex base installer fs \<longleftrightarrow>
     (\<forall>k b. fs (script_path base installer k) = Some b \<longrightarrow> sha256_hex b = k)"

definition ledger_ok ::
  "(string \<Rightarrow> string) \<Rightarrow> (string \<Rightarrow> ledger_index option) \<Rightarrow> string \<Rightarrow> string \<Rightarrow> files \<Rightarrow> bool" where
  "ledger_ok sha256_hex dec base installer fs \<longleftrightarrow>
     (let idx = load_index dec base installer fs
      in li_installer idx = installer \<and> keyed idx \<and>
         length (li_entries idx) \<le> KEEP_PER_INSTALLER \<and> addressed sha256_hex base installer fs \<and>
         (\<forall>k\<in>fst ` set (li_entries idx). fs (script_path base installer k) \<noteq> None))"

lemma ledger_okD:
  assumes "ledger_ok sha dec base inst fs"
  shows "li_installer (load_index dec base inst fs) = inst" "keyed (load_index dec base inst fs)"
    "length (li_entries (load_index dec base inst fs)) \<le> KEEP_PER_INSTALLER"
    "addressed sha base inst fs"
    "k \<in> fst ` set (li_entries (load_index dec base inst fs)) \<Longrightarrow>
       fs (script_path base inst k) \<noteq> None"
  using assms unfolding ledger_ok_def Let_def by blast+

lemma touch_keyed:
  assumes "keyed idx"
  shows "keyed (touch_index now sha bytes url verified idx)"
    and "li_installer (touch_index now sha bytes url verified idx) = li_installer idx"
    and "fst ` set (li_entries (touch_index now sha bytes url verified idx)) =
           insert sha (fst ` set (li_entries idx))"
proof -
  let ?m = "li_entries idx"
  have ok: "bt_ok ?m" using assms by (simp add: keyed_def)
  have old: "le_sha256 e = sha" if "map_of ?m sha = Some e" for e
    using assms that by (auto simp: keyed_def dest: map_of_SomeD)
  have new: "le_sha256 (touch_entry now sha bytes url verified (map_of ?m sha)) = sha"
    using old by (auto simp: touch_entry_def Let_def split: option.split)
  have "\<forall>(k, e)\<in>set (bt_insert sha (touch_entry now sha bytes url verified (map_of ?m sha)) ?m).
      le_sha256 e = k"
  proof safe
    fix k e
    assume "(k, e) \<in> set (bt_insert sha (touch_entry now sha bytes url verified (map_of ?m sha)) ?m)"
    then have "map_of (bt_insert sha (touch_entry now sha bytes url verified (map_of ?m sha)) ?m) k = Some e"
      using bt_get_mem [OF bt_ok_insert [OF ok]] by blast
    then show "le_sha256 e = k"
      using assms new by (auto simp: map_of_bt_insert [OF ok] keyed_def bt_get_mem [OF ok]
          split: if_splits)
  qed
  with ok show "keyed (touch_index now sha bytes url verified idx)"
    by (simp add: keyed_def touch_index_def bt_ok_insert)
  show "li_installer (touch_index now sha bytes url verified idx) = li_installer idx"
    by (simp add: touch_index_def)
  show "fst ` set (li_entries (touch_index now sha bytes url verified idx)) =
      insert sha (fst ` set (li_entries idx))"
    by (simp add: touch_index_def bt_insert_keys)
qed

text \<open>
  What may be on disk while \<open>record\<close> runs: every script file is the old one, the recorded bytes, or
  a pruned one; the index is the old one, or the new one with the recorded script in place.
\<close>

definition record_store ::
  "(string \<Rightarrow> string) \<Rightarrow> u32 \<Rightarrow> string \<Rightarrow> string \<Rightarrow> string \<Rightarrow> files \<Rightarrow> fs_op list" where
  "record_store sha256_hex pid base installer bytes fs =
     (if fs (script_path base installer (sha256_hex bytes)) = None
      then write_atomic pid (ledger_dir base installer) (sha256_hex bytes @ ''.sh'') bytes else [])"

lemma record_store_frame:
  assumes "crash (record_store sha pid base inst bytes fs) fs fs'"
  shows "fs' (script_path base inst k) = fs (script_path base inst k) \<or>
         k = sha bytes \<and> fs' (script_path base inst k) = Some bytes"
    and "fs' (index_path base inst) = fs (index_path base inst)"
    and "fold fs_apply (record_store sha pid base inst bytes fs) fs
           (script_path base inst (sha bytes)) \<noteq> None"
proof -
  show "fs' (script_path base inst k) = fs (script_path base inst k) \<or>
         k = sha bytes \<and> fs' (script_path base inst k) = Some bytes"
  proof (cases "fs (script_path base inst (sha bytes)) = None")
    case True
    with assms have c: "crash (write_atomic pid (ledger_dir base inst) (sha bytes @ ''.sh'') bytes) fs fs'"
      by (simp add: record_store_def)
    show ?thesis
    proof (cases "k = sha bytes")
      case True
      with atomic.old_or_new [OF c] show ?thesis by (simp add: script_path_eq)
    next
      case False
      with atomic.others [OF c, of "script_path base inst k"] show ?thesis by (simp add: script_path_eq)
    qed
  qed (use assms in \<open>auto simp: record_store_def elim: crash_NilE\<close>)
  show "fs' (index_path base inst) = fs (index_path base inst)"
    using assms atomic.others [of pid "ledger_dir base inst" "sha bytes @ ''.sh''" bytes fs fs'
        "index_path base inst"]
    by (auto simp: record_store_def script_path_eq elim: crash_NilE split: if_splits)
  show "fold fs_apply (record_store sha pid base inst bytes fs) fs
           (script_path base inst (sha bytes)) \<noteq> None"
    using atomic.complete [of pid "ledger_dir base inst" "sha bytes @ ''.sh''" bytes fs]
    by (auto simp: record_store_def script_path_eq)
qed

lemma save_index_frame:
  assumes "crash (save_index enc pid base idx) fs fs'" "li_installer idx = inst"
  shows "fs' (script_path base inst k) = fs (script_path base inst k)"
    and "fs' (index_path base inst) = fs (index_path base inst) \<or>
         fs' (index_path base inst) = Some (enc idx)"
    and "fold fs_apply (save_index enc pid base idx) fs (index_path base inst) = Some (enc idx)"
proof -
  have c: "crash (write_atomic pid (ledger_dir base inst) ''index.json'' (enc idx)) fs fs'"
    using assms by (simp add: save_index_def)
  show "fs' (script_path base inst k) = fs (script_path base inst k)"
    using atomic.others [OF c, of "script_path base inst k"] by (simp add: index_path_eq)
  show "fs' (index_path base inst) = fs (index_path base inst) \<or>
         fs' (index_path base inst) = Some (enc idx)"
    using atomic.old_or_new [OF c] by (simp add: index_path_eq)
  show "fold fs_apply (save_index enc pid base idx) fs (index_path base inst) = Some (enc idx)"
    using atomic.complete [of pid "ledger_dir base inst" "''index.json''" "enc idx" fs] assms(2)
    by (simp add: save_index_def index_path_eq)
qed

definition recording ::
  "string \<Rightarrow> string \<Rightarrow> string \<Rightarrow> string \<Rightarrow> string list \<Rightarrow> string \<Rightarrow> files \<Rightarrow> files \<Rightarrow> bool" where
  "recording base inst sha bytes dead new fs fs' \<longleftrightarrow>
     (\<forall>k. fs' (script_path base inst k) = fs (script_path base inst k) \<or>
        (k = sha \<and> fs' (script_path base inst k) = Some bytes) \<or>
        (k \<in> set dead \<and> fs' (script_path base inst k) = None)) \<and>
     (fs' (index_path base inst) = fs (index_path base inst) \<or>
      (fs' (index_path base inst) = Some new \<and>
       (sha \<in> set dead \<or> fs' (script_path base inst sha) \<noteq> None)))"

definition touched ::
  "(string \<Rightarrow> ledger_index option) \<Rightarrow> (string \<Rightarrow> string) \<Rightarrow> string \<Rightarrow> instant \<Rightarrow> string \<Rightarrow> string
    \<Rightarrow> string option \<Rightarrow> string option \<Rightarrow> files \<Rightarrow> ledger_index" where
  \<comment> \<open>the index \<open>record\<close> prunes\<close>
  "touched dec sha256_hex base now inst bytes url verified fs =
     touch_index now (sha256_hex bytes) bytes url verified (load_index dec base inst fs)"

lemma record_script_ops:
  assumes "li_installer (load_index dec base inst fs) = inst"
  shows "record_script enc dec sha pid base now inst bytes url verified fs =
     (record_store sha pid base inst bytes fs @
        prune_files base inst (doomed (touched dec sha base now inst bytes url verified fs))
          (fold fs_apply (record_store sha pid base inst bytes fs) fs) @
        save_index enc pid base (prune_index (touched dec sha base now inst bytes url verified fs)),
      sha bytes)"
proof -
  have "load_index dec base inst (fold fs_apply (record_store sha pid base inst bytes fs) fs) =
      load_index dec base inst fs"
    using record_store_frame(2) [OF crash_full] by (simp add: load_index_def)
  then show ?thesis
    using assms by (simp add: record_script_def Let_def record_store_def touched_def touch_index_def)
qed

lemma record_script_crash:
  assumes inst: "li_installer (load_index dec base inst fs) = inst"
    and crash: "crash (fst (record_script enc dec sha pid base now inst bytes url verified fs)) fs fs'"
  defines "idx \<equiv> touched dec sha base now inst bytes url verified fs"
  shows "recording base inst (sha bytes) bytes (doomed idx) (enc (prune_index idx)) fs fs'"
proof -
  let ?store = "record_store sha pid base inst bytes fs"
  let ?fs1 = "fold fs_apply ?store fs"
  let ?prune = "prune_files base inst (doomed idx) ?fs1"
  let ?fs2 = "fold fs_apply ?prune ?fs1"
  have i: "li_installer (prune_index idx) = inst"
    using inst by (simp add: idx_def touched_def touch_index_def prune_index_def)
  note store = record_store_frame(1,2) [of sha pid base inst bytes fs]
  note present = record_store_frame(3) [OF crash_full, of sha pid base inst bytes fs]
  note store1 = store [OF crash_full]
  note prune = prune_files_frame [of base inst "doomed idx" ?fs1]
  have prune2: "?fs2 (script_path base inst k) = ?fs1 (script_path base inst k) \<or>
      k \<in> set (doomed idx) \<and> ?fs2 (script_path base inst k) = None" for k
    using prune [OF crash_full, of "script_path base inst k"] by auto
  have index2: "?fs2 (index_path base inst) = fs (index_path base inst)"
    using prune [OF crash_full, of "index_path base inst"] store1(2) by auto
  consider "crash ?store fs fs'" | "crash ?prune ?fs1 fs'"
    | "crash (save_index enc pid base (prune_index idx)) ?fs2 fs'"
    using crash unfolding record_script_ops [OF inst] idx_def [symmetric] fst_conv
    by (auto dest!: crash_append)
  then show ?thesis
  proof cases
    case 1
    with store show ?thesis unfolding recording_def by blast
  next
    case 2
    have "fs' (script_path base inst k) = ?fs1 (script_path base inst k) \<or>
        k \<in> set (doomed idx) \<and> fs' (script_path base inst k) = None" for k
      using prune [OF 2, of "script_path base inst k"] by auto
    moreover have "fs' (index_path base inst) = fs (index_path base inst)"
      using prune [OF 2, of "index_path base inst"] store1(2) by auto
    ultimately show ?thesis using store1(1) unfolding recording_def by metis
  next
    case 3
    note save = save_index_frame(1,2) [OF 3 i]
    have "sha bytes \<in> set (doomed idx) \<or> fs' (script_path base inst (sha bytes)) \<noteq> None"
      using save(1) prune2 present by metis
    with save store1 prune2 index2 show ?thesis unfolding recording_def by metis
  qed
qed

lemma touched_ok:
  fixes now :: instant and bytes :: string and url verified :: "string option"
  assumes "ledger_ok sha dec base inst fs"
  defines "idx \<equiv> touched dec sha base now inst bytes url verified fs"
  shows "keyed idx" "li_installer idx = inst"
    and "fst ` set (li_entries idx) =
           insert (sha bytes) (fst ` set (li_entries (load_index dec base inst fs)))"
    and "length (li_entries idx) \<le> Suc KEEP_PER_INSTALLER"
proof -
  let ?old = "load_index dec base inst fs"
  have old: "keyed ?old" "li_installer ?old = inst" "length (li_entries ?old) \<le> KEEP_PER_INSTALLER"
    using ledger_okD [OF assms(1)] by blast+
  show "keyed idx" "li_installer idx = inst"
    "fst ` set (li_entries idx) = insert (sha bytes) (fst ` set (li_entries ?old))"
    using touch_keyed [OF old(1)] old(2) by (simp_all add: idx_def touched_def)
  show "length (li_entries idx) \<le> Suc KEEP_PER_INSTALLER"
    using old by (simp add: idx_def touched_def touch_index_def keyed_def length_bt_insert)
qed

lemma recording_ok:
  fixes now :: instant and bytes :: string and url verified :: "string option"
  assumes ok: "ledger_ok sha dec base inst fs" and codec: "\<And>i. dec (enc i) = Some i"
  defines "idx \<equiv> touched dec sha base now inst bytes url verified fs"
  assumes rec: "recording base inst (sha bytes) bytes (doomed idx) (enc (prune_index idx)) fs fs'"
  shows "addressed sha base inst fs'"
    and "load_index dec base inst fs' \<in> {load_index dec base inst fs, prune_index idx}"
    and "k \<in> fst ` set (li_entries (load_index dec base inst fs')) \<Longrightarrow> k \<notin> set (doomed idx) \<Longrightarrow>
           fs' (script_path base inst k) \<noteq> None"
proof -
  let ?old = "load_index dec base inst fs"
  have old: "addressed sha base inst fs"
    "\<And>k. k \<in> fst ` set (li_entries ?old) \<Longrightarrow> fs (script_path base inst k) \<noteq> None"
    using ledger_okD [OF ok] by blast+
  have script: "fs' (script_path base inst k) = fs (script_path base inst k) \<or>
        (k = sha bytes \<and> fs' (script_path base inst k) = Some bytes) \<or>
        (k \<in> set (doomed idx) \<and> fs' (script_path base inst k) = None)" for k
    using rec by (simp add: recording_def)
  show "addressed sha base inst fs'"
    unfolding addressed_def
  proof (intro allI impI)
    fix k b
    assume "fs' (script_path base inst k) = Some b"
    with script [of k] old(1) show "sha b = k" by (auto simp: addressed_def)
  qed
  consider "fs' (index_path base inst) = fs (index_path base inst)"
    | "fs' (index_path base inst) = Some (enc (prune_index idx))"
      "sha bytes \<in> set (doomed idx) \<or> fs' (script_path base inst (sha bytes)) \<noteq> None"
    using rec by (auto simp: recording_def)
  note index = this
  have load: "load_index dec base inst fs' = ?old"
    if "fs' (index_path base inst) = fs (index_path base inst)"
    using that by (simp add: load_index_def)
  have load': "load_index dec base inst fs' = prune_index idx"
    if "fs' (index_path base inst) = Some (enc (prune_index idx))"
    using that codec by (simp add: load_index_def)
  show "load_index dec base inst fs' \<in> {?old, prune_index idx}"
    using index load load' by cases auto
  assume k: "k \<in> fst ` set (li_entries (load_index dec base inst fs'))" "k \<notin> set (doomed idx)"
  show "fs' (script_path base inst k) \<noteq> None"
    using index
  proof cases
    case 1
    with k(1) load have "fs (script_path base inst k) \<noteq> None" by (simp add: old(2))
    with script [of k] k(2) show ?thesis by auto
  next
    case 2
    from k(1) load' [OF 2(1)] have "k \<in> fst ` set (li_entries idx)"
      by (auto simp: prune_index_def fold_bt_remove)
    then consider "k = sha bytes" | "k \<in> fst ` set (li_entries ?old)"
      using touched_ok(3) [OF ok] by (auto simp: idx_def)
    then show ?thesis
    proof cases
      case 1
      with 2(2) k(2) show ?thesis by simp
    next
      case 2
      from old(2) [OF 2] script [of k] k(2) show ?thesis by auto
    qed
  qed
qed

lemma record_final:
  assumes ok: "ledger_ok sha dec base inst fs" and codec: "\<And>i. dec (enc i) = Some i"
    and run: "record_script enc dec sha pid base now inst bytes url verified fs = (ops, h)"
  shows "load_index dec base inst (fold fs_apply ops fs) =
      prune_index (touched dec sha base now inst bytes url verified fs)"
    and "ledger_ok sha dec base inst (fold fs_apply ops fs)" and "h = sha bytes"
proof -
  let ?idx = "touched dec sha base now inst bytes url verified fs"
  have inst: "li_installer (load_index dec base inst fs) = inst"
    using ok by (simp add: ledger_ok_def Let_def)
  note ops = record_script_ops [OF inst, of enc sha pid now bytes url verified, unfolded run]
  from ops show "h = sha bytes" by simp
  have i: "li_installer (prune_index ?idx) = inst"
    using touched_ok(2) [OF ok] by (simp add: prune_index_def)
  note t = touched_ok [OF ok, of now bytes url verified]
  show load: "load_index dec base inst (fold fs_apply ops fs) = prune_index ?idx"
    using ops save_index_frame(3) [OF crash_full i] codec by (simp add: load_index_def)
  have "crash (fst (record_script enc dec sha pid base now inst bytes url verified fs)) fs
      (fold fs_apply ops fs)"
    by (simp add: run crash_full)
  note rec = recording_ok [OF ok codec record_script_crash [OF inst this]]
  have "k \<notin> set (doomed ?idx)" if "k \<in> fst ` set (li_entries (prune_index ?idx))" for k
    using that by (auto simp: prune_index_def fold_bt_remove)
  with rec(1,3) load i prune_entries(2,3) [OF t(1)]
  show "ledger_ok sha dec base inst (fold fs_apply ops fs)"
    by (simp add: ledger_ok_def Let_def KEEP_PER_INSTALLER_def)
qed

lemma mark_verified_ok:
  assumes ok: "ledger_ok sha dec base inst fs" and codec: "\<And>i. dec (enc i) = Some i"
    and run: "mark_verified enc dec pid base now inst h run_id fs = (ops, found)"
  shows "ledger_ok sha dec base inst (fold fs_apply ops fs)"
proof (cases "map_of (li_entries (load_index dec base inst fs)) h")
  case None
  with run ok show ?thesis by (simp add: mark_verified_def)
next
  case (Some e)
  let ?old = "load_index dec base inst fs"
  let ?e = "e\<lparr>le_last_verified_pass_run := Some run_id, le_last_seen := now\<rparr>"
  let ?new = "?old\<lparr>li_entries := bt_insert h ?e (li_entries ?old)\<rparr>"
  have o: "keyed ?old" "li_installer ?old = inst" "length (li_entries ?old) \<le> KEEP_PER_INSTALLER"
    "addressed sha base inst fs"
    "\<And>k. k \<in> fst ` set (li_entries ?old) \<Longrightarrow> fs (script_path base inst k) \<noteq> None"
    using ledger_okD [OF ok] by blast+
  have bt: "bt_ok (li_entries ?old)" using o(1) by (simp add: keyed_def)
  have mem: "(h, e) \<in> set (li_entries ?old)" using Some bt_get_mem [OF bt] by blast
  then have h: "h \<in> fst ` set (li_entries ?old)" by (metis fst_conv image_eqI)
  have h': "le_sha256 e = h" using mem o(1) unfolding keyed_def by blast
  have ops: "ops = save_index enc pid base ?new"
    using run Some by (simp add: mark_verified_def Let_def)
  have load: "load_index dec base inst (fold fs_apply ops fs) = ?new"
    using save_index_frame(3) [OF crash_full, of ?new inst enc pid base fs] codec o(2)
    by (simp add: load_index_def ops)
  have files: "fold fs_apply ops fs (script_path base inst k) = fs (script_path base inst k)" for k
    using save_index_frame(1) [OF crash_full, of ?new inst enc pid base fs] o(2) by (simp add: ops)
  have keys: "fst ` set (li_entries ?new) = fst ` set (li_entries ?old)"
    using h by (simp add: bt_insert_keys insert_absorb)
  have "le_sha256 x = k" if "(k, x) \<in> set (li_entries ?new)" for k x
  proof -
    have "map_of (li_entries ?new) k = Some x"
      using that bt_get_mem [OF bt_ok_insert [OF bt]] by simp
    then show ?thesis
      using o(1) h' bt_get_mem [OF bt]
      by (auto simp: map_of_bt_insert [OF bt] keyed_def split: if_splits)
  qed
  then have "keyed ?new" using bt_ok_insert [OF bt] by (auto simp: keyed_def)
  moreover have "length (li_entries ?new) \<le> KEEP_PER_INSTALLER"
    using o(3) h by (simp add: length_bt_insert [OF bt])
  ultimately show ?thesis
    unfolding ledger_ok_def load Let_def addressed_def files keys
    using o(2,4,5) by (simp add: addressed_def)
qed

section \<open>Histories\<close>

inductive ledger_history ::
  "(ledger_index \<Rightarrow> string) \<Rightarrow> (string \<Rightarrow> ledger_index option) \<Rightarrow> (string \<Rightarrow> string) \<Rightarrow> string \<Rightarrow> string
    \<Rightarrow> files \<Rightarrow> bool" for enc dec sha base inst where
  fresh: "ledger_history enc dec sha base inst Map.empty"
| record_op: "ledger_history enc dec sha base inst fs \<Longrightarrow>
     record_script enc dec sha pid base now inst bytes url verified fs = (ops, h) \<Longrightarrow>
     ledger_history enc dec sha base inst (fold fs_apply ops fs)"
| mark_op: "ledger_history enc dec sha base inst fs \<Longrightarrow>
     mark_verified enc dec pid base now inst h' run_id fs = (ops, found) \<Longrightarrow>
     ledger_history enc dec sha base inst (fold fs_apply ops fs)"

lemma ledger_history_ok:
  assumes "ledger_history enc dec sha base inst fs" and "\<And>i. dec (enc i) = Some i"
  shows "ledger_ok sha dec base inst fs"
  using assms(1)
proof (induction rule: ledger_history.induct)
  case fresh
  show ?case
    by (simp add: ledger_ok_def load_index_def keyed_def addressed_def Let_def)
next
  case (record_op fs pid now bytes url verified ops h)
  show ?case by (rule record_final(2) [OF record_op.IH assms(2) record_op.hyps(2)])
next
  case (mark_op fs pid now h' run_id ops found)
  show ?case by (rule mark_verified_ok [OF mark_op.IH assms(2) mark_op.hyps(2)])
qed

section \<open>A codec\<close>

text \<open>A concrete pair of functions for the index file, for the examples.\<close>

fun pack :: "string list \<Rightarrow> string" where
  "pack [] = []"
| "pack (s # ss) = concat (map (\<lambda>c. [CHR ''.'', c]) s) @ CHR '';'' # pack ss"

fun unpack :: "string \<Rightarrow> string \<Rightarrow> string list" where
  "unpack acc (x # c # cs) =
     (if x = CHR '';'' then rev acc # unpack [] (c # cs) else unpack (c # acc) cs)"
| "unpack acc [x] = [rev acc]"
| "unpack acc [] = []"

lemma unpack_field:
  "unpack acc (concat (map (\<lambda>c. [CHR ''.'', c]) s) @ CHR '';'' # pack ss) =
     (rev acc @ s) # unpack [] (pack ss)"
proof (induction s arbitrary: acc)
  case Nil
  show ?case by (cases "pack ss") auto
next
  case (Cons c s)
  then show ?case by simp
qed

lemma unpack_pack: "unpack [] (pack ss) = ss"
  by (induction ss) (simp_all add: unpack_field)

definition pack_int :: "int \<Rightarrow> string" where
  "pack_int i = show_nat (if i < 0 then nat (- 2 * i - 1) else nat (2 * i))"

definition unpack_int :: "string \<Rightarrow> int" where
  "unpack_int s =
     (let n = unwrap_or (parse_nat s) 0 in if odd n then - int ((n + 1) div 2) else int (n div 2))"

lemma unpack_pack_int: "unpack_int (pack_int i) = i"
proof (cases "i < 0")
  case True
  then obtain k where "i = - int (Suc k)" by (metis neg_int_cases gr0_conv_Suc)
  then show ?thesis by (simp add: unpack_int_def pack_int_def parse_nat_show_nat nat_add_distrib nat_mult_distrib)
next
  case False
  then obtain k where "i = int k" by (metis nonneg_int_cases linorder_not_less)
  then show ?thesis by (simp add: unpack_int_def pack_int_def parse_nat_show_nat nat_mult_distrib)
qed

definition pack_option :: "string option \<Rightarrow> string" where
  "pack_option o' = (case o' of None \<Rightarrow> ''-'' | Some s \<Rightarrow> CHR ''+'' # s)"

definition unpack_option :: "string \<Rightarrow> string option" where
  "unpack_option s = (if s = ''-'' then None else Some (tl s))"

lemma unpack_pack_option: "unpack_option (pack_option o') = o'"
  by (auto simp: unpack_option_def pack_option_def split: option.splits)

definition pack_entry :: "string \<times> ledger_entry \<Rightarrow> string list" where
  "pack_entry ke =
     [fst ke, le_sha256 (snd ke), show_nat (unat (le_size (snd ke))), pack_int (le_first_seen (snd ke)),
      pack_int (le_last_seen (snd ke)), pack_option (le_last_verified_pass_run (snd ke)),
      pack_option (le_url (snd ke))]"

fun unpack_entries :: "string list \<Rightarrow> (string \<times> ledger_entry) list" where
  "unpack_entries (k # s # n # f # l # r # u # xs) =
     (k, \<lparr>le_sha256 = s, le_size = of_nat (unwrap_or (parse_nat n) 0), le_first_seen = unpack_int f,
          le_last_seen = unpack_int l, le_last_verified_pass_run = unpack_option r,
          le_url = unpack_option u\<rparr>) # unpack_entries xs"
| "unpack_entries _ = []"

lemma unpack_pack_entries: "unpack_entries (concat (map pack_entry es)) = es"
  by (induction es)
    (auto simp: pack_entry_def unpack_pack_int unpack_pack_option parse_nat_show_nat)

definition sample_enc :: "ledger_index \<Rightarrow> string" where
  "sample_enc i = pack (li_installer i # concat (map pack_entry (li_entries i)))"

definition sample_dec :: "string \<Rightarrow> ledger_index option" where
  "sample_dec s =
     (case unpack [] s of [] \<Rightarrow> None
      | i # es \<Rightarrow> Some \<lparr>li_installer = i, li_entries = unpack_entries es\<rparr>)"

lemma sample_codec: "sample_dec (sample_enc i) = Some i"
  by (simp add: sample_dec_def sample_enc_def unpack_pack unpack_pack_entries del: pack.simps)

section \<open>Retention\<close>

lemma touched_lookup:
  assumes "ledger_ok sha dec base inst fs"
  shows "map_of (li_entries (touched dec sha base now inst bytes url verified fs)) k =
     (if k = sha bytes
      then Some (touch_entry now (sha bytes) bytes url verified
        (map_of (li_entries (load_index dec base inst fs)) k))
      else map_of (li_entries (load_index dec base inst fs)) k)"
  using ledger_okD(2) [OF assms]
  by (simp add: touched_def touch_index_def keyed_def map_of_bt_insert)

lemma touch_entry_key:
  "age_key (touch_entry now sha bytes url verified old) =
     (verified \<noteq> None \<or> (\<exists>e. old = Some e \<and> le_last_verified_pass_run e \<noteq> None), now)"
  by (auto simp: age_key_def touch_entry_def Let_def split: option.splits)

text \<open>With one entry too many, the first by age goes: an entry with a strictly greater key stays.\<close>

lemma doomed_one:
  assumes "keyed idx" "length (li_entries idx) = Suc KEEP_PER_INSTALLER"
  obtains e where "doomed idx = [le_sha256 e]" "e \<in> snd ` set (li_entries idx)"
    "\<And>e'. e' \<in> snd ` set (li_entries idx) \<Longrightarrow> age_key e \<le> age_key e'"
proof -
  have "length (by_age idx) = Suc KEEP_PER_INSTALLER" using assms(2) by (simp add: by_age_def)
  then obtain e es where es: "by_age idx = e # es" by (cases "by_age idx") auto
  have "sorted (map age_key (by_age idx))" by (simp add: by_age_def)
  then have "age_key e \<le> age_key e'" if "e' \<in> set (by_age idx)" for e'
    using that by (auto simp: es)
  moreover have "doomed idx = [le_sha256 e]" using assms(2) by (simp add: doomed_def es)
  moreover have "e \<in> set (by_age idx)" by (simp add: es)
  ultimately show ?thesis using that set_by_age by metis
qed

lemma length_filter_all: "length (filter P xs) = length xs \<longleftrightarrow> (\<forall>x\<in>set xs. P x)"
proof
  show "\<forall>x\<in>set xs. P x" if "length (filter P xs) = length xs"
    using that length_filter_less [of _ xs P] by (metis less_irrefl)
qed simp

lemma recorded_retention:
  fixes now :: instant and bytes :: string and url verified :: "string option"
  assumes ok: "ledger_ok sha dec base inst fs"
    and newest: "\<And>k e. (k, e) \<in> set (li_entries (load_index dec base inst fs)) \<Longrightarrow> le_last_seen e < now"
  defines "idx \<equiv> touched dec sha base now inst bytes url verified fs"
    and "m \<equiv> li_entries (load_index dec base inst fs)"
  shows "sha bytes \<notin> set (doomed idx) \<longleftrightarrow>
     verified \<noteq> None \<or>
     (\<exists>e. map_of m (sha bytes) = Some e \<and> le_last_verified_pass_run e \<noteq> None) \<or>
     length (filter (\<lambda>(k, e). k \<noteq> sha bytes \<and> le_last_verified_pass_run e \<noteq> None) m) < KEEP_PER_INSTALLER"
    (is "_ \<longleftrightarrow> _ \<or> _ \<or> length ?vs < _")
proof -
  let ?h = "sha bytes"
  let ?e0 = "touch_entry now ?h bytes url verified (map_of m ?h)"
  let ?others = "filter (\<lambda>e. fst e \<noteq> ?h) m"
  note t = touched_ok [OF ok, of now bytes url verified, folded idx_def m_def]
  have bt: "bt_ok m" using ledger_okD(2) [OF ok] by (simp add: keyed_def m_def)
  have entries: "li_entries idx = bt_insert ?h ?e0 m"
    by (simp add: idx_def touched_def touch_index_def m_def)
  have len: "length (li_entries idx) = Suc (length ?others)"
    unfolding entries by (rule length_bt_insert_others [OF bt])
  have vs: "?vs = filter (\<lambda>e. le_last_verified_pass_run (snd e) \<noteq> None) ?others"
    by (simp add: filter_filter case_prod_unfold)
  show ?thesis
  proof (cases "length (li_entries idx) \<le> KEEP_PER_INSTALLER")
    case True
    have "length ?vs \<le> length ?others" unfolding vs by (rule length_filter_le)
    with True len show ?thesis by (simp add: doomed_def)
  next
    case False
    with t(4) have six: "length (li_entries idx) = Suc KEEP_PER_INSTALLER" by simp
    have "length m \<le> KEEP_PER_INSTALLER" using ledger_okD(3) [OF ok] by (simp add: m_def)
    moreover have "length (filter (\<lambda>e. fst e \<noteq> ?h) m) \<le> length m" by simp
    ultimately have five: "length m = KEEP_PER_INSTALLER" "length ?others = length m"
      using six len by linarith+
    then have keep: "fst x \<noteq> ?h" if "x \<in> set m" for x
      using that length_filter_less [of x m "\<lambda>e. fst e \<noteq> ?h"] by auto
    then have all: "?others = m" by simp
    have fresh: "map_of m ?h = None" using keep unfolding map_of_eq_None_iff by (metis imageE)
    then have key0: "age_key ?e0 = (verified \<noteq> None, now)" by (simp add: touch_entry_key)
    obtain e where e: "doomed idx = [le_sha256 e]" "e \<in> snd ` set (li_entries idx)"
      "\<And>e'. e' \<in> snd ` set (li_entries idx) \<Longrightarrow> age_key e \<le> age_key e'"
      using doomed_one [OF t(1) six] by metis
    have members: "snd ` set (li_entries idx) = insert ?e0 (snd ` set m)"
    proof -
      have "(k, x) \<in> set (li_entries idx) \<longleftrightarrow> map_of (li_entries idx) k = Some x" for k x
        unfolding entries by (rule bt_get_mem [OF bt_ok_insert [OF bt], symmetric])
      moreover have "map_of (li_entries idx) k = (if k = ?h then Some ?e0 else map_of m k)" for k
        unfolding entries by (rule map_of_bt_insert [OF bt])
      moreover have "map_of m k = Some x \<longleftrightarrow> (k, x) \<in> set m" for k x by (rule bt_get_mem [OF bt])
      ultimately have "(k, x) \<in> set (li_entries idx) \<longleftrightarrow> (k, x) = (?h, ?e0) \<or> (k, x) \<in> set m" for k x
        using fresh by (metis option.distinct(1) option.inject prod.inject)
      then have "set (li_entries idx) = insert (?h, ?e0) (set m)" by auto
      then show ?thesis by simp
    qed
    have older: "le_last_seen x < now" if "x \<in> snd ` set m" for x
      using newest that by (auto simp: m_def)
    have "(?h, ?e0) \<in> set (li_entries idx)"
      using bt_get_mem [OF bt_ok_insert [OF bt]] map_of_bt_insert [OF bt] unfolding entries by metis
    then have h0: "le_sha256 ?e0 = ?h" using t(1) by (auto simp: keyed_def)
    have others: "le_sha256 x \<noteq> ?h" if "x \<in> snd ` set m" for x
    proof -
      from that obtain k where k: "(k, x) \<in> set m" by auto
      then have "k \<noteq> ?h" using fresh by (metis map_of_eq_None_iff fst_conv image_eqI)
      moreover have "le_sha256 x = k"
        using k ledger_okD(2) [OF ok] by (auto simp: keyed_def m_def)
      ultimately show ?thesis by simp
    qed
    have dead: "?h \<in> set (doomed idx) \<longleftrightarrow> e = ?e0"
    proof -
      have "e = ?e0 \<or> e \<in> snd ` set m" using e(2) members by simp
      with others h0 have "le_sha256 e = ?h \<longleftrightarrow> e = ?e0" by metis
      with e(1) show ?thesis by auto
    qed
    have some: "snd ` set m \<noteq> {}" using five by (auto simp: KEEP_PER_INSTALLER_def)
    have all_verified: "length ?vs = KEEP_PER_INSTALLER \<longleftrightarrow>
        (\<forall>x\<in>snd ` set m. le_last_verified_pass_run x \<noteq> None)"
      unfolding vs all five(1) [symmetric] length_filter_all by simp
    have "e = ?e0 \<longleftrightarrow> verified = None \<and> length ?vs = KEEP_PER_INSTALLER"
    proof
      assume "e = ?e0"
      with e(3) members key0 have le: "(verified \<noteq> None, now) \<le> age_key x" if "x \<in> snd ` set m" for x
        using that by auto
      have v: "verified = None" "le_last_verified_pass_run x \<noteq> None" if "x \<in> snd ` set m" for x
        using le [OF that] older [OF that] by (auto simp: age_key_def less_eq_prod_def)
      from some obtain x where "x \<in> snd ` set m" by (meson ex_in_conv)
      then have "verified = None" by (rule v(1))
      moreover have "length ?vs = KEEP_PER_INSTALLER" unfolding all_verified using v(2) by (rule ballI)
      ultimately show "verified = None \<and> length ?vs = KEEP_PER_INSTALLER" by (rule conjI)
    next
      assume v: "verified = None \<and> length ?vs = KEEP_PER_INSTALLER"
      have "age_key e \<le> age_key ?e0" using e(3) members by simp
      with v key0 have "le_last_verified_pass_run e = None"
        by (auto simp: age_key_def less_eq_prod_def)
      with v all_verified e(2) members show "e = ?e0" by auto
    qed
    moreover have "length ?vs \<le> KEEP_PER_INSTALLER" unfolding vs all using five by (metis length_filter_le)
    ultimately show ?thesis using dead fresh by auto
  qed
qed

lemma latest_verified_sound:
  assumes ok: "ledger_ok sha dec base inst fs" and latest: "latest_verified dec base fs inst = Some (e, b)"
  shows "(le_sha256 e, e) \<in> set (li_entries (load_index dec base inst fs))" "sha b = le_sha256 e"
    "le_last_verified_pass_run e \<noteq> None"
    "\<forall>(k, e')\<in>set (li_entries (load_index dec base inst fs)).
       le_last_verified_pass_run e' \<noteq> None \<longrightarrow> le_last_seen e' \<le> le_last_seen e"
proof -
  let ?m = "li_entries (load_index dec base inst fs)"
  let ?vs = "filter (\<lambda>e. le_last_verified_pass_run e \<noteq> None) (map snd ?m)"
  have e: "max_by_key le_last_seen ?vs = Some e" "fs (script_path base inst (le_sha256 e)) = Some b"
    using latest by (auto simp: latest_verified_def latest_of_def split: option.splits)
  note max = max_by_key_Some [OF e(1)]
  from max obtain k where k: "(k, e) \<in> set ?m" "le_last_verified_pass_run e \<noteq> None" by auto
  with ledger_okD(2) [OF ok] show "(le_sha256 e, e) \<in> set ?m" by (auto simp: keyed_def)
  show "le_last_verified_pass_run e \<noteq> None" by (rule k(2))
  show "sha b = le_sha256 e" using ledger_okD(4) [OF ok] e(2) by (simp add: addressed_def)
  show "\<forall>(k, e')\<in>set ?m. le_last_verified_pass_run e' \<noteq> None \<longrightarrow> le_last_seen e' \<le> le_last_seen e"
    using max by force
qed

section \<open>Examples\<close>

definition sample_record :: "string option \<Rightarrow> fs_op list" where
  "sample_record verified =
     fst (record_script sample_enc sample_dec id 7 ''/d/scripts'' 5 ''uv'' ''echo'' None verified Map.empty)"

lemma sample_record:
  "record_script sample_enc sample_dec id 7 ''/d/scripts'' 5 ''uv'' ''echo'' None verified Map.empty =
     (sample_record verified, ''echo'')"
  by (simp add: sample_record_def record_script_def Let_def)

lemma sample_fresh: "ledger_ok id sample_dec ''/d/scripts'' ''uv'' Map.empty"
  by (rule ledger_history_ok [OF ledger_history.fresh sample_codec])

lemma sample_index:
  "load_index sample_dec ''/d/scripts'' ''uv'' (fold fs_apply (sample_record verified) Map.empty) =
     \<lparr>li_installer = ''uv'', li_entries =
        [(''echo'', touch_entry 5 ''echo'' ''echo'' None verified None)]\<rparr>"
  using record_final(1) [OF sample_fresh sample_codec sample_record]
  by (simp add: touched_def touch_index_def load_index_def prune_index_def doomed_def
      KEEP_PER_INSTALLER_def)

section \<open>Properties\<close>

text \<open>
  C23: the ledger after any sequence of recordings and verifications, for an index file that reads
  back as it was written. It holds at most five scripts; every entry is filed under its own hash
  and its file is there with contents of that hash; and the script served as the last known-good
  one is the most recently seen of those that a passing run has verified.
\<close>

theorem ledger_is_content_addressed:
  assumes "ledger_history enc dec sha base inst fs" "\<And>i. dec (enc i) = Some i"
  shows "length (li_entries (load_index dec base inst fs)) \<le> 5 \<and>
    (\<forall>(k, e)\<in>set (li_entries (load_index dec base inst fs)).
       le_sha256 e = k \<and> (\<exists>b. ledger_get base fs inst k = Some b \<and> sha b = k)) \<and>
    (latest_verified dec base fs inst = Some (e, b) \<longrightarrow>
       sha b = le_sha256 e \<and> le_last_verified_pass_run e \<noteq> None \<and>
       (\<forall>(k, e')\<in>set (li_entries (load_index dec base inst fs)).
          le_last_verified_pass_run e' \<noteq> None \<longrightarrow> le_last_seen e' \<le> le_last_seen e))"
proof -
  have ok: "ledger_ok sha dec base inst fs" by (rule ledger_history_ok [OF assms])
  have "le_sha256 x = k \<and> (\<exists>b. ledger_get base fs inst k = Some b \<and> sha b = k)"
    if "(k, x) \<in> set (li_entries (load_index dec base inst fs))" for k x
  proof -
    have "k \<in> fst ` set (li_entries (load_index dec base inst fs))" using that by force
    from ledger_okD(5) [OF ok this] ledger_okD(2,4) [OF ok] that show ?thesis
      by (auto simp: keyed_def addressed_def ledger_get_def)
  qed
  then show ?thesis
    using ledger_okD(3) [OF ok] latest_verified_sound(2-4) [OF ok]
    by (auto simp: KEEP_PER_INSTALLER_def)
qed

theorem ledger_is_content_addressed_witness:
  "\<exists>fs. ledger_history sample_enc sample_dec id ''/d/scripts'' ''uv'' fs \<and>
     length (li_entries (load_index sample_dec ''/d/scripts'' ''uv'' fs)) = 1 \<and>
     ledger_get ''/d/scripts'' fs ''uv'' ''echo'' = Some ''echo''"
proof -
  let ?fs = "fold fs_apply (sample_record (Some ''r1'')) Map.empty"
  have "ledger_history sample_enc sample_dec id ''/d/scripts'' ''uv'' ?fs"
    by (rule ledger_history.record_op [OF ledger_history.fresh sample_record])
  with ledger_is_content_addressed [OF this sample_codec] show ?thesis
    by (intro exI [of _ ?fs]) (simp add: sample_index)
qed

text \<open>
  what \<open>record\<close> keeps. A script seen later than all others in the index stays in the ledger
  exactly when it is verified (now or before), or fewer than five other entries are verified: with
  five verified ones the new script is dropped again by the very call that recorded it.
\<close>

theorem recorded_script_is_kept:
  assumes "ledger_ok sha dec base inst fs" "\<And>i. dec (enc i) = Some i"
    and "record_script enc dec sha pid base now inst bytes url verified fs = (ops, h)"
    and "\<And>k e. (k, e) \<in> set (li_entries (load_index dec base inst fs)) \<Longrightarrow> le_last_seen e < now"
  shows "h = sha bytes \<and>
    (map_of (li_entries (load_index dec base inst (fold fs_apply ops fs))) h \<noteq> None \<longleftrightarrow>
     verified \<noteq> None \<or>
     (\<exists>e. map_of (li_entries (load_index dec base inst fs)) h = Some e \<and>
        le_last_verified_pass_run e \<noteq> None) \<or>
     length (filter (\<lambda>(k, e). k \<noteq> h \<and> le_last_verified_pass_run e \<noteq> None)
        (li_entries (load_index dec base inst fs))) < 5)"
proof -
  let ?idx = "touched dec sha base now inst bytes url verified fs"
  note final = record_final [OF assms(1-3)]
  have "map_of (filter (\<lambda>e. fst e \<notin> S) m) k = (if k \<in> S then None else map_of m k)"
    for S k and m :: "(string, ledger_entry) btree"
    by (induction m) auto
  then have "map_of (li_entries (load_index dec base inst (fold fs_apply ops fs))) h \<noteq> None \<longleftrightarrow>
      h \<notin> set (doomed ?idx)"
    using touched_lookup [OF assms(1), of now bytes url verified h]
    unfolding final(1) prune_index_def fold_bt_remove by (simp add: final(3))
  then show ?thesis
    using recorded_retention [OF assms(1,4), where bytes = bytes and url = url and verified = verified]
      final(3)
    by (simp add: KEEP_PER_INSTALLER_def)
qed

theorem recorded_script_is_kept_witness:
  "map_of (li_entries (load_index sample_dec ''/d/scripts'' ''uv''
     (fold fs_apply (sample_record None) Map.empty))) ''echo'' \<noteq> None"
proof -
  have "load_index sample_dec ''/d/scripts'' ''uv'' Map.empty = \<lparr>li_installer = ''uv'', li_entries = []\<rparr>"
    by (simp add: load_index_def)
  then show ?thesis
    using recorded_script_is_kept [OF sample_fresh sample_codec sample_record, of None] by simp
qed

text \<open>
  C32: a crash while a script is recorded, at any point and in the middle of any write. The index that
  is read afterwards is the old or the new one, every script file still has contents of its own
  hash, and every script of that index is on disk but for the ones being pruned: those are deleted
  before the index that drops them is written.
\<close>

theorem record_survives_a_crash:
  assumes "ledger_ok sha dec base inst fs" "\<And>i. dec (enc i) = Some i"
    and "record_script enc dec sha pid base now inst bytes url verified fs = (ops, h)"
    and "crash ops fs fs'"
  shows "load_index dec base inst fs' \<in>
      {load_index dec base inst fs, load_index dec base inst (fold fs_apply ops fs)} \<and>
    (\<forall>k b. ledger_get base fs' inst k = Some b \<longrightarrow> sha b = k) \<and>
    (\<forall>(k, e)\<in>set (li_entries (load_index dec base inst fs')).
       ledger_get base fs' inst k \<noteq> None \<or>
       map_of (li_entries (load_index dec base inst (fold fs_apply ops fs))) k = None)"
proof -
  let ?idx = "touched dec sha base now inst bytes url verified fs"
  note inst = ledger_okD(1) [OF assms(1)]
  note final = record_final(1) [OF assms(1-3)]
  note rec = recording_ok [OF assms(1,2) record_script_crash [OF inst assms(4) [folded
    arg_cong [OF assms(3), of fst, simplified]]]]
  have gone: "map_of (li_entries (prune_index ?idx)) k = None" if "k \<in> set (doomed ?idx)" for k
    using that by (auto simp: prune_index_def fold_bt_remove map_of_eq_None_iff)
  have "ledger_get base fs' inst k \<noteq> None \<or> map_of (li_entries (prune_index ?idx)) k = None"
    if "(k, e) \<in> set (li_entries (load_index dec base inst fs'))" for k e
  proof (cases "k \<in> set (doomed ?idx)")
    case False
    from that have "k \<in> fst ` set (li_entries (load_index dec base inst fs'))" by force
    from rec(3) [OF this False] show ?thesis by (simp add: ledger_get_def)
  next
    case True
    from gone [OF True] show ?thesis by simp
  qed
  then have "\<forall>(k, e)\<in>set (li_entries (load_index dec base inst fs')).
      ledger_get base fs' inst k \<noteq> None \<or> map_of (li_entries (prune_index ?idx)) k = None"
    by (simp add: Ball_def split_paired_All del: not_None_eq)
  with rec(1,2) show ?thesis unfolding final addressed_def ledger_get_def by simp
qed

theorem record_survives_a_crash_witness:
  "\<exists>fs'. crash (sample_record None) Map.empty fs' \<and> fs' \<noteq> Map.empty \<and>
     ledger_get ''/d/scripts'' fs' ''uv'' ''echo'' = None \<and>
     li_entries (load_index sample_dec ''/d/scripts'' ''uv'' fs') = []"
proof -
  let ?t = "temp_path (ledger_dir ''/d/scripts'' ''uv'') ''echo.sh'' 7"
  let ?fs = "Map.empty(?t \<mapsto> take 2 ''echo'')"
  have "sample_record None = FsWrite ?t ''echo'' # tl (sample_record None)"
    by (simp add: sample_record_def record_script_def Let_def write_atomic_def)
  then have c: "crash (sample_record None) Map.empty ?fs" by (metis crash.torn)
  have "ledger_get ''/d/scripts'' ?fs ''uv'' ''echo'' = None"
    "li_entries (load_index sample_dec ''/d/scripts'' ''uv'' ?fs) = []"
    by (simp_all add: ledger_get_def load_index_def)
  with c record_survives_a_crash [OF sample_fresh sample_codec sample_record c]
  show ?thesis by (intro exI [of _ ?fs]) simp
qed

end
