(* ===== verification/Drift.thy ===== *)
theory Drift
  imports Regex Retry
begin

text \<open>
  Drift analysis of installer scripts (\<^verbatim>\<open>src/checksums/drift.rs\<close>): what changed between two script
  texts and how risky it is. Outside the repository and therefore arguments: the \<open>regex\<close> and
  \<open>similar\<close> crates, SHA-256, and the \<open>f64\<close> logarithm, whose precision Rust leaves open. The two
  expressions that are compiled with \<open>expect\<close> panic when they do not compile: \<open>None\<close>.
\<close>

section \<open>Types\<close>

datatype risk_score = Routine | Review | Suspicious

fun risk_score_str :: "risk_score \<Rightarrow> string" where
  "risk_score_str Routine = ''routine''"
| "risk_score_str Review = ''review''"
| "risk_score_str Suspicious = ''suspicious''"

record drift_report =
  dp_old_sha256 :: string
  dp_new_sha256 :: string
  dp_old_size :: usize
  dp_new_size :: usize
  dp_size_delta :: int
  dp_added_lines :: usize
  dp_removed_lines :: usize
  dp_version_only :: bool
  dp_features :: "string list"
  dp_score :: risk_score
  dp_unified_diff :: string
  dp_diff_truncated :: bool

definition PREVIEW_LINES :: usize where
  "PREVIEW_LINES = 200"

text \<open>The line diff of \<open>similar\<close>: the changes in order, and the rendered unified diff.\<close>

datatype change_tag = Insert | Delete | Equal

record diff_crate =
  df_changes :: "string \<Rightarrow> string \<Rightarrow> (change_tag \<times> string) list"
  df_unified :: "string \<Rightarrow> string \<Rightarrow> string"

section \<open>Features of a text\<close>

definition URL_PATTERN :: string where
  "URL_PATTERN = bs [''https?://([A-Za-z0-9.'', ''-]+)'']"

definition VERSION_PATTERN :: string where
  "VERSION_PATTERN =
     bs [''v?'', ''d+('', ''.'', ''d+){1,3}([-+][0-9A-Za-z.]+)?|'', ''b'', ''d{8}'', ''b|'',
       ''b[0-9a-f]{7,64}'', ''b'']"

definition btset :: "string list \<Rightarrow> string list" where
  \<comment> \<open>the elements of a \<open>BTreeSet\<close>, in order\<close>
  "btset xs = sort (remdups xs)"

definition host_of_match :: "rx_match \<Rightarrow> string" where
  "host_of_match m = (case m of (i, j, g # gs) \<Rightarrow> to_lower g | _ \<Rightarrow> [])"

definition hosts :: "regex \<Rightarrow> string \<Rightarrow> string list" where
  "hosts re_url text = btset (map host_of_match (re_url text))"

fun url_token :: "string \<Rightarrow> string" where
  "url_token [] = []"
| "url_token (c # cs) =
     (if ws_prefix (c # cs) \<noteq> 0 \<or> c \<in> {dquote, squote, CHR '')'', CHR 0x60} then []
      else c # url_token cs)"

definition urls :: "regex \<Rightarrow> string \<Rightarrow> string list" where
  "urls re_url text = btset (map (\<lambda>m. url_token (drop (fst m) text)) (re_url text))"

definition normalize_versions :: "regex \<Rightarrow> string \<Rightarrow> string" where
  "normalize_versions re_version line = replace_all re_version (\<lambda>_. ''<v>'') line"

text \<open>\<open>lg\<close> is \<open>f64::log2\<close>.\<close>

definition entropy_term :: "f64_ops \<Rightarrow> (rat \<Rightarrow> rat) \<Rightarrow> rat \<Rightarrow> nat \<Rightarrow> rat" where
  "entropy_term F lg n c = (let p = fl F (of_nat c / n) in fl F (- p * lg p))"

definition shannon_entropy :: "f64_ops \<Rightarrow> (rat \<Rightarrow> rat) \<Rightarrow> string \<Rightarrow> rat" where
  "shannon_entropy F lg s =
     (if s = [] then 0
      else foldl (\<lambda>acc c. fl F (acc + entropy_term F lg (fl F (of_nat (length s))) c)) 0
        (filter (\<lambda>c. c > 0) (map (\<lambda>b. count_list s (char_of b)) [0..<256])))"

definition is_comment_or_blank :: "string \<Rightarrow> bool" where
  "is_comment_or_blank line \<longleftrightarrow> trim line = [] \<or> prefix ''#'' (trim line)"

section \<open>Analysis\<close>

definition changed :: "change_tag \<Rightarrow> (change_tag \<times> string) list \<Rightarrow> string list" where
  "changed tag cs = map (\<lambda>(t, v). trim_end v) (filter (\<lambda>(t, v). t = tag) cs)"

definition code_lines :: "string list \<Rightarrow> string list" where
  "code_lines ls = filter (\<lambda>l. \<not> is_comment_or_blank l) ls"

definition is_version_only :: "regex \<Rightarrow> string list \<Rightarrow> string list \<Rightarrow> bool" where
  "is_version_only re_version added_code removed_code \<longleftrightarrow>
     added_code \<noteq> [] \<and> length added_code = length removed_code \<and>
     set (map (normalize_versions re_version) added_code) =
       set (map (normalize_versions re_version) removed_code) \<and>
     list_ex (\<lambda>(a, b). a \<noteq> b) (zip added_code removed_code)"

definition new_host_features :: "regex \<Rightarrow> string \<Rightarrow> string \<Rightarrow> string list" where
  "new_host_features re_url old new =
     map (\<lambda>h. ''new download host '' @ h)
       (filter (\<lambda>h. h \<notin> set (hosts re_url old)) (hosts re_url new))"

definition changed_urls :: "regex \<Rightarrow> string \<Rightarrow> string \<Rightarrow> string list" where
  "changed_urls re_url old new =
     filter (\<lambda>u. set (hosts re_url u) \<subseteq> set (hosts re_url old))
       (filter (\<lambda>u. u \<notin> set (urls re_url old)) (urls re_url new))"

definition CHECKS :: "(string \<times> string \<times> bool) list" where
  "CHECKS =
     [(bs [''(?m)^'', ''s*sudo'', ''b|'', ''bsudo'', ''s''], ''added sudo'', False),
      (bs [''rm'', ''s+-rf?'', ''s''], ''added rm -rf'', True),
      (bs [''chmod'', ''s+(-R'', ''s+)?777''], ''added chmod 777'', True),
      (bs [[], ''beval'', ''b''], ''added eval'', True),
      (bs [''base64'', ''s+(-d|--decode)''], ''added base64 decode'', True),
      (bs [[], ''bcurl'', ''b[^|'', ''n]*'', ''|'', ''s*(sudo'', ''s+)?(ba)?sh'', ''b|'', ''bwget'',
         ''b[^|'', ''n]*'', ''|'', ''s*(sudo'', ''s+)?(ba)?sh'', ''b''], ''added nested curl | sh'', True)]"

definition fired_checks :: "regex_crate \<Rightarrow> string \<Rightarrow> (string \<times> string \<times> bool) list" where
  "fired_checks rx added_text = filter (\<lambda>(pat, label, sus). rx_matches rx pat added_text) CHECKS"

definition opaque_token :: "f64_ops \<Rightarrow> (rat \<Rightarrow> rat) \<Rightarrow> string \<Rightarrow> bool" where
  "opaque_token F lg tok \<longleftrightarrow>
     (let punct = fl F (of_nat (length (filter (\<lambda>u. \<not> (length u = 1 \<and> is_ascii_alphanumeric (hd u)))
                       (chars tok))) / of_nat (max (length tok) 1))
      in length tok \<ge> 40 \<and> punct < fl F (1/10) \<and> shannon_entropy F lg tok > fl F (46/10))"

definition opaque_lines :: "f64_ops \<Rightarrow> (rat \<Rightarrow> rat) \<Rightarrow> string list \<Rightarrow> nat" where
  "opaque_lines F lg ls = length (filter (\<lambda>l. list_ex (opaque_token F lg) (split_whitespace l)) ls)"

definition analyze_with ::
  "regex_crate \<Rightarrow> regex \<Rightarrow> regex \<Rightarrow> f64_ops \<Rightarrow> (rat \<Rightarrow> rat) \<Rightarrow> diff_crate \<Rightarrow> (string \<Rightarrow> string)
    \<Rightarrow> string \<Rightarrow> string \<Rightarrow> drift_report" where
  "analyze_with rx re_url re_version F lg df sha256_hex old new =
     (let changes = df_changes df old new;
          added = changed Insert changes;
          removed = changed Delete changes;
          added_code = code_lines added;
          removed_code = code_lines removed;
          version_only = is_version_only re_version added_code removed_code;
          new_hosts = new_host_features re_url old new;
          new_urls = changed_urls re_url old new;
          fired = fired_checks rx (join [nl] added_code);
          opaque = opaque_lines F lg added_code;
          suspicious = (new_hosts \<noteq> [] \<or> list_ex (\<lambda>(pat, label, sus). sus) fired \<or> opaque > 0);
          size_delta = int (length new) - int (length old);
          score = (if suspicious then Suspicious
                   else if (added_code = [] \<and> removed_code = []) \<or> version_only then Routine
                   else Review);
          preview = lines (df_unified df old new)
      in \<lparr>dp_old_sha256 = sha256_hex old, dp_new_sha256 = sha256_hex new, dp_old_size = length old,
          dp_new_size = length new, dp_size_delta = size_delta, dp_added_lines = length added,
          dp_removed_lines = length removed, dp_version_only = version_only,
          dp_features = btset
            ((if version_only then [''version strings changed only''] else []) @
             new_hosts @
             (if new_urls \<noteq> [] \<and> \<not> version_only
              then [show_nat (length new_urls) @ '' download URL(s) changed on known hosts''] else []) @
             map (\<lambda>(pat, label, sus). label) fired @
             (if opaque > 0 then [show_nat opaque @ '' opaque high-entropy line(s) added''] else []) @
             (if nat \<bar>size_delta\<bar> > max (length old) 1 div 2
              then [''size changed by '' @ show_int size_delta @ '' bytes''] else []) @
             (if score = Review
              then [show_nat (length added_code) @ '' line(s) added, '' @
                    show_nat (length removed_code) @ '' removed''] else [])),
          dp_score = score, dp_unified_diff = join [nl] (take PREVIEW_LINES preview),
          dp_diff_truncated = (length preview > PREVIEW_LINES)\<rparr>)"

definition analyze ::
  "regex_crate \<Rightarrow> f64_ops \<Rightarrow> (rat \<Rightarrow> rat) \<Rightarrow> diff_crate \<Rightarrow> (string \<Rightarrow> string) \<Rightarrow> string \<Rightarrow> string
    \<Rightarrow> drift_report option" where
  "analyze rx F lg df sha256_hex old new =
     (case (rx URL_PATTERN, rx VERSION_PATTERN) of
        (Some re_url, Some re_version) \<Rightarrow>
          Some (analyze_with rx re_url re_version F lg df sha256_hex old new)
      | _ \<Rightarrow> None)"

definition show_signed :: "int \<Rightarrow> string" where
  "show_signed i = (if i < 0 then show_int i else ''+'' @ show_int i)"

definition drift_summary :: "drift_report \<Rightarrow> string" where
  "drift_summary r =
     risk_score_str (dp_score r) @ '' (+'' @ show_nat (dp_added_lines r) @ '' -'' @
     show_nat (dp_removed_lines r) @ '' lines, '' @ show_signed (dp_size_delta r) @ '' bytes)'' @
     (if dp_features r = [] then [] else '': '' @ join ''; '' (dp_features r))"

section \<open>Lemmas\<close>

lemma set_btset [simp]: "set (btset xs) = set xs"
  and sorted_btset: "sorted_wrt (<) (btset xs)"
  by (simp_all add: btset_def strict_sorted_iff)

lemma btset_Nil [simp]: "btset xs = [] \<longleftrightarrow> xs = []"
  using set_btset [of xs] by (metis set_empty)

text \<open>The added code and what alarms in it.\<close>

definition added_code :: "diff_crate \<Rightarrow> string \<Rightarrow> string \<Rightarrow> string list" where
  "added_code df old new = code_lines (changed Insert (df_changes df old new))"

definition removed_code :: "diff_crate \<Rightarrow> string \<Rightarrow> string \<Rightarrow> string list" where
  "removed_code df old new = code_lines (changed Delete (df_changes df old new))"

definition alarming ::
  "regex_crate \<Rightarrow> regex \<Rightarrow> f64_ops \<Rightarrow> (rat \<Rightarrow> rat) \<Rightarrow> diff_crate \<Rightarrow> string \<Rightarrow> string \<Rightarrow> bool" where
  "alarming rx re_url F lg df old new \<longleftrightarrow>
     (\<exists>h\<in>set (hosts re_url new). h \<notin> set (hosts re_url old)) \<or>
     (\<exists>(pat, label, sus)\<in>set CHECKS. sus \<and> rx_matches rx pat (join [nl] (added_code df old new))) \<or>
     (\<exists>l\<in>set (added_code df old new). \<exists>t\<in>set (split_whitespace l). opaque_token F lg t)"

lemma score_cases:
  "dp_score (analyze_with rx re_url re_version F lg df sha old new) =
     (if alarming rx re_url F lg df old new then Suspicious
      else if added_code df old new = [] \<and> removed_code df old new = [] \<or>
              is_version_only re_version (added_code df old new) (removed_code df old new)
      then Routine else Review)"
proof -
  have a: "new_host_features re_url old new \<noteq> [] \<longleftrightarrow>
      (\<exists>h\<in>set (hosts re_url new). h \<notin> set (hosts re_url old))"
    by (auto simp: new_host_features_def filter_empty_conv)
  have b: "list_ex (\<lambda>(pat, label, sus). sus) (fired_checks rx s) \<longleftrightarrow>
      (\<exists>(pat, label, sus)\<in>set CHECKS. sus \<and> rx_matches rx pat s)" for s
    by (auto simp: fired_checks_def list_ex_iff)
  have c: "opaque_lines F lg ls > 0 \<longleftrightarrow>
      (\<exists>l\<in>set ls. \<exists>t\<in>set (split_whitespace l). opaque_token F lg t)" for ls
    by (auto simp: opaque_lines_def filter_empty_conv list_ex_iff)
  show ?thesis
    unfolding analyze_with_def Let_def a b c alarming_def
    by (simp add: added_code_def removed_code_def)
qed

lemma zip_differs:
  "length xs = length ys \<Longrightarrow> list_ex (\<lambda>(a, b). a \<noteq> b) (zip xs ys) \<longleftrightarrow> xs \<noteq> ys"
  by (induction xs ys rule: list_induct2) auto

lemma suspicious_feature:
  assumes "alarming rx re_url F lg df old new"
  shows "dp_features (analyze_with rx re_url re_version F lg df sha old new) \<noteq> []"
proof -
  consider h where "h \<in> set (hosts re_url new)" "h \<notin> set (hosts re_url old)"
    | pat label sus where "(pat, label, sus) \<in> set CHECKS"
        "rx_matches rx pat (join [nl] (added_code df old new))"
    | "opaque_lines F lg (added_code df old new) > 0"
    using assms by (auto simp: alarming_def opaque_lines_def filter_empty_conv list_ex_iff)
  then show ?thesis
  proof cases
    case 1
    then have "new_host_features re_url old new \<noteq> []"
      by (auto simp: new_host_features_def filter_empty_conv)
    then show ?thesis by (simp add: analyze_with_def Let_def)
  next
    case 2
    then have "fired_checks rx (join [nl] (added_code df old new)) \<noteq> []"
      by (auto simp: fired_checks_def filter_empty_conv)
    then show ?thesis by (simp add: analyze_with_def Let_def added_code_def)
  next
    case 3
    then show ?thesis by (simp add: analyze_with_def Let_def added_code_def)
  qed
qed

lemma review_feature:
  "dp_score (analyze_with rx re_url re_version F lg df sha old new) = Review \<Longrightarrow>
   dp_features (analyze_with rx re_url re_version F lg df sha old new) \<noteq> []"
  by (simp add: analyze_with_def Let_def)

section \<open>Properties\<close>

text \<open>
  the risk score is exact and gives its reasons. A drift is suspicious exactly when a host
  appears that the old script never named, an added code line contains one of the five dangerous
  constructs, or an added code line has an opaque token; it is routine exactly when none of this
  holds and no code line changed or only versions did; and a score above routine always comes with
  a feature, in a list that is sorted and without repeats.
\<close>

theorem drift_score_is_exact:
  assumes "analyze rx F lg df sha old new = Some r"
  shows "\<exists>re_url re_version. rx URL_PATTERN = Some re_url \<and> rx VERSION_PATTERN = Some re_version \<and>
     (dp_score r = Suspicious \<longleftrightarrow> alarming rx re_url F lg df old new) \<and>
     (dp_score r = Routine \<longleftrightarrow> \<not> alarming rx re_url F lg df old new \<and>
        (added_code df old new = [] \<and> removed_code df old new = [] \<or>
         is_version_only re_version (added_code df old new) (removed_code df old new))) \<and>
     (dp_features r = [] \<longrightarrow> dp_score r = Routine) \<and> sorted_wrt (<) (dp_features r)"
proof -
  obtain re_url re_version where re: "rx URL_PATTERN = Some re_url"
    "rx VERSION_PATTERN = Some re_version"
    "r = analyze_with rx re_url re_version F lg df sha old new"
    using assms by (auto simp: analyze_def split: option.splits)
  have "dp_score r \<noteq> Suspicious \<and> dp_score r \<noteq> Review" if "dp_features r = []"
    using that suspicious_feature [of rx re_url F lg df old new re_version sha]
      review_feature [of rx re_url re_version F lg df sha old new]
      score_cases [of rx re_url re_version F lg df sha old new]
    by (auto simp: re(3) split: if_splits)
  moreover have "sorted_wrt (<) (dp_features r)"
    by (simp add: re(3) analyze_with_def Let_def sorted_btset)
  moreover have "x = Routine" if "x \<noteq> Suspicious \<and> x \<noteq> Review" for x
    using that by (cases x) auto
  ultimately show ?thesis
    using re score_cases [of rx re_url re_version F lg df sha old new]
    by (intro exI [of _ re_url] exI [of _ re_version]) auto
qed

text \<open>
  lines that only change their order pass for a version change. When the added code lines are the
  removed ones in another order, however often each occurs, and nothing alarms, the report says
  \<open>version strings changed only\<close> and the score is routine, although no version string changed.
\<close>

theorem reordered_lines_pass_as_routine:
  assumes "analyze rx F lg df sha old new = Some r"
    and "length (added_code df old new) = length (removed_code df old new)"
    and "set (added_code df old new) = set (removed_code df old new)"
    and "added_code df old new \<noteq> removed_code df old new"
    and "rx URL_PATTERN = Some re_url" "\<not> alarming rx re_url F lg df old new"
  shows "dp_score r = Routine \<and> ''version strings changed only'' \<in> set (dp_features r)"
proof -
  obtain re_version where r: "r = analyze_with rx re_url re_version F lg df sha old new"
    using assms(1,5) by (auto simp: analyze_def split: option.splits)
  have "is_version_only re_version (added_code df old new) (removed_code df old new)"
    using assms(2-4) by (auto simp: is_version_only_def zip_differs)
  then show ?thesis
    using assms(6) unfolding r score_cases
    by (simp add: analyze_with_def Let_def added_code_def removed_code_def)
qed

definition swap_diff :: diff_crate where
  \<comment> \<open>the changes when the lines \<open>a\<close>, \<open>b\<close> of the first script come back as \<open>b\<close>, \<open>a\<close> at its end\<close>
  "swap_diff =
     \<lparr>df_changes = (\<lambda>old new. if old = new then [(Equal, old)] else
        [(Delete, ''a'' @ [nl]), (Delete, ''b'' @ [nl]), (Equal, ''m'' @ [nl]),
         (Insert, ''b'' @ [nl]), (Insert, ''a'' @ [nl])]),
      df_unified = (\<lambda>old new. [])\<rparr>"

definition no_match_rx :: regex_crate where
  "no_match_rx p = Some (\<lambda>_. [])"

lemma swap_code:
  "added_code swap_diff ''1'' ''2'' = [''b'', ''a''] \<and> removed_code swap_diff ''1'' ''2'' = [''a'', ''b'']"
  by code_simp

lemma swap_not_alarming:
  "no_match_rx URL_PATTERN = Some (\<lambda>_. []) \<and>
   \<not> alarming no_match_rx (\<lambda>_. []) exact_f64 (\<lambda>_. 0) swap_diff ''1'' ''2''"
proof -
  have "split_whitespace ''a'' = [''a'']" "split_whitespace ''b'' = [''b'']" by code_simp+
  then show ?thesis
    by (simp add: alarming_def hosts_def rx_matches_def no_match_rx_def re_is_match_def swap_code
        opaque_token_def Let_def case_prod_unfold)
qed

theorem drift_score_is_exact_witness:
  "\<exists>r. analyze no_match_rx exact_f64 (\<lambda>_. 0) swap_diff id ''1'' ''1'' = Some r \<and>
     dp_score r \<noteq> Suspicious \<and> sorted_wrt (<) (dp_features r)"
proof -
  obtain r where r: "analyze no_match_rx exact_f64 (\<lambda>_. 0) swap_diff id ''1'' ''1'' = Some r"
    by (simp add: analyze_def no_match_rx_def)
  have "changed Insert (df_changes swap_diff ''1'' ''1'') = []" by (simp add: changed_def swap_diff_def)
  then have "\<not> alarming no_match_rx (\<lambda>_. []) exact_f64 (\<lambda>_. 0) swap_diff ''1'' ''1''"
    by (simp add: alarming_def hosts_def rx_matches_def no_match_rx_def re_is_match_def
        added_code_def code_lines_def case_prod_unfold)
  with drift_score_is_exact [OF r] r show ?thesis by (auto simp: no_match_rx_def)
qed

theorem reordered_lines_pass_as_routine_witness:
  "\<exists>r. analyze no_match_rx exact_f64 (\<lambda>_. 0) swap_diff id ''1'' ''2'' = Some r \<and>
     dp_score r = Routine \<and> ''version strings changed only'' \<in> set (dp_features r)"
proof -
  obtain r where r: "analyze no_match_rx exact_f64 (\<lambda>_. 0) swap_diff id ''1'' ''2'' = Some r"
    by (simp add: analyze_def no_match_rx_def)
  show ?thesis
    using reordered_lines_pass_as_routine [OF r, of "\<lambda>_. []"] swap_code swap_not_alarming r
    by auto
qed

end
