(* ===== verification/Refresh.thy ===== *)
theory Refresh
  imports Commands Check Ledger Drift
begin

text \<open>
  The deterministic refresh of checksum pins (\<^verbatim>\<open>src/remediation/checksums.rs\<close>, and
  \<open>refresh_checksums\<close> and \<open>cmd_remediate_checksums\<close> of \<^verbatim>\<open>src/main.rs\<close>): which pins have drifted, the
  rewritten checksum file, the verification of the new pins by the executor, and the branch that
  proposes them. The ledger's files are threaded through; downloads, SHA-256, \<open>similar\<close>, the clock
  and the processes are parameters. \<open>None\<close> is a panic.
\<close>

section \<open>Data\<close>

record verification =
  vf_status :: string
  vf_exit_code :: "i32 option"
  vf_duration_ms :: u64
  vf_installed_version :: "string option"
  vf_stderr_tail :: string
  vf_passed :: bool

record refresh_entry =
  rq_name :: string
  rq_url :: string
  rq_old_sha256 :: string
  rq_new_sha256 :: string
  rq_size :: usize
  rq_drift :: "drift_report option"
  rq_verification :: "verification option"

record refresh_plan =
  rp_checksums_path :: string
  rp_checked :: usize
  rp_entries :: "refresh_entry list"
  rp_skipped :: "(string \<times> string) list"

definition is_verified :: "refresh_entry \<Rightarrow> bool" where
  "is_verified e = (case rq_verification e of Some v \<Rightarrow> vf_passed v | None \<Rightarrow> False)"

definition verified :: "refresh_plan \<Rightarrow> refresh_entry list" where
  "verified plan = filter is_verified (rp_entries plan)"

definition unverified :: "refresh_plan \<Rightarrow> refresh_entry list" where
  "unverified plan = filter (\<lambda>e. \<not> is_verified e) (rp_entries plan)"

section \<open>The plan\<close>

text \<open>
  What planning meets: the regex crate, f64 rounding and logarithm of the drift report, \<open>similar\<close>,
  SHA-256, the codec and the process id of the ledger, the text of an HTTP status, and for every
  installer the answers of its download and the time of its recording.
\<close>

record refresh_world =
  rw_rx :: regex_crate
  rw_F :: f64_ops
  rw_lg :: "rat \<Rightarrow> rat"
  rw_diff :: diff_crate
  rw_sha :: "string \<Rightarrow> string"
  rw_enc :: "ledger_index \<Rightarrow> string"
  rw_dec :: "string \<Rightarrow> ledger_index option"
  rw_pid :: u32
  rw_status_text :: "nat \<Rightarrow> string"
  rw_fetch :: "string \<Rightarrow> fetch_answers"
  rw_now :: "string \<Rightarrow> instant"
  rw_run :: "nat \<Rightarrow> loop_env" \<comment> \<open>the executor, for every entry to be verified\<close>
  rw_verified_at :: "nat \<Rightarrow> instant"

definition fetch_bytes :: "(nat \<Rightarrow> string) \<Rightarrow> fetch_answers \<Rightarrow> string \<Rightarrow> anyhow + string" where
  "fetch_bytes status_text a url =
     (case strip_prefix url ''file://'' of
        Some path \<Rightarrow>
          (case fa_file a path of Inl e \<Rightarrow> Inl [''reading '' @ path, e] | Inr bytes \<Rightarrow> Inr bytes)
      | None \<Rightarrow>
          (case fa_get a url of
             Inl e \<Rightarrow> Inl [e]
           | Inr (st, body) \<Rightarrow>
               if \<not> (200 \<le> st \<and> st < 300) then Inl [''HTTP '' @ status_text st]
               else (case body of Inl e \<Rightarrow> Inl [e] | Inr bytes \<Rightarrow> Inr bytes)))"

definition add_skipped :: "string \<Rightarrow> string \<Rightarrow> refresh_plan \<Rightarrow> refresh_plan" where
  "add_skipped name reason plan = plan\<lparr>rp_skipped := rp_skipped plan @ [(name, reason)]\<rparr>"

definition record_seen ::
  "refresh_world \<Rightarrow> string \<Rightarrow> string \<Rightarrow> string \<Rightarrow> string \<Rightarrow> files \<Rightarrow> files" where
  \<comment> \<open>\<open>ledger.record(name, &bytes, Some(url), None)\<close>\<close>
  "record_seen w base name url bytes fs =
     fold fs_apply
       (fst (record_script (rw_enc w) (rw_dec w) (rw_sha w) (rw_pid w) base (rw_now w name) name bytes
               (Some url) None fs)) fs"

definition baseline_of :: "refresh_world \<Rightarrow> string \<Rightarrow> files \<Rightarrow> string \<Rightarrow> string \<Rightarrow> string option" where
  \<comment> \<open>the bytes of the baseline; its entry is not used\<close>
  "baseline_of w base fs name old =
     opt_or (map_option snd (latest_verified (rw_dec w) base fs name)) (ledger_get base fs name old)"

definition drift_against ::
  "refresh_world \<Rightarrow> string option \<Rightarrow> string \<Rightarrow> drift_report option option" where
  "drift_against w baseline bytes =
     (case baseline of
        None \<Rightarrow> Some None
      | Some old_bytes \<Rightarrow>
          map_option Some
            (analyze (rw_rx w) (rw_F w) (rw_lg w) (rw_diff w) (rw_sha w) (from_utf8_lossy old_bytes)
              (from_utf8_lossy bytes)))"

definition refresh_one ::
  "refresh_world \<Rightarrow> string \<Rightarrow> string list \<Rightarrow> string \<times> installer_entry \<Rightarrow> files \<times> refresh_plan
    \<Rightarrow> (files \<times> refresh_plan) option" where
  "refresh_one w base only ne st =
     (case (ne, st) of ((name, entry), (fs, plan)) \<Rightarrow>
        if only \<noteq> [] \<and> name \<notin> set only then Some (fs, plan)
        else if \<not> ie_enabled entry then Some (fs, add_skipped name ''disabled'' plan)
        else case ie_url entry of
          None \<Rightarrow> Some (fs, add_skipped name ''no url'' plan)
        | Some url \<Rightarrow>
            (case normalized_pin entry of
               None \<Rightarrow> Some (fs, add_skipped name ''no sha256 pinned'' plan)
             | Some old \<Rightarrow>
                 let plan = plan\<lparr>rp_checked := rp_checked plan + 1\<rparr>
                 in case fetch_bytes (rw_status_text w) (rw_fetch w name) url of
                      Inl e \<Rightarrow> Some (fs, add_skipped name (''download failed: '' @ err_chain e) plan)
                    | Inr bytes \<Rightarrow>
                        let new = rw_sha w bytes; fs' = record_seen w base name url bytes fs
                        in if new = old then Some (fs', plan)
                           else map_option
                             (\<lambda>drift. (fs', plan\<lparr>rp_entries := rp_entries plan @
                                [\<lparr>rq_name = name, rq_url = url, rq_old_sha256 = old, rq_new_sha256 = new,
                                  rq_size = length bytes, rq_drift = drift,
                                  rq_verification = None\<rparr>]\<rparr>))
                             (drift_against w (baseline_of w base fs name old) bytes)))"

fun refresh_all ::
  "refresh_world \<Rightarrow> string \<Rightarrow> string list \<Rightarrow> (string \<times> installer_entry) list \<Rightarrow> files \<times> refresh_plan
    \<Rightarrow> (files \<times> refresh_plan) option" where
  "refresh_all w base only [] st = Some st"
| "refresh_all w base only (ne # nes) st =
     Option.bind (refresh_one w base only ne st) (refresh_all w base only nes)"

definition plan_refresh ::
  "refresh_world \<Rightarrow> string \<Rightarrow> checksums_file \<Rightarrow> string list \<Rightarrow> string \<Rightarrow> files
    \<Rightarrow> (files \<times> refresh_plan) option" where
  "plan_refresh w path cs only base fs =
     refresh_all w base only (sort_key fst cs)
       (fs, \<lparr>rp_checksums_path = path, rp_checked = 0, rp_entries = [], rp_skipped = []\<rparr>)"

section \<open>The candidate\<close>

abbreviation generated_header :: string where
  "generated_header \<equiv> ''# checksums.yaml - Auto-generated''"

definition included :: "bool \<Rightarrow> refresh_plan \<Rightarrow> refresh_entry list" where
  "included verified_only plan = filter (\<lambda>e. \<not> verified_only \<or> is_verified e) (rp_entries plan)"

definition updates_of :: "bool \<Rightarrow> refresh_plan \<Rightarrow> (string, string) btree" where
  "updates_of verified_only plan =
     bt_extend (map (\<lambda>e. (rq_name e, rq_new_sha256 e)) (included verified_only plan)) []"

function trim_end_colons :: "string \<Rightarrow> string" where
  \<comment> \<open>\<open>trim_end_matches(':')\<close>\<close>
  "trim_end_colons s = (if s \<noteq> [] \<and> last s = CHR '':'' then trim_end_colons (butlast s) else s)"
  by pat_completeness auto
termination
  by (relation "measure length") auto

declare trim_end_colons.simps [simp del]

definition key_of_line :: "string \<Rightarrow> string option" where
  \<comment> \<open>key lines look like \<open>name:\<close> after two blanks, without a value\<close>
  "key_of_line line =
     (case strip_prefix line ''  '' of
        None \<Rightarrow> None
      | Some rest \<Rightarrow>
          if \<not> prefix '' '' rest \<and> suffix '':'' rest \<and> CHR '' '' \<notin> set rest
          then Some (trim_end_colons rest) else None)"

definition rewritten :: "string \<Rightarrow> nat \<Rightarrow> string \<Rightarrow> string" where
  \<comment> \<open>the line with the pin \<open>new\<close>, \<open>sha256:\<close> having been found at \<open>idx\<close>\<close>
  "rewritten line idx new =
     (let indent = take (length line - length (trim_start line)) line;
          quoted = prefix [dquote] (trim (drop (idx + length ''sha256:'') (trim_end line)))
      in indent @ ''sha256: '' @ (if quoted then dquote # new @ [dquote] else new))"

definition render_line :: "(string, string) btree \<Rightarrow> string option \<Rightarrow> string \<Rightarrow> string" where
  "render_line updates current line =
     (case (current, str_find (trim_end line) ''sha256:'') of
        (Some name, Some idx) \<Rightarrow>
          (case map_of updates name of Some new \<Rightarrow> rewritten line idx new | None \<Rightarrow> line)
      | _ \<Rightarrow> line)"

fun render_lines :: "(string, string) btree \<Rightarrow> string option \<Rightarrow> string list \<Rightarrow> string list" where
  "render_lines updates current [] = []"
| "render_lines updates current (line # ls) =
     (let current = opt_or (key_of_line line) current
      in render_line updates current line # render_lines updates current ls)"

definition render_header :: "string \<Rightarrow> (string, string) btree \<Rightarrow> string list \<Rightarrow> string list" where
  \<comment> \<open>\<open>stamp\<close> is the formatted time\<close>
  "render_header stamp updates ls =
     (case ls of
        l # rest \<Rightarrow>
          if prefix generated_header l
          then (generated_header @ '' '' @ stamp) # render_lines updates None rest
          else render_lines updates None ls
      | [] \<Rightarrow> [])"

definition unlines :: "string list \<Rightarrow> string" where
  "unlines ls = concat (map (\<lambda>l. l @ [nl]) ls)"

definition render_candidate :: "string \<Rightarrow> string \<Rightarrow> refresh_plan \<Rightarrow> bool \<Rightarrow> string" where
  "render_candidate stamp original plan verified_only =
     unlines (render_header stamp (updates_of verified_only plan) (lines original))"

section \<open>Verification\<close>

definition verify_test :: "refresh_entry \<Rightarrow> installer_spec \<Rightarrow> installer_test" where
  "verify_test e spec = (with_sha256 (rq_new_sha256 e) (to_test spec))\<lparr>it_name := rq_name e\<rparr>"

definition verification_of :: "anyhow + test_result \<Rightarrow> verification" where
  "verification_of res =
     (case res of
        Inr r \<Rightarrow>
          \<lparr>vf_status = test_status_str (tr_status r), vf_exit_code = tr_exit_code r,
           vf_duration_ms = tr_duration_ms r, vf_installed_version = tr_installed_version r,
           vf_stderr_tail = tail (tr_stderr r) 2048, vf_passed = (tr_status r = Passed)\<rparr>
      | Inl e \<Rightarrow>
          \<lparr>vf_status = ''error'', vf_exit_code = None, vf_duration_ms = 0, vf_installed_version = None,
           vf_stderr_tail = err_chain e, vf_passed = False\<rparr>)"

definition verify_entry ::
  "regex_crate \<Rightarrow> f64_ops \<Rightarrow> runner_config \<Rightarrow> loop_env \<Rightarrow> installer_spec \<Rightarrow> refresh_entry
    \<Rightarrow> refresh_entry" where
  "verify_entry rx F rc le spec e =
     e\<lparr>rq_verification := Some (verification_of (run_test_with_retry rx F rc (verify_test e spec) le))\<rparr>"

definition mark_passed :: "refresh_world \<Rightarrow> string \<Rightarrow> string \<Rightarrow> nat \<Rightarrow> refresh_entry \<Rightarrow> files \<Rightarrow> files" where
  "mark_passed w base run_id i e fs =
     (if is_verified e
      then fold fs_apply
        (fst (mark_verified (rw_enc w) (rw_dec w) (rw_pid w) base (rw_verified_at w i) (rq_name e)
                (rq_new_sha256 e) run_id fs)) fs
      else fs)"

definition refresh_spec :: "config \<Rightarrow> string \<Rightarrow> installer_entry \<Rightarrow> installer_spec" where
  "refresh_spec cfg name raw =
     resolve_spec name raw (map_of (cf_installers cfg) name)
       \<lparr>gd_timeout_seconds = dk_timeout_seconds (cf_docker cfg), gd_retries = 0\<rparr>"

fun verify_all ::
  "refresh_world \<Rightarrow> config \<Rightarrow> runner_config \<Rightarrow> checksums_file \<Rightarrow> string \<Rightarrow> string \<Rightarrow> nat
    \<Rightarrow> refresh_entry list \<Rightarrow> files \<Rightarrow> refresh_entry list \<times> files" where
  "verify_all w cfg rc cs base run_id i [] fs = ([], fs)"
| "verify_all w cfg rc cs base run_id i (e # es) fs =
     (case map_of cs (rq_name e) of
        None \<Rightarrow>
          (case verify_all w cfg rc cs base run_id (Suc i) es fs of (es', fs') \<Rightarrow> (e # es', fs'))
      | Some raw \<Rightarrow>
          let e' = verify_entry (rw_rx w) (rw_F w) rc (rw_run w i) (refresh_spec cfg (rq_name e) raw) e
          in case verify_all w cfg rc cs base run_id (Suc i) es (mark_passed w base run_id i e' fs) of
               (es', fs') \<Rightarrow> (e' # es', fs'))"

section \<open>The proposal\<close>

definition slice_12 :: "string \<Rightarrow> string option" where
  \<comment> \<open>\<open>&s[..12]\<close>\<close>
  "slice_12 s = (if 12 \<le> length s \<and> is_char_boundary s 12 then Some (take 12 s) else None)"

abbreviation ellipsis :: string where "ellipsis \<equiv> [CHR 0xE2, CHR 0x80, CHR 0xA6]"
abbreviation arrow :: string where "arrow \<equiv> [CHR 0xE2, CHR 0x86, CHR 0x92]"

definition commit_line :: "refresh_entry \<Rightarrow> string option" where
  "commit_line e =
     (case (slice_12 (rq_old_sha256 e), slice_12 (rq_new_sha256 e)) of
        (Some old, Some new) \<Rightarrow>
          Some (''- '' @ rq_name e @ '': '' @ old @ ellipsis @ '' '' @ arrow @ '' '' @ new @ ellipsis @
            '' ('' @ (case rq_drift e of Some d \<Rightarrow> risk_score_str (dp_score d) | None \<Rightarrow> ''no baseline'') @
            (case rq_verification e of
               None \<Rightarrow> []
             | Some v \<Rightarrow> if vf_passed v then '', verified in a fresh container'' else '', NOT verified'') @
            '')'' @ [nl])
      | _ \<Rightarrow> None)"

fun all_some :: "'a option list \<Rightarrow> 'a list option" where
  "all_some [] = Some []"
| "all_some (None # xs) = None"
| "all_some (Some x # xs) = map_option ((#) x) (all_some xs)"

definition commit_message :: "refresh_plan \<Rightarrow> bool \<Rightarrow> string option" where
  "commit_message plan verified_only =
     (let es = included verified_only plan
      in map_option
           (\<lambda>ls. ''chore(checksums): refresh '' @ show_nat (length es) @ '' drifted installer pin(s)'' @
              [nl, nl] @ concat ls @ [nl] @
              ''Generated by automated_flywheel_setup_checker remediate checksums.'' @ [nl])
           (all_some (map commit_line es)))"

record proposal_result =
  po_branch :: string
  po_worktree :: string
  po_commit :: string
  po_pr_url :: "string option"
  po_pushed :: bool

definition commit_args :: "string \<Rightarrow> string list" where
  "commit_args message =
     [''-c'', ''user.name=automated_flywheel_setup_checker'', ''-c'', ''user.email=afsc@localhost'',
      ''commit'', ''-q'', ''-m'', message]"

definition pr_answer :: "answer \<Rightarrow> string option" where
  "pr_answer a =
     (case a of
        Answer True out err \<Rightarrow>
          (case lines (from_utf8_lossy out) of [] \<Rightarrow> None | ls \<Rightarrow> Some (trim (last ls)))
      | _ \<Rightarrow> None)"

definition refresh_branch :: "string \<Rightarrow> string" where
  "refresh_branch date = ''afsc/checksum-refresh-'' @ date"

definition worktree_path :: "string \<Rightarrow> string \<Rightarrow> string" where
  "worktree_path worktrees_dir branch =
     Config.path_join worktrees_dir (replace_char (CHR ''/'') ''-'' branch)"

definition push_branch :: "bool \<Rightarrow> string \<Rightarrow> string \<Rightarrow> (anyhow + string) io" where
  "push_branch push worktree branch =
     (if push then git worktree [''push'', ''-u'', ''origin'', branch] else io_return (Inr []))"

definition propose ::
  "string \<Rightarrow> string \<Rightarrow> string \<Rightarrow> string \<Rightarrow> string \<Rightarrow> bool \<Rightarrow> bool \<Rightarrow> (anyhow + proposal_result) io" where
  \<comment> \<open>\<open>date\<close> is the formatted time\<close>
  "propose date acfs_repo worktrees_dir candidate message create_pr push =
     (let branch = refresh_branch date;
          worktree = worktree_path worktrees_dir branch;
          target = Config.path_join worktree ''checksums.yaml''
      in io_try (io_map (with_context ''acfs_repo is not a git repository'')
             (git acfs_repo [''rev-parse'', ''--git-dir''])) (\<lambda>_.
         io_try (io_map answered (act (MakeDirs worktrees_dir))) (\<lambda>_.
         io_try (git acfs_repo [''worktree'', ''add'', ''-b'', branch, worktree, ''HEAD'']) (\<lambda>_.
         io_try (io_map (with_context (''writing '' @ target) \<circ> answered)
             (act (WriteText target candidate))) (\<lambda>_.
         io_try (git worktree [''add'', ''checksums.yaml'']) (\<lambda>_.
         io_try (git worktree (commit_args message)) (\<lambda>_.
         io_try (git worktree [''rev-parse'', ''HEAD'']) (\<lambda>commit.
         io_try (push_branch push worktree branch) (\<lambda>_.
         io_bind
           (if create_pr
            then io_map pr_answer
              (act (Gh worktree [''pr'', ''create'', ''--fill'', ''--head'', branch]))
            else io_return None) (\<lambda>pr_url.
         io_return (Inr \<lparr>po_branch = branch, po_worktree = worktree, po_commit = commit,
           po_pr_url = pr_url, po_pushed = push\<rparr>)))))))))))"

section \<open>The refresh\<close>

text \<open>
  What the command meets besides: the checksum file as text and parsed, Docker's preflight, the time
  stamps it formats, the run id, the unified diff of \<open>similar\<close>, the history.
\<close>

record refresh_inputs =
  rg_exists :: bool
  rg_original :: "string + string"
  rg_checksums :: "anyhow + checksums_file"
  rg_preflight :: "afsc_error + unit"
  rg_run_id :: string
  rg_stamp :: string \<comment> \<open>of the header\<close>
  rg_candidate_stamp :: string
  rg_date :: string \<comment> \<open>of the branch\<close>
  rg_diff :: "string \<Rightarrow> string \<Rightarrow> string"
  rg_history :: "anyhow + history"

record refresh_run =
  fr_plan :: refresh_plan
  fr_candidate_path :: "string option"
  fr_diff :: string
  fr_proposal :: "proposal_result option"
  fr_verified :: bool

definition checksums_path :: "config \<Rightarrow> string" where
  "checksums_path cfg = Config.path_join (gc_acfs_repo (cf_general cfg)) ''checksums.yaml''"

definition candidate_path :: "string \<Rightarrow> string \<Rightarrow> string" where
  "candidate_path data_dir stamp =
     Config.path_join (Config.path_join data_dir ''candidates'') (''checksums-'' @ stamp @ ''.yaml'')"

definition refresh_checksums_file :: "refresh_inputs \<Rightarrow> config \<Rightarrow> afsc_error + (string \<times> checksums_file)" where
  "refresh_checksums_file g cfg =
     (if \<not> rg_exists g
      then Inl (ConfigError (''checksums.yaml not found at '' @ checksums_path cfg))
      else case rg_original g of
        Inl e \<Rightarrow> Inl (ConfigError (''reading '' @ checksums_path cfg @ '': '' @ e))
      | Inr original \<Rightarrow>
          (case rg_checksums g of
             Inl e \<Rightarrow> Inl (Other e)
           | Inr cs \<Rightarrow>
               let es = policy_errors [] cs (gc_allow_file_urls (cf_general cfg))
               in if es \<noteq> [] then Inl (policy_failure es) else Inr (original, cs)))"

definition verify_plan ::
  "refresh_world \<Rightarrow> refresh_inputs \<Rightarrow> config \<Rightarrow> bool \<Rightarrow> bool \<Rightarrow> checksums_file \<Rightarrow> string
    \<Rightarrow> refresh_plan \<Rightarrow> files \<Rightarrow> files \<times> (afsc_error + refresh_plan)" where
  "verify_plan w g cfg verify local cs base plan fs =
     (if \<not> verify \<or> rp_entries plan = [] then (fs, Inr plan)
      else case (if local then Inr () else rg_preflight g) of
        Inl e \<Rightarrow> (fs, Inl e)
      | Inr _ \<Rightarrow>
          let rc = build_runner_config cfg local (dk_timeout_seconds (cf_docker cfg)) 0 False (rg_run_id g)
          in case verify_all w cfg rc cs base (rg_run_id g) 0 (rp_entries plan) fs of
               (es, fs') \<Rightarrow> (fs', Inr (plan\<lparr>rp_entries := es\<rparr>)))"

definition proposes :: "remediation_mode \<Rightarrow> bool \<Rightarrow> refresh_plan \<Rightarrow> bool" where
  "proposes mode verify plan \<longleftrightarrow>
     (mode = Propose \<or> mode = Apply) \<and>
     0 < (if verify then length (verified plan) else length (rp_entries plan))"

definition publish ::
  "refresh_inputs \<Rightarrow> config \<Rightarrow> string \<Rightarrow> string \<Rightarrow> remediation_mode \<Rightarrow> bool \<Rightarrow> refresh_plan
    \<Rightarrow> (afsc_error + refresh_run) option io" where
  "publish g cfg data_dir original mode verify plan =
     (let candidate = render_candidate (rg_stamp g) original plan verify;
          path = candidate_path data_dir (rg_candidate_stamp g);
          parent = Config.path_join data_dir ''candidates'';
          run = \<lparr>fr_plan = plan, fr_candidate_path = Some path, fr_diff = rg_diff g original candidate,
                 fr_proposal = None, fr_verified = verify\<rparr>
      in io_bind (act (MakeDirs parent)) (\<lambda>a. case answered a of
           Inl e \<Rightarrow> io_return (Some (Inl (Infra (''creating '' @ parent @ '': '' @ err_msg e))))
         | Inr _ \<Rightarrow>
         io_bind (act (WriteText path candidate)) (\<lambda>b. case answered b of
           Inl e \<Rightarrow> io_return (Some (Inl (Infra (''writing '' @ path @ '': '' @ err_msg e))))
         | Inr _ \<Rightarrow>
             if \<not> proposes mode verify plan then io_return (Some (Inr run))
             else (case commit_message plan verify of
               None \<Rightarrow> io_return None
             | Some message \<Rightarrow>
                 io_map
                   (\<lambda>r. Some (case r of
                      Inl e \<Rightarrow> Inl (Infra (''proposing the refresh: '' @ err_chain e))
                    | Inr p \<Rightarrow> Inr (run\<lparr>fr_proposal := Some p\<rparr>)))
                   (propose (rg_date g) (gc_acfs_repo (cf_general cfg))
                     (Config.path_join data_dir ''worktrees'') candidate message
                     (rm_create_pr (cf_remediation cfg)) (mode = Apply))))))"

definition refresh_checksums ::
  "refresh_world \<Rightarrow> refresh_inputs \<Rightarrow> (string \<Rightarrow> string option) \<Rightarrow> config \<Rightarrow> string list \<Rightarrow> remediation_mode
    \<Rightarrow> bool \<Rightarrow> bool \<Rightarrow> files \<Rightarrow> (files \<times> (afsc_error + refresh_run) option) io" where
  "refresh_checksums w g env cfg only mode verify local fs =
     (let data_dir = data_dir_path env (cf_general cfg); base = ledger_root data_dir
      in case refresh_checksums_file g cfg of
           Inl e \<Rightarrow> io_return (fs, Some (Inl e))
         | Inr (original, cs) \<Rightarrow>
             (case plan_refresh w (checksums_path cfg) cs only base fs of
                None \<Rightarrow> io_return (fs, None)
              | Some (fs1, plan0) \<Rightarrow>
                  (case verify_plan w g cfg verify local cs base plan0 fs1 of
                     (fs2, Inl e) \<Rightarrow> io_return (fs2, Some (Inl e))
                   | (fs2, Inr plan) \<Rightarrow>
                       if rp_entries plan = []
                       then io_return (fs2, Some (Inr \<lparr>fr_plan = plan, fr_candidate_path = None,
                         fr_diff = [], fr_proposal = None, fr_verified = verify\<rparr>))
                       else io_map (\<lambda>r. (fs2, r))
                         (publish g cfg data_dir original mode verify plan))))"

definition refresh_mode :: "remediate_mode_arg option \<Rightarrow> config \<Rightarrow> remediation_mode" where
  "refresh_mode arg cfg =
     (case arg of
        Some AdvisoryArg \<Rightarrow> Advisory
      | Some ProposeArg \<Rightarrow> Propose
      | Some ApplyArg \<Rightarrow> Apply
      | None \<Rightarrow>
          (case effective_mode (cf_remediation cfg) of Off \<Rightarrow> Advisory | m \<Rightarrow> m))"

definition mismatched :: "loaded_run \<Rightarrow> string list" where
  "mismatched run =
     map re_installer_name
       (filter (\<lambda>e. (case re_error_classification e of
                       Some c \<Rightarrow> ee_category c = ''checksum_mismatch'' | None \<Rightarrow> False) \<or>
                    re_checksum_state e = ''mismatch'') (lr_entries run))"

definition refresh_names ::
  "refresh_inputs \<Rightarrow> bool \<Rightarrow> string list \<Rightarrow> afsc_error + string list option" where
  \<comment> \<open>\<open>Inr None\<close>: the last run had no mismatch, nothing to do\<close>
  "refresh_names g from_last_run only =
     (if \<not> from_last_run then Inr (Some only)
      else case rg_history g of
        Inl e \<Rightarrow> Inl (Other e)
      | Inr h \<Rightarrow>
          (case latest_run h of
             None \<Rightarrow> Inl (Usage ''no runs recorded yet (run `check` first)'')
           | Some run \<Rightarrow> Inr (if mismatched run = [] then None else Some (mismatched run))))"

text \<open>What printing does beyond printing: the human format slices the pins and the commit.\<close>

definition printable :: "refresh_run \<Rightarrow> bool" where
  "printable run \<longleftrightarrow>
     (\<forall>e\<in>set (rp_entries (fr_plan run)).
        slice_12 (rq_old_sha256 e) \<noteq> None \<and> slice_12 (rq_new_sha256 e) \<noteq> None) \<and>
     (\<forall>p\<in>set_option (fr_proposal run). slice_12 (po_commit p) \<noteq> None)"

definition refresh_verdict :: "bool \<Rightarrow> refresh_run \<Rightarrow> afsc_error + unit" where
  "refresh_verdict verify run =
     (if verify \<and> unverified (fr_plan run) \<noteq> []
      then Inl (InstallerFailures (length (unverified (fr_plan run))) (length (rp_entries (fr_plan run))))
      else Inr ())"

definition cmd_remediate_checksums ::
  "refresh_world \<Rightarrow> refresh_inputs \<Rightarrow> (string \<Rightarrow> string option) \<Rightarrow> config \<Rightarrow> bool \<Rightarrow> string list
    \<Rightarrow> remediate_mode_arg option \<Rightarrow> bool \<Rightarrow> bool \<Rightarrow> output_format \<Rightarrow> files
    \<Rightarrow> (files \<times> (afsc_error + unit) option) io" where
  "cmd_remediate_checksums w g env cfg from_last_run only arg verify local fmt fs =
     (case refresh_names g from_last_run only of
        Inl e \<Rightarrow> io_return (fs, Some (Inl e))
      | Inr None \<Rightarrow> io_return (fs, Some (Inr ()))
      | Inr (Some names) \<Rightarrow>
          io_map
            (\<lambda>(fs', r). (fs', case r of
               None \<Rightarrow> None
             | Some (Inl e) \<Rightarrow> Some (Inl e)
             | Some (Inr run) \<Rightarrow>
                 if fmt = Human \<and> \<not> printable run then None else Some (refresh_verdict verify run)))
            (refresh_checksums w g env cfg names (refresh_mode arg cfg) verify local fs))"

section \<open>Which pins have drifted\<close>

definition drifted_pin ::
  "refresh_world \<Rightarrow> string list \<Rightarrow> string \<times> installer_entry
    \<Rightarrow> (string \<times> string \<times> string \<times> string) option" where
  "drifted_pin w only ne =
     (case ne of (n, e) \<Rightarrow>
        if (only = [] \<or> n \<in> set only) \<and> ie_enabled e
        then (case (ie_url e, normalized_pin e) of
                (Some u, Some old) \<Rightarrow>
                  (case fetch_bytes (rw_status_text w) (rw_fetch w n) u of
                     Inr b \<Rightarrow> if rw_sha w b \<noteq> old then Some (n, u, old, rw_sha w b) else None
                   | Inl _ \<Rightarrow> None)
              | _ \<Rightarrow> None)
        else None)"

definition pin_of :: "refresh_entry \<Rightarrow> string \<times> string \<times> string \<times> string" where
  "pin_of q = (rq_name q, rq_url q, rq_old_sha256 q, rq_new_sha256 q)"

lemma drifted_pin_Some:
  "drifted_pin w only (m, e) = Some (n, u, old, new) \<longleftrightarrow>
     m = n \<and> (only = [] \<or> n \<in> set only) \<and> ie_enabled e \<and> ie_url e = Some u \<and>
     normalized_pin e = Some old \<and>
     (\<exists>b. fetch_bytes (rw_status_text w) (rw_fetch w n) u = Inr b \<and> rw_sha w b = new \<and> new \<noteq> old)"
proof (cases "(only = [] \<or> m \<in> set only) \<and> ie_enabled e \<and> ie_url e \<noteq> None \<and> normalized_pin e \<noteq> None")
  case True
  then obtain v p where [simp]: "ie_url e = Some v" "normalized_pin e = Some p" by blast
  from True show ?thesis
    by (cases "fetch_bytes (rw_status_text w) (rw_fetch w m) v") (auto simp: drifted_pin_def)
qed (auto simp: drifted_pin_def split: option.splits)

lemma refresh_one_entries:
  assumes "refresh_one w base only (n, e) (fs, plan) = Some (fs', plan')"
  shows "\<exists>new. rp_entries plan' = rp_entries plan @ new \<and>
      map pin_of new = (case drifted_pin w only (n, e) of None \<Rightarrow> [] | Some p \<Rightarrow> [p]) \<and>
      (\<forall>q\<in>set new. rq_verification q = None)"
proof (cases "(only = [] \<or> n \<in> set only) \<and> ie_enabled e \<and> ie_url e \<noteq> None \<and> normalized_pin e \<noteq> None")
  case True
  then obtain v p where [simp]: "ie_url e = Some v" "normalized_pin e = Some p" by blast
  show ?thesis
  proof (cases "fetch_bytes (rw_status_text w) (rw_fetch w n) v")
    case (Inl err)
    with True assms show ?thesis by (auto simp: refresh_one_def drifted_pin_def add_skipped_def)
  next
    case (Inr b)
    with True assms show ?thesis
      by (cases "rw_sha w b = p") (auto simp: refresh_one_def drifted_pin_def pin_of_def Let_def)
  qed
next
  case False
  with assms show ?thesis
    by (auto simp: refresh_one_def drifted_pin_def add_skipped_def split: option.splits if_splits)
qed

lemma refresh_all_entries:
  assumes "refresh_all w base only nes (fs, plan) = Some (fs', plan')"
  shows "\<exists>new. rp_entries plan' = rp_entries plan @ new \<and>
      map pin_of new = List.map_filter (drifted_pin w only) nes \<and>
      (\<forall>q\<in>set new. rq_verification q = None)"
  using assms
proof (induction nes arbitrary: fs plan)
  case (Cons ne nes)
  obtain n e where ne: "ne = (n, e)" by force
  with Cons.prems obtain fs1 plan1 where
    one: "refresh_one w base only (n, e) (fs, plan) = Some (fs1, plan1)" and
    rest: "refresh_all w base only nes (fs1, plan1) = Some (fs', plan')"
    by (auto simp: bind_eq_Some_conv)
  from refresh_one_entries [OF one] obtain a where
    a: "rp_entries plan1 = rp_entries plan @ a"
      "map pin_of a = (case drifted_pin w only ne of None \<Rightarrow> [] | Some p \<Rightarrow> [p])"
      "\<forall>q\<in>set a. rq_verification q = None" unfolding ne by blast
  from Cons.IH [OF rest] obtain b where
    b: "rp_entries plan' = rp_entries plan1 @ b"
      "map pin_of b = List.map_filter (drifted_pin w only) nes"
      "\<forall>q\<in>set b. rq_verification q = None" by blast
  from a b show ?case
    by (intro exI [of _ "a @ b"]) (auto simp: map_filter_simps split: option.splits)
qed (simp add: map_filter_simps)

lemma plan_refresh_pins:
  assumes "plan_refresh w path cs only base fs = Some (fs', plan)"
  shows "map pin_of (rp_entries plan) = List.map_filter (drifted_pin w only) (sort_key fst cs)"
    and "\<forall>q\<in>set (rp_entries plan). rq_verification q = None"
  using refresh_all_entries assms unfolding plan_refresh_def by fastforce+

lemma mem_map_filter_pairs:
  "y \<in> set (List.map_filter f xs) \<longleftrightarrow> (\<exists>a b. (a, b) \<in> set xs \<and> f (a, b) = Some y)"
  unfolding set_map_filter by (auto intro: exI [of _ "fst p" for p])

lemma sorted_map_filter_key:
  assumes "sorted (map f xs)" "\<And>x y. g x = Some y \<Longrightarrow> h y = f x"
  shows "sorted (map h (List.map_filter g xs))"
  using assms
proof (induction xs)
  case (Cons x xs)
  have "h y \<le> h z" if "g x = Some y" "z \<in> set (List.map_filter g xs)" for y z
    using that Cons.prems by (auto simp: set_map_filter)
  with Cons show ?case by (auto simp: map_filter_simps split: option.splits)
qed (simp add: map_filter_simps)

lemma plan_refresh_sorted:
  assumes "plan_refresh w path cs only base fs = Some (fs', plan)"
  shows "sorted (map rq_name (rp_entries plan))"
proof -
  have "fst p = fst ne" if "drifted_pin w only ne = Some p" for ne p
    using that by (cases ne; cases p) (simp add: drifted_pin_Some)
  then have "sorted (map fst (List.map_filter (drifted_pin w only) (sort_key fst cs)))"
    by (rule sorted_map_filter_key [OF sorted_sort_key])
  moreover have "map rq_name (rp_entries plan) = map fst (map pin_of (rp_entries plan))"
    by (simp add: pin_of_def comp_def)
  ultimately show ?thesis using plan_refresh_pins(1) [OF assms] by simp
qed

lemma fetched_hash:
  assumes "old \<noteq> []"
  shows "(\<exists>b. fetch_bytes st a u = Inr b \<and> sha b = new \<and> new \<noteq> old) \<longleftrightarrow>
    hc_actual (check_hash sha a n u (Some old)) = Some new \<and>
    \<not> hc_matches (check_hash sha a n u (Some old))"
  using assms
  by (auto simp: fetch_bytes_def check_hash_def hash_result_def pin_matches_def hash_hex_matches_eq
      split: option.splits sum.splits prod.splits if_splits)

text \<open>
  the refresh and \<open>validate --check-hashes\<close> agree on what has drifted. Over the same downloads
  the plan lists, sorted by name, exactly the enabled installers whose hash check ends with an
  actual hash that does not match, with that hash as the new pin. They part on empty pins only:
  validation calls them missing, the refresh drifted from the empty pin.
\<close>

theorem refresh_agrees_with_validation:
  assumes "plan_refresh w path cs [] base fs = Some (fs', plan)"
  shows "sorted (map rq_name (rp_entries plan)) \<and>
    ((n, u, old, new) \<in> pin_of ` set (rp_entries plan) \<longleftrightarrow>
      (\<exists>e. (n, e) \<in> set cs \<and> ie_enabled e \<and> ie_url e = Some u \<and> normalized_pin e = Some old \<and>
        (if old = []
         then hc_error (check_hash (rw_sha w) (rw_fetch w n) n u (Some old)) =
                Some ''missing sha256 checksum'' \<and>
              new \<noteq> [] \<and> (\<exists>b. fetch_bytes (rw_status_text w) (rw_fetch w n) u = Inr b \<and> rw_sha w b = new)
         else hc_actual (check_hash (rw_sha w) (rw_fetch w n) n u (Some old)) = Some new \<and>
              \<not> hc_matches (check_hash (rw_sha w) (rw_fetch w n) n u (Some old)))))"
proof -
  have "pin_of ` set (rp_entries plan) = set (List.map_filter (drifted_pin w []) (sort_key fst cs))"
    using arg_cong [OF plan_refresh_pins(1) [OF assms], of set] by simp
  then have "(n, u, old, new) \<in> pin_of ` set (rp_entries plan) \<longleftrightarrow>
      (\<exists>m e. (m, e) \<in> set cs \<and> drifted_pin w [] (m, e) = Some (n, u, old, new))"
    by (simp only: mem_map_filter_pairs set_sort)
  then have "(n, u, old, new) \<in> pin_of ` set (rp_entries plan) \<longleftrightarrow>
      (\<exists>e. (n, e) \<in> set cs \<and> ie_enabled e \<and> ie_url e = Some u \<and> normalized_pin e = Some old \<and>
      (\<exists>b. fetch_bytes (rw_status_text w) (rw_fetch w n) u = Inr b \<and> rw_sha w b = new \<and> new \<noteq> old))"
    unfolding drifted_pin_Some by auto
  moreover have "(\<exists>b. fetch_bytes (rw_status_text w) (rw_fetch w n) u = Inr b \<and> rw_sha w b = new \<and> new \<noteq> old) \<longleftrightarrow>
      (if old = []
       then hc_error (check_hash (rw_sha w) (rw_fetch w n) n u (Some old)) =
              Some ''missing sha256 checksum'' \<and>
            new \<noteq> [] \<and> (\<exists>b. fetch_bytes (rw_status_text w) (rw_fetch w n) u = Inr b \<and> rw_sha w b = new)
       else hc_actual (check_hash (rw_sha w) (rw_fetch w n) n u (Some old)) = Some new \<and>
            \<not> hc_matches (check_hash (rw_sha w) (rw_fetch w n) n u (Some old)))"
  proof (cases "old = []")
    case True
    then show ?thesis by (simp add: check_hash_def hash_result_def) blast
  next
    case False
    show ?thesis unfolding if_not_P [OF False] by (rule fetched_hash [OF False])
  qed
  ultimately show ?thesis using plan_refresh_sorted [OF assms] by simp
qed

section \<open>The candidate keeps the file\<close>

lemma ws_suffix_zero:
  assumes "last s \<notin> set (map last ws_seqs)"
  shows "ws_suffix s = 0"
proof -
  have "\<not> suffix v s" if "v \<in> set ws_seqs" for v
  proof
    assume "suffix v s"
    moreover have "v \<noteq> []" using that by (auto simp: ws_seqs_def)
    ultimately have "last s = last v" by (auto simp: suffix_def)
    with that assms show False by auto
  qed
  then have "find (\<lambda>v. suffix v s) ws_seqs = None" by (auto simp: find_None_iff)
  then show ?thesis by (simp add: ws_suffix_def)
qed

lemma trim_end_plain: "last s \<notin> set (map last ws_seqs) \<Longrightarrow> trim_end s = s"
  by (simp add: trim_end.simps [of s] ws_suffix_zero)

lemma visible_ends:
  "dquote \<notin> set (map last ws_seqs)" "CHR '':'' \<notin> set (map last ws_seqs)"
  by code_simp+

lemma trim_end_quoted [simp]: "trim_end (s @ [dquote]) = s @ [dquote]"
  using visible_ends by (intro trim_end_plain) simp

lemma trim_end_colon [simp]: "trim_end (s @ '':'') = s @ '':''"
  using visible_ends by (intro trim_end_plain) simp

lemma trim_end_colons_name:
  "s = [] \<or> last s \<noteq> CHR '':'' \<Longrightarrow> trim_end_colons (s @ '':'') = s"
  using trim_end_colons.simps [of s] by (auto simp: trim_end_colons.simps [of "s @ _"])

lemma trim_start_visible: "ws_prefix s = 0 \<Longrightarrow> trim_start s = s"
  by (simp add: trim_start.simps [of s])

lemma ws_prefix_quote: "ws_prefix (dquote # s) = 0"
  by (simp add: ws_prefix_def ws_seqs_def)

lemma ws_prefix_letter: "ws_prefix (CHR ''s'' # s) = 0"
  by (simp add: ws_prefix_def ws_seqs_def)

lemma trim_start_blank: "trim_start (CHR '' '' # s) = trim_start s"
  by (simp add: trim_start.simps [of "CHR '' '' # s"] ws_prefix_def ws_seqs_def)

definition pin_line :: "string \<Rightarrow> string" where
  "pin_line h = ''    sha256: '' @ dquote # h @ [dquote]"

definition url_line :: "string \<Rightarrow> string" where
  "url_line u = ''    url: '' @ dquote # u @ [dquote]"

definition key_line :: "string \<Rightarrow> string" where
  "key_line n = ''  '' @ n @ '':''"

lemma find_pin: "str_find (trim_end (pin_line h)) ''sha256:'' = Some 4"
proof -
  have "trim_end (pin_line h) = pin_line h"
    using trim_end_quoted [of "''    sha256: '' @ dquote # h"] by (simp add: pin_line_def)
  then show ?thesis by (simp add: pin_line_def)
qed

lemma rewritten_pin: "rewritten (pin_line h) 4 new = pin_line new"
proof -
  have t: "trim_end (pin_line h) = pin_line h"
    using trim_end_quoted [of "''    sha256: '' @ dquote # h"] by (simp add: pin_line_def)
  have "trim_start (pin_line h) = ''sha256: '' @ dquote # h @ [dquote]"
    by (simp add: pin_line_def trim_start_blank trim_start_visible ws_prefix_letter)
  moreover have "trim ('' '' @ dquote # h @ [dquote]) = dquote # h @ [dquote]"
    using trim_end_quoted [of "dquote # h"]
    by (simp add: trim_def trim_start_blank trim_start_visible ws_prefix_quote)
  ultimately show ?thesis by (simp add: rewritten_def t) (simp add: pin_line_def)
qed

lemma render_pin_line:
  "render_line upd (Some n) (pin_line h) = pin_line (unwrap_or (map_of upd n) h)"
  by (simp add: render_line_def find_pin rewritten_pin split: option.split)

lemma deep_lines_are_no_keys:
  "key_of_line (pin_line h) = None" "key_of_line (url_line u) = None" "key_of_line [] = None"
  by (simp_all add: key_of_line_def pin_line_def url_line_def strip_prefix_def)

definition plain_name :: "string \<Rightarrow> bool" where
  "plain_name n \<longleftrightarrow> n \<noteq> [] \<and> CHR '' '' \<notin> set n \<and> nl \<notin> set n \<and> last n \<noteq> CHR '':'' \<and>
     \<not> contains (key_line n) ''sha256:''"

lemma key_of_key_line: "plain_name n \<Longrightarrow> key_of_line (key_line n) = Some n"
  by (cases n) (auto simp: plain_name_def key_of_line_def key_line_def strip_prefix_def
      suffix_def trim_end_colons_name [of "_ # _", simplified])

lemma render_key_line: "plain_name n \<Longrightarrow> render_line upd cur (key_line n) = key_line n"
proof -
  assume "plain_name n"
  moreover have "trim_end (key_line n) = key_line n"
    using trim_end_colon [of "''  '' @ n"] by (simp add: key_line_def)
  ultimately show ?thesis
    by (simp add: render_line_def plain_name_def str_find_None [THEN iffD2] split: option.split)
qed

definition plain_url :: "string \<Rightarrow> bool" where
  "plain_url u \<longleftrightarrow> nl \<notin> set u \<and> \<not> contains (url_line u) ''sha256:''"

lemma render_url_line: "plain_url u \<Longrightarrow> render_line upd cur (url_line u) = url_line u"
proof -
  assume "plain_url u"
  moreover have "trim_end (url_line u) = url_line u"
    using trim_end_quoted [of "''    url: '' @ dquote # u"] by (simp add: url_line_def)
  ultimately show ?thesis
    by (simp add: render_line_def plain_url_def str_find_None [THEN iffD2] split: option.split)
qed

lemma render_empty_line: "render_line upd cur [] = []"
  by (simp add: render_line_def trim_end.simps [of "[]"] split: option.split)

text \<open>The file as ACFS generates it.\<close>

fun item_lines :: "string \<times> string \<times> string \<Rightarrow> string list" where
  "item_lines (n, u, h) = [key_line n, url_line u, pin_line h, []]"

definition acfs_lines :: "string \<Rightarrow> string list \<Rightarrow> (string \<times> string \<times> string) list \<Rightarrow> string list" where
  "acfs_lines stamp notes items =
     (generated_header @ '' '' @ stamp) # notes @ ''installers:'' # concat (map item_lines items)"

lemma render_items:
  assumes "\<forall>(n, u, h)\<in>set items. plain_name n \<and> plain_url u"
  shows "render_lines upd cur (concat (map item_lines items)) =
      concat (map item_lines (map (\<lambda>(n, u, h). (n, u, unwrap_or (map_of upd n) h)) items))"
  using assms
proof (induction items arbitrary: cur)
  case (Cons item items)
  obtain n u h where item: "item = (n, u, h)" by (cases item) auto
  from Cons.prems item have "plain_name n" "plain_url u" by auto
  with Cons show ?case
    by (simp add: item Let_def opt_or_def key_of_key_line deep_lines_are_no_keys render_key_line
        render_url_line render_pin_line render_empty_line)
qed simp

lemma chop_cr_plain: "l = [] \<or> last l \<noteq> CHR 0x0D \<Longrightarrow> chop_cr l = l"
  by (auto simp: chop_cr_def suffix_def)

lemma lines_unlines:
  "\<forall>l\<in>set ls. nl \<notin> set l \<and> (l = [] \<or> last l \<noteq> CHR 0x0D) \<Longrightarrow> lines (unlines ls) = ls"
  using lines_of_lines [of ls] by (simp add: unlines_def chop_cr_plain map_idI)

definition plain_line :: "string \<Rightarrow> bool" where
  "plain_line l \<longleftrightarrow> nl \<notin> set l \<and> (l = [] \<or> last l \<noteq> CHR 0x0D)"

lemma item_lines_plain:
  "plain_name n \<Longrightarrow> plain_url u \<Longrightarrow> nl \<notin> set h \<Longrightarrow> l \<in> set (item_lines (n, u, h)) \<Longrightarrow> plain_line l"
  by (auto simp: plain_line_def key_line_def url_line_def pin_line_def plain_name_def plain_url_def)

lemma render_before_keys:
  assumes "\<forall>l\<in>set ls. key_of_line l = None"
  shows "render_lines upd None (ls @ rest) = ls @ render_lines upd None rest"
  using assms by (induction ls) (simp_all add: opt_or_def render_line_def)

lemma comment_is_no_key: "prefix ''#'' l \<or> l = [] \<Longrightarrow> key_of_line l = None"
  by (cases l) (auto simp: key_of_line_def strip_prefix_def)

lemma map_of_updates:
  assumes "distinct (map rq_name (rp_entries plan))"
  shows "map_of (updates_of v plan) = map_of (map (\<lambda>e. (rq_name e, rq_new_sha256 e)) (included v plan))"
proof -
  have "distinct (map fst (map (\<lambda>e. (rq_name e, rq_new_sha256 e)) (included v plan)))"
    using assms by (simp add: included_def comp_def distinct_map_filter)
  then show ?thesis by (simp add: updates_of_def map_of_bt_extend_distinct)
qed

text \<open>
  C29: on the file that ACFS generates the candidate is the file that ACFS would generate with the
  new pins. Header, notes, installers, URLs, order and layout stay; the pin of every included entry
  is replaced by its new one, and no other.
\<close>

theorem candidate_is_the_regenerated_file:
  assumes "\<forall>(n, u, h)\<in>set items. plain_name n \<and> plain_url u \<and> nl \<notin> set h"
    and "\<forall>l\<in>set notes. (prefix ''#'' l \<or> l = []) \<and> plain_line l" "plain_line stamp" "stamp \<noteq> []"
    and "distinct (map rq_name (rp_entries plan))"
  shows "render_candidate stamp' (unlines (acfs_lines stamp notes items)) plan verified_only =
    unlines (acfs_lines stamp' notes
      (map (\<lambda>(n, u, h). (n, u, unwrap_or
         (map_of (map (\<lambda>e. (rq_name e, rq_new_sha256 e)) (included verified_only plan)) n) h)) items))"
proof -
  let ?upd = "updates_of verified_only plan"
  have items: "\<forall>(n, u, h)\<in>set items. plain_name n \<and> plain_url u" using assms(1) by auto
  have "plain_line l" if "l \<in> set (concat (map item_lines items))" for l
    using that assms(1) item_lines_plain by fastforce
  moreover have "plain_line (generated_header @ '' '' @ stamp)"
    using assms(3,4) by (simp add: plain_line_def)
  moreover have "plain_line ''installers:''" by (simp add: plain_line_def)
  ultimately have "\<forall>l\<in>set (acfs_lines stamp notes items). plain_line l"
    using assms(2) by (auto simp: acfs_lines_def simp del: append.simps)
  then have lines: "lines (unlines (acfs_lines stamp notes items)) = acfs_lines stamp notes items"
    by (intro lines_unlines) (auto simp: plain_line_def)
  have "\<forall>l\<in>set (notes @ [''installers:'']). key_of_line l = None"
    using assms(2) comment_is_no_key by (auto simp: key_of_line_def strip_prefix_def)
  from render_before_keys [OF this, of ?upd "concat (map item_lines items)"]
  have "render_lines ?upd None (notes @ ''installers:'' # concat (map item_lines items)) =
      notes @ ''installers:'' #
        concat (map item_lines (map (\<lambda>(n, u, h). (n, u, unwrap_or (map_of ?upd n) h)) items))"
    using render_items [OF items] by simp
  moreover have "prefix generated_header (generated_header @ '' '' @ stamp)" by simp
  ultimately have "render_header stamp' ?upd (acfs_lines stamp notes items) =
      acfs_lines stamp' notes (map (\<lambda>(n, u, h). (n, u, unwrap_or (map_of ?upd n) h)) items)"
    unfolding render_header_def acfs_lines_def by (simp only: list.case if_True)
  then show ?thesis
    unfolding render_candidate_def lines map_of_updates [OF assms(5)] by simp
qed

text \<open>
  a comment after an installer's key puts a pin in the wrong place. The line of the key is not
  recognised with the comment on it, so the pin below is taken for the previous installer's: when
  that one is refreshed, the commented installer gets its hash too.
\<close>

theorem commented_keys_get_the_pin_above:
  assumes "plain_name a" "plain_url u" "plain_url u'" "nl \<notin> set h" "nl \<notin> set h'"
    and "plain_line line" "line = ''  '' @ b @ '': # '' @ c" "\<not> contains (trim_end line) ''sha256:''"
    and "map_of (updates_of v plan) a = Some new"
  shows "render_candidate stamp (unlines (item_lines (a, u, h) @ [line, url_line u', pin_line h'])) plan v =
    unlines (item_lines (a, u, new) @ [line, url_line u', pin_line new])"
proof -
  have plain: "plain_line (url_line u')" "plain_line (pin_line h')"
    using assms(3,5) by (simp_all add: plain_line_def url_line_def pin_line_def plain_url_def)
  have lines: "lines (unlines (item_lines (a, u, h) @ [line, url_line u', pin_line h'])) =
      item_lines (a, u, h) @ [line, url_line u', pin_line h']"
    using item_lines_plain [OF assms(1,2,4)] assms(6) plain
    by (intro lines_unlines) (auto simp: plain_line_def simp del: item_lines.simps)
  have "CHR '' '' \<in> set (b @ '': # '' @ c)" by simp
  then have "key_of_line line = None"
    by (auto simp: assms(7) key_of_line_def split: option.splits dest!: strip_prefix_Some [THEN iffD1])
  moreover have "render_line upd cur line = line" for upd cur
    using assms(8) by (simp add: render_line_def str_find_None [THEN iffD2] split: option.split)
  moreover have "\<not> prefix generated_header (key_line a)" by (simp add: key_line_def)
  ultimately show ?thesis
    unfolding render_candidate_def lines using assms(1-3,9)
    by (simp add: render_header_def opt_or_def key_of_key_line deep_lines_are_no_keys Let_def
        render_key_line render_url_line render_pin_line render_empty_line)
qed

section \<open>Verified means executed under the new pin\<close>

lemma retried_pass_gated:
  assumes "run_test_with_retry rx F rc t le = Inr r" "tr_status r = Passed"
    and "le_run le = runner_attempts rx sha rc t env"
  shows "gated (it_expected_sha256 t) r"
proof -
  obtain n rl where out: "loop_outcome rx le (max (it_retry_count t) 1) n rl r"
    using run_test_with_retry_outcome [OF assms(1)] by blast
  then have run: "le_run le (of_nat n) = Inr rl" by (simp add: loop_outcome_def)
  have "\<not> wants_retry rx le (max (it_retry_count t) 1) (of_nat n) rl"
  proof
    assume "wants_retry rx le (max (it_retry_count t) 1) (of_nat n) rl"
    with out have "tr_status r = Cancelled"
      unfolding loop_outcome_def using cancel_in_backoff_frame(6) by metis
    with assms(2) show False by simp
  qed
  with out obtain mx i as rs where "r = finish_test le mx i as rs rl"
    unfolding loop_outcome_def by auto
  then have "tr_status r = tr_status rl" "tr_checksum_state r = tr_checksum_state rl"
    "tr_checksum_result r = tr_checksum_result rl"
    by (simp_all add: finish_test_def)
  moreover obtain evs where "run_test rx sha rc t (env (of_nat n)) = (evs, Inr rl)"
    using run assms(3) by (metis runner_attempts_def prod.collapse)
  then have "gated (it_expected_sha256 t) rl" by (rule run_test_gated)
  ultimately show ?thesis using gated_frame by blast
qed

lemma pin_of_verify_entry [simp]: "pin_of (verify_entry rx F rc le spec e) = pin_of e"
  by (simp add: verify_entry_def pin_of_def)

definition passed_run :: "refresh_world \<Rightarrow> config \<Rightarrow> runner_config \<Rightarrow> checksums_file \<Rightarrow> refresh_entry \<Rightarrow> bool" where
  "passed_run w cfg rc cs q \<longleftrightarrow>
     (\<exists>i t r raw. map_of cs (rq_name q) = Some raw \<and>
        t = (with_sha256 (rq_new_sha256 q) (to_test (refresh_spec cfg (rq_name q) raw)))
              \<lparr>it_name := rq_name q\<rparr> \<and>
        run_test_with_retry (rw_rx w) (rw_F w) rc t (rw_run w i) = Inr r \<and> tr_status r = Passed)"

lemma verify_entry_passed:
  assumes "is_verified (verify_entry (rw_rx w) (rw_F w) rc (rw_run w i)
      (refresh_spec cfg (rq_name q) raw) q)" "map_of cs (rq_name q) = Some raw"
  shows "passed_run w cfg rc cs
    (verify_entry (rw_rx w) (rw_F w) rc (rw_run w i) (refresh_spec cfg (rq_name q) raw) q)"
proof -
  let ?t = "verify_test q (refresh_spec cfg (rq_name q) raw)"
  obtain r where "run_test_with_retry (rw_rx w) (rw_F w) rc ?t (rw_run w i) = Inr r" "tr_status r = Passed"
    using assms(1) by (auto simp: is_verified_def verify_entry_def verification_of_def split: sum.splits)
  with assms(2) show ?thesis unfolding passed_run_def verify_test_def verify_entry_def by auto
qed

lemma verify_all_passed:
  assumes "verify_all w cfg rc cs base run_id i qs fs = (qs', fs')" "\<forall>q\<in>set qs. rq_verification q = None"
  shows "map pin_of qs' = map pin_of qs \<and> (\<forall>q\<in>set qs'. is_verified q \<longrightarrow> passed_run w cfg rc cs q)"
  using assms
proof (induction qs arbitrary: i fs qs' fs')
  case (Cons q qs)
  show ?case
  proof (cases "map_of cs (rq_name q)")
    case None
    then obtain ps where "qs' = q # ps" "verify_all w cfg rc cs base run_id (Suc i) qs fs = (ps, fs')"
      using Cons.prems(1) by (auto split: prod.splits)
    with Cons.IH Cons.prems(2) show ?thesis by (auto simp: is_verified_def)
  next
    case (Some raw)
    let ?q = "verify_entry (rw_rx w) (rw_F w) rc (rw_run w i) (refresh_spec cfg (rq_name q) raw) q"
    obtain ps where "qs' = ?q # ps"
      "verify_all w cfg rc cs base run_id (Suc i) qs (mark_passed w base run_id i ?q fs) = (ps, fs')"
      using Some Cons.prems(1) by (auto simp: Let_def split: prod.splits)
    with Cons.IH Cons.prems(2) verify_entry_passed [OF _ Some] show ?thesis by auto
  qed
qed simp

lemma refresh_checksums_run:
  assumes "fst (refresh_checksums w g env cfg only mode verify local fs W past) = (fs', Some (Inr run))"
  obtains original cs fs1 plan where
    "refresh_checksums_file g cfg = Inr (original, cs)"
    "plan_refresh w (checksums_path cfg) cs only (ledger_root (data_dir_path env (cf_general cfg))) fs =
       Some (fs1, plan)"
    "verify_plan w g cfg verify local cs (ledger_root (data_dir_path env (cf_general cfg))) plan fs1 =
       (fs', Inr (fr_plan run))"
  using assms
  by (fastforce simp: refresh_checksums_def publish_def io_simps Let_def
      split: sum.splits option.splits prod.splits if_splits)

lemma refresh_runs_passed:
  assumes "fst (refresh_checksums w g env cfg only mode True local fs W past) = (fs', Some (Inr run))"
  obtains cs where "\<forall>q\<in>set (rp_entries (fr_plan run)). is_verified q \<longrightarrow>
    passed_run w cfg
      (build_runner_config cfg local (dk_timeout_seconds (cf_docker cfg)) 0 False (rg_run_id g)) cs q"
proof -
  let ?rc = "build_runner_config cfg local (dk_timeout_seconds (cf_docker cfg)) 0 False (rg_run_id g)"
  let ?base = "ledger_root (data_dir_path env (cf_general cfg))"
  from assms obtain original cs fs1 plan where
    plan: "plan_refresh w (checksums_path cfg) cs only ?base fs = Some (fs1, plan)" and
    verify: "verify_plan w g cfg True local cs ?base plan fs1 = (fs', Inr (fr_plan run))"
    by (elim refresh_checksums_run)
  have "\<forall>q\<in>set (rp_entries (fr_plan run)). is_verified q \<longrightarrow> passed_run w cfg ?rc cs q"
  proof (cases "rp_entries plan = []")
    case True
    with verify show ?thesis by (auto simp: verify_plan_def)
  next
    case False
    then obtain qs where "verify_all w cfg ?rc cs ?base (rg_run_id g) 0 (rp_entries plan) fs1 = (qs, fs')"
      "fr_plan run = plan\<lparr>rp_entries := qs\<rparr>"
      using verify by (auto simp: verify_plan_def Let_def split: sum.splits prod.splits)
    with verify_all_passed [OF _ plan_refresh_pins(2) [OF plan]] show ?thesis by fastforce
  qed
  with that show ?thesis by blast
qed

lemma bt_insert_subset: "set (bt_insert k v m) \<subseteq> insert (k, v) (set m)"
  by (induction m) (auto split: if_splits)

lemma bt_extend_subset: "set (bt_extend kvs m) \<subseteq> set kvs \<union> set m"
proof (induction kvs arbitrary: m)
  case (Cons kv kvs)
  obtain k v where "kv = (k, v)" by force
  with Cons [of "bt_insert k v m"] bt_insert_subset [of k v m] show ?case
    by (auto simp: bt_extend_def)
qed (simp add: bt_extend_def)

text \<open>
  what is proposed was run. When a refresh verifies, every pin of the candidate belongs to an
  installer that the executor ran and passed with that very pin as the expected hash; if the runs
  were the executor's on any backend, the script it executed was verified against the pin.
\<close>

theorem proposed_pins_were_executed:
  assumes "fst (refresh_checksums w g env cfg only mode True local fs W past) = (fs', Some (Inr run))"
    and "(n, pin) \<in> set (updates_of True (fr_plan run))"
  shows "\<exists>i t r. it_name t = n \<and> it_expected_sha256 t = Some pin \<and>
    run_test_with_retry (rw_rx w) (rw_F w)
      (build_runner_config cfg local (dk_timeout_seconds (cf_docker cfg)) 0 False (rg_run_id g)) t
      (rw_run w i) = Inr r \<and> tr_status r = Passed \<and>
    (\<forall>sha answers. le_run (rw_run w i) = runner_attempts (rw_rx w) sha
        (build_runner_config cfg local (dk_timeout_seconds (cf_docker cfg)) 0 False (rg_run_id g)) t answers \<longrightarrow>
      tr_checksum_state r = Verified \<and>
      (\<exists>c. tr_checksum_result r = Some c \<and> cr_matches c \<and> cr_expected c = pin))"
proof -
  let ?rc = "build_runner_config cfg local (dk_timeout_seconds (cf_docker cfg)) 0 False (rg_run_id g)"
  from assms(1) obtain cs where
    "\<forall>q\<in>set (rp_entries (fr_plan run)). is_verified q \<longrightarrow> passed_run w cfg ?rc cs q"
    by (rule refresh_runs_passed)
  moreover obtain q where q: "q \<in> set (rp_entries (fr_plan run))" "is_verified q"
    "rq_name q = n" "rq_new_sha256 q = pin"
    using assms(2) bt_extend_subset [of _ "[]"] unfolding updates_of_def included_def by fastforce
  ultimately have "passed_run w cfg ?rc cs q" by blast
  then obtain i r t raw where
    t: "t = (with_sha256 (rq_new_sha256 q) (to_test (refresh_spec cfg (rq_name q) raw)))
        \<lparr>it_name := rq_name q\<rparr>" and
    run: "run_test_with_retry (rw_rx w) (rw_F w) ?rc t (rw_run w i) = Inr r" "tr_status r = Passed"
    unfolding passed_run_def by blast
  have test: "it_name t = n" "it_expected_sha256 t = Some pin"
    by (simp_all add: t with_sha256_def q)
  show ?thesis
    using run test retried_pass_gated [OF run]
    by (intro exI [of _ i] exI [of _ t] exI [of _ r]) (auto simp: gated_def)
qed

section \<open>What the refresh may do\<close>

definition refresh_action ::
  "refresh_inputs \<Rightarrow> (string \<Rightarrow> string option) \<Rightarrow> config \<Rightarrow> remediation_mode \<Rightarrow> action \<Rightarrow> bool" where
  "refresh_action g env cfg mode a =
     (let data_dir = data_dir_path env (cf_general cfg);
          repo = gc_acfs_repo (cf_general cfg);
          branch = refresh_branch (rg_date g);
          worktrees = Config.path_join data_dir ''worktrees'';
          worktree = worktree_path worktrees branch;
          asked = (mode = Propose \<or> mode = Apply)
      in a = MakeDirs (Config.path_join data_dir ''candidates'') \<or>
         (\<exists>c. a = WriteText (candidate_path data_dir (rg_candidate_stamp g)) c) \<or>
         asked \<and>
          (a = Git repo [''rev-parse'', ''--git-dir''] \<or> a = MakeDirs worktrees \<or>
           a = Git repo [''worktree'', ''add'', ''-b'', branch, worktree, ''HEAD''] \<or>
           (\<exists>c. a = WriteText (Config.path_join worktree ''checksums.yaml'') c) \<or>
           a = Git worktree [''add'', ''checksums.yaml''] \<or>
           (\<exists>m. a = Git worktree (commit_args m)) \<or>
           a = Git worktree [''rev-parse'', ''HEAD''] \<or>
           a = Gh worktree [''pr'', ''create'', ''--fill'', ''--head'', branch] \<or>
           mode = Apply \<and> a = Git worktree [''push'', ''-u'', ''origin'', branch]))"

lemma does_propose:
  assumes "mode = Propose \<or> mode = Apply"
  shows "does (refresh_action g env cfg mode)
    (propose (rg_date g) (gc_acfs_repo (cf_general cfg))
      (Config.path_join (data_dir_path env (cf_general cfg)) ''worktrees'') candidate message
      create_pr (mode = Apply))"
  unfolding propose_def push_branch_def Let_def
  using assms by (intro does_intros) (auto simp: refresh_action_def Let_def)

lemmas does_propose_modes = does_propose [of Propose, simplified] does_propose [of Apply, simplified]

lemma does_publish:
  "does (refresh_action g env cfg mode)
    (publish g cfg (data_dir_path env (cf_general cfg)) original mode verify plan)"
proof -
  have "refresh_action g env cfg mode
      (MakeDirs (Config.path_join (data_dir_path env (cf_general cfg)) ''candidates''))"
    "refresh_action g env cfg mode
      (WriteText (candidate_path (data_dir_path env (cf_general cfg)) (rg_candidate_stamp g)) c)" for c
    by (simp_all add: refresh_action_def Let_def)
  then show ?thesis
    unfolding publish_def Let_def
    by (auto intro!: does_intros does_propose_modes simp: proposes_def split: sum.split option.split)
qed

lemma does_refresh:
  "does (refresh_action g env cfg mode) (refresh_checksums w g env cfg only mode verify local fs)"
  unfolding refresh_checksums_def Let_def
  by (auto intro!: does_intros does_publish split: sum.split option.split prod.split)

text \<open>
  all that a checksum refresh does outside the ledger, whatever the world answers. It writes the
  candidate under the data directory; only in the modes propose and apply it adds a worktree on a
  fresh branch \<open>afsc/checksum-refresh-\<dots>\<close>, commits the candidate there and may open a pull request;
  only in apply mode it pushes, and nothing but that branch.
\<close>

theorem refresh_stays_on_its_branch:
  "does (refresh_action g env cfg (refresh_mode arg cfg))
     (cmd_remediate_checksums w g env cfg from_last_run only arg verify local fmt fs)"
  unfolding cmd_remediate_checksums_def
  by (auto intro!: does_intros does_refresh split: sum.split option.split)

section \<open>Short pins\<close>

text \<open>
  a drifted pin of fewer than twelve bytes, an empty one in particular, makes the refresh panic
  in the human format even when the file system answers: the candidate is written, then the pin is
  sliced for the report.
\<close>

theorem short_pins_panic:
  assumes "refresh_names g from_last_run only = Inr (Some names)"
    and "refresh_checksums_file g cfg = Inr (original, cs)"
    and "plan_refresh w (checksums_path cfg) cs names (ledger_root (data_dir_path env (cf_general cfg))) fs =
      Some (fs1, plan)"
    and "q \<in> set (rp_entries plan)" "length (rq_old_sha256 q) < 12"
    and "W = (\<lambda>past a. Answer True out err)"
  shows "\<exists>past' c. cmd_remediate_checksums w g env cfg from_last_run only (Some AdvisoryArg) False local Human
      fs W past = ((fs1, None), past') \<and>
    WriteText (candidate_path (data_dir_path env (cf_general cfg)) (rg_candidate_stamp g)) c \<in> set past'"
proof -
  from assms(4) have "rp_entries plan \<noteq> []" by auto
  moreover have "\<not> printable \<lparr>fr_plan = plan, fr_candidate_path = a, fr_diff = b, fr_proposal = p,
      fr_verified = v\<rparr>" for a b p v
    using assms(4,5) by (auto simp: printable_def slice_12_def intro!: bexI [of _ q])
  ultimately show ?thesis
    using assms(1-3,6)
    by (simp add: cmd_remediate_checksums_def refresh_checksums_def verify_plan_def publish_def io_simps
        proposes_def refresh_mode_def Let_def) blast
qed

section \<open>Samples\<close>

definition sample_refresh_world :: refresh_world where
  "sample_refresh_world =
     \<lparr>rw_rx = literal_rx, rw_F = exact_f64, rw_lg = id,
      rw_diff = \<lparr>df_changes = \<lambda>_ _. [], df_unified = \<lambda>_ _. []\<rparr>, rw_sha = \<lambda>_. ''0123456789ab'',
      rw_enc = \<lambda>_. [], rw_dec = \<lambda>_. None, rw_pid = 1, rw_status_text = \<lambda>_. [],
      rw_fetch = \<lambda>_. \<lparr>fa_file = \<lambda>_. Inr ''echo'', fa_get = \<lambda>_. Inl [], fa_elapsed_ms = 0\<rparr>,
      rw_now = \<lambda>_. 0, rw_run = \<lambda>_. sample_runs, rw_verified_at = \<lambda>_. 0\<rparr>"

definition sample_pins :: "string \<Rightarrow> checksums_file" where
  "sample_pins pin = [(''uv'', sample_entry\<lparr>ie_url := Some ''file:///x'', ie_sha256 := Some pin\<rparr>)]"

definition sample_drifted :: "string \<Rightarrow> refresh_entry" where
  "sample_drifted pin =
     \<lparr>rq_name = ''uv'', rq_url = ''file:///x'', rq_old_sha256 = to_lower (trim pin),
      rq_new_sha256 = ''0123456789ab'', rq_size = 4, rq_drift = None, rq_verification = None\<rparr>"

definition sample_plan :: "string \<Rightarrow> string \<Rightarrow> refresh_plan" where
  "sample_plan path pin =
     \<lparr>rp_checksums_path = path, rp_checked = 1, rp_entries = [sample_drifted pin], rp_skipped = []\<rparr>"

lemma sample_plan_refresh:
  assumes "to_lower (trim pin) \<noteq> ''0123456789ab''" "only = [] \<or> ''uv'' \<in> set only"
  obtains fs' where "plan_refresh sample_refresh_world path (sample_pins pin) only base Map.empty =
    Some (fs', sample_plan path pin)"
proof -
  have "strip_prefix ''file:///x'' ''file://'' = Some ''/x''" by (simp add: strip_prefix_def)
  moreover have "latest_verified d base Map.empty n = None" for d n
    by (simp add: latest_verified_def latest_of_def load_index_def)
  ultimately show ?thesis
    using assms that
    by (simp add: plan_refresh_def sample_pins_def sample_refresh_world_def refresh_one_def sample_entry_def
        normalized_pin_def fetch_bytes_def drift_against_def baseline_of_def ledger_get_def opt_or_def
        Let_def sample_plan_def sample_drifted_def)
qed

theorem refresh_agrees_with_validation_witness:
  "hc_error (check_hash (rw_sha sample_refresh_world) (rw_fetch sample_refresh_world ''uv'') ''uv''
     ''file:///x'' (Some [])) = Some ''missing sha256 checksum''"
proof -
  have "to_lower (trim []) = []" by code_simp
  then obtain fs' where plan:
    "plan_refresh sample_refresh_world [] (sample_pins []) [] [] Map.empty = Some (fs', sample_plan [] [])"
    using sample_plan_refresh [of "[]" "[]" "[]" "[]"] by auto
  have "pin_of (sample_drifted []) = (''uv'', ''file:///x'', [], ''0123456789ab'')"
    using \<open>to_lower (trim []) = []\<close> by (simp add: pin_of_def sample_drifted_def)
  then have "(''uv'', ''file:///x'', [], ''0123456789ab'') \<in> pin_of ` set (rp_entries (sample_plan [] []))"
    by (simp add: sample_plan_def)
  with refresh_agrees_with_validation [OF plan] show ?thesis by auto
qed

definition sample_inputs :: "string \<Rightarrow> refresh_inputs" where
  "sample_inputs pin =
     \<lparr>rg_exists = True, rg_original = Inr [], rg_checksums = Inr (sample_pins pin), rg_preflight = Inr (),
      rg_run_id = ''r'', rg_stamp = ''t'', rg_candidate_stamp = ''t'', rg_date = ''d'', rg_diff = \<lambda>_ _. [],
      rg_history = Inr []\<rparr>"

definition sample_refresh_config :: config where
  "sample_refresh_config = sample_check_config
     \<lparr>cf_general := (cf_general sample_check_config)\<lparr>gc_allow_file_urls := True\<rparr>\<rparr>"

lemma sample_checksums_file:
  "refresh_checksums_file (sample_inputs pin) sample_refresh_config = Inr ([], sample_pins pin)"
proof -
  have "url_policy_violation ''file:///x'' True = None" by code_simp
  then have "policy_errors [] (sample_pins pin) True = []"
    by (simp add: policy_errors_def validate_url_policy_def policy_error_def sample_pins_def
        sample_entry_def map_filter_simps)
  then show ?thesis
    by (simp add: refresh_checksums_file_def sample_inputs_def sample_refresh_config_def)
qed

theorem short_pins_panic_witness:
  "\<exists>fs1 past' c. cmd_remediate_checksums sample_refresh_world (sample_inputs []) (\<lambda>_. None)
      sample_refresh_config False [] (Some AdvisoryArg) False True Human Map.empty
      (\<lambda>past a. Answer True [] []) [] = ((fs1, None), past') \<and>
    WriteText (candidate_path (data_dir_path (\<lambda>_. None) (cf_general sample_refresh_config)) ''t'') c
      \<in> set past'"
proof -
  have e: "to_lower (trim []) = []" by code_simp
  then obtain fs1 where plan:
    "plan_refresh sample_refresh_world (checksums_path sample_refresh_config) (sample_pins []) []
       (ledger_root (data_dir_path (\<lambda>_. None) (cf_general sample_refresh_config))) Map.empty =
       Some (fs1, sample_plan (checksums_path sample_refresh_config) [])"
    using sample_plan_refresh [of "[]" "[]" "checksums_path sample_refresh_config"] by auto
  have "sample_drifted [] \<in> set (rp_entries (sample_plan p []))" "length (rq_old_sha256 (sample_drifted [])) < 12"
    for p using e by (simp_all add: sample_plan_def sample_drifted_def)
  from short_pins_panic [OF _ sample_checksums_file plan this refl, of False "[]"]
  show ?thesis by (simp add: refresh_names_def sample_inputs_def) blast
qed

text \<open>A refresh that verifies its one drifted pin.\<close>

lemma sample_executor:
  assumes "unat (max (it_retry_count t) 1) \<ge> 1"
  obtains r where "run_test_with_retry literal_rx exact_f64 rc t sample_runs = Inr r" "tr_status r = Passed"
proof -
  obtain evs r0 where run: "run_test literal_rx id sample_config sample_test sample_attempt =
      (evs, Inr r0)" "tr_success r0" "tr_status r0 = Passed" by (rule sample_run)
  then have "le_run sample_runs 1 = Inr r0" "\<not> wants_retry literal_rx sample_runs n 1 r0" for n
    by (simp_all add: sample_runs_def runner_attempts_def wants_retry_def should_retry_result_def)
  then have "run_test_with_retry literal_rx exact_f64 rc t sample_runs =
      Inr (finish_test sample_runs (max (it_retry_count t) 1) 1 [attempt_record_of 1 0 r0] [] r0)"
    by (simp add: run_test_with_retry_def retry_loop.simps [of _ _ _ _ _ 1])
  with run(3) that show ?thesis by (simp add: rec_simps)
qed

lemma sample_refresh:
  assumes "only = [] \<or> ''uv'' \<in> set only"
  obtains fs' run past' where
    "refresh_checksums sample_refresh_world (sample_inputs ''feed'') (\<lambda>_. None) sample_refresh_config only
       Advisory True True Map.empty (\<lambda>past a. Answer True [] []) [] = ((fs', Some (Inr run)), past')"
    "(''uv'', ''0123456789ab'') \<in> set (updates_of True (fr_plan run))"
    "\<exists>e. rp_entries (fr_plan run) = [e] \<and> rq_name e = ''uv'' \<and> is_verified e" "fr_proposal run = None"
proof -
  let ?cfg = sample_refresh_config and ?w = sample_refresh_world and ?g = "sample_inputs ''feed''"
  let ?base = "ledger_root (data_dir_path (\<lambda>_. None) (cf_general ?cfg))"
  let ?plan = "sample_plan (checksums_path ?cfg) ''feed''"
  have "to_lower (trim ''feed'') \<noteq> ''0123456789ab''" by code_simp
  then obtain fs1 where plan: "plan_refresh ?w (checksums_path ?cfg) (sample_pins ''feed'') only ?base Map.empty =
      Some (fs1, ?plan)" using assms by (rule sample_plan_refresh)
  let ?rc = "build_runner_config ?cfg True (dk_timeout_seconds (cf_docker ?cfg)) 0 False (rg_run_id ?g)"
  let ?e = "sample_drifted ''feed''"
  define e where "e = verify_entry literal_rx exact_f64 ?rc sample_runs
      (refresh_spec ?cfg ''uv'' (snd (hd (sample_pins ''feed'')))) ?e"
  have e: "rq_name e = ''uv''" "rq_new_sha256 e = ''0123456789ab''" "is_verified e"
  proof -
    show "rq_name e = ''uv''" "rq_new_sha256 e = ''0123456789ab''"
      by (simp_all add: e_def verify_entry_def sample_drifted_def)
    obtain r where "run_test_with_retry literal_rx exact_f64 ?rc
        (verify_test ?e (refresh_spec ?cfg ''uv'' (snd (hd (sample_pins ''feed''))))) sample_runs = Inr r"
      "tr_status r = Passed"
      using sample_executor by (metis less_eq_Suc_le linorder_not_less max.cobounded2 unat_1 word_le_nat_alt
          One_nat_def)
    then show "is_verified e" by (simp add: e_def verify_entry_def verification_of_def is_verified_def)
  qed
  have sample: "rw_rx ?w = literal_rx" "rw_F ?w = exact_f64" "rw_run ?w i = sample_runs" for i
    by (simp_all add: sample_refresh_world_def)
  have "rq_name ?e = ''uv''" by (simp add: sample_drifted_def)
  then have "verify_all ?w ?cfg ?rc (sample_pins ''feed'') ?base (rg_run_id ?g) 0 [?e] fs1 =
      ([e], mark_passed ?w ?base (rg_run_id ?g) 0 e fs1)"
    by (simp add: e_def sample sample_pins_def Let_def)
  then have verify: "verify_plan ?w ?g ?cfg True True (sample_pins ''feed'') ?base ?plan fs1 =
      (mark_passed ?w ?base (rg_run_id ?g) 0 e fs1, Inr (?plan\<lparr>rp_entries := [e]\<rparr>))"
    by (simp add: verify_plan_def sample_plan_def)
  have "(''uv'', ''0123456789ab'') \<in> set (updates_of True (?plan\<lparr>rp_entries := [e]\<rparr>))"
    using e by (simp add: updates_of_def included_def bt_extend_def)
  moreover have "\<exists>past'. refresh_checksums ?w ?g (\<lambda>_. None) ?cfg only Advisory True True Map.empty
      (\<lambda>past a. Answer True [] []) [] =
      ((mark_passed ?w ?base (rg_run_id ?g) 0 e fs1,
        Some (Inr \<lparr>fr_plan = ?plan\<lparr>rp_entries := [e]\<rparr>,
          fr_candidate_path = Some (candidate_path (data_dir_path (\<lambda>_. None) (cf_general ?cfg)) (rg_candidate_stamp ?g)),
          fr_diff = rg_diff ?g [] (render_candidate (rg_stamp ?g) [] (?plan\<lparr>rp_entries := [e]\<rparr>) True),
          fr_proposal = None, fr_verified = True\<rparr>)), past')"
    by (simp add: refresh_checksums_def sample_checksums_file plan verify publish_def io_simps proposes_def
        Let_def)
  ultimately show ?thesis using that e by fastforce
qed

theorem proposed_pins_were_executed_witness:
  "\<exists>t r. it_name t = ''uv'' \<and> it_expected_sha256 t = Some ''0123456789ab'' \<and>
     run_test_with_retry literal_rx exact_f64
       (build_runner_config sample_refresh_config True
         (dk_timeout_seconds (cf_docker sample_refresh_config)) 0 False ''r'') t sample_runs = Inr r \<and>
     tr_status r = Passed"
proof -
  obtain fs' run past' where run:
    "refresh_checksums sample_refresh_world (sample_inputs ''feed'') (\<lambda>_. None) sample_refresh_config []
       Advisory True True Map.empty (\<lambda>past a. Answer True [] []) [] = ((fs', Some (Inr run)), past')"
    "(''uv'', ''0123456789ab'') \<in> set (updates_of True (fr_plan run))" using sample_refresh [of "[]"] by blast
  have "fst (refresh_checksums sample_refresh_world (sample_inputs ''feed'') (\<lambda>_. None)
      sample_refresh_config [] Advisory True True Map.empty (\<lambda>past a. Answer True [] []) []) =
      (fs', Some (Inr run))" by (simp only: run(1) fst_conv)
  from proposed_pins_were_executed [OF this run(2)] obtain i t r where
    "it_name t = ''uv''" "it_expected_sha256 t = Some ''0123456789ab''"
    "run_test_with_retry (rw_rx sample_refresh_world) (rw_F sample_refresh_world)
       (build_runner_config sample_refresh_config True (dk_timeout_seconds (cf_docker sample_refresh_config))
         0 False (rg_run_id (sample_inputs ''feed''))) t (rw_run sample_refresh_world i) = Inr r"
    "tr_status r = Passed" by blast
  moreover have "rw_rx sample_refresh_world = literal_rx" "rw_F sample_refresh_world = exact_f64"
    "rw_run sample_refresh_world i = sample_runs" "rg_run_id (sample_inputs ''feed'') = ''r''"
    by (simp_all add: sample_refresh_world_def sample_inputs_def)
  ultimately show ?thesis by metis
qed

theorem candidate_is_the_regenerated_file_witness:
  "render_candidate ''2026'' (unlines (acfs_lines ''2025'' [''# by hand'', []]
       [(''bun'', ''https://b'', ''00''), (''uv'', ''https://u'', ''11'')])) (sample_plan [] []) False =
   unlines (acfs_lines ''2026'' [''# by hand'', []]
       [(''bun'', ''https://b'', ''00''), (''uv'', ''https://u'', ''0123456789ab'')])"
proof -
  have "plain_name ''bun'' \<and> plain_url ''https://b'' \<and> nl \<notin> set ''00''"
    "plain_name ''uv'' \<and> plain_url ''https://u'' \<and> nl \<notin> set ''11''" by code_simp+
  then show ?thesis
    using candidate_is_the_regenerated_file [of "[(''bun'', ''https://b'', ''00''), (''uv'', ''https://u'', ''11'')]"
        "[''# by hand'', []]" "''2025''" "sample_plan [] []" "''2026''" False]
    by (simp add: plain_line_def sample_plan_def sample_drifted_def included_def)
qed

theorem commented_keys_get_the_pin_above_witness:
  "render_candidate ''2026'' (unlines (item_lines (''uv'', ''https://u'', ''11'') @
       [''  '' @ ''bun'' @ '': # '' @ ''pinned'', url_line ''https://b'', pin_line ''00''])) (sample_plan [] []) False =
   unlines (item_lines (''uv'', ''https://u'', ''0123456789ab'') @
       [''  '' @ ''bun'' @ '': # '' @ ''pinned'', url_line ''https://b'', pin_line ''0123456789ab''])"
proof -
  have "plain_name ''uv''" "plain_url ''https://u''" "plain_url ''https://b''"
    "plain_line (''  '' @ ''bun'' @ '': # '' @ ''pinned'')"
    "\<not> contains (trim_end (''  '' @ ''bun'' @ '': # '' @ ''pinned'')) ''sha256:''" by code_simp+
  moreover have "map_of (updates_of False (sample_plan [] [])) ''uv'' = Some ''0123456789ab''"
    by (simp add: updates_of_def included_def sample_plan_def sample_drifted_def bt_extend_def)
  ultimately show ?thesis
    using commented_keys_get_the_pin_above [of "''uv''" "''https://u''" "''https://b''" "''11''" "''00''"
        "''  '' @ ''bun'' @ '': # '' @ ''pinned''" "''bun''" "''pinned''" False "sample_plan [] []"
        "''0123456789ab''" "''2026''"]
    by simp
qed

end
