(* ===== verification/Breaker.thy ===== *)
theory Breaker
  imports Retry
begin

text \<open>
  The resilience components of the Claude client (\<^verbatim>\<open>src/remediation/claude.rs\<close>): the circuit breaker
  and the token bucket. Their atomics and mutexes are fields of a record; every method is one
  function of the state and the clock it reads. The breaker refines an abstract one that keeps a
  counter only where it matters.
\<close>

section \<open>Circuit breaker\<close>

datatype circuit_state = Closed | Open | HalfOpen

record circuit_breaker =
  cb_state :: circuit_state
  cb_failure_count :: u32
  cb_success_count :: u32
  cb_last_failure_time :: "instant option"
  cb_failure_threshold :: u32
  cb_success_threshold :: u32
  cb_timeout_duration :: duration

definition breaker_new :: "u32 \<Rightarrow> u32 \<Rightarrow> duration \<Rightarrow> circuit_breaker" where
  "breaker_new failures successes timeout =
     \<lparr>cb_state = Closed, cb_failure_count = 0, cb_success_count = 0, cb_last_failure_time = None,
      cb_failure_threshold = failures, cb_success_threshold = successes,
      cb_timeout_duration = timeout\<rparr>"

definition should_allow :: "instant \<Rightarrow> circuit_breaker \<Rightarrow> circuit_breaker \<times> bool" where
  "should_allow now cb =
     (case cb_state cb of
        Closed \<Rightarrow> (cb, True)
      | HalfOpen \<Rightarrow> (cb, True)
      | Open \<Rightarrow>
          (case cb_last_failure_time cb of
             Some t \<Rightarrow>
               if since_or_zero now t \<ge> cb_timeout_duration cb
               then (cb\<lparr>cb_state := HalfOpen, cb_success_count := 0\<rparr>, True) else (cb, False)
           | None \<Rightarrow> (cb, False)))"

definition record_success :: "circuit_breaker \<Rightarrow> circuit_breaker" where
  "record_success cb =
     (case cb_state cb of
        Closed \<Rightarrow> cb\<lparr>cb_failure_count := 0\<rparr>
      | HalfOpen \<Rightarrow>
          (let count = cb_success_count cb + 1;
               cb' = cb\<lparr>cb_success_count := count\<rparr>
           in if count \<ge> cb_success_threshold cb
              then cb'\<lparr>cb_state := Closed, cb_failure_count := 0\<rparr> else cb')
      | Open \<Rightarrow> cb)"

definition record_failure :: "instant \<Rightarrow> circuit_breaker \<Rightarrow> circuit_breaker" where
  "record_failure now cb =
     (case cb_state cb of
        Closed \<Rightarrow>
          (let count = cb_failure_count cb + 1;
               cb' = cb\<lparr>cb_failure_count := count\<rparr>
           in if count \<ge> cb_failure_threshold cb
              then cb'\<lparr>cb_state := Open, cb_last_failure_time := Some now\<rparr> else cb')
      | HalfOpen \<Rightarrow> cb\<lparr>cb_state := Open, cb_last_failure_time := Some now\<rparr>
      | Open \<Rightarrow> cb)"

text \<open>What a client does with a breaker, and the breaker after a sequence of such calls.\<close>

datatype breaker_event = Asked instant | Succeeded | Failed_at instant

fun breaker_step :: "breaker_event \<Rightarrow> circuit_breaker \<Rightarrow> circuit_breaker" where
  "breaker_step (Asked now) cb = fst (should_allow now cb)"
| "breaker_step Succeeded cb = record_success cb"
| "breaker_step (Failed_at now) cb = record_failure now cb"

definition breaker_run :: "breaker_event list \<Rightarrow> circuit_breaker \<Rightarrow> circuit_breaker" where
  "breaker_run evs cb = fold breaker_step evs cb"

section \<open>The abstract breaker\<close>

text \<open>
  Its states carry what decides: the failures in a row while closed, the opening time while open,
  the successes in a row while half open.
\<close>

datatype breaker_spec = Running nat | Tripped instant | Probing nat

record breaker_limits =
  bl_failures :: nat
  bl_successes :: nat
  bl_timeout :: duration

fun spec_allows :: "breaker_limits \<Rightarrow> instant \<Rightarrow> breaker_spec \<Rightarrow> bool" where
  "spec_allows l now (Tripped t) \<longleftrightarrow> since_or_zero now t \<ge> bl_timeout l"
| "spec_allows l now _ \<longleftrightarrow> True"

fun spec_step :: "breaker_limits \<Rightarrow> breaker_event \<Rightarrow> breaker_spec \<Rightarrow> breaker_spec" where
  "spec_step l (Asked now) (Tripped t) =
     (if spec_allows l now (Tripped t) then Probing 0 else Tripped t)"
| "spec_step l (Asked now) s = s"
| "spec_step l Succeeded (Running n) = Running 0"
| "spec_step l Succeeded (Probing n) =
     (if Suc n \<ge> bl_successes l then Running 0 else Probing (Suc n))"
| "spec_step l Succeeded (Tripped t) = Tripped t"
| "spec_step l (Failed_at now) (Running n) =
     (if Suc n \<ge> bl_failures l then Tripped now else Running (Suc n))"
| "spec_step l (Failed_at now) (Probing n) = Tripped now"
| "spec_step l (Failed_at now) (Tripped t) = Tripped t"

definition limits_of :: "circuit_breaker \<Rightarrow> breaker_limits" where
  "limits_of cb =
     \<lparr>bl_failures = unat (cb_failure_threshold cb), bl_successes = unat (cb_success_threshold cb),
      bl_timeout = cb_timeout_duration cb\<rparr>"

definition breaker_abs :: "circuit_breaker \<Rightarrow> breaker_spec" where
  "breaker_abs cb =
     (case cb_state cb of
        Closed \<Rightarrow> Running (unat (cb_failure_count cb))
      | Open \<Rightarrow> Tripped (the (cb_last_failure_time cb))
      | HalfOpen \<Rightarrow> Probing (unat (cb_success_count cb)))"

definition breaker_inv :: "circuit_breaker \<Rightarrow> bool" where
  \<comment> \<open>the counters stay below their thresholds, so they never wrap around\<close>
  "breaker_inv cb \<longleftrightarrow>
     0 < cb_failure_threshold cb \<and> 0 < cb_success_threshold cb \<and>
     (cb_state cb = Closed \<longrightarrow> cb_failure_count cb < cb_failure_threshold cb) \<and>
     (cb_state cb = HalfOpen \<longrightarrow> cb_success_count cb < cb_success_threshold cb) \<and>
     (cb_state cb = Open \<longrightarrow> cb_last_failure_time cb \<noteq> None)"

lemma unat_inc: "(a :: u32) < b \<Longrightarrow> unat (a + 1) = Suc (unat a)"
  by (rule unat_Suc_of_less)

lemma breaker_limits_step [simp]: "limits_of (breaker_step ev cb) = limits_of cb"
  by (cases ev) (simp_all add: limits_of_def should_allow_def record_success_def record_failure_def
      Let_def split: circuit_state.split option.split)

lemma breaker_new_inv: "0 < f \<Longrightarrow> 0 < s \<Longrightarrow> breaker_inv (breaker_new f s t)"
  by (simp add: breaker_inv_def breaker_new_def)

lemma breaker_step_inv: "breaker_inv cb \<Longrightarrow> breaker_inv (breaker_step ev cb)"
  by (cases ev) (auto simp: breaker_inv_def should_allow_def record_success_def record_failure_def
      Let_def not_le split: circuit_state.splits option.splits)

lemma breaker_step_abs:
  "breaker_inv cb \<Longrightarrow> breaker_abs (breaker_step ev cb) = spec_step (limits_of cb) ev (breaker_abs cb)"
proof (cases ev)
  case (Asked now)
  assume "breaker_inv cb"
  with Asked show ?thesis
    by (auto simp: breaker_abs_def breaker_inv_def should_allow_def limits_of_def
        split: circuit_state.splits option.splits)
next
  case Succeeded
  assume inv: "breaker_inv cb"
  with unat_inc [of "cb_success_count cb" "cb_success_threshold cb"] Succeeded show ?thesis
    by (auto simp: breaker_abs_def breaker_inv_def record_success_def limits_of_def Let_def
        word_le_nat_alt split: circuit_state.splits)
next
  case (Failed_at now)
  assume inv: "breaker_inv cb"
  with unat_inc [of "cb_failure_count cb" "cb_failure_threshold cb"] Failed_at show ?thesis
    by (auto simp: breaker_abs_def breaker_inv_def record_failure_def limits_of_def Let_def
        word_le_nat_alt split: circuit_state.splits)
qed

lemma breaker_run_abs:
  "breaker_inv cb \<Longrightarrow>
     breaker_inv (breaker_run evs cb) \<and>
     breaker_abs (breaker_run evs cb) = fold (spec_step (limits_of cb)) evs (breaker_abs cb)"
  by (induction evs arbitrary: cb)
    (simp_all add: breaker_run_def breaker_step_inv breaker_step_abs)

lemma should_allow_abs:
  "breaker_inv cb \<Longrightarrow> snd (should_allow now cb) \<longleftrightarrow> spec_allows (limits_of cb) now (breaker_abs cb)"
  by (auto simp: should_allow_def breaker_abs_def breaker_inv_def limits_of_def
      split: circuit_state.splits option.splits)

section \<open>Rate limiter\<close>

record rate_limiter =
  rl_tokens :: u64
  rl_max_tokens :: u64
  rl_refill_rate :: u64 \<comment> \<open>tokens per second\<close>
  rl_last_refill :: instant
  rl_cost_per_request :: u64

definition limiter_new :: "instant \<Rightarrow> u64 \<Rightarrow> u64 \<Rightarrow> u64 \<Rightarrow> rate_limiter" where
  "limiter_new now mx rate cost =
     \<lparr>rl_tokens = mx, rl_max_tokens = mx, rl_refill_rate = rate, rl_last_refill = now,
      rl_cost_per_request = cost\<rparr>"

text \<open>\<open>as u64\<close> of a finite \<open>f64\<close>: towards zero, saturating.\<close>

definition f64_to_u64 :: "rat \<Rightarrow> u64" where
  "f64_to_u64 x = (if x \<le> 0 then 0 else if \<lfloor>x\<rfloor> \<ge> 2 ^ 64 then - 1 else of_int \<lfloor>x\<rfloor>)"

definition refilled_tokens :: "f64_ops \<Rightarrow> duration \<Rightarrow> u64 \<Rightarrow> u64" where
  "refilled_tokens F elapsed rate =
     f64_to_u64 (fl F (as_secs_f64 F elapsed * fl F (of_nat (unat rate))))"

definition refill :: "f64_ops \<Rightarrow> instant \<Rightarrow> instant \<Rightarrow> rate_limiter \<Rightarrow> rate_limiter" where
  \<comment> \<open>\<open>t1\<close> is the clock when the elapsed time is read, \<open>t2\<close> when the refill is dated\<close>
  "refill F t1 t2 rl =
     (let new = refilled_tokens F (since_or_zero t1 (rl_last_refill rl)) (rl_refill_rate rl)
      in if new > 0
         then rl\<lparr>rl_tokens := min (rl_tokens rl + new) (rl_max_tokens rl), rl_last_refill := t2\<rparr>
         else rl)"

datatype try_result = Granted | TooManyRequests "rat option" \<comment> \<open>the wait in seconds, \<open>None\<close> infinite\<close>

definition try_acquire_tokens ::
  "f64_ops \<Rightarrow> instant \<Rightarrow> instant \<Rightarrow> rate_limiter \<Rightarrow> rate_limiter \<times> try_result" where
  "try_acquire_tokens F t1 t2 rl =
     (let rl' = refill F t1 t2 rl; current = rl_tokens rl'
      in if current \<ge> rl_cost_per_request rl'
         then (rl'\<lparr>rl_tokens := current - rl_cost_per_request rl'\<rparr>, Granted)
         else
           let needed = rl_cost_per_request rl' - current
           in (rl', TooManyRequests
                (if rl_refill_rate rl' = 0 then None
                 else Some (fl F (fl F (of_nat (unat needed)) / fl F (of_nat (unat (rl_refill_rate rl'))))))))"

datatype acquire_result = TokenAcquired | RateTimeout | AcquirePanic

text \<open>
  The loop of \<open>acquire\<close>: the \<open>k\<close>-th round reads the clock three times. It sleeps between rounds, so
  \<open>None\<close> means that \<open>fuel\<close> rounds were not enough.
\<close>

fun acquire_tokens ::
  "nat \<Rightarrow> f64_ops \<Rightarrow> (nat \<Rightarrow> instant \<times> instant \<times> instant) \<Rightarrow> nat \<Rightarrow> instant \<Rightarrow> rate_limiter
    \<Rightarrow> (rate_limiter \<times> acquire_result) option" where
  "acquire_tokens 0 F clk k deadline rl = None"
| "acquire_tokens (Suc fuel) F clk k deadline rl =
     (case clk k of (t1, t2, t3) \<Rightarrow>
        (case try_acquire_tokens F t1 t2 rl of
           (rl', Granted) \<Rightarrow> Some (rl', TokenAcquired)
         | (rl', TooManyRequests wait) \<Rightarrow>
             (case Option.bind wait from_secs_f64 of
                None \<Rightarrow> Some (rl', AcquirePanic)
              | Some d \<Rightarrow>
                  if t3 + int d > deadline then Some (rl', RateTimeout)
                  else acquire_tokens fuel F clk (Suc k) deadline rl')))"

section \<open>The limit holds\<close>

text \<open>A run of calls at the given clock readings, with the number of grants.\<close>

fun limiter_run ::
  "f64_ops \<Rightarrow> (instant \<times> instant) list \<Rightarrow> rate_limiter \<Rightarrow> rate_limiter \<times> nat" where
  "limiter_run F [] rl = (rl, 0)"
| "limiter_run F ((t1, t2) # ts) rl =
     (case try_acquire_tokens F t1 t2 rl of
        (rl', r) \<Rightarrow>
          (case limiter_run F ts rl' of
             (rl'', n) \<Rightarrow> (rl'', if r = Granted then Suc n else n)))"

definition clock_ok :: "instant \<Rightarrow> (instant \<times> instant) list \<Rightarrow> bool" where
  "clock_ok t0 ts \<longleftrightarrow> sorted (t0 # concat (map (\<lambda>(t1, t2). [t1, t2]) ts))"

definition truncates :: "f64_ops \<Rightarrow> u64 \<Rightarrow> bool" where
  \<comment> \<open>the product of elapsed time and rate is never rounded up past a whole token\<close>
  "truncates F rate \<longleftrightarrow>
     (\<forall>d. of_nat (unat (refilled_tokens F d rate)) \<le> (of_nat d * of_nat (unat rate) / 1000000000 :: rat))"

lemma unsigned_rat_nonneg [simp]: "(0 :: rat) \<le> unsigned (w :: 'a::len word)"
  by (metis of_nat_0_le_iff of_nat_unat)

lemma f64_to_u64_le: "0 \<le> x \<Longrightarrow> of_nat (unat (f64_to_u64 x)) \<le> (x :: rat)"
proof -
  assume x: "0 \<le> x"
  show ?thesis
  proof (cases "\<lfloor>x\<rfloor> \<ge> 2 ^ 64")
    case True
    have "of_nat (unat (- 1 :: u64)) = (of_int (2 ^ 64 - 1) :: rat)"
      by (simp add: unat_minus_one_word_eq)
    also have "\<dots> \<le> of_int \<lfloor>x\<rfloor>" using True by linarith
    also have "\<dots> \<le> x" by simp
    finally show ?thesis using True x by (auto simp: f64_to_u64_def)
  next
    case False
    with x have "unat (of_int \<lfloor>x\<rfloor> :: u64) = nat \<lfloor>x\<rfloor>"
      by (simp add: unat_eq_nat_uint uint_word_of_int_eq take_bit_int_eq_self)
    then have "of_nat (unat (of_int \<lfloor>x\<rfloor> :: u64)) = (of_int \<lfloor>x\<rfloor> :: rat)"
      using x by simp
    then show ?thesis using False x by (auto simp: f64_to_u64_def)
  qed
qed

lemma as_secs_exact: "as_secs_f64 exact_f64 d = of_nat d / 1000000000"
proof -
  have "of_nat d = (of_nat (d div ns_per_sec) * 1000000000 + of_nat (d mod ns_per_sec) :: rat)"
    unfolding ns_per_sec_def
    by (metis div_mult_mod_eq of_nat_add of_nat_mult of_nat_numeral)
  then show ?thesis by (simp add: as_secs_f64_def exact_f64_def add_divide_distrib)
qed

lemma truncates_exact: "truncates exact_f64 rate"
  unfolding truncates_def refilled_tokens_def as_secs_exact
proof
  fix d
  have fl: "fl exact_f64 x = x" for x by (simp add: exact_f64_def)
  have "0 \<le> (of_nat d / 1000000000 * of_nat (unat rate) :: rat)"
    by (intro mult_nonneg_nonneg) simp_all
  from f64_to_u64_le [OF this]
  show "of_nat (unat (f64_to_u64 (fl exact_f64 (of_nat d / 1000000000 * fl exact_f64 (of_nat (unat rate))))))
      \<le> (of_nat d * of_nat (unat rate) / 1000000000 :: rat)"
    unfolding fl times_divide_eq_left .
qed

lemma refill_bound:
  assumes "truncates F (rl_refill_rate rl)" "rl_last_refill rl \<le> t1" "t1 \<le> t2"
  shows "of_nat (unat (rl_tokens (refill F t1 t2 rl))) \<le>
     (of_nat (unat (rl_tokens rl)) +
      of_int (rl_last_refill (refill F t1 t2 rl) - rl_last_refill rl) *
        of_nat (unat (rl_refill_rate rl)) / 1000000000 :: rat)"
    and "rl_last_refill rl \<le> rl_last_refill (refill F t1 t2 rl)" "rl_last_refill (refill F t1 t2 rl) \<le> t2"
    and "rl_refill_rate (refill F t1 t2 rl) = rl_refill_rate rl"
    "rl_cost_per_request (refill F t1 t2 rl) = rl_cost_per_request rl"
    "rl_max_tokens (refill F t1 t2 rl) = rl_max_tokens rl"
    "rl_tokens rl \<le> rl_max_tokens rl \<Longrightarrow> rl_tokens (refill F t1 t2 rl) \<le> rl_max_tokens rl"
proof -
  let ?d = "since_or_zero t1 (rl_last_refill rl)"
  let ?r = "of_nat (unat (rl_refill_rate rl)) :: rat"
  let ?new = "refilled_tokens F ?d (rl_refill_rate rl)"
  show "of_nat (unat (rl_tokens (refill F t1 t2 rl))) \<le>
     (of_nat (unat (rl_tokens rl)) +
      of_int (rl_last_refill (refill F t1 t2 rl) - rl_last_refill rl) * ?r / 1000000000 :: rat)"
  proof (cases "?new > 0")
    case True
    have "unat (min (rl_tokens rl + ?new) (rl_max_tokens rl)) \<le> unat (rl_tokens rl + ?new)"
      by (simp add: min_def word_le_nat_alt)
    also have "\<dots> \<le> unat (rl_tokens rl) + unat ?new" by (simp add: unat_word_ariths)
    finally have "of_nat (unat (min (rl_tokens rl + ?new) (rl_max_tokens rl))) \<le>
        (of_nat (unat (rl_tokens rl)) + of_nat (unat ?new) :: rat)"
      by (metis of_nat_add of_nat_le_iff)
    also have "of_nat (unat ?new) \<le> (of_nat ?d * ?r / 1000000000 :: rat)"
      using assms(1) by (simp add: truncates_def)
    also have "(of_nat ?d :: rat) = of_int (t1 - rl_last_refill rl)"
      using assms(2) by (simp add: since_or_zero_def)
    also have "of_int (t1 - rl_last_refill rl) * ?r / 1000000000 \<le>
        of_int (t2 - rl_last_refill rl) * ?r / 1000000000"
      using assms(3) by (intro divide_right_mono mult_right_mono) auto
    finally show ?thesis using True by (simp add: refill_def)
  qed (simp add: refill_def)
  show "rl_last_refill rl \<le> rl_last_refill (refill F t1 t2 rl)"
    "rl_last_refill (refill F t1 t2 rl) \<le> t2"
    "rl_refill_rate (refill F t1 t2 rl) = rl_refill_rate rl"
    "rl_cost_per_request (refill F t1 t2 rl) = rl_cost_per_request rl"
    "rl_max_tokens (refill F t1 t2 rl) = rl_max_tokens rl"
    "rl_tokens rl \<le> rl_max_tokens rl \<Longrightarrow> rl_tokens (refill F t1 t2 rl) \<le> rl_max_tokens rl"
    using assms(2,3) by (auto simp: refill_def Let_def)
qed

lemma try_acquire_bound:
  assumes "truncates F (rl_refill_rate rl)" "rl_last_refill rl \<le> t1" "t1 \<le> t2"
    and "try_acquire_tokens F t1 t2 rl = (rl', r)"
  shows "of_nat (unat (rl_tokens rl') + (if r = Granted then unat (rl_cost_per_request rl) else 0)) \<le>
     (of_nat (unat (rl_tokens rl)) +
      of_int (rl_last_refill rl' - rl_last_refill rl) *
        of_nat (unat (rl_refill_rate rl)) / 1000000000 :: rat)"
    and "rl_last_refill rl \<le> rl_last_refill rl'" "rl_last_refill rl' \<le> t2"
    and "rl_refill_rate rl' = rl_refill_rate rl" "rl_cost_per_request rl' = rl_cost_per_request rl"
    "rl_max_tokens rl' = rl_max_tokens rl"
    "rl_tokens rl \<le> rl_max_tokens rl \<Longrightarrow> rl_tokens rl' \<le> rl_max_tokens rl"
proof -
  let ?m = "refill F t1 t2 rl"
  note m = refill_bound [OF assms(1-3)]
  have r: "rl' = ?m \<and> r \<noteq> Granted \<or>
      rl' = ?m\<lparr>rl_tokens := rl_tokens ?m - rl_cost_per_request rl\<rparr> \<and> r = Granted \<and>
      rl_cost_per_request rl \<le> rl_tokens ?m"
    using assms(4) m(5) by (auto simp: try_acquire_tokens_def Let_def split: if_splits)
  then have "unat (rl_tokens rl') + (if r = Granted then unat (rl_cost_per_request rl) else 0) =
      unat (rl_tokens ?m)"
    by (auto simp: unat_sub word_le_nat_alt)
  with m(1) r show "of_nat (unat (rl_tokens rl') + (if r = Granted then unat (rl_cost_per_request rl) else 0)) \<le>
     (of_nat (unat (rl_tokens rl)) +
      of_int (rl_last_refill rl' - rl_last_refill rl) *
        of_nat (unat (rl_refill_rate rl)) / 1000000000 :: rat)"
    by auto
  show "rl_last_refill rl \<le> rl_last_refill rl'" "rl_last_refill rl' \<le> t2"
    "rl_refill_rate rl' = rl_refill_rate rl" "rl_cost_per_request rl' = rl_cost_per_request rl"
    "rl_max_tokens rl' = rl_max_tokens rl"
    using r m by auto
  assume "rl_tokens rl \<le> rl_max_tokens rl"
  with m(7) have "rl_tokens ?m \<le> rl_max_tokens rl" by simp
  with r show "rl_tokens rl' \<le> rl_max_tokens rl"
    by (auto simp: word_le_nat_alt unat_sub)
qed

lemma clock_ok_mono: "clock_ok t ts \<Longrightarrow> t' \<le> t \<Longrightarrow> clock_ok t' ts"
  unfolding clock_ok_def sorted_simps(2) by (meson order_trans)

lemma limiter_run_bound:
  assumes "truncates F (rl_refill_rate rl)" "clock_ok (rl_last_refill rl) ts"
    and "limiter_run F ts rl = (rl', n)" "rl_tokens rl \<le> rl_max_tokens rl"
  shows "of_nat (unat (rl_tokens rl') + n * unat (rl_cost_per_request rl)) \<le>
     (of_nat (unat (rl_tokens rl)) +
      of_int (rl_last_refill rl' - rl_last_refill rl) *
        of_nat (unat (rl_refill_rate rl)) / 1000000000 :: rat)
     \<and> rl_tokens rl' \<le> rl_max_tokens rl \<and>
     rl_last_refill rl \<le> rl_last_refill rl' \<and>
     rl_last_refill rl' \<le> last (rl_last_refill rl # map snd ts)"
  using assms
proof (induction ts arbitrary: rl n)
  case Nil
  then show ?case by simp
next
  case (Cons t ts)
  obtain t1 t2 where t: "t = (t1, t2)" by (cases t)
  obtain rlm r where call: "try_acquire_tokens F t1 t2 rl = (rlm, r)" by fastforce
  obtain k where rest: "limiter_run F ts rlm = (rl', k)" "n = (if r = Granted then Suc k else k)"
    using Cons.prems(3) by (auto simp: t call split: prod.splits)
  have le: "rl_last_refill rl \<le> t1" "t1 \<le> t2" and later: "clock_ok t2 ts"
    using Cons.prems(2) by (auto simp: t clock_ok_def)
  note step = try_acquire_bound [OF Cons.prems(1) le call]
  have later': "clock_ok (rl_last_refill rlm) ts"
    by (rule clock_ok_mono [OF later step(3)])
  note ih = Cons.IH [of rlm k, unfolded step(4-6), OF Cons.prems(1) later' rest(1)
      step(7) [OF Cons.prems(4)]]
  let ?c = "unat (rl_cost_per_request rl)" and ?r = "of_nat (unat (rl_refill_rate rl)) :: rat"
  have "of_nat (unat (rl_tokens rl') + n * ?c) =
      (of_nat (unat (rl_tokens rl') + k * ?c) + of_nat (if r = Granted then ?c else 0) :: rat)"
    by (simp add: rest(2) distrib_right)
  also have "\<dots> \<le> of_nat (unat (rl_tokens rlm)) +
      of_int (rl_last_refill rl' - rl_last_refill rlm) * ?r / 1000000000 +
      of_nat (if r = Granted then ?c else 0)"
    using ih by simp
  also have "\<dots> \<le> of_nat (unat (rl_tokens rl)) +
      of_int (rl_last_refill rlm - rl_last_refill rl) * ?r / 1000000000 +
      of_int (rl_last_refill rl' - rl_last_refill rlm) * ?r / 1000000000"
    using step(1) by simp
  also have "\<dots> = of_nat (unat (rl_tokens rl)) +
      of_int (rl_last_refill rl' - rl_last_refill rl) * ?r / 1000000000"
    by (simp add: algebra_simps add_divide_distrib [symmetric] diff_divide_distrib [symmetric])
  finally have "of_nat (unat (rl_tokens rl') + n * ?c) \<le> of_nat (unat (rl_tokens rl)) +
      of_int (rl_last_refill rl' - rl_last_refill rl) * ?r / 1000000000" .
  moreover have "rl_last_refill rl' \<le> last (rl_last_refill rl # map snd (t # ts))"
    using ih step(3) by (cases ts) (auto simp: t)
  ultimately show ?case using ih step(2) by simp
qed

text \<open>The client's limiter (one token per request, one per second) answers within two rounds.\<close>

lemma as_secs_ge_1:
  assumes "ieee64 F" "d \<ge> ns_per_sec" "d div ns_per_sec \<le> 2 ^ 50"
  shows "1 \<le> as_secs_f64 F d"
proof -
  have "1 \<le> d div ns_per_sec" using assms(2) by (simp add: ns_per_sec_def div_greater_zero_iff)
  then have "1 \<le> fl F (of_nat (d div ns_per_sec))" using fl_nat [OF assms(1,3)] by simp
  moreover have "0 \<le> fl F (of_nat (d mod ns_per_sec) / 1000000000)"
    using fl_mono [OF assms(1), of 0] fl_0 [OF assms(1)] by simp
  ultimately have "1 \<le> fl F (of_nat (d div ns_per_sec)) + fl F (of_nat (d mod ns_per_sec) / 1000000000)"
    by linarith
  from fl_mono [OF assms(1) this] fl_int [OF assms(1), of 1] show ?thesis
    by (simp add: as_secs_f64_def)
qed

lemma refilled_after_a_second:
  assumes "ieee64 F" "d \<ge> ns_per_sec" "d div ns_per_sec \<le> 2 ^ 50"
  shows "0 < refilled_tokens F d 1"
proof -
  have "fl F 1 = 1" using fl_int [OF assms(1), of 1] by simp
  moreover have "1 \<le> fl F (as_secs_f64 F d * 1)"
    using fl_mono [OF assms(1) as_secs_ge_1 [OF assms]] calculation by simp
  ultimately have x: "1 \<le> fl F (as_secs_f64 F d * fl F (of_nat (unat (1 :: u64))))" by simp
  have "0 < f64_to_u64 x" if "1 \<le> x" for x
  proof (cases "\<lfloor>x\<rfloor> \<ge> 2 ^ 64")
    case False
    have fx: "1 \<le> \<lfloor>x\<rfloor>" using that by simp
    with False have "unat (of_int \<lfloor>x\<rfloor> :: u64) = nat \<lfloor>x\<rfloor>"
      by (simp add: unat_eq_nat_uint uint_word_of_int_eq take_bit_int_eq_self)
    then show ?thesis using False that fx by (simp add: f64_to_u64_def word_less_nat_alt)
  qed (use that in \<open>simp add: f64_to_u64_def word_less_nat_alt unat_minus_one_word_eq\<close>)
  with x show ?thesis by (simp only: refilled_tokens_def)
qed

lemma granted_when_full:
  "rl_cost_per_request rl = 1 \<Longrightarrow> 0 < rl_tokens (refill F t1 t2 rl) \<Longrightarrow>
     snd (try_acquire_tokens F t1 t2 rl) = Granted"
proof -
  have "rl_cost_per_request (refill F t1 t2 rl) = rl_cost_per_request rl"
    by (simp add: refill_def Let_def)
  moreover assume "rl_cost_per_request rl = 1" "0 < rl_tokens (refill F t1 t2 rl)"
  ultimately show ?thesis by (simp add: try_acquire_tokens_def Let_def word_le_nat_alt word_less_nat_alt)
qed

lemma refused_when_empty:
  assumes "ieee64 F" "rl_cost_per_request rl = 1" "rl_refill_rate rl = 1"
    and "rl_tokens (refill F t1 t2 rl) = 0"
  shows "try_acquire_tokens F t1 t2 rl = (refill F t1 t2 rl, TooManyRequests (Some 1))"
proof -
  have "rl_cost_per_request (refill F t1 t2 rl) = rl_cost_per_request rl"
    "rl_refill_rate (refill F t1 t2 rl) = rl_refill_rate rl"
    by (simp_all add: refill_def Let_def)
  moreover have "fl F 1 = 1" using fl_int [OF assms(1), of 1] by simp
  ultimately show ?thesis using assms(2-4) by (simp add: try_acquire_tokens_def Let_def)
qed

lemma acquire_two_rounds:
  assumes "ieee64 F" "rl_cost_per_request rl = 1" "rl_refill_rate rl = 1" "0 < rl_max_tokens rl"
    and clk: "clk 0 = (t1, t2, t3)" "clk 1 = (u1, u2, u3)" "rl_last_refill rl \<le> t1" "t1 \<le> t2" "t2 \<le> t3"
    and slept: "t3 + int ns_per_sec \<le> u1" "since_or_zero u1 (rl_last_refill rl) div ns_per_sec \<le> 2 ^ 50"
  shows "\<exists>rl' res. acquire_tokens 2 F clk 0 deadline rl = Some (rl', res) \<and>
     (res = TokenAcquired \<or> res = RateTimeout \<and> t3 + int ns_per_sec > deadline)"
proof (cases "rl_tokens (refill F t1 t2 rl) = 0")
  case False
  then have "snd (try_acquire_tokens F t1 t2 rl) = Granted"
    by (intro granted_when_full assms(2)) (simp add: word_neq_0_conv)
  then show ?thesis using clk(1) by (auto simp: numeral_2_eq_2 split: prod.splits)
next
  case True
  let ?m = "refill F t1 t2 rl"
  have m: "rl_last_refill ?m \<le> t2" "rl_last_refill rl \<le> rl_last_refill ?m" "rl_refill_rate ?m = 1"
    "rl_cost_per_request ?m = 1" "rl_max_tokens ?m = rl_max_tokens rl"
    using clk(3,4) assms(2,3) by (auto simp: refill_def Let_def)
  have wait: "from_secs_f64 1 = Some ns_per_sec"
    using rne_of_int [of 1000000000] by (simp add: from_secs_f64_def ns_per_sec_def Let_def)
  have d: "ns_per_sec \<le> since_or_zero u1 (rl_last_refill ?m)"
    using slept(1) m(1) clk(5) by (simp add: since_or_zero_def)
  have "since_or_zero u1 (rl_last_refill ?m) \<le> since_or_zero u1 (rl_last_refill rl)"
    using m(2) by (simp add: since_or_zero_def)
  then have "since_or_zero u1 (rl_last_refill ?m) div ns_per_sec \<le> 2 ^ 50"
    using slept(2) div_le_mono le_trans by blast
  from refilled_after_a_second [OF assms(1) d this]
  have new: "0 < refilled_tokens F (since_or_zero u1 (rl_last_refill ?m)) (rl_refill_rate ?m)"
    using m(3) by simp
  then have "0 < rl_tokens (refill F u1 u2 ?m)"
    using assms(4) True m(5) by (simp add: refill_def Let_def min_def)
  then have "snd (try_acquire_tokens F u1 u2 ?m) = Granted"
    by (rule granted_when_full [OF m(4)])
  then show ?thesis
    using refused_when_empty [OF assms(1-3) True] clk(1,2) wait
    by (auto simp: numeral_2_eq_2 split: prod.splits)
qed

section \<open>Properties\<close>

text \<open>
  C31: the circuit breaker refines the abstract one, whatever the sequence of requests, successes and
  failures. Its counters stay below their thresholds and never wrap; closed, it carries the number
  of failures in a row; it allows a request exactly when the abstract one does, so an open breaker
  lets nothing through before the timeout and is never stuck after it.
\<close>

theorem breaker_refines_its_specification:
  fixes tm :: duration
  assumes "0 < f" "0 < sc"
  defines "l \<equiv> \<lparr>bl_failures = unat f, bl_successes = unat sc, bl_timeout = tm\<rparr>"
  shows "breaker_abs (breaker_run evs (breaker_new f sc tm)) = fold (spec_step l) evs (Running 0) \<and>
     (snd (should_allow now (breaker_run evs (breaker_new f sc tm))) \<longleftrightarrow>
        spec_allows l now (fold (spec_step l) evs (Running 0))) \<and>
     breaker_inv (breaker_run evs (breaker_new f sc tm))"
proof -
  let ?cb = "breaker_new f sc tm"
  have inv: "breaker_inv ?cb" by (rule breaker_new_inv [OF assms(1,2)])
  have "limits_of ?cb = l" "breaker_abs ?cb = Running 0"
    by (simp_all add: l_def limits_of_def breaker_abs_def breaker_new_def)
  moreover have "limits_of (breaker_run evs ?cb) = limits_of ?cb"
    unfolding breaker_run_def by (induction evs rule: rev_induct) simp_all
  ultimately show ?thesis
    using breaker_run_abs [OF inv, of evs] should_allow_abs [of "breaker_run evs ?cb" now] by simp
qed

theorem breaker_refines_its_specification_witness:
  "breaker_abs (breaker_run [Failed_at 1, Failed_at 2, Asked 90, Succeeded, Failed_at 95]
      (breaker_new 2 2 60)) = Tripped 95 \<and>
   \<not> snd (should_allow 100 (breaker_run [Failed_at 1, Failed_at 2, Asked 90, Succeeded, Failed_at 95]
      (breaker_new 2 2 60)))"
  using breaker_refines_its_specification [of 2 2
      "[Failed_at 1, Failed_at 2, Asked 90, Succeeded, Failed_at 95]" 60 100]
  by (simp add: since_or_zero_def)

text \<open>
  the rate limit holds over every run of calls. The tokens granted, with what is left, never
  exceed the tokens there were at the start plus the refill rate times the time passed, as long as
  the product of time and rate is not rounded up past a whole token; and the bucket never holds
  more than its maximum.
\<close>

theorem rate_limit_holds:
  assumes "truncates F (rl_refill_rate rl)" "clock_ok (rl_last_refill rl) ts"
    and "limiter_run F ts rl = (rl', n)" "rl_tokens rl \<le> rl_max_tokens rl" "ts \<noteq> []"
  shows "of_nat (n * unat (rl_cost_per_request rl)) \<le>
     (of_nat (unat (rl_max_tokens rl)) +
      of_int (snd (last ts) - rl_last_refill rl) * of_nat (unat (rl_refill_rate rl)) / 1000000000 :: rat)
     \<and> rl_tokens rl' \<le> rl_max_tokens rl"
proof -
  let ?r = "of_nat (unat (rl_refill_rate rl)) :: rat"
  note bound = limiter_run_bound [OF assms(1-4)]
  have "of_nat (n * unat (rl_cost_per_request rl)) \<le>
      (of_nat (unat (rl_tokens rl') + n * unat (rl_cost_per_request rl)) :: rat)"
    by (simp only: of_nat_le_iff)
  also have "\<dots> \<le> of_nat (unat (rl_tokens rl)) +
      of_int (rl_last_refill rl' - rl_last_refill rl) * ?r / 1000000000"
    using bound by blast
  also have "\<dots> \<le> of_nat (unat (rl_max_tokens rl)) +
      of_int (snd (last ts) - rl_last_refill rl) * ?r / 1000000000"
  proof (intro add_mono divide_right_mono mult_right_mono)
    show "of_nat (unat (rl_tokens rl)) \<le> (of_nat (unat (rl_max_tokens rl)) :: rat)"
      using assms(4) by (simp only: of_nat_le_iff word_le_nat_alt)
    have "rl_last_refill rl' \<le> snd (last ts)" using bound assms(5) by (simp add: last_map)
    then show "of_int (rl_last_refill rl' - rl_last_refill rl) \<le>
        (of_int (snd (last ts) - rl_last_refill rl) :: rat)"
      by (simp only: of_int_le_iff)
  qed simp_all
  finally show ?thesis using bound by blast
qed

theorem rate_limit_holds_witness:
  "\<exists>rl' n. limiter_run exact_f64 [(0, 0), (1, 1)] (limiter_new 0 10 1 1) = (rl', n) \<and>
     of_nat n \<le> (10 + 1 / 1000000000 :: rat)"
proof -
  obtain rl' n where run: "limiter_run exact_f64 [(0, 0), (1, 1)] (limiter_new 0 10 1 1) = (rl', n)"
    by fastforce
  from rate_limit_holds [OF truncates_exact _ run] run show ?thesis
    by (simp add: clock_ok_def limiter_new_def)
qed

text \<open>
  waiting for a token ends. With the client's limiter, one token per request and one per second,
  and a sleep that lasts at least the time asked for, \<open>acquire\<close> answers after at most two rounds and
  never panics: it has the token, or the second it would have to wait ends after the deadline.
\<close>

theorem acquire_answers:
  assumes "ieee64 F" "0 < mx" "clk 0 = (t1, t2, t3)" "clk 1 = (u1, u2, u3)"
    and "now \<le> t1" "t1 \<le> t2" "t2 \<le> t3" "t3 + int ns_per_sec \<le> u1"
    and "since_or_zero u1 now div ns_per_sec \<le> 2 ^ 50"
  shows "\<exists>rl' res. acquire_tokens 2 F clk 0 deadline ((limiter_new now mx 1 1)\<lparr>rl_tokens := tokens\<rparr>) =
       Some (rl', res) \<and>
     (res = TokenAcquired \<or> res = RateTimeout \<and> t3 + int ns_per_sec > deadline)"
  by (rule acquire_two_rounds [OF assms(1) _ _ _ assms(3,4)])
    (use assms in \<open>simp_all add: limiter_new_def\<close>)

theorem acquire_answers_witness:
  "\<exists>rl' res. acquire_tokens 2 exact_f64 (\<lambda>k. if k = 0 then (5, 6, 7) else (2000000000, 2000000001, 2000000002))
      0 30000000000 ((limiter_new 0 10 1 1)\<lparr>rl_tokens := 0\<rparr>) = Some (rl', res) \<and> res = TokenAcquired"
  using acquire_answers [OF ieee64_exact, of 10
      "\<lambda>k. if k = 0 then (5, 6, 7) else (2000000000, 2000000001, 2000000002)" 5 6 7
      2000000000 2000000001 2000000002 0 30000000000 0]
  by (auto simp: ns_per_sec_def since_or_zero_def)

end
