(* ===== verification/Claude.thy ===== *)
theory Claude
  imports Breaker Results
begin

text \<open>
  The Claude client (second half of \<^verbatim>\<open>src/remediation/claude.rs\<close>): the envelope the CLI prints and
  its interpretation, the argument lists, the guarded retry loop, the edit session and the cost
  account. One call runs at a time; the CLI, the clock, the random numbers and \<open>serde_json\<close> are
  parameters. An \<open>f32\<close> is the rational it denotes and \<open>R\<close> rounds to one; costs are finite.
\<close>

section \<open>Envelope\<close>

record claude_envelope =
  ce_result :: string
  ce_is_error :: bool
  ce_total_cost_usd :: rat
  ce_num_turns :: u32
  ce_session_id :: "string option"
  ce_duration_ms :: u64
  ce_subtype :: "string option"
  ce_errors :: "string list"

definition default_envelope :: claude_envelope where
  "default_envelope =
     \<lparr>ce_result = [], ce_is_error = False, ce_total_cost_usd = 0, ce_num_turns = 0,
      ce_session_id = None, ce_duration_ms = 0, ce_subtype = None, ce_errors = []\<rparr>"

definition error_reason :: "claude_envelope \<Rightarrow> string" where
  "error_reason e =
     (if ce_errors e \<noteq> [] then join ''; '' (ce_errors e)
      else if ce_result e \<noteq> [] \<and> ce_result e \<noteq> ''null'' then ce_result e
      else unwrap_or (ce_subtype e) ''claude reported is_error=true'')"

definition hit_cap :: "claude_envelope \<Rightarrow> bool" where
  "hit_cap e = (case ce_subtype e of None \<Rightarrow> False | Some s \<Rightarrow> prefix ''error_max_'' s)"

text \<open>\<open>pj\<close> is \<open>serde_json::from_str::<ClaudeEnvelope>\<close>.\<close>

definition envelope_parse :: "(string \<Rightarrow> claude_envelope option) \<Rightarrow> string \<Rightarrow> claude_envelope" where
  "envelope_parse pj stdout =
     (let trimmed = trim stdout
      in case pj trimmed of
           Some e \<Rightarrow> e
         | None \<Rightarrow>
             (case find_map
                 (\<lambda>line. case pj (trim line) of
                     None \<Rightarrow> None
                   | Some e \<Rightarrow> if ce_result e \<noteq> [] \<or> ce_is_error e then Some e else None)
                 (rev (lines trimmed)) of
                Some e \<Rightarrow> e
              | None \<Rightarrow> default_envelope\<lparr>ce_result := trimmed\<rparr>))"

datatype remediation_error =
  ClaudeUnavailable string
| ApiError string
| ClaudeError string
| RequestTimeout
| RateLimited string
| CostLimitExceeded rat rat
| ParseFailed string
| SafetyCheckFailed string
| CapReached string

fun remediation_error_str :: "remediation_error \<Rightarrow> string" where
  "remediation_error_str (ClaudeUnavailable m) = ''Claude CLI unavailable: '' @ m"
| "remediation_error_str (ApiError m) = ''Claude API error: '' @ m"
| "remediation_error_str (ClaudeError m) = ''Claude returned error: '' @ m"
| "remediation_error_str RequestTimeout = ''Request timeout''"
| "remediation_error_str (RateLimited m) = ''Rate limited: '' @ m"
| "remediation_error_str (CostLimitExceeded c l) =
     ''Cost limit exceeded: $'' @ show_fixed 2 c @ '' >= $'' @ show_fixed 2 l"
| "remediation_error_str (ParseFailed m) = ''Parse error: '' @ m"
| "remediation_error_str (SafetyCheckFailed m) = ''Safety check failed: '' @ m"
| "remediation_error_str (CapReached m) = ''Claude stopped: '' @ m"

definition envelope_error :: "claude_envelope \<Rightarrow> remediation_error" where
  "envelope_error e =
     (let reason = error_reason e @ '' (after '' @ show_nat (unat (ce_num_turns e)) @
            '' turn(s), $'' @ show_fixed 4 (ce_total_cost_usd e) @ '')''
      in if hit_cap e then CapReached reason else ClaudeError reason)"

definition status_error :: "claude_envelope \<Rightarrow> string \<Rightarrow> string \<Rightarrow> remediation_error" where
  "status_error e stdout stderr0 =
     (let stderr = trim stderr0
      in if contains stderr ''rate limit'' \<or> contains stderr ''429''
         then ApiError ''Rate limited by Anthropic API''
         else if contains stderr ''authentication'' \<or> contains stderr ''401''
         then ClaudeUnavailable ''Authentication failed''
         else ClaudeError
           (if stderr \<noteq> [] then stderr
            else if prefix ''{'' (trim_start stdout)
            then ''exit status non-zero with a non-error envelope (subtype '' @
                 debug_option (ce_subtype e) @ '')''
            else ''exit status non-zero, no envelope; stdout: '' @ take_chars 300 (trim stdout)))"

definition interpret_run ::
  "(rat \<Rightarrow> rat) \<Rightarrow> (string \<Rightarrow> claude_envelope option) \<Rightarrow> bool \<Rightarrow> string \<Rightarrow> string
    \<Rightarrow> (remediation_error \<times> rat) + claude_envelope" where
  "interpret_run R pj status_ok stdout stderr =
     (let e = envelope_parse pj stdout; cost = R (ce_total_cost_usd e)
      in if ce_is_error e then Inl (envelope_error e, cost)
         else if \<not> status_ok then Inl (status_error e stdout stderr, cost)
         else Inr e)"

section \<open>Arguments\<close>

definition advisory_args :: "u32 \<Rightarrow> rat \<Rightarrow> string \<Rightarrow> string list" where
  "advisory_args max_turns budget prompt =
     [''--print'', ''--output-format'', ''json'', ''--permission-mode'', ''default'',
      ''--tools'', ''Read,Grep,Glob'', ''--max-turns'', show_nat (unat (max max_turns 1)),
      ''--max-budget-usd'', show_fixed 2 budget, ''-p'', prompt]"

definition edit_args :: "u32 \<Rightarrow> rat \<Rightarrow> string \<Rightarrow> bool \<Rightarrow> string \<Rightarrow> string list" where
  "edit_args max_turns budget worktree allow_bash prompt =
     [''--print'', ''--output-format'', ''json'', ''--permission-mode'', ''acceptEdits'',
      ''--tools'', if allow_bash then ''Read,Grep,Glob,Edit,Write,Bash'' else ''Read,Grep,Glob,Edit,Write'',
      ''--add-dir'', from_utf8_lossy worktree, ''--max-turns'', show_nat (unat (max max_turns 1)),
      ''--max-budget-usd'', show_fixed 2 budget, ''-p'', prompt]"

section \<open>Client\<close>

record claude_retry_config =
  rt_max_retries :: u32
  rt_initial_delay :: duration
  rt_max_delay :: duration
  rt_multiplier :: rat
  rt_jitter :: rat

definition default_claude_retry :: "f64_ops \<Rightarrow> claude_retry_config" where
  "default_claude_retry F =
     \<lparr>rt_max_retries = 3, rt_initial_delay = from_secs 1, rt_max_delay = from_secs 60,
      rt_multiplier = 2, rt_jitter = fl F (1 / 10)\<rparr>"

text \<open>
  \<open>get_delay\<close>; \<open>None\<close> is the panic of \<open>from_secs_f64\<close>. The attempt is below the number of retries,
  so the cast to \<open>i32\<close> keeps it for every configuration with less than \<open>2 ^ 31\<close> of them.
\<close>

definition get_delay :: "f64_ops \<Rightarrow> claude_retry_config \<Rightarrow> nat \<Rightarrow> rat \<Rightarrow> duration option" where
  "get_delay F rt attempt rnd =
     (let base = fl F (as_secs_f64 F (rt_initial_delay rt) * powi_fl F (rt_multiplier rt) attempt);
          capped = min base (as_secs_f64 F (rt_max_delay rt));
          range = fl F (capped * rt_jitter rt);
          jitter = fl F (fl F (fl F (rnd * range) * 2) - range)
      in from_secs_f64 (max (fl F (capped + jitter)) (fl F (1 / 10))))"

record claude_config =
  cg_enabled :: bool
  cg_auto_commit :: bool
  cg_create_pr :: bool
  cg_require_approval :: bool
  cg_max_attempts :: u32
  cg_timeout_seconds :: u64
  cg_cost_limit_usd :: rat
  cg_max_turns :: u32
  cg_claude_bin :: "string option"

definition default_claude_config :: claude_config where
  "default_claude_config =
     \<lparr>cg_enabled = False, cg_auto_commit = False, cg_create_pr = True, cg_require_approval = True,
      cg_max_attempts = 3, cg_timeout_seconds = 300, cg_cost_limit_usd = 10, cg_max_turns = 8,
      cg_claude_bin = None\<rparr>"

record claude_client =
  cl_workspace :: string
  cl_config :: claude_config
  cl_breaker :: circuit_breaker
  cl_limiter :: rate_limiter
  cl_retry :: claude_retry_config
  cl_total_cost :: u64 \<comment> \<open>microdollars\<close>
  cl_request_count :: u32

definition client_new :: "f64_ops \<Rightarrow> instant \<Rightarrow> string \<Rightarrow> claude_config \<Rightarrow> claude_client" where
  "client_new F now workspace cfg =
     \<lparr>cl_workspace = workspace, cl_config = cfg, cl_breaker = breaker_new 5 2 (from_secs 60),
      cl_limiter = limiter_new now 10 1 1, cl_retry = default_claude_retry F,
      cl_total_cost = 0, cl_request_count = 0\<rparr>"

datatype remediation_method = ClaudeAuto | ClaudeAssisted | ManualRequired | SkippedMethod

record remediation_result =
  rr_success :: bool
  rr_method :: remediation_method
  rr_commit_sha :: "string option"
  rr_pr_url :: "string option"
  rr_duration_ms :: u64
  rr_claude_output :: string
  rr_estimated_cost_usd :: rat
  rr_verification_passed :: bool
  rr_envelope :: "claude_envelope option"

definition fallback_manual_instructions :: "string \<Rightarrow> remediation_result" where
  "fallback_manual_instructions prompt =
     \<lparr>rr_success = False, rr_method = ManualRequired, rr_commit_sha = None, rr_pr_url = None,
      rr_duration_ms = 0,
      rr_claude_output =
        ''Claude is currently unavailable. Please review the following manually:'' @ [nl, nl] @
        prompt @ [nl, nl] @ ''Once you'' @ [squote] @ ''ve made changes, re-run the verification.'',
      rr_estimated_cost_usd = 0, rr_verification_passed = False, rr_envelope = None\<rparr>"

definition envelope_result :: "(rat \<Rightarrow> rat) \<Rightarrow> u64 \<Rightarrow> claude_envelope \<Rightarrow> remediation_result" where
  "envelope_result R ms e =
     \<lparr>rr_success = True, rr_method = ClaudeAuto, rr_commit_sha = None, rr_pr_url = None,
      rr_duration_ms = ms, rr_claude_output = ce_result e,
      rr_estimated_cost_usd = R (ce_total_cost_usd e), rr_verification_passed = False,
      rr_envelope = Some e\<rparr>"

text \<open>The cost account: \<open>fetch_add\<close> wraps around, the reading is rounded.\<close>

definition microdollars :: "(rat \<Rightarrow> rat) \<Rightarrow> rat \<Rightarrow> u64" where
  "microdollars R cost = f64_to_u64 (R (cost * 1000000))"

definition add_cost :: "(rat \<Rightarrow> rat) \<Rightarrow> rat \<Rightarrow> claude_client \<Rightarrow> claude_client" where
  "add_cost R cost cl = cl\<lparr>cl_total_cost := cl_total_cost cl + microdollars R cost\<rparr>"

definition get_total_cost_usd :: "(rat \<Rightarrow> rat) \<Rightarrow> claude_client \<Rightarrow> rat" where
  "get_total_cost_usd R cl = R (R (of_nat (unat (cl_total_cost cl))) / 1000000)"

definition remaining_budget :: "(rat \<Rightarrow> rat) \<Rightarrow> claude_client \<Rightarrow> rat" where
  "remaining_budget R cl =
     max (R (cg_cost_limit_usd (cl_config cl) - get_total_cost_usd R cl)) (R (1 / 100))"

text \<open>What running the CLI yields: a timeout, a failure to start it, or an exit with its output.\<close>

datatype cli_answer = CliTimeout | CliSpawn string | CliExited bool string string

record claude_world =
  cw_json :: "string \<Rightarrow> claude_envelope option"
  cw_cli :: "nat \<Rightarrow> string \<Rightarrow> string list \<Rightarrow> string \<Rightarrow> cli_answer"
    \<comment> \<open>attempt, binary, arguments, working directory\<close>
  cw_asked :: instant \<comment> \<open>the clock in \<open>should_allow\<close>\<close>
  cw_acquire :: instant \<comment> \<open>the clock at the start of \<open>acquire\<close>\<close>
  cw_clock :: "nat \<Rightarrow> instant \<times> instant \<times> instant" \<comment> \<open>the clock in the rounds of \<open>acquire\<close>\<close>
  cw_failed :: "nat \<Rightarrow> instant" \<comment> \<open>the clock in \<open>record_failure\<close>\<close>
  cw_random :: "nat \<Rightarrow> rat"
  cw_elapsed :: "nat \<Rightarrow> u64"

record cli_run =
  ru_bin :: string
  ru_args :: "string list"
  ru_dir :: string

definition claude_binary :: "claude_client \<Rightarrow> string" where
  "claude_binary cl = unwrap_or (cg_claude_bin (cl_config cl)) ''claude''"

definition interpret_answer ::
  "(rat \<Rightarrow> rat) \<Rightarrow> claude_world \<Rightarrow> cli_answer \<Rightarrow> claude_client
    \<Rightarrow> claude_client \<times> (remediation_error + claude_envelope)" where
  "interpret_answer R w ans cl =
     (case ans of
        CliTimeout \<Rightarrow> (cl, Inl RequestTimeout)
      | CliSpawn e \<Rightarrow> (cl, Inl (ClaudeUnavailable e))
      | CliExited ok out err \<Rightarrow>
          (case interpret_run R (cw_json w) ok (from_utf8_lossy out) (from_utf8_lossy err) of
             Inl (e, cost) \<Rightarrow> (add_cost R cost cl, Inl e)
           | Inr env \<Rightarrow> (add_cost R (R (ce_total_cost_usd env)) cl, Inr env)))"

definition execute_claude_cli ::
  "(rat \<Rightarrow> rat) \<Rightarrow> claude_world \<Rightarrow> string \<Rightarrow> nat \<Rightarrow> claude_client
    \<Rightarrow> cli_run \<times> claude_client \<times> (remediation_error + remediation_result)" where
  "execute_claude_cli R w prompt k cl0 =
     (let cl = cl0\<lparr>cl_request_count := cl_request_count cl0 + 1\<rparr>;
          run = \<lparr>ru_bin = claude_binary cl,
                 ru_args = advisory_args (cg_max_turns (cl_config cl)) (remaining_budget R cl) prompt,
                 ru_dir = cl_workspace cl\<rparr>
      in case interpret_answer R w (cw_cli w k (ru_bin run) (ru_args run) (ru_dir run)) cl of
           (cl', Inl e) \<Rightarrow> (run, cl', Inl e)
         | (cl', Inr env) \<Rightarrow> (run, cl', Inr (envelope_result R (cw_elapsed w k) env)))"

fun is_capped :: "remediation_error \<Rightarrow> bool" where
  "is_capped (CapReached _) = True"
| "is_capped (CostLimitExceeded _ _) = True"
| "is_capped _ = False"

fun trips_breaker :: "remediation_error \<Rightarrow> bool" where
  "trips_breaker (ClaudeUnavailable _) = True"
| "trips_breaker RequestTimeout = True"
| "trips_breaker (ApiError _) = True"
| "trips_breaker _ = False"

definition note_failure :: "instant \<Rightarrow> claude_client \<Rightarrow> claude_client" where
  "note_failure now cl = cl\<lparr>cl_breaker := record_failure now (cl_breaker cl)\<rparr>"

definition note_success :: "claude_client \<Rightarrow> claude_client" where
  "note_success cl = cl\<lparr>cl_breaker := record_success (cl_breaker cl)\<rparr>"

datatype claude_outcome =
  Answered remediation_result | Refused remediation_error | ClaudePanicked

text \<open>The retry loop: \<open>n\<close> attempts are left, \<open>k\<close> is the number of the next one.\<close>

fun claude_attempts ::
  "f64_ops \<Rightarrow> (rat \<Rightarrow> rat) \<Rightarrow> claude_world \<Rightarrow> string \<Rightarrow> nat \<Rightarrow> nat \<Rightarrow> claude_client
    \<Rightarrow> cli_run list \<times> claude_client \<times> claude_outcome" where
  "claude_attempts F R w prompt 0 k cl = ([], cl, Answered (fallback_manual_instructions prompt))"
| "claude_attempts F R w prompt (Suc n) k cl =
     (if 0 < k \<and> get_delay F (cl_retry cl) k (cw_random w k) = None then ([], cl, ClaudePanicked)
      else
        (case execute_claude_cli R w prompt k cl of
           (run, cl', Inr res) \<Rightarrow>
             ([run], note_success cl', Answered (res\<lparr>rr_duration_ms := cw_elapsed w (Suc k)\<rparr>))
         | (run, cl', Inl e) \<Rightarrow>
             if is_capped e then ([run], cl', Refused e)
             else
               (case claude_attempts F R w prompt n (Suc k)
                   (if trips_breaker e then note_failure (cw_failed w k) cl' else cl') of
                  (runs, cl'', res) \<Rightarrow> (run # runs, cl'', res))))"

definition RATE_TIMEOUT_TEXT :: string where
  "RATE_TIMEOUT_TEXT = ''Rate limit timeout exceeded''"

text \<open>
  The guards every call passes first: the switch, the breaker, the limiter with its 30 seconds, the
  cost limit. \<open>None\<close> when \<open>acquire\<close> has not answered after \<open>fuel\<close> rounds.
\<close>

datatype guard_answer =
  Disabled | BreakerOpen | OutOfTokens | OverCost rat rat | GuardPanic | GuardsPassed

definition request_guards ::
  "nat \<Rightarrow> f64_ops \<Rightarrow> (rat \<Rightarrow> rat) \<Rightarrow> claude_world \<Rightarrow> claude_client
    \<Rightarrow> (claude_client \<times> guard_answer) option" where
  "request_guards fuel F R w cl0 =
     (if \<not> cg_enabled (cl_config cl0) then Some (cl0, Disabled)
      else
        (case should_allow (cw_asked w) (cl_breaker cl0) of
           (cb, allowed) \<Rightarrow>
             let cl1 = cl0\<lparr>cl_breaker := cb\<rparr>
             in if \<not> allowed then Some (cl1, BreakerOpen)
                else
                  (case acquire_tokens fuel F (cw_clock w) 0 (cw_acquire w + 30 * int ns_per_sec)
                      (cl_limiter cl1) of
                     None \<Rightarrow> None
                   | Some (rl, res) \<Rightarrow>
                       let cl2 = cl1\<lparr>cl_limiter := rl\<rparr>;
                           current = get_total_cost_usd R cl2;
                           limit = cg_cost_limit_usd (cl_config cl2)
                       in Some (cl2,
                            case res of
                              AcquirePanic \<Rightarrow> GuardPanic
                            | RateTimeout \<Rightarrow> OutOfTokens
                            | TokenAcquired \<Rightarrow> if current \<ge> limit then OverCost current limit else GuardsPassed))))"

definition execute_with_resilience ::
  "nat \<Rightarrow> f64_ops \<Rightarrow> (rat \<Rightarrow> rat) \<Rightarrow> claude_world \<Rightarrow> string \<Rightarrow> claude_client
    \<Rightarrow> (cli_run list \<times> claude_client \<times> claude_outcome) option" where
  "execute_with_resilience fuel F R w prompt cl0 =
     map_option
       (\<lambda>(cl, g).
          case g of
            Disabled \<Rightarrow> ([], cl, Answered (fallback_manual_instructions prompt))
          | BreakerOpen \<Rightarrow> ([], cl, Answered (fallback_manual_instructions prompt))
          | OutOfTokens \<Rightarrow> ([], cl, Refused (RateLimited RATE_TIMEOUT_TEXT))
          | OverCost current limit \<Rightarrow> ([], cl, Refused (CostLimitExceeded current limit))
          | GuardPanic \<Rightarrow> ([], cl, ClaudePanicked)
          | GuardsPassed \<Rightarrow> claude_attempts F R w prompt (unat (rt_max_retries (cl_retry cl))) 0 cl)
       (request_guards fuel F R w cl0)"

fun trips_breaker_in_edit :: "remediation_error \<Rightarrow> bool" where
  "trips_breaker_in_edit (ClaudeUnavailable _) = True"
| "trips_breaker_in_edit (ApiError _) = True"
| "trips_breaker_in_edit _ = False"

definition edit_session_run ::
  "(rat \<Rightarrow> rat) \<Rightarrow> claude_world \<Rightarrow> string \<Rightarrow> string \<Rightarrow> bool \<Rightarrow> claude_client
    \<Rightarrow> cli_run list \<times> claude_client \<times> claude_outcome" where
  \<comment> \<open>the errors of a timeout and of a failed start return before the breaker is told\<close>
  "edit_session_run R w prompt worktree allow_bash cl0 =
     (let cl = cl0\<lparr>cl_request_count := cl_request_count cl0 + 1\<rparr>;
          run = \<lparr>ru_bin = claude_binary cl,
                 ru_args = edit_args (cg_max_turns (cl_config cl)) (remaining_budget R cl) worktree
                   allow_bash prompt,
                 ru_dir = worktree\<rparr>;
          ans = cw_cli w 0 (ru_bin run) (ru_args run) (ru_dir run)
      in case interpret_answer R w ans cl of
           (cl', Inr env) \<Rightarrow>
             ([run], note_success cl', Answered (envelope_result R (cw_elapsed w 0) env))
         | (cl', Inl e) \<Rightarrow>
             ([run],
              if (case ans of CliExited _ _ _ \<Rightarrow> True | _ \<Rightarrow> False) \<and> trips_breaker_in_edit e
              then note_failure (cw_failed w 0) cl' else cl',
              Refused e))"

definition execute_edit_session ::
  "nat \<Rightarrow> f64_ops \<Rightarrow> (rat \<Rightarrow> rat) \<Rightarrow> claude_world \<Rightarrow> string \<Rightarrow> string \<Rightarrow> bool \<Rightarrow> claude_client
    \<Rightarrow> (cli_run list \<times> claude_client \<times> claude_outcome) option" where
  "execute_edit_session fuel F R w prompt worktree allow_bash cl0 =
     map_option
       (\<lambda>(cl, g).
          case g of
            Disabled \<Rightarrow> ([], cl, Refused (ClaudeUnavailable ''remediation disabled''))
          | BreakerOpen \<Rightarrow> ([], cl, Refused (ClaudeUnavailable ''circuit breaker open''))
          | OutOfTokens \<Rightarrow> ([], cl, Refused (RateLimited RATE_TIMEOUT_TEXT))
          | OverCost current limit \<Rightarrow> ([], cl, Refused (CostLimitExceeded current limit))
          | GuardPanic \<Rightarrow> ([], cl, ClaudePanicked)
          | GuardsPassed \<Rightarrow> edit_session_run R w prompt worktree allow_bash cl)
       (request_guards fuel F R w cl0)"

section \<open>The account\<close>

text \<open>What the answer of one run costs, and the account after a run.\<close>

definition answer_cost :: "(rat \<Rightarrow> rat) \<Rightarrow> claude_world \<Rightarrow> cli_answer \<Rightarrow> u64" where
  "answer_cost R w ans =
     (case ans of
        CliExited ok out err \<Rightarrow>
          microdollars R (R (ce_total_cost_usd (envelope_parse (cw_json w) (from_utf8_lossy out))))
      | _ \<Rightarrow> 0)"

definition run_answer :: "claude_world \<Rightarrow> nat \<times> cli_run \<Rightarrow> cli_answer" where
  "run_answer w kr = cw_cli w (fst kr) (ru_bin (snd kr)) (ru_args (snd kr)) (ru_dir (snd kr))"

lemma interpret_answer_client:
  "fst (interpret_answer R w ans cl) = cl\<lparr>cl_total_cost := cl_total_cost cl + answer_cost R w ans\<rparr>"
  by (auto simp: interpret_answer_def interpret_run_def add_cost_def answer_cost_def Let_def
      split: cli_answer.split)

definition settled :: "claude_client \<Rightarrow> claude_client \<Rightarrow> bool" where
  \<comment> \<open>nothing but the breaker and the two counters differ, and the breaker moved by its own steps\<close>
  "settled cl cl' \<longleftrightarrow>
     cl_config cl' = cl_config cl \<and> cl_workspace cl' = cl_workspace cl \<and> cl_retry cl' = cl_retry cl \<and>
     (\<exists>evs. cl_breaker cl' = breaker_run evs (cl_breaker cl))"

lemma breaker_run_simps [simp]:
  "breaker_run [] cb = cb" "breaker_run (ev # evs) cb = breaker_run evs (breaker_step ev cb)"
  by (simp_all add: breaker_run_def)

lemma settled_refl [simp]: "settled cl cl"
  by (auto simp: settled_def intro: exI [of _ "[]"])

lemma settled_trans: "settled a b \<Longrightarrow> settled b c \<Longrightarrow> settled a c"
  by (auto simp: settled_def breaker_run_def) (metis fold_append comp_apply)

lemma settled_note:
  "settled cl (note_failure t cl)" "settled cl (note_success cl)"
  "settled cl (cl\<lparr>cl_breaker := fst (should_allow t (cl_breaker cl))\<rparr>)"
  by (auto simp: settled_def note_failure_def note_success_def
      intro: exI [of _ "[Failed_at t]"] exI [of _ "[Succeeded]"] exI [of _ "[Asked t]"])

lemma settled_other [simp]:
  "settled cl (cl'\<lparr>cl_total_cost := c\<rparr>) = settled cl cl'"
  "settled cl (cl'\<lparr>cl_request_count := q\<rparr>) = settled cl cl'"
  "settled cl (cl'\<lparr>cl_limiter := rl\<rparr>) = settled cl cl'"
  "settled (cl\<lparr>cl_request_count := q\<rparr>) cl' = settled cl cl'"
  "settled (cl\<lparr>cl_total_cost := c\<rparr>) cl' = settled cl cl'"
  by (auto simp: settled_def)

lemma note_fields [simp]:
  "cl_total_cost (note_failure t cl) = cl_total_cost cl"
  "cl_request_count (note_failure t cl) = cl_request_count cl"
  "cl_total_cost (note_success cl) = cl_total_cost cl"
  "cl_request_count (note_success cl) = cl_request_count cl"
  by (simp_all add: note_failure_def note_success_def)

definition advisory_run :: "claude_client \<Rightarrow> string \<Rightarrow> cli_run \<Rightarrow> bool" where
  "advisory_run cl prompt r \<longleftrightarrow>
     ru_bin r = claude_binary cl \<and> ru_dir r = cl_workspace cl \<and>
     (\<exists>budget. ru_args r = advisory_args (cg_max_turns (cl_config cl)) budget prompt)"

lemma execute_claude_cli_run:
  assumes "execute_claude_cli R w prompt k cl = (run, cl', r)"
  shows "advisory_run cl prompt run" "settled cl cl'"
    "cl_total_cost cl' = cl_total_cost cl + answer_cost R w (run_answer w (k, run))"
    "cl_request_count cl' = cl_request_count cl + 1"
proof -
  let ?cl = "cl\<lparr>cl_request_count := cl_request_count cl + 1\<rparr>"
  have run: "run = \<lparr>ru_bin = claude_binary ?cl,
      ru_args = advisory_args (cg_max_turns (cl_config ?cl)) (remaining_budget R ?cl) prompt,
      ru_dir = cl_workspace ?cl\<rparr>"
    and cl': "cl' = fst (interpret_answer R w (run_answer w (k, run)) ?cl)"
    using assms
    by (auto simp: execute_claude_cli_def Let_def run_answer_def split: prod.splits sum.splits)
  show "advisory_run cl prompt run" by (auto simp: run advisory_run_def claude_binary_def)
  show "settled cl cl'" "cl_request_count cl' = cl_request_count cl + 1"
    "cl_total_cost cl' = cl_total_cost cl + answer_cost R w (run_answer w (k, run))"
    by (simp_all add: cl' interpret_answer_client)
qed

lemma settled_binary: "settled cl cl' \<Longrightarrow> advisory_run cl' prompt r = advisory_run cl prompt r"
  by (auto simp: settled_def advisory_run_def claude_binary_def)

lemma claude_attempts_runs:
  assumes "claude_attempts F R w prompt n k cl = (runs, cl', out)"
  shows "length runs \<le> n \<and> (\<forall>r\<in>set runs. advisory_run cl prompt r) \<and> settled cl cl' \<and>
    cl_total_cost cl' =
      cl_total_cost cl + sum_list (map (\<lambda>kr. answer_cost R w (run_answer w kr)) (List.enumerate k runs)) \<and>
    cl_request_count cl' = cl_request_count cl + of_nat (length runs)"
  using assms
proof (induction n arbitrary: k cl runs)
  case 0
  then show ?case by simp
next
  case (Suc n)
  show ?case
  proof (cases "0 < k \<and> get_delay F (cl_retry cl) k (cw_random w k) = None")
    case True
    with Suc.prems show ?thesis by simp
  next
    case False
    obtain run cl1 r where cli: "execute_claude_cli R w prompt k cl = (run, cl1, r)"
      by (cases "execute_claude_cli R w prompt k cl")
    note one = execute_claude_cli_run [OF cli]
    show ?thesis
    proof (cases r)
      case (Inr res)
      with Suc.prems False cli one show ?thesis
        by (auto simp: settled_note intro: settled_trans)
    next
      case (Inl e)
      show ?thesis
      proof (cases "is_capped e")
        case True
        with Suc.prems False cli one Inl show ?thesis by auto
      next
        case no_cap: False
        define cl2 where "cl2 = (if trips_breaker e then note_failure (cw_failed w k) cl1 else cl1)"
        obtain runs' where rest: "claude_attempts F R w prompt n (Suc k) cl2 = (runs', cl', out)"
          and runs: "runs = run # runs'"
          using Suc.prems False cli Inl no_cap
          by (cases "claude_attempts F R w prompt n (Suc k) cl2") (auto simp: cl2_def)
        have two: "settled cl cl2" "cl_total_cost cl2 = cl_total_cost cl1"
            "cl_request_count cl2 = cl_request_count cl1"
          using one(2) settled_trans settled_note(1) by (auto simp: cl2_def)
        from Suc.IH [OF rest] one two show ?thesis
          by (auto simp: runs settled_binary intro: settled_trans)
      qed
    qed
  qed
qed

lemma request_guards_client:
  assumes "request_guards fuel F R w cl = Some (cl', g)"
  shows "settled cl cl'" "cl_total_cost cl' = cl_total_cost cl"
    "cl_request_count cl' = cl_request_count cl"
    "g = GuardsPassed \<Longrightarrow> cg_enabled (cl_config cl) \<and> snd (should_allow (cw_asked w) (cl_breaker cl)) \<and>
       get_total_cost_usd R cl < cg_cost_limit_usd (cl_config cl)"
proof -
  have asked: "settled cl (cl\<lparr>cl_breaker := cb\<rparr>)"
    if "should_allow (cw_asked w) (cl_breaker cl) = (cb, a)" for cb a
    using settled_note(3) [of cl "cw_asked w"] that by simp
  show "settled cl cl'" "cl_total_cost cl' = cl_total_cost cl"
    "cl_request_count cl' = cl_request_count cl"
    using assms asked
    by (auto simp: request_guards_def Let_def split: if_splits prod.splits option.splits)
  show "g = GuardsPassed \<Longrightarrow> cg_enabled (cl_config cl) \<and> snd (should_allow (cw_asked w) (cl_breaker cl)) \<and>
       get_total_cost_usd R cl < cg_cost_limit_usd (cl_config cl)"
    using assms
    by (auto simp: request_guards_def get_total_cost_usd_def Let_def
        split: if_splits prod.splits option.splits acquire_result.splits)
qed

lemma execute_with_resilience_cases:
  assumes "execute_with_resilience fuel F R w prompt cl = Some (runs, cl', out)"
  obtains g where "request_guards fuel F R w cl = Some (cl', g)" "g \<noteq> GuardsPassed" "runs = []"
  | cl1 where "request_guards fuel F R w cl = Some (cl1, GuardsPassed)"
      "claude_attempts F R w prompt (unat (rt_max_retries (cl_retry cl1))) 0 cl1 = (runs, cl', out)"
proof -
  from assms obtain cl1 g where g: "request_guards fuel F R w cl = Some (cl1, g)"
    by (auto simp: execute_with_resilience_def)
  with assms that show thesis by (cases g) (auto simp: execute_with_resilience_def)
qed

section \<open>Delays\<close>

text \<open>
  Under IEEE rounding the wait before a retry exists and is below 91 seconds; the jitter comes on top
  of the cap of 60 seconds.
\<close>

lemma get_delay_answers:
  assumes F: "ieee64 F" and r: "0 \<le> rnd" "rnd \<le> 1" and k: "k \<le> 30"
  shows "\<exists>d. get_delay F (default_claude_retry F) k rnd = Some d \<and> d \<le> 90 * ns_per_sec"
proof -
  have mono: "fl F x \<le> of_nat n" if "x \<le> of_nat n" "n \<le> 90" for x n
    using fl_mono [OF F that(1)] fl_nat [OF F, of n] that(2) by simp
  have pos: "0 \<le> fl F x" if "0 \<le> x" for x using fl_mono [OF F that] fl_0 [OF F] by simp
  have w: "as_secs_f64 F (from_secs 1) = 1" "as_secs_f64 F (from_secs 60) = 60"
    using as_secs_f64_whole [OF F, of 1] as_secs_f64_whole [OF F, of 60] by (simp_all add: from_secs_def)
  define capped where "capped = min (fl F (1 * powi_fl F 2 k)) 60"
  define range where "range = fl F (capped * fl F (1 / 10))"
  define jitter where "jitter = fl F (fl F (fl F (rnd * range) * 2) - range)"
  have p: "powi_fl F 2 k = 2 ^ k" using F k by (simp add: ieee64_def)
  have c: "0 \<le> capped" "capped \<le> 60" using pos [of "2 ^ k"] by (simp_all add: capped_def p)
  have tenth: "0 \<le> fl F (1 / 10)" "fl F (1 / 10) \<le> 1 / 4"
    using pos [of "1 / 10"] fl_mono [OF F, of "1 / 10" "1 / 4"] fl_quarter [OF F, of 1] by simp_all
  have "capped * fl F (1 / 10) \<le> 60 * (1 / 4)" using c tenth by (intro mult_mono) auto
  then have range: "0 \<le> range" "range \<le> 15"
    using pos [of "capped * fl F (1 / 10)"] mono [of "capped * fl F (1 / 10)" 15] c tenth
    by (simp_all add: range_def)
  have "rnd * range \<le> 15" using r range mult_left_le_one_le [of range rnd] by linarith
  then have "fl F (rnd * range) \<le> 15" using mono [of _ 15] by simp
  then have "fl F (fl F (rnd * range) * 2) \<le> 30" using mono [of _ 30] by simp
  then have "jitter \<le> 30" using mono [of _ 30] range by (simp add: jitter_def)
  then have "fl F (capped + jitter) \<le> 90" using mono [of _ 90] c by simp
  moreover have "fl F (1 / 10) \<le> 90" "0 \<le> fl F (1 / 10)" using tenth by simp_all
  ultimately have x: "0 \<le> max (fl F (capped + jitter)) (fl F (1 / 10))"
    "max (fl F (capped + jitter)) (fl F (1 / 10)) \<le> of_nat 90" by auto
  obtain d where d: "from_secs_f64 (max (fl F (capped + jitter)) (fl F (1 / 10))) = Some d"
    using from_secs_f64_small [OF x] by auto
  moreover have "get_delay F (default_claude_retry F) k rnd =
      from_secs_f64 (max (fl F (capped + jitter)) (fl F (1 / 10)))"
    by (simp add: get_delay_def default_claude_retry_def w Let_def capped_def range_def jitter_def)
  moreover have "d \<le> 90 * ns_per_sec"
    using from_secs_f64_mono [OF x(2) d from_secs_f64_whole] by simp
  ultimately show ?thesis by auto
qed

definition fresh_random :: "claude_world \<Rightarrow> bool" where
  "fresh_random w \<longleftrightarrow> (\<forall>k. 0 \<le> cw_random w k \<and> cw_random w k \<le> 1)"

lemma claude_attempts_no_panic:
  assumes "ieee64 F" "fresh_random w"
  shows "cl_retry cl = default_claude_retry F \<Longrightarrow> k + n \<le> 31 \<Longrightarrow>
    claude_attempts F R w prompt n k cl = (runs, cl', out) \<Longrightarrow> out \<noteq> ClaudePanicked"
proof (induction n arbitrary: k cl runs)
  case 0
  then show ?case by auto
next
  case (Suc n)
  have "0 \<le> cw_random w k" "cw_random w k \<le> 1" using assms(2) by (simp_all add: fresh_random_def)
  from get_delay_answers [OF assms(1) this, of k] Suc.prems(1,2)
  have delay: "get_delay F (cl_retry cl) k (cw_random w k) \<noteq> None" by auto
  obtain run cl1 r where cli: "execute_claude_cli R w prompt k cl = (run, cl1, r)"
    by (cases "execute_claude_cli R w prompt k cl")
  have "cl_retry cl1 = default_claude_retry F"
    using execute_claude_cli_run(2) [OF cli] Suc.prems(1) by (simp add: settled_def)
  then have "cl_retry cl1 = default_claude_retry F"
    "cl_retry (note_failure t cl1) = default_claude_retry F" for t
    by (simp_all add: note_failure_def)
  from this [THEN Suc.IH, of "Suc k"] Suc.prems(2,3) cli delay show ?case
    by (cases r) (auto split: if_splits prod.splits)
qed

definition clock_advances :: "claude_world \<Rightarrow> rate_limiter \<Rightarrow> bool" where
  \<comment> \<open>the clock does not run backwards, and the sleep of one second lasts at least that\<close>
  "clock_advances w rl =
     (case (cw_clock w 0, cw_clock w 1) of
        ((t1, t2, t3), (u1, u2, u3)) \<Rightarrow>
          rl_last_refill rl \<le> t1 \<and> t1 \<le> t2 \<and> t2 \<le> t3 \<and> t3 + int ns_per_sec \<le> u1 \<and>
          since_or_zero u1 (rl_last_refill rl) div ns_per_sec \<le> 2 ^ 50)"

definition client_limiter :: "rate_limiter \<Rightarrow> bool" where
  "client_limiter rl \<longleftrightarrow>
     rl_cost_per_request rl = 1 \<and> rl_refill_rate rl = 1 \<and> 0 < rl_max_tokens rl"

lemma request_guards_answer:
  assumes "ieee64 F" "client_limiter (cl_limiter cl)" "clock_advances w (cl_limiter cl)"
  shows "\<exists>cl' g. request_guards 2 F R w cl = Some (cl', g) \<and> g \<noteq> GuardPanic"
proof -
  obtain t1 t2 t3 u1 u2 u3 where clk: "cw_clock w 0 = (t1, t2, t3)" "cw_clock w 1 = (u1, u2, u3)"
    by (metis prod_cases3)
  have "\<exists>rl res. acquire_tokens 2 F (cw_clock w) 0 dl (cl_limiter cl) = Some (rl, res) \<and>
      res \<noteq> AcquirePanic" for dl
    using acquire_two_rounds [OF assms(1) _ _ _ clk, of "cl_limiter cl" dl] assms(2,3) clk
    by (force simp: client_limiter_def clock_advances_def)
  from this [of "cw_acquire w + 30 * int ns_per_sec"] show ?thesis
    by (auto simp: request_guards_def Let_def split: prod.split acquire_result.split)
qed

definition never_decides :: "(rat \<Rightarrow> rat) \<Rightarrow> claude_world \<Rightarrow> bool" where
  \<comment> \<open>no run succeeds or stops at a cap of its own\<close>
  "never_decides R w \<longleftrightarrow>
     (\<forall>k b args d ok out err. cw_cli w k b args d = CliExited ok out err \<longrightarrow>
        (\<exists>e c. interpret_run R (cw_json w) ok (from_utf8_lossy out) (from_utf8_lossy err) = Inl (e, c) \<and>
           \<not> is_capped e))"

lemma never_decides_run:
  assumes "never_decides R w"
  shows "\<exists>run cl' e. execute_claude_cli R w prompt k cl = (run, cl', Inl e) \<and> \<not> is_capped e"
proof -
  have "\<exists>cl' e. interpret_answer R w (cw_cli w k b args d) cl1 = (cl', Inl e) \<and> \<not> is_capped e"
    for b args d cl1
    using assms
    by (cases "cw_cli w k b args d") (force simp: never_decides_def interpret_answer_def)+
  from this [of "claude_binary (cl\<lparr>cl_request_count := cl_request_count cl + 1\<rparr>)"
      "advisory_args (cg_max_turns (cl_config cl))
         (remaining_budget R (cl\<lparr>cl_request_count := cl_request_count cl + 1\<rparr>)) prompt"
      "cl_workspace cl" "cl\<lparr>cl_request_count := cl_request_count cl + 1\<rparr>"]
  show ?thesis by (auto simp: execute_claude_cli_def Let_def)
qed

lemma claude_attempts_undecided:
  assumes "ieee64 F" "fresh_random w" "never_decides R w"
  shows "cl_retry cl = default_claude_retry F \<Longrightarrow> k + n \<le> 31 \<Longrightarrow>
    \<exists>runs cl'. claude_attempts F R w prompt n k cl =
      (runs, cl', Answered (fallback_manual_instructions prompt)) \<and> length runs = n"
proof (induction n arbitrary: k cl)
  case 0
  then show ?case by simp
next
  case (Suc n)
  have "0 \<le> cw_random w k" "cw_random w k \<le> 1" using assms(2) by (simp_all add: fresh_random_def)
  from get_delay_answers [OF assms(1) this, of k] Suc.prems
  have delay: "get_delay F (cl_retry cl) k (cw_random w k) \<noteq> None" by auto
  obtain run cl1 e where cli: "execute_claude_cli R w prompt k cl = (run, cl1, Inl e)" "\<not> is_capped e"
    using never_decides_run [OF assms(3)] by blast
  define cl2 where "cl2 = (if trips_breaker e then note_failure (cw_failed w k) cl1 else cl1)"
  have "cl_retry cl2 = default_claude_retry F"
    using execute_claude_cli_run(2) [OF cli(1)] Suc.prems(1)
    by (simp add: settled_def note_failure_def cl2_def)
  from Suc.IH [OF this, of "Suc k"] Suc.prems(2) cli delay show ?case
    by (auto simp: cl2_def)
qed

text \<open>A client at work: every run fails with a message of its own and costs six dollars.\<close>

definition sample_world :: claude_world where
  "sample_world =
     \<lparr>cw_json = (\<lambda>s. Some (default_envelope\<lparr>ce_total_cost_usd := 6\<rparr>)),
      cw_cli = (\<lambda>k b args d. CliExited False [] ''boom''),
      cw_asked = 0, cw_acquire = 0,
      cw_clock = (\<lambda>k. if k = 0 then (0, 0, 0) else (2000000000, 2000000000, 2000000000)),
      cw_failed = (\<lambda>k. 0), cw_random = (\<lambda>k. 1 / 2), cw_elapsed = (\<lambda>k. 0)\<rparr>"

definition sample_client :: claude_client where
  "sample_client = client_new exact_f64 0 ''/work'' (default_claude_config\<lparr>cg_enabled := True\<rparr>)"

lemma sample_guards: "\<exists>cl1. request_guards 2 exact_f64 id sample_world sample_client = Some (cl1, GuardsPassed)"
proof -
  have "(1 :: u64) \<le> 10" by (simp add: word_le_nat_alt)
  then show ?thesis
    by (simp add: request_guards_def sample_client_def sample_world_def client_new_def
      default_claude_config_def should_allow_def breaker_new_def limiter_new_def numeral_2_eq_2
      try_acquire_tokens_def refill_def refilled_tokens_def since_or_zero_def as_secs_f64_def
      exact_f64_def f64_to_u64_def get_total_cost_usd_def Let_def)
qed

lemma sample_client_fields:
  "fresh_random sample_world" "cl_retry sample_client = default_claude_retry exact_f64"
  "client_limiter (cl_limiter sample_client)" "clock_advances sample_world (cl_limiter sample_client)"
  "cl_total_cost sample_client = 0"
  by (simp_all add: fresh_random_def sample_world_def sample_client_def client_new_def
      client_limiter_def limiter_new_def clock_advances_def ns_per_sec_def since_or_zero_def)

lemma sample_never_decides: "never_decides id sample_world"
proof -
  have "\<not> contains (trim ''boom'') ''rate limit'' \<and> \<not> contains (trim ''boom'') ''429'' \<and>
      \<not> contains (trim ''boom'') ''authentication'' \<and> \<not> contains (trim ''boom'') ''401'' \<and>
      trim ''boom'' = ''boom'' \<and> from_utf8_lossy ''boom'' = ''boom''" by code_simp
  then show ?thesis
    by (auto simp: never_decides_def sample_world_def interpret_run_def envelope_parse_def
        default_envelope_def status_error_def Let_def)
qed

lemma sample_cost: "answer_cost id sample_world (run_answer sample_world kr) = 6000000"
  by (simp add: answer_cost_def run_answer_def sample_world_def envelope_parse_def Let_def
      microdollars_def default_envelope_def f64_to_u64_def)

section \<open>Properties\<close>



text \<open>
  every call is answered. With the client's limiter and retry schedule, IEEE rounding and a clock
  that advances, an advisory call and an edit session return after at most two rounds of waiting for
  a token and never panic; an edit session runs the CLI at most once.
\<close>

theorem claude_always_answers:
  assumes "ieee64 F" "fresh_random w" "cl_retry cl = default_claude_retry F"
    and "client_limiter (cl_limiter cl)" "clock_advances w (cl_limiter cl)"
  shows "(\<exists>runs cl' out. execute_with_resilience 2 F R w prompt cl = Some (runs, cl', out) \<and>
       out \<noteq> ClaudePanicked \<and> length runs \<le> 3) \<and>
    (\<exists>runs cl' out. execute_edit_session 2 F R w prompt worktree allow_bash cl = Some (runs, cl', out) \<and>
       out \<noteq> ClaudePanicked \<and> length runs \<le> 1)"
proof -
  obtain cl1 g where g: "request_guards 2 F R w cl = Some (cl1, g)" "g \<noteq> GuardPanic"
    using request_guards_answer [OF assms(1,4,5)] by blast
  have retry: "cl_retry cl1 = default_claude_retry F"
    using request_guards_client(1) [OF g(1)] assms(3) by (simp add: settled_def)
  obtain runs cl' out where run: "claude_attempts F R w prompt 3 0 cl1 = (runs, cl', out)"
    by (metis prod_cases3)
  have "out \<noteq> ClaudePanicked" "length runs \<le> 3"
    using claude_attempts_no_panic [OF assms(1,2) retry _ run] claude_attempts_runs [OF run] by auto
  moreover have "rt_max_retries (cl_retry cl1) = 3" by (simp add: retry default_claude_retry_def)
  moreover obtain runs' cl'' out' where edit:
    "edit_session_run R w prompt worktree allow_bash cl1 = (runs', cl'', out')"
    by (metis prod_cases3)
  moreover from edit have "out' \<noteq> ClaudePanicked" "length runs' \<le> 1"
    by (auto simp: edit_session_run_def Let_def split: prod.splits sum.splits)
  ultimately show ?thesis
    using g run
    by (cases g) (simp_all add: execute_with_resilience_def execute_edit_session_def)
qed

text \<open>
  the cost limit is looked at once per call, before the first run. When a call has passed the
  guards and no run decides it, all three runs are made and paid for, whatever they cost and whatever
  is left of the limit, and the caller gets the manual instructions.
\<close>

theorem retries_ignore_the_cost_limit:
  assumes "ieee64 F" "fresh_random w" "cl_retry cl = default_claude_retry F" "never_decides R w"
    and "request_guards fuel F R w cl = Some (cl1, GuardsPassed)"
  shows "\<exists>runs cl'. execute_with_resilience fuel F R w prompt cl =
      Some (runs, cl', Answered (fallback_manual_instructions prompt)) \<and> length runs = 3 \<and>
      cl_total_cost cl' = cl_total_cost cl +
        sum_list (map (\<lambda>kr. answer_cost R w (run_answer w kr)) (List.enumerate 0 runs))"
proof -
  have retry: "cl_retry cl1 = default_claude_retry F"
    using request_guards_client(1) [OF assms(5)] assms(3) by (simp add: settled_def)
  then have three: "unat (rt_max_retries (cl_retry cl1)) = 3" by (simp add: default_claude_retry_def)
  obtain runs cl' where run: "claude_attempts F R w prompt 3 0 cl1 =
      (runs, cl', Answered (fallback_manual_instructions prompt))" "length runs = 3"
    using claude_attempts_undecided [OF assms(1,2,4) retry, of 0 3 prompt] by auto
  moreover have "execute_with_resilience fuel F R w prompt cl =
      Some (runs, cl', Answered (fallback_manual_instructions prompt))"
    using run(1) assms(5) three by (simp add: execute_with_resilience_def)
  moreover have "cl_total_cost cl' = cl_total_cost cl +
        sum_list (map (\<lambda>kr. answer_cost R w (run_answer w kr)) (List.enumerate 0 runs))"
    using claude_attempts_runs [OF run(1)] request_guards_client(2) [OF assms(5)] by simp
  ultimately show ?thesis by blast
qed

theorem retries_ignore_the_cost_limit_witness:
  "\<exists>runs cl'. execute_with_resilience 2 exact_f64 id sample_world ''fix it'' sample_client =
      Some (runs, cl', Answered (fallback_manual_instructions ''fix it'')) \<and> length runs = 3 \<and>
      cl_total_cost cl' = 18000000 \<and> cg_cost_limit_usd (cl_config sample_client) = 10"
proof -
  obtain cl1 where "request_guards 2 exact_f64 id sample_world sample_client = Some (cl1, GuardsPassed)"
    using sample_guards by blast
  from retries_ignore_the_cost_limit [OF ieee64_exact sample_client_fields(1,2) sample_never_decides this]
  obtain runs cl' where r: "execute_with_resilience 2 exact_f64 id sample_world ''fix it'' sample_client =
      Some (runs, cl', Answered (fallback_manual_instructions ''fix it''))" "length runs = 3"
    "cl_total_cost cl' = cl_total_cost sample_client +
        sum_list (map (\<lambda>kr. answer_cost id sample_world (run_answer sample_world kr)) (List.enumerate 0 runs))"
    by blast
  moreover have "cg_cost_limit_usd (cl_config sample_client) = 10"
    by (simp add: sample_client_def client_new_def default_claude_config_def)
  ultimately show ?thesis
    by (auto simp: sample_cost sample_client_fields numeral_3_eq_3 length_Suc_conv)
qed

theorem claude_always_answers_witness:
  "\<exists>runs cl' out. execute_with_resilience 2 exact_f64 id sample_world ''fix it'' sample_client =
      Some (runs, cl', out) \<and> out \<noteq> ClaudePanicked \<and> length runs \<le> 3"
  using claude_always_answers [OF ieee64_exact sample_client_fields(1-4), of id "''fix it''"] by blast

lemma sample_call:
  "\<exists>runs cl'. execute_with_resilience 2 exact_f64 id sample_world ''fix it'' sample_client =
      Some (runs, cl', Answered (fallback_manual_instructions ''fix it'')) \<and> length runs = 3"
proof -
  obtain cl1 where g: "request_guards 2 exact_f64 id sample_world sample_client = Some (cl1, GuardsPassed)"
    using sample_guards by blast
  then have "cl_retry cl1 = default_claude_retry exact_f64"
    using request_guards_client(1) [OF g] sample_client_fields(2) by (simp add: settled_def)
  with claude_attempts_undecided [OF ieee64_exact sample_client_fields(1) sample_never_decides this, of 0 3 "''fix it''"] g
  show ?thesis by (auto simp: execute_with_resilience_def default_claude_retry_def)
qed



end
