(* ===== verification/Prompts.thy ===== *)
theory Prompts
  imports Persist
begin

text \<open>
  The prompts of the Claude client (\<^verbatim>\<open>src/remediation/prompts.rs\<close>): the edit prompt, the prompt of every
  category, the generic one, and the dry-run report. Paths that are no UTF-8 text are out of scope
  here; \<open>R\<close> rounds an \<open>f64\<close>.
\<close>

definition edit_retry_text :: "string \<Rightarrow> string" where
  "edit_retry_text f =
     [nl, nl] @ ''Your previous edit did not fix it. The installer was re-run against your worktree and still failed:'' @
     [nl, nl] @ f @ [nl, nl] @
     ''Adjust the fix (or leave the tree unchanged if it cannot be fixed inside the policy).''"

definition generate_edit_prompt ::
  "string \<Rightarrow> string \<Rightarrow> string \<Rightarrow> string \<Rightarrow> string option \<Rightarrow> string" where
  "generate_edit_prompt installer category stderr worktree previous =
     (let retry = (case previous of None \<Rightarrow> [] | Some f \<Rightarrow> edit_retry_text f)
      in
       join [nl]
         [''The ACFS installer `'' @ installer @ ''` fails when run from a fresh Ubuntu container. Failure category: '' @ category @ ''.'',
          [],
          ''stderr (tail):'',
          stderr,
          [],
          ''You are working in a git worktree of the ACFS repository: '' @ worktree,
          ''Fix the failure by editing ONLY these files:'',
          ''- checksums.yaml (installer URL and sha256 pins)'',
          ''- the KNOWN_INSTALLERS block of scripts/lib/security.sh'',
          ''- files under scripts/generated/ (regenerated output)'',
          [],
          ''Rules:'',
          ''- Do not edit any other file, do not create files elsewhere, do not run destructive commands.'',
          ''- If the fix is a new upstream installer version, download it, verify it is legitimate, and pin its sha256.'',
          ''- If the failure cannot be fixed within these files (for example an upstream binary needs a newer glibc), make no changes and explain why.'',
          ''- Finish with a short summary of exactly what you changed and why; the installer will be re-run against your worktree before anything is committed.'' @ retry])"

definition bootstrap_mismatch_prompt :: "string \<Rightarrow> string \<Rightarrow> string" where
  "bootstrap_mismatch_prompt stderr workspace =
     join [nl]
       [''ACFS installer failed with Bootstrap mismatch error:'',
        [],
        stderr,
        [],
        ''This means acfs.manifest.yaml was modified but scripts/generated/manifest_index.sh was not regenerated.'',
        [],
        ''Fix this by:'',
        ''1. Run: bun run generate'',
        ''2. Verify with: bun run generate --diff'',
        ''3. If new tools were added, check checksums.yaml has entries for them'',
        ''4. If checksums.yaml is missing entries, add to KNOWN_INSTALLERS in scripts/lib/security.sh'',
        ''5. Generate a candidate checksum file:'',
        ''   candidate='' @ [dquote] @ ''/tmp/acfs-checksums.$$.candidate.yaml'' @ [dquote],
        ''   ./scripts/lib/security.sh --update-checksums > '' @ [dquote] @ ''$candidate'' @ [dquote],
        ''6. Review the diff: diff -u checksums.yaml '' @ [dquote] @ ''$candidate'' @ [dquote] @ '' || ['' @ ''[ $? -eq 1 ]'' @ '']'',
        ''7. Replace checksums.yaml only if the diff is limited to the timestamp header and the intended tool entries'',
        ''8. Regenerate again: bun run generate'',
        ''9. Commit all changes with message: '' @ [dquote] @ ''fix: regenerate scripts after manifest change'' @ [dquote],
        [],
        ''Workspace: '' @ workspace,
        [],
        ''After making changes, verify by running the installer test again.'']"

definition checksum_mismatch_prompt :: "string \<Rightarrow> string \<Rightarrow> string" where
  "checksum_mismatch_prompt stderr workspace =
     join [nl]
       [''ACFS installer failed with Checksum mismatch error:'',
        [],
        stderr,
        [],
        ''This means an upstream installer was updated but checksums.yaml has the old hash.'',
        [],
        ''Fix this by:'',
        ''1. Identify which tool'' @ [squote] @ ''s installer changed from the error message'',
        ''2. Download the new installer and verify it'' @ [squote] @ ''s legitimate'',
        ''3. Generate a candidate checksum file:'',
        ''   candidate='' @ [dquote] @ ''/tmp/acfs-checksums.$$.candidate.yaml'' @ [dquote],
        ''   ./scripts/lib/security.sh --update-checksums > '' @ [dquote] @ ''$candidate'' @ [dquote],
        ''4. If this is a new tool, add it to KNOWN_INSTALLERS in scripts/lib/security.sh'',
        ''5. Review the diff: diff -u checksums.yaml '' @ [dquote] @ ''$candidate'' @ [dquote] @ '' || ['' @ ''[ $? -eq 1 ]'' @ '']'',
        ''6. Replace checksums.yaml only if the diff is limited to the timestamp header and the intended tool entry'',
        ''7. Commit with message: '' @ [dquote] @ ''fix: update <tool> installer checksum'' @ [dquote],
        [],
        ''Workspace: '' @ workspace,
        [],
        ''IMPORTANT: Only update checksums for legitimate installer changes. Verify the upstream release notes.'']"

definition network_prompt :: "string \<Rightarrow> string \<Rightarrow> string" where
  "network_prompt stderr workspace =
     join [nl]
       [''ACFS installer failed with a network error:'',
        [],
        stderr,
        [],
        ''This is typically a transient issue. Recommended actions:'',
        ''1. Check network connectivity: ping github.com'',
        ''2. Check if GitHub/CDN is up: curl -I https://api.github.com'',
        ''3. If behind proxy, ensure proxy settings are correct'',
        ''4. Retry the installation'',
        [],
        ''Workspace: '' @ workspace,
        [],
        ''If the network issue persists, check firewall rules and DNS settings.'']"

definition command_not_found_prompt :: "string \<Rightarrow> string \<Rightarrow> string" where
  "command_not_found_prompt stderr workspace =
     join [nl]
       [''ACFS installer failed because a required command is not installed:'',
        [],
        stderr,
        [],
        ''Fix this by:'',
        ''1. Identify the missing command from the error'',
        ''2. Install it using apt: sudo apt update && sudo apt install -y <package>'',
        ''3. Common packages:'',
        ''   - curl: sudo apt install -y curl'',
        ''   - jq: sudo apt install -y jq'',
        ''   - git: sudo apt install -y git'',
        ''   - bun: curl -fsSL https://bun.sh/install | bash'',
        ''4. Verify installation: which <command>'',
        [],
        ''Workspace: '' @ workspace]"

definition dependency_prompt :: "string \<Rightarrow> string \<Rightarrow> string" where
  "dependency_prompt stderr workspace =
     join [nl]
       [''ACFS installer failed due to a missing dependency:'',
        [],
        stderr,
        [],
        ''Fix this by:'',
        ''1. Review the error to identify the missing dependency'',
        ''2. Check if it'' @ [squote] @ ''s a system package or runtime dependency'',
        ''3. For system packages: sudo apt update && sudo apt install -y <package>'',
        ''4. For Python packages: pip install <package>'',
        ''5. For Node packages: npm install -g <package>'',
        [],
        ''Workspace: '' @ workspace]"

definition apt_repair_failed_prompt :: "string \<Rightarrow> string \<Rightarrow> string" where
  "apt_repair_failed_prompt stderr workspace =
     join [nl]
       [''ACFS installer failed because dpkg/apt repair did not complete:'',
        [],
        stderr,
        [],
        ''This is not a normal transient network failure. The package database needs to be repaired before ACFS can safely continue.'',
        [],
        ''Fix this by:'',
        ''1. Check whether another package manager is active: sudo fuser -v /var/lib/dpkg/lock-frontend /var/lib/dpkg/lock /var/lib/apt/lists/lock'',
        ''2. If no package manager is active, repair interrupted packages: sudo dpkg --configure -a'',
        ''3. Repair broken dependencies: sudo apt-get -f install -y'',
        ''4. Refresh package metadata: sudo apt-get update'',
        ''5. Retry ACFS update after these commands complete successfully'',
        [],
        ''Workspace: '' @ workspace,
        [],
        ''Do not remove apt or dpkg lock files. If a lock is held, wait for the owning process or inspect it first.'']"

definition permission_prompt :: "string \<Rightarrow> string \<Rightarrow> string" where
  "permission_prompt stderr workspace =
     join [nl]
       [''ACFS installer failed due to permission issues:'',
        [],
        stderr,
        [],
        ''Fix this by:'',
        ''1. Check ownership: ls -la <path>'',
        ''2. Fix ownership if needed: sudo chown -R $USER:$USER <path>'',
        ''3. Fix permissions: chmod +x <script>'',
        ''4. For ~/.local: sudo chown -R $USER:$USER ~/.local'',
        ''5. Avoid running the installer as root unless necessary'',
        [],
        ''Workspace: '' @ workspace,
        [],
        ''WARNING: Be careful with permission changes. Only modify what'' @ [squote] @ ''s necessary.'']"

definition resource_prompt :: "string \<Rightarrow> string \<Rightarrow> string" where
  "resource_prompt stderr workspace =
     join [nl]
       [''ACFS installer failed due to insufficient system resources:'',
        [],
        stderr,
        [],
        ''Fix this by:'',
        ''1. Check disk space: df -h'',
        ''2. Check memory: free -h'',
        ''3. Clean up:'',
        ''   - Remove old packages: sudo apt autoremove'',
        ''   - Clear apt cache: sudo apt clean'',
        ''   - Remove old logs: sudo journalctl --vacuum-time=7d'',
        ''4. If low on memory, close unnecessary applications'',
        [],
        ''Workspace: '' @ workspace]"

definition generate_generic_prompt :: "error_classification \<Rightarrow> string \<Rightarrow> string \<Rightarrow> string" where
  "generate_generic_prompt c stderr workspace =
     join [nl]
       [''ACFS installer failed with an error:'',
        [],
        ''Error Category: '' @ ec_category c,
        ''Severity: '' @ severity_debug (ec_severity c),
        ''Retryable: '' @ (if ec_retryable c then ''true'' else ''false''),
        [],
        ''Error Output:'',
        stderr,
        [],
        ''Suggested Fix: '' @ unwrap_or (ec_suggestion c) ''Review the error and fix accordingly'',
        [],
        ''Workspace: '' @ workspace,
        [],
        ''Please analyze this error and apply the appropriate fix. If you make changes, commit them with a descriptive message.'']"

definition generate_prompt :: "error_classification \<Rightarrow> string \<Rightarrow> string \<Rightarrow> string" where
  "generate_prompt c stderr workspace =
     (if ec_category c = ''bootstrap_mismatch'' then bootstrap_mismatch_prompt stderr workspace
      else if ec_category c = ''checksum_mismatch'' then checksum_mismatch_prompt stderr workspace
      else if ec_category c = ''network'' then network_prompt stderr workspace
      else if ec_category c = ''command_not_found'' then command_not_found_prompt stderr workspace
      else if ec_category c = ''dependency'' then dependency_prompt stderr workspace
      else if ec_category c = ''apt_repair_failed'' then apt_repair_failed_prompt stderr workspace
      else if ec_category c = ''permission'' then permission_prompt stderr workspace
      else if ec_category c = ''resource'' then resource_prompt stderr workspace
      else generate_generic_prompt c stderr workspace)"

definition generate_dry_run_report ::
  "(rat \<Rightarrow> rat) \<Rightarrow> error_classification \<Rightarrow> string \<Rightarrow> string \<Rightarrow> string" where
  "generate_dry_run_report R c stderr workspace =
     (let prompt = generate_prompt c stderr workspace
      in
       join [nl]
         [''=== DRY RUN REPORT ==='',
          [],
          ''Would invoke Claude Code with the following prompt:'',
          [],
          ''---'',
          prompt,
          ''---'',
          [],
          ''Error Classification:'',
          ''  Category: '' @ ec_category c,
          ''  Severity: '' @ severity_debug (ec_severity c),
          ''  Retryable: '' @ (if ec_retryable c then ''true'' else ''false''),
          ''  Confidence: '' @ show_fixed 0 (R (ec_confidence c * 100)) @ ''%'',
          [],
          ''No changes were made (dry run mode).''])"

section \<open>The failure is quoted\<close>

lemma contains_join:
  assumes "p \<in> set ps" "contains p n"
  shows "contains (join sep ps) n"
proof -
  obtain a b where "p = a @ n @ b" using assms(2) by (auto simp: contains_iff_sublist sublist_def)
  moreover have "\<exists>a b. join sep ps = a @ p @ b" using assms(1)
  proof (induction ps)
    case (Cons q qs)
    show ?case
    proof (cases "qs = []")
      case False
      then have j: "join sep (q # qs) = q @ sep @ join sep qs" by (rule join_Cons)
      show ?thesis
      proof (cases "p = q")
        case True
        with j show ?thesis by (intro exI [of _ "[]"] exI [of _ "sep @ join sep qs"]) simp
      next
        case False
        with Cons obtain a b where "join sep qs = a @ p @ b" by auto
        with j show ?thesis by (intro exI [of _ "q @ sep @ a"] exI [of _ b]) simp
      qed
    qed (use Cons.prems in \<open>auto intro: exI [of _ "[]"]\<close>)
  qed simp
  ultimately show ?thesis using contains_infix by (metis append.assoc)
qed

lemma contains_self [simp]: "contains s s"
  by (simp add: contains_iff_sublist)

lemma contains_third: "contains (join sep (a # b # p # ps)) p"
  by (rule contains_join [of p]) (rule list.set_intros contains_self)+

lemma category_prompts_quote_stderr:
  "contains (bootstrap_mismatch_prompt stderr w) stderr"
  "contains (checksum_mismatch_prompt stderr w) stderr"
  "contains (network_prompt stderr w) stderr" "contains (command_not_found_prompt stderr w) stderr"
  "contains (dependency_prompt stderr w) stderr" "contains (apt_repair_failed_prompt stderr w) stderr"
  "contains (permission_prompt stderr w) stderr" "contains (resource_prompt stderr w) stderr"
  "contains (generate_generic_prompt c stderr w) stderr"
  unfolding bootstrap_mismatch_prompt_def checksum_mismatch_prompt_def network_prompt_def
    command_not_found_prompt_def dependency_prompt_def apt_repair_failed_prompt_def
    permission_prompt_def resource_prompt_def generate_generic_prompt_def
  by (rule contains_third contains_join [of stderr], (rule list.set_intros contains_self)+)+

lemma contains_if: "contains a n \<Longrightarrow> contains b n \<Longrightarrow> contains (if P then a else b) n"
  by simp

lemma prompt_quotes_stderr: "contains (generate_prompt c stderr workspace) stderr"
  unfolding generate_prompt_def by (intro contains_if category_prompts_quote_stderr)

lemma edit_prompt_quotes_stderr:
  "contains (generate_edit_prompt installer category stderr worktree previous) stderr"
  unfolding generate_edit_prompt_def Let_def
  by (rule contains_join [of stderr], (rule list.set_intros contains_self)+)

end
