(* ===== verification/Traces.thy ===== *)
theory Traces
  imports Commands
begin

text \<open>
  A program logic for the programs of \<open>Commands\<close>: \<open>yields Q m\<close> says of every world that the actions
  \<open>m\<close> adds to the log and the value it returns satisfy \<open>Q\<close>. There is a rule for every combinator, so
  a proof follows the program.
\<close>

type_synonym 'a post = "world \<Rightarrow> action list \<Rightarrow> 'a \<Rightarrow> action list \<Rightarrow> bool"
  \<comment> \<open>the world, the log before, the value, the actions added\<close>

definition yields :: "'a post \<Rightarrow> 'a io \<Rightarrow> bool" where
  "yields Q m \<longleftrightarrow> (\<forall>w past. \<exists>new. snd (m w past) = past @ new \<and> Q w past (fst (m w past)) new)"

lemma yieldsI:
  assumes "\<And>w past. \<exists>new. snd (m w past) = past @ new \<and> Q w past (fst (m w past)) new"
  shows "yields Q m"
  using assms by (simp add: yields_def)

lemma yieldsD:
  assumes "yields Q m" "m w past = (x, past')"
  shows "\<exists>new. past' = past @ new \<and> Q w past x new"
  using assms unfolding yields_def by (metis fst_conv snd_conv)

lemma yields_mono:
  assumes "yields Q m" "\<And>w past x new. Q w past x new \<Longrightarrow> R w past x new"
  shows "yields R m"
  using assms unfolding yields_def by blast

lemma yields_return: "(\<And>w past. Q w past x []) \<Longrightarrow> yields Q (io_return x)"
  by (simp add: yields_def io_return_def)

lemma yields_act: "(\<And>w past. Q w past (w past a) [a]) \<Longrightarrow> yields Q (act a)"
  by (simp add: yields_def act_def)

lemma yields_bind:
  assumes "yields Q m"
    and "\<And>w0 p0 x new. Q w0 p0 x new \<Longrightarrow>
      yields (\<lambda>w past y more. w = w0 \<longrightarrow> past = p0 @ new \<longrightarrow> R w p0 y (new @ more)) (f x)"
  shows "yields R (io_bind m f)"
proof (rule yieldsI)
  fix w past
  obtain x p1 where m: "m w past = (x, p1)" by force
  then obtain new where new: "p1 = past @ new" "Q w past x new" using yieldsD [OF assms(1)] by blast
  obtain y p2 where f: "f x w p1 = (y, p2)" by force
  then obtain more where "p2 = p1 @ more" "R w past y (new @ more)"
    using yieldsD [OF assms(2) [OF new(2)] f] new(1) by blast
  with m f new(1) show "\<exists>new. snd (io_bind m f w past) = past @ new \<and>
      R w past (fst (io_bind m f w past)) new"
    by (auto simp: io_bind_def)
qed

lemma yields_map:
  assumes "yields (\<lambda>w past x new. R w past (g x) new) m"
  shows "yields R (io_map g m)"
  unfolding io_map_def
  by (rule yields_bind [OF assms]) (rule yields_return, simp)

lemma yields_try:
  assumes "yields Q m"
    and "\<And>w0 p0 x new. Q w0 p0 (Inr x) new \<Longrightarrow>
      yields (\<lambda>w past y more. w = w0 \<longrightarrow> past = p0 @ new \<longrightarrow> R w p0 y (new @ more)) (f x)"
    and "\<And>w past e new. Q w past (Inl e) new \<Longrightarrow> R w past (Inl e) new"
  shows "yields R (io_try m f)"
  unfolding io_try_def
proof (rule yields_bind [OF assms(1)])
  fix w0 p0 x new
  assume "Q w0 p0 x new"
  then show "yields (\<lambda>w past y more. w = w0 \<longrightarrow> past = p0 @ new \<longrightarrow> R w p0 y (new @ more))
      (case x of Inl e \<Rightarrow> io_return (Inl e) | Inr x \<Rightarrow> f x)"
    using assms(2,3) by (cases x) (auto intro: yields_return)
qed

lemma yields_git: "(\<And>w past. Q w past (git_answer args (w past (Git dir args))) [Git dir args]) \<Longrightarrow>
    yields Q (git dir args)"
  unfolding git_def by (intro yields_map yields_act) simp

lemma does_yields: "does P m \<longleftrightarrow> yields (\<lambda>w past x new. \<forall>a\<in>set new. P a) m"
  by (simp add: does_def yields_def)

lemma does_mono: "does P m \<Longrightarrow> (\<And>a. P a \<Longrightarrow> Q a) \<Longrightarrow> does Q m"
  unfolding does_def by metis

lemma yields_conj: "yields Q m \<Longrightarrow> yields R m \<Longrightarrow> yields (\<lambda>w past x new. Q w past x new \<and> R w past x new) m"
  unfolding yields_def by (metis append_same_eq same_append_eq)

text \<open>An action that is not in the first part of a log happened after all of it.\<close>

lemma split_after:
  assumes "a \<notin> set xs" "pre @ a # post = xs @ ys"
  shows "\<exists>us. pre = xs @ us \<and> us @ a # post = ys"
  using assms by (auto simp: append_eq_append_conv2 Cons_eq_append_conv append_eq_Cons_conv)

end
