(* ===== verification/Propose.thy ===== *)
theory Propose
  imports Refresh Claude Prompts Traces
begin

text \<open>
  The gated edit session (\<^verbatim>\<open>src/remediation/propose.rs\<close>): a worktree on a fresh branch, rounds of a
  Claude edit session each followed by the transcript scan, the file policy and a rerun of the
  installer, then commit, push and pull request, or everything discarded. Claude's client, the
  executor and the prompts are those of their theories; \<^verbatim>\<open>git\<close>, \<^verbatim>\<open>gh\<close> and the files are the world of
  \<open>Commands\<close>.
\<close>

section \<open>The file policy\<close>

definition POLICY_FILES :: "string list" where
  "POLICY_FILES = [''checksums.yaml'', ''scripts/lib/security.sh'']"

definition POLICY_PREFIXES :: "string list" where
  "POLICY_PREFIXES = [''scripts/generated/'']"

definition path_allowed :: "string \<Rightarrow> bool" where
  "path_allowed path \<longleftrightarrow> path \<in> set POLICY_FILES \<or> list_ex (\<lambda>p. prefix p path) POLICY_PREFIXES"

fun block_scan :: "nat \<Rightarrow> nat option \<Rightarrow> string list \<Rightarrow> (nat \<times> nat) option" where
  "block_scan n start [] = None"
| "block_scan n None (l # ls) =
     block_scan (n + 1) (if contains l ''KNOWN_INSTALLERS=('' then Some n else None) ls"
| "block_scan n (Some s) (l # ls) =
     (if trim l = '')'' then Some (s, n) else block_scan (n + 1) (Some s) ls)"

definition known_installers_block :: "string \<Rightarrow> (nat \<times> nat) option" where
  "known_installers_block text = block_scan 1 None (lines text)"

text \<open>The line range of a hunk in the new file, from its header without the leading signs.\<close>

definition hunk_range :: "string \<Rightarrow> nat \<times> nat" where
  "hunk_range rest =
     (let plus = unwrap_or (find (prefix ''+'') (split_whitespace rest)) ''+0'';
          parts = split_on (CHR '','') (drop 1 plus);
          start = unwrap_or (parse_unsigned 64 (hd parts)) 0;
          len = (case tl parts of [] \<Rightarrow> 1 | l # _ \<Rightarrow> unwrap_or (parse_unsigned 64 l) 1)
      in (start, if len = 0 then start else start + len - 1))"

fun hunks_scan :: "nat \<times> nat \<Rightarrow> bool \<Rightarrow> string list \<Rightarrow> bool" where
  "hunks_scan block saw [] = saw"
| "hunks_scan block saw (l # ls) =
     (case strip_prefix l ''@@ '' of
        None \<Rightarrow> hunks_scan block saw ls
      | Some rest \<Rightarrow>
          if fst (hunk_range rest) < fst block \<or> snd (hunk_range rest) > snd block then False
          else hunks_scan block True ls)"

definition hunks_within :: "string \<Rightarrow> nat \<times> nat \<Rightarrow> bool" where
  "hunks_within diff block = hunks_scan block False (lines diff)"

section \<open>Worktree\<close>

record edit_session =
  es_branch :: string
  es_worktree :: string

record edit_request =
  ed_acfs_repo :: string
  ed_worktrees_dir :: string
  ed_installer :: string
  ed_category :: string
  ed_stderr :: string
  ed_apply :: bool
  ed_create_pr :: bool
  ed_max_attempts :: u32
  ed_allow_bash :: bool
  ed_runner_config :: runner_config
  ed_override :: "installer_override option"
  ed_globals :: global_defaults

text \<open>
  What a session meets, by attempt: Claude's world, the parsed checksum file of the worktree, the
  executor; besides the regex crate, the roundings, the fuel of the rate limiter, and the time and
  random suffix in the name of the branch.
\<close>

record edit_world =
  ew_rx :: regex_crate
  ew_F :: f64_ops
  ew_R :: "rat \<Rightarrow> rat"
  ew_fuel :: nat
  ew_claude :: "nat \<Rightarrow> claude_world"
  ew_checksums :: "nat \<Rightarrow> anyhow + checksums_file"
  ew_run :: "nat \<Rightarrow> loop_env"
  ew_date :: string
  ew_suffix :: string

definition edit_branch :: "edit_world \<Rightarrow> edit_request \<Rightarrow> string" where
  "edit_branch ew req =
     ''afsc/remediate-'' @ ed_installer req @ ''-'' @ ew_date ew @ ''-'' @ ew_suffix ew"

definition session_of :: "edit_world \<Rightarrow> edit_request \<Rightarrow> edit_session" where
  "session_of ew req =
     \<lparr>es_branch = edit_branch ew req,
      es_worktree = worktree_path (ed_worktrees_dir req) (edit_branch ew req)\<rparr>"

definition open_worktree :: "edit_world \<Rightarrow> edit_request \<Rightarrow> (anyhow + edit_session) io" where
  "open_worktree ew req =
     (let s = session_of ew req
      in io_try (io_map (with_context ''acfs_repo is not a git repository'')
             (git (ed_acfs_repo req) [''rev-parse'', ''--git-dir''])) (\<lambda>_.
         io_try (io_map answered (act (MakeDirs (ed_worktrees_dir req)))) (\<lambda>_.
         io_try (git (ed_acfs_repo req)
             [''worktree'', ''add'', ''-b'', es_branch s, es_worktree s, ''HEAD'']) (\<lambda>_.
         io_return (Inr s)))))"

record policy_verdict =
  pv_changed :: "string list"
  pv_violations :: "string list"
  pv_diff :: string

definition SECURITY_SH :: string where "SECURITY_SH = ''scripts/lib/security.sh''"

definition block_violation :: "string \<Rightarrow> string \<Rightarrow> string \<Rightarrow> string list" where
  "block_violation path text file_diff =
     (case known_installers_block text of
        Some block \<Rightarrow>
          if hunks_within file_diff block then []
          else [path @ '': changes outside the KNOWN_INSTALLERS block'']
      | None \<Rightarrow> [path @ '': changes outside the KNOWN_INSTALLERS block''])"

fun policy_violations :: "string \<Rightarrow> string list \<Rightarrow> (anyhow + string list) io" where
  "policy_violations worktree [] = io_return (Inr [])"
| "policy_violations worktree (path # ps) =
     (if \<not> path_allowed path
      then io_try (policy_violations worktree ps) (\<lambda>vs.
           io_return (Inr ((path @ '': not in the edit policy'') # vs)))
      else if path = SECURITY_SH
      then io_bind (act (ReadText (Config.path_join worktree path))) (\<lambda>t.
           io_try (git worktree [''diff'', ''--cached'', ''-U0'', ''--'', path]) (\<lambda>d.
           io_try (policy_violations worktree ps) (\<lambda>vs.
           io_return (Inr (block_violation path (case answered t of Inl _ \<Rightarrow> [] | Inr s \<Rightarrow> s) d @ vs)))))
      else policy_violations worktree ps)"

definition changed_paths :: "string \<Rightarrow> string list" where
  "changed_paths names = filter (\<lambda>s. s \<noteq> []) (map trim (lines names))"

definition check_policy :: "string \<Rightarrow> (anyhow + policy_verdict) io" where
  "check_policy worktree =
     io_try (git worktree [''add'', ''-A'']) (\<lambda>_.
     io_try (git worktree [''diff'', ''--cached'', ''--name-only'']) (\<lambda>names.
     io_try (git worktree [''diff'', ''--cached'', ''-U0'']) (\<lambda>diff.
     io_try (policy_violations worktree (changed_paths names)) (\<lambda>vs.
     io_return (Inr \<lparr>pv_changed = changed_paths names, pv_violations = vs, pv_diff = diff\<rparr>)))))"

definition discard_worktree :: "string \<Rightarrow> edit_session \<Rightarrow> unit io" where
  "discard_worktree acfs_repo s =
     io_bind (git acfs_repo [''worktree'', ''remove'', ''--force'', es_worktree s]) (\<lambda>_.
     io_bind (git acfs_repo [''branch'', ''-D'', es_branch s]) (\<lambda>_. io_return ()))"

definition commit_worktree :: "string \<Rightarrow> string \<Rightarrow> (anyhow + string) io" where
  "commit_worktree worktree message =
     io_try (git worktree [''add'', ''-A'']) (\<lambda>_.
     io_try (git worktree (commit_args message)) (\<lambda>_.
     git worktree [''rev-parse'', ''HEAD'']))"

definition open_pr :: "string \<Rightarrow> string \<Rightarrow> string \<Rightarrow> string \<Rightarrow> string option io" where
  "open_pr worktree branch title body =
     io_map pr_answer (act (Gh worktree
       [''pr'', ''create'', ''--head'', branch, ''--title'', title, ''--body'', body]))"

section \<open>The session\<close>

definition verify_in_worktree :: "edit_world \<Rightarrow> edit_request \<Rightarrow> nat \<Rightarrow> string + verification" where
  "verify_in_worktree ew req k =
     (case ew_checksums ew k of
        Inl e \<Rightarrow> Inl (''worktree checksums.yaml: '' @ err_msg e)
      | Inr cs \<Rightarrow>
          (case map_of cs (ed_installer req) of
             None \<Rightarrow> Inl (ed_installer req @ '' is no longer listed in checksums.yaml'')
           | Some entry \<Rightarrow>
               (case run_test_with_retry (ew_rx ew) (ew_F ew) (ed_runner_config req)
                   (to_test (resolve_spec (ed_installer req) entry (ed_override req) (ed_globals req)))
                   (ew_run ew k) of
                  Inl e \<Rightarrow> Inl (err_chain e)
                | Inr r \<Rightarrow> Inr (verification_of (Inr r)))))"

definition first_line :: "string \<Rightarrow> string" where
  "first_line s = take_chars 200 (unwrap_or (find (\<lambda>l. l \<noteq> []) (map trim (lines s))) [])"

definition debug_code :: "i32 option \<Rightarrow> string" where
  "debug_code c = (case c of None \<Rightarrow> ''None'' | Some i \<Rightarrow> ''Some('' @ show_int i @ '')'')"

definition still_failing :: "verification \<Rightarrow> string" where
  "still_failing v =
     ''status '' @ vf_status v @ '' (exit '' @ debug_code (vf_exit_code v) @ '')'' @ [nl] @ vf_stderr_tail v"

text \<open>How a round ends, and how the session does.\<close>

datatype round_end = RoundFailed string | RoundAgain string | RoundFixed string | RoundPanic
datatype session_end = SessionFailed string | SessionFixed string | SessionPanic

definition unsafe_transcript :: "risk_note list \<Rightarrow> string" where
  "unsafe_transcript risks =
     ''unsafe command in Claude'' @ [squote] @ ''s transcript: '' @
     join ''; '' (map (\<lambda>r. rn_command r @ '' ['' @ rn_risk r @ '']'') risks)"

definition judge_round ::
  "edit_world \<Rightarrow> edit_request \<Rightarrow> edit_session \<Rightarrow> nat \<Rightarrow> string \<Rightarrow> round_end io" where
  \<comment> \<open>the gates after the edit session of attempt \<open>k\<close> with the redacted \<open>summary\<close>\<close>
  "judge_round ew req s k summary =
     (let risks = annotate_risks (ew_rx ew) summary
      in if risks \<noteq> [] then io_return (RoundFailed (unsafe_transcript risks))
         else io_bind (check_policy (es_worktree s)) (\<lambda>v. case v of
           Inl e \<Rightarrow> io_return (RoundFailed (''inspecting the worktree: '' @ err_chain e))
         | Inr verdict \<Rightarrow>
             if pv_violations verdict \<noteq> []
             then io_return (RoundFailed (''edit policy violated: '' @ join ''; '' (pv_violations verdict)))
             else if pv_changed verdict = []
             then io_return (RoundFailed (''Claude made no changes: '' @ first_line summary))
             else io_bind (act (Rerun k)) (\<lambda>_. io_return
               (case verify_in_worktree ew req k of
                  Inr v \<Rightarrow> if vf_passed v then RoundFixed summary else RoundAgain (still_failing v)
                | Inl e \<Rightarrow> RoundAgain e))))"

definition edit_round ::
  "edit_world \<Rightarrow> edit_request \<Rightarrow> edit_session \<Rightarrow> nat \<Rightarrow> string option \<Rightarrow> claude_client
    \<Rightarrow> (claude_client \<times> round_end) io" where
  "edit_round ew req s k previous cl =
     io_bind (act (Session k)) (\<lambda>_.
       case execute_edit_session (ew_fuel ew) (ew_F ew) (ew_R ew) (ew_claude ew k)
           (generate_edit_prompt (ed_installer req) (ed_category req) (ed_stderr req)
             (from_utf8_lossy (es_worktree s)) previous)
           (es_worktree s) (ed_allow_bash req) cl of
         None \<Rightarrow> io_return (cl, RoundPanic)
       | Some (runs, cl', ClaudePanicked) \<Rightarrow> io_return (cl', RoundPanic)
       | Some (runs, cl', Refused e) \<Rightarrow>
           io_return (cl', RoundFailed (''claude edit session (attempt '' @ show_nat k @ ''): '' @
             remediation_error_str e))
       | Some (runs, cl', Answered res) \<Rightarrow>
           io_map (\<lambda>r. (cl', r)) (judge_round ew req s k (redact (ew_rx ew) (rr_claude_output res))))"

definition edit_attempts :: "edit_request \<Rightarrow> u32" where
  "edit_attempts req = max (ed_max_attempts req) 1"

definition unfixed_reason :: "edit_request \<Rightarrow> string option \<Rightarrow> string" where
  "unfixed_reason req previous =
     ''installer still fails after '' @ show_nat (unat (edit_attempts req)) @ '' edit session(s): '' @
     first_line (unwrap_or previous ''no verification result'')"

fun edit_rounds ::
  "edit_world \<Rightarrow> edit_request \<Rightarrow> edit_session \<Rightarrow> nat \<Rightarrow> nat \<Rightarrow> string option \<Rightarrow> claude_client
    \<Rightarrow> (claude_client \<times> session_end) io" where
  \<comment> \<open>so many rounds are left, attempt \<open>k\<close> is next\<close>
  "edit_rounds ew req s 0 k previous cl = io_return (cl, SessionFailed (unfixed_reason req previous))"
| "edit_rounds ew req s (Suc n) k previous cl =
     io_bind (edit_round ew req s k previous cl) (\<lambda>(cl', r).
       case r of
         RoundFailed reason \<Rightarrow> io_return (cl', SessionFailed reason)
       | RoundFixed summary \<Rightarrow> io_return (cl', SessionFixed summary)
       | RoundPanic \<Rightarrow> io_return (cl', SessionPanic)
       | RoundAgain failure \<Rightarrow> edit_rounds ew req s n (Suc k) (Some failure) cl')"

definition total_cost_usd_exact :: "f64_ops \<Rightarrow> claude_client \<Rightarrow> rat" where
  "total_cost_usd_exact F cl = fl F (fl F (of_nat (unat (cl_total_cost cl))) / 1000000)"

definition spent :: "f64_ops \<Rightarrow> claude_client \<Rightarrow> claude_client \<Rightarrow> rat" where
  "spent F before now = max (fl F (total_cost_usd_exact F now - total_cost_usd_exact F before)) 0"

definition edit_title :: "edit_request \<Rightarrow> string" where
  "edit_title req =
     ''fix('' @ ed_installer req @ ''): remediate installer failure ('' @ ed_category req @ '')''"

definition edit_body :: "string \<Rightarrow> string" where
  "edit_body summary =
     summary @ [nl, nl] @
     ''Proposed by automated_flywheel_setup_checker: the installer was re-run against this branch and passed before the commit.''"

definition fail_session :: "edit_request \<Rightarrow> edit_session \<Rightarrow> string \<Rightarrow> rat \<Rightarrow> remediation_outcome io" where
  "fail_session req s reason cost =
     io_bind (discard_worktree (ed_acfs_repo req) s) (\<lambda>_. io_return (FailedRemediation reason cost))"

definition land_session ::
  "edit_request \<Rightarrow> edit_session \<Rightarrow> string \<Rightarrow> rat \<Rightarrow> remediation_outcome io" where
  "land_session req s summary cost =
     (let title = edit_title req; body = edit_body summary
      in io_bind (commit_worktree (es_worktree s) (title @ [nl, nl] @ body)) (\<lambda>c. case c of
           Inl e \<Rightarrow> fail_session req s (''commit: '' @ err_chain e) cost
         | Inr sha \<Rightarrow>
             io_bind (push_branch (ed_apply req) (es_worktree s) (es_branch s)) (\<lambda>p. case p of
               Inl e \<Rightarrow> io_return (FailedRemediation
                 (''branch '' @ es_branch s @ '' committed but push failed: '' @ err_chain e) cost)
             | Inr _ \<Rightarrow>
                 io_map
                   (\<lambda>pr. if ed_apply req then Applied (es_branch s) sha pr cost
                         else Proposed (es_branch s) (Some sha) pr cost)
                   (if ed_create_pr req then open_pr (es_worktree s) (es_branch s) title body
                    else io_return None))))"

definition remediate_with_claude ::
  "edit_world \<Rightarrow> edit_request \<Rightarrow> claude_client \<Rightarrow> (claude_client \<times> remediation_outcome option) io" where
  \<comment> \<open>\<open>None\<close> is a panic of the client, or its limiter out of fuel\<close>
  "remediate_with_claude ew req cl =
     io_bind (open_worktree ew req) (\<lambda>o1. case o1 of
       Inl e \<Rightarrow> io_return (cl, Some (FailedRemediation (''worktree: '' @ err_chain e) 0))
     | Inr s \<Rightarrow>
         io_bind (edit_rounds ew req s (unat (edit_attempts req)) 1 None cl) (\<lambda>(cl', r). case r of
           SessionPanic \<Rightarrow> io_return (cl', None)
         | SessionFailed reason \<Rightarrow>
             io_map (\<lambda>out. (cl', Some out)) (fail_session req s reason (spent (ew_F ew) cl cl'))
         | SessionFixed summary \<Rightarrow>
             io_map (\<lambda>out. (cl', Some out)) (land_session req s summary (spent (ew_F ew) cl cl'))))"

section \<open>What a hunk is judged by\<close>

record hunk =
  hk_old :: "nat \<times> nat" \<comment> \<open>first line and number of lines\<close>
  hk_new :: "nat \<times> nat"
  hk_context :: string
  hk_body :: "string list"

fun show_range :: "nat \<times> nat \<Rightarrow> string" where
  "show_range (a, n) = show_nat a @ (if n = 1 then [] else '','' @ show_nat n)"

definition hunk_lines :: "hunk \<Rightarrow> string list" where
  "hunk_lines h =
     (''@@ -'' @ show_range (hk_old h) @ '' +'' @ show_range (hk_new h) @ '' @@'' @ hk_context h) # hk_body h"

definition diff_text :: "string list \<Rightarrow> hunk list \<Rightarrow> string" where
  "diff_text header hs = unlines (header @ concat (map hunk_lines hs))"

definition range_end :: "nat \<times> nat \<Rightarrow> nat" where
  "range_end r = (if snd r = 0 then fst r else fst r + snd r - 1)"

definition ws_heads :: string where "ws_heads = map hd ws_seqs"

lemma ws_prefix_visible:
  assumes "c \<notin> set ws_heads"
  shows "ws_prefix (c # s) = 0"
proof -
  have "\<not> prefix v (c # s)" if "v \<in> set ws_seqs" for v
  proof
    assume "prefix v (c # s)"
    moreover have "v \<noteq> []" using that by (auto simp: ws_seqs_def)
    ultimately have "hd v = c" by (cases v) auto
    with that assms show False by (auto simp: ws_heads_def)
  qed
  then have "find (\<lambda>v. prefix v (c # s)) ws_seqs = None" by (auto simp: find_None_iff)
  then show ?thesis by (simp add: ws_prefix_def)
qed

fun visible :: "string \<Rightarrow> bool" where
  "visible [] \<longleftrightarrow> True"
| "visible (c # t) \<longleftrightarrow> c \<notin> set ws_heads \<and> visible t"

lemma visible_append [simp]: "visible (a @ b) \<longleftrightarrow> visible a \<and> visible b"
  by (induction a) auto

lemma visible_iff: "visible t \<longleftrightarrow> (\<forall>c\<in>set t. c \<notin> set ws_heads)"
  by (induction t) auto

lemma split_whitespace_Cons:
  "split_whitespace_aux (c # u) tok =
     (if ws_prefix (c # u) = 0 then split_whitespace_aux u (c # tok)
      else (if tok = [] then [] else [rev tok]) @ split_whitespace_aux (drop (ws_prefix (c # u)) (c # u)) [])"
  by (subst split_whitespace_aux.simps) simp

lemma split_whitespace_word:
  assumes "visible t"
  shows "split_whitespace_aux (t @ CHR '' '' # s) tok =
    (if rev tok @ t = [] then [] else [rev tok @ t]) @ split_whitespace_aux s []"
  using assms
proof (induction t arbitrary: tok)
  case Nil
  have "ws_prefix (CHR '' '' # s) = 1" by (simp add: ws_prefix_def ws_seqs_def)
  then show ?case by (simp add: split_whitespace_Cons)
next
  case (Cons c t)
  then have "ws_prefix (c # t @ CHR '' '' # s) = 0" by (intro ws_prefix_visible) simp
  with Cons show ?case by (simp add: split_whitespace_Cons)
qed

lemma show_nat_chars: "c \<in> set (show_nat n) \<Longrightarrow> c \<in> set ''0123456789''"
  using show_nat_digits [of n] unfolding list_all_iff is_digit_def by blast

lemma visible_show_nat [simp]: "visible (show_nat n)"
proof -
  have "list_all (\<lambda>c. c \<notin> set ws_heads) ''0123456789''" by code_simp
  then show ?thesis unfolding visible_iff list_all_iff using show_nat_chars by blast
qed

lemma visible_signs [simp]:
  "CHR ''-'' \<notin> set ws_heads" "CHR ''+'' \<notin> set ws_heads" "CHR '','' \<notin> set ws_heads"
  by code_simp+

lemma visible_range [simp]: "visible (show_range r)"
  by (cases r) simp

lemma split_show_range:
  "split_on (CHR '','') (show_range (a, n)) = (if n = 1 then [show_nat a] else [show_nat a, show_nat n])"
proof -
  have "CHR '','' \<notin> set (show_nat k)" for k
    using show_nat_chars [of "CHR '',''" k] by auto
  then show ?thesis using split_on_append [of "CHR '',''" "show_nat a" "show_nat n"]
    by (simp add: split_on_id)
qed

lemma hunk_range_shown:
  assumes "fst (hk_new h) < 2 ^ 64" "snd (hk_new h) < 2 ^ 64"
  shows "hunk_range (''-'' @ show_range (hk_old h) @ '' +'' @ show_range (hk_new h) @ '' @@'' @ hk_context h) =
    (fst (hk_new h), range_end (hk_new h))"
proof -
  obtain a n where new: "hk_new h = (a, n)" by force
  have "split_whitespace_aux ((''-'' @ show_range (hk_old h)) @ CHR '' '' #
      (''+'' @ show_range (hk_new h)) @ CHR '' '' # ''@@'' @ hk_context h) [] =
      (''-'' @ show_range (hk_old h)) # (''+'' @ show_range (hk_new h)) #
        split_whitespace_aux (''@@'' @ hk_context h) []"
    by (subst split_whitespace_word, simp, subst split_whitespace_word) simp_all
  then have "find (prefix ''+'') (split_whitespace
      (''-'' @ show_range (hk_old h) @ '' +'' @ show_range (hk_new h) @ '' @@'' @ hk_context h)) =
      Some (''+'' @ show_range (hk_new h))"
    by (simp add: split_whitespace_def)
  with assms show ?thesis
    by (simp add: hunk_range_def new split_show_range parse_unsigned_show_nat range_end_def Let_def
        del: show_range.simps)
qed

definition plain_hunk :: "hunk \<Rightarrow> bool" where
  "plain_hunk h \<longleftrightarrow>
     fst (hk_new h) < 2 ^ 64 \<and> snd (hk_new h) < 2 ^ 64 \<and> plain_line (hd (hunk_lines h)) \<and>
     (\<forall>l\<in>set (hk_body h). plain_line l \<and> strip_prefix l ''@@ '' = None)"

lemma hunks_scan_other:
  "\<forall>l\<in>set ls. strip_prefix l ''@@ '' = None \<Longrightarrow> hunks_scan block saw (ls @ rest) = hunks_scan block saw rest"
  by (induction ls) simp_all

lemma hunks_scan_hunk:
  assumes "plain_hunk h"
  shows "hunks_scan (lo, hi) saw (hunk_lines h @ rest) \<longleftrightarrow>
    lo \<le> fst (hk_new h) \<and> range_end (hk_new h) \<le> hi \<and> hunks_scan (lo, hi) True rest"
proof -
  define r where
    "r = ''-'' @ show_range (hk_old h) @ '' +'' @ show_range (hk_new h) @ '' @@'' @ hk_context h"
  have range: "hunk_range r = (fst (hk_new h), range_end (hk_new h))"
    unfolding r_def using assms by (intro hunk_range_shown) (simp_all add: plain_hunk_def)
  define l where "l = ''@@ '' @ r"
  have head: "strip_prefix l ''@@ '' = Some r" unfolding l_def by (rule strip_prefix_append)
  have lines: "hunk_lines h @ rest = l # (hk_body h @ rest)" by (simp add: hunk_lines_def r_def l_def)
  have body: "hunks_scan (lo, hi) True (hk_body h @ rest) = hunks_scan (lo, hi) True rest"
    using assms by (intro hunks_scan_other) (simp add: plain_hunk_def)
  show ?thesis
    unfolding lines hunks_scan.simps head option.case range fst_conv snd_conv body
    by auto
qed

lemma hunks_scan_hunks:
  assumes "\<forall>h\<in>set hs. plain_hunk h"
  shows "hunks_scan (lo, hi) saw (concat (map hunk_lines hs)) \<longleftrightarrow>
    (saw \<or> hs \<noteq> []) \<and> (\<forall>h\<in>set hs. lo \<le> fst (hk_new h) \<and> range_end (hk_new h) \<le> hi)"
  using assms
proof (induction hs arbitrary: saw)
  case (Cons h hs)
  with hunks_scan_hunk [of h lo hi saw "concat (map hunk_lines hs)"] show ?case by auto
qed simp

text \<open>
  what the policy sees of a change to \<open>security.sh\<close>. A diff is accepted exactly when it has a hunk
  and the new lines of every hunk lie in the block; the old lines are not looked at. So any number
  of lines right behind the block may be removed: such a deletion is placed at the block's last line.
\<close>

theorem policy_sees_only_new_lines:
  assumes "\<forall>l\<in>set header. plain_line l \<and> strip_prefix l ''@@ '' = None" "\<forall>h\<in>set hs. plain_hunk h"
  shows "(hunks_within (diff_text header hs) (lo, hi) \<longleftrightarrow>
      hs \<noteq> [] \<and> (\<forall>h\<in>set hs. lo \<le> fst (hk_new h) \<and> range_end (hk_new h) \<le> hi)) \<and>
    (hs = [\<lparr>hk_old = (hi + 1, n), hk_new = (hi, 0), hk_context = c, hk_body = b\<rparr>] \<and> lo \<le> hi \<longrightarrow>
      hunks_within (diff_text header hs) (lo, hi))"
proof -
  have "plain_line l" if "l \<in> set (header @ concat (map hunk_lines hs))" for l
    using that assms by (auto simp: plain_hunk_def hunk_lines_def)
  then have "lines (diff_text header hs) = header @ concat (map hunk_lines hs)"
    unfolding diff_text_def by (intro lines_unlines) (simp add: plain_line_def)
  then have all: "hunks_within (diff_text header hs) (lo, hi) \<longleftrightarrow>
      hs \<noteq> [] \<and> (\<forall>h\<in>set hs. lo \<le> fst (hk_new h) \<and> range_end (hk_new h) \<le> hi)"
    using hunks_scan_other [of header] hunks_scan_hunks [OF assms(2)] assms(1)
    by (simp add: hunks_within_def)
  then show ?thesis by (auto simp: range_end_def)
qed

theorem policy_sees_only_new_lines_witness:
  "hunks_within (diff_text [''+++ b/scripts/lib/security.sh'']
     [\<lparr>hk_old = (7, 2), hk_new = (6, 0), hk_context = [], hk_body = [''-verify_checksum'', ''-exit 1'']\<rparr>])
     (3, 6)"
proof -
  have "plain_hunk \<lparr>hk_old = (7, 2), hk_new = (6, 0), hk_context = [],
      hk_body = [''-verify_checksum'', ''-exit 1'']\<rparr>"
    by (simp add: plain_hunk_def hunk_lines_def plain_line_def strip_prefix_def show_nat.simps digit_char_def)
  then show ?thesis
    using policy_sees_only_new_lines [of "[''+++ b/scripts/lib/security.sh'']"
        "[\<lparr>hk_old = (7, 2), hk_new = (6, 0), hk_context = [], hk_body = [''-verify_checksum'', ''-exit 1'']\<rparr>]"
        3 6]
    by (simp add: plain_line_def strip_prefix_def range_end_def)
qed

text \<open>
  the block is looked for in the edited file. A comment that contains \<open>KNOWN_INSTALLERS=(\<close>, put
  on the first line, makes everything down to the first closing parenthesis on a line of its own the
  block, so all of that may be changed.
\<close>

theorem comments_extend_the_block:
  assumes "\<forall>l\<in>set (head # body @ [close] @ after). plain_line l" "contains head ''KNOWN_INSTALLERS=(''"
    and "\<forall>l\<in>set body. trim l \<noteq> '')''" "trim close = '')''"
  shows "known_installers_block (unlines (head # body @ [close] @ after)) = Some (1, length body + 2)"
proof -
  have "block_scan n (Some s) (ls @ [close] @ after) = Some (s, n + length ls)"
    if "\<forall>l\<in>set ls. trim l \<noteq> '')''" for n s ls
    using that assms(4) by (induction ls arbitrary: n) simp_all
  from this [OF assms(3), of 2 1] have "block_scan 1 None (head # body @ [close] @ after) =
      Some (1, 2 + length body)"
    using assms(2) by (simp add: numeral_2_eq_2)
  moreover have "lines (unlines (head # body @ [close] @ after)) = head # body @ [close] @ after"
    using assms(1) by (intro lines_unlines) (simp add: plain_line_def)
  ultimately show ?thesis by (simp add: known_installers_block_def)
qed

theorem comments_extend_the_block_witness:
  "known_installers_block (unlines (''# KNOWN_INSTALLERS=('' # [''verify_checksum'', ''exit 0''] @ ['')''] @
     [''done''])) = Some (1, 4)"
proof -
  have "contains ''# KNOWN_INSTALLERS=('' ''KNOWN_INSTALLERS=(''" "trim '')'' = '')''"
    "trim ''verify_checksum'' \<noteq> '')''" "trim ''exit 0'' \<noteq> '')''" by code_simp+
  then show ?thesis
    using comments_extend_the_block [of "''# KNOWN_INSTALLERS=(''" "[''verify_checksum'', ''exit 0'']" "'')''"
        "[''done'']"]
    by (simp add: plain_line_def)
qed

section \<open>The gates\<close>

definition round_action :: "string \<Rightarrow> action \<Rightarrow> bool" where
  "round_action worktree a \<longleftrightarrow>
     (\<exists>k. a = Session k \<or> a = Rerun k) \<or> (\<exists>p. a = ReadText p) \<or>
     a = Git worktree [''add'', ''-A''] \<or> (\<exists>args. a = Git worktree (''diff'' # args))"

lemma does_violations: "does (round_action wt) (policy_violations wt ps)"
  by (induction ps) (auto intro!: does_intros simp: round_action_def)

lemma does_check_policy: "does (round_action wt) (check_policy wt)"
  unfolding check_policy_def
  by (intro does_intros does_violations) (simp_all add: round_action_def)

lemma does_judge_round: "does (round_action (es_worktree s)) (judge_round ew req s k summary)"
  unfolding judge_round_def Let_def
  by (auto intro!: does_intros does_check_policy simp: round_action_def split: sum.split)

lemma does_edit_round: "does (round_action (es_worktree s)) (edit_round ew req s k previous cl)"
  unfolding edit_round_def
  by (auto intro!: does_intros does_judge_round simp: round_action_def
      split: option.split prod.split claude_outcome.split)

lemma does_edit_rounds: "does (round_action (es_worktree s)) (edit_rounds ew req s n k previous cl)"
proof (induction n arbitrary: k previous cl)
  case (Suc n)
  then show ?case
    by (auto intro!: does_intros does_edit_round split: prod.split round_end.split)
qed (simp add: does_return)

lemma policy_violations_allowed:
  "policy_violations wt ps w past = (Inr [], past') \<Longrightarrow> \<forall>p\<in>set ps. path_allowed p"
proof (induction ps arbitrary: past past')
  case (Cons p ps)
  show ?case
  proof (cases "path_allowed p")
    case True
    from Cons.prems True obtain q q' where "policy_violations wt ps w q = (Inr [], q')"
      by (auto simp: io_try_def io_bind_def io_return_def split: if_splits prod.splits sum.splits)
    with Cons.IH True show ?thesis by simp
  next
    case False
    with Cons.prems show ?thesis
      by (auto simp: io_try_def io_bind_def io_return_def split: prod.splits sum.splits)
  qed
qed simp

text \<open>What it takes for round \<open>k\<close> to succeed.\<close>

definition gates_passed :: "edit_world \<Rightarrow> edit_request \<Rightarrow> edit_session \<Rightarrow> world \<Rightarrow> nat \<Rightarrow> string \<Rightarrow> bool" where
  "gates_passed ew req s w k summary \<longleftrightarrow>
     annotate_risks (ew_rx ew) summary = [] \<and>
     (\<exists>p v. fst (check_policy (es_worktree s) w p) = Inr v \<and> pv_violations v = [] \<and>
        pv_changed v \<noteq> [] \<and> (\<forall>path\<in>set (pv_changed v). path_allowed path)) \<and>
     (\<exists>v. verify_in_worktree ew req k = Inr v \<and> vf_passed v)"

lemma check_policy_allowed:
  assumes "check_policy wt w p = (Inr v, p')" "pv_violations v = []"
  shows "\<forall>path\<in>set (pv_changed v). path_allowed path"
  using assms policy_violations_allowed
  by (fastforce simp: check_policy_def io_try_def io_bind_def io_return_def split: prod.splits sum.splits)

lemma judge_round_yields:
  "yields (\<lambda>w past r new. \<forall>t. r = RoundFixed t \<longrightarrow>
      t = summary \<and> Rerun k \<in> set new \<and> gates_passed ew req s w k summary)
    (judge_round ew req s k summary)"
proof (rule yieldsI)
  fix w past
  let ?m = "judge_round ew req s k summary w past"
  have "does (round_action (es_worktree s)) (judge_round ew req s k summary)" by (rule does_judge_round)
  then obtain new where new: "snd ?m = past @ new" unfolding does_def by blast
  moreover have "t = summary \<and> Rerun k \<in> set new \<and> gates_passed ew req s w k summary"
    if fixed: "fst ?m = RoundFixed t" for t
  proof -
    obtain v p where check: "check_policy (es_worktree s) w past = (Inr v, p)"
      and gates: "annotate_risks (ew_rx ew) summary = []" "pv_violations v = []" "pv_changed v \<noteq> []"
        "t = summary" "\<exists>v. verify_in_worktree ew req k = Inr v \<and> vf_passed v"
      and log: "snd ?m = p @ [Rerun k]"
      using fixed by (auto simp: judge_round_def io_bind_def io_return_def act_def Let_def
          split: if_splits prod.splits sum.splits)
    obtain more where "p = past @ more" by (rule doesE [OF does_check_policy check])
    with log new have "Rerun k \<in> set new" by simp
    moreover have "gates_passed ew req s w k summary"
      unfolding gates_passed_def using gates check_policy_allowed [OF check gates(2)] check
      by (metis fst_conv)
    ultimately show ?thesis using gates(4) by simp
  qed
  ultimately show "\<exists>new. snd ?m = past @ new \<and> (\<forall>t. fst ?m = RoundFixed t \<longrightarrow>
      t = summary \<and> Rerun k \<in> set new \<and> gates_passed ew req s w k summary)" by blast
qed

lemma edit_round_yields:
  "yields (\<lambda>w past r new. \<forall>t. snd r = RoundFixed t \<longrightarrow> Rerun k \<in> set new \<and> gates_passed ew req s w k t)
    (edit_round ew req s k previous cl)"
  unfolding edit_round_def
  by (rule yields_bind [where Q = "\<lambda>w past x new. True"])
    (auto intro!: yields_act yields_return yields_map
      intro: yields_mono [OF judge_round_yields] split: option.split claude_outcome.split)

lemma edit_rounds_yields:
  "yields (\<lambda>w past r new. \<forall>t. snd r = SessionFixed t \<longrightarrow>
      (\<exists>j. k \<le> j \<and> j < k + n \<and> Rerun j \<in> set new \<and> gates_passed ew req s w j t))
    (edit_rounds ew req s n k previous cl)"
proof (induction n arbitrary: k previous cl)
  case (Suc n)
  show ?case unfolding edit_rounds.simps
  proof (rule yields_bind [OF edit_round_yields])
    fix w0 p0 new and x :: "claude_client \<times> round_end"
    assume fixed: "\<forall>t. snd x = RoundFixed t \<longrightarrow> Rerun k \<in> set new \<and> gates_passed ew req s w0 k t"
    obtain cl' r where x: "x = (cl', r)" by force
    show "yields (\<lambda>w past y more. w = w0 \<longrightarrow> past = p0 @ new \<longrightarrow>
        (\<forall>t. snd y = SessionFixed t \<longrightarrow>
          (\<exists>j. k \<le> j \<and> j < k + Suc n \<and> Rerun j \<in> set (new @ more) \<and> gates_passed ew req s w j t)))
      (case x of (cl', r) \<Rightarrow> case r of
         RoundFailed reason \<Rightarrow> io_return (cl', SessionFailed reason)
       | RoundFixed summary \<Rightarrow> io_return (cl', SessionFixed summary)
       | RoundPanic \<Rightarrow> io_return (cl', SessionPanic)
       | RoundAgain failure \<Rightarrow> edit_rounds ew req s n (Suc k) (Some failure) cl')"
    proof (cases r)
      case (RoundAgain failure)
      show ?thesis unfolding x RoundAgain prod.case round_end.case
        by (rule yields_mono [OF Suc.IH]) (auto, metis Suc_leD add_Suc add_Suc_right)
    qed (use fixed in \<open>auto simp: x intro!: yields_return exI [of _ k]\<close>)
  qed
qed (auto intro: yields_return)

section \<open>The shape of a session\<close>

definition open_action :: "edit_world \<Rightarrow> edit_request \<Rightarrow> action \<Rightarrow> bool" where
  "open_action ew req a \<longleftrightarrow>
     a = Git (ed_acfs_repo req) [''rev-parse'', ''--git-dir''] \<or> a = MakeDirs (ed_worktrees_dir req) \<or>
     a = Git (ed_acfs_repo req) [''worktree'', ''add'', ''-b'', es_branch (session_of ew req),
           es_worktree (session_of ew req), ''HEAD'']"

definition discarding :: "edit_request \<Rightarrow> edit_session \<Rightarrow> action list" where
  "discarding req s =
     [Git (ed_acfs_repo req) [''worktree'', ''remove'', ''--force'', es_worktree s],
      Git (ed_acfs_repo req) [''branch'', ''-D'', es_branch s]]"

definition pushing :: "edit_session \<Rightarrow> action" where
  "pushing s = Git (es_worktree s) [''push'', ''-u'', ''origin'', es_branch s]"

definition committing :: "edit_request \<Rightarrow> edit_session \<Rightarrow> string \<Rightarrow> action list" where
  "committing req s summary =
     [Git (es_worktree s) [''add'', ''-A''],
      Git (es_worktree s) (commit_args (edit_title req @ [nl, nl] @ edit_body summary)),
      Git (es_worktree s) [''rev-parse'', ''HEAD'']]"

definition requesting :: "edit_request \<Rightarrow> edit_session \<Rightarrow> string \<Rightarrow> action list" where
  "requesting req s summary =
     (if ed_create_pr req
      then [Gh (es_worktree s) [''pr'', ''create'', ''--head'', es_branch s, ''--title'', edit_title req,
              ''--body'', edit_body summary]]
      else [])"

fun landed :: "edit_request \<Rightarrow> edit_session \<Rightarrow> string \<Rightarrow> remediation_outcome \<Rightarrow> action list \<Rightarrow> bool" where
  "landed req s summary (FailedRemediation reason c) l \<longleftrightarrow>
     (\<exists>pre. prefix pre (committing req s summary) \<and> l = pre @ discarding req s) \<or>
     ed_apply req \<and> l = committing req s summary @ [pushing s]"
| "landed req s summary (Applied b sha pr c) l \<longleftrightarrow>
     ed_apply req \<and> b = es_branch s \<and> l = committing req s summary @ [pushing s] @ requesting req s summary"
| "landed req s summary (Proposed b sha pr c) l \<longleftrightarrow>
     \<not> ed_apply req \<and> b = es_branch s \<and> l = committing req s summary @ requesting req s summary"
| "landed req s summary out l \<longleftrightarrow> False"

lemma open_worktree_yields:
  "yields (\<lambda>w past r new. (\<forall>a\<in>set new. open_action ew req a) \<and> (\<forall>s. r = Inr s \<longrightarrow> s = session_of ew req))
    (open_worktree ew req)"
  unfolding open_worktree_def Let_def
  by (intro yields_try yields_map yields_git yields_act yields_return) (auto simp: open_action_def)

lemma fail_session_yields:
  "yields (\<lambda>w past out new. out = FailedRemediation reason c \<and> new = discarding req s)
    (fail_session req s reason c)"
  by (rule yieldsI)
    (auto simp: fail_session_def discard_worktree_def git_def io_simps discarding_def)

lemma commit_worktree_yields:
  "yields (\<lambda>w past r new. prefix new (committing req s summary) \<and>
      ((\<exists>sha. r = Inr sha) \<longrightarrow> new = committing req s summary))
    (commit_worktree (es_worktree s) (edit_title req @ [nl, nl] @ edit_body summary))"
  by (rule yieldsI)
    (auto simp: commit_worktree_def git_def io_simps committing_def split: sum.split)

lemma land_session_yields:
  "yields (\<lambda>w past out new. landed req s summary out new) (land_session req s summary cost)"
proof -
  have "yields (\<lambda>w past y more. w = w0 \<longrightarrow> past = p0 @ new \<longrightarrow> landed req s summary y (new @ more))
      (case r of Inl e \<Rightarrow> fail_session req s (''commit: '' @ err_chain e) cost
       | Inr sha \<Rightarrow>
           io_bind (push_branch (ed_apply req) (es_worktree s) (es_branch s)) (\<lambda>p. case p of
             Inl e \<Rightarrow> io_return (FailedRemediation
               (''branch '' @ es_branch s @ '' committed but push failed: '' @ err_chain e) cost)
           | Inr _ \<Rightarrow>
               io_map
                 (\<lambda>pr. if ed_apply req then Applied (es_branch s) sha pr cost
                       else Proposed (es_branch s) (Some sha) pr cost)
                 (if ed_create_pr req then open_pr (es_worktree s) (es_branch s) (edit_title req) (edit_body summary)
                  else io_return None)))"
    if "prefix new (committing req s summary)" "(\<exists>sha. r = Inr sha) \<longrightarrow> new = committing req s summary"
    for w0 p0 new and r :: "anyhow + string"
  proof (cases r)
    case (Inl e)
    show ?thesis unfolding Inl sum.case
      by (rule yields_mono [OF fail_session_yields]) (use that in auto)
  next
    case (Inr sha)
    with that have new: "new = committing req s summary" by blast
    show ?thesis unfolding Inr sum.case new
      by (rule yieldsI)
        (auto simp: push_branch_def open_pr_def git_def io_simps pushing_def requesting_def split: sum.split)
  qed
  then show ?thesis
    unfolding land_session_def Let_def
    by (intro yields_bind [OF commit_worktree_yields]) simp
qed

text \<open>How the log of a session goes on after the worktree is open: the rounds, then how it ends.\<close>

definition session_ends ::
  "edit_world \<Rightarrow> edit_request \<Rightarrow> world \<Rightarrow> remediation_outcome option \<Rightarrow> action list \<Rightarrow> bool" where
  "session_ends ew req w out new \<longleftrightarrow> (let s = session_of ew req in
     \<exists>rs ld. new = rs @ ld \<and> (\<forall>a\<in>set rs. round_action (es_worktree s) a) \<and>
       (out = None \<and> ld = [] \<or>
        (\<exists>reason c. out = Some (FailedRemediation reason c)) \<and> ld = discarding req s \<or>
        (\<exists>k t oc. out = Some oc \<and> 1 \<le> k \<and> k \<le> unat (edit_attempts req) \<and> Rerun k \<in> set rs \<and>
           gates_passed ew req s w k t \<and> landed req s t oc ld)))"

lemma rounds_then_end:
  "yields (\<lambda>w past x new. session_ends ew req w (snd x) new)
    (io_bind (edit_rounds ew req (session_of ew req) (unat (edit_attempts req)) 1 None cl) (\<lambda>(cl', r). case r of
       SessionPanic \<Rightarrow> io_return (cl', None)
     | SessionFailed reason \<Rightarrow>
         io_map (\<lambda>out. (cl', Some out)) (fail_session req (session_of ew req) reason (spent (ew_F ew) cl cl'))
     | SessionFixed summary \<Rightarrow>
         io_map (\<lambda>out. (cl', Some out)) (land_session req (session_of ew req) summary (spent (ew_F ew) cl cl'))))"
  (is "yields ?R (io_bind ?rounds ?end)")
proof (rule yields_bind [OF yields_conj [OF does_edit_rounds [unfolded does_yields] edit_rounds_yields]])
  fix w0 p0 rs and x :: "claude_client \<times> session_end"
  assume rounds: "(\<forall>a\<in>set rs. round_action (es_worktree (session_of ew req)) a) \<and>
    (\<forall>t. snd x = SessionFixed t \<longrightarrow> (\<exists>j. 1 \<le> j \<and> j < 1 + unat (edit_attempts req) \<and>
       Rerun j \<in> set rs \<and> gates_passed ew req (session_of ew req) w0 j t))"
  obtain cl' r where x: "x = (cl', r)" by force
  show "yields (\<lambda>w past y more. w = w0 \<longrightarrow> past = p0 @ rs \<longrightarrow> session_ends ew req w (snd y) (rs @ more)) (?end x)"
  proof (cases r)
    case (SessionFailed reason)
    show ?thesis unfolding x SessionFailed prod.case session_end.case
      by (rule yields_map, rule yields_mono [OF fail_session_yields])
        (use rounds in \<open>auto simp: session_ends_def Let_def\<close>)
  next
    case (SessionFixed t)
    with rounds x obtain j where j: "1 \<le> j" "j \<le> unat (edit_attempts req)" "Rerun j \<in> set rs"
      "gates_passed ew req (session_of ew req) w0 j t" by auto
    show ?thesis unfolding x SessionFixed prod.case session_end.case
    proof (rule yields_map, rule yields_mono [OF land_session_yields], intro impI)
      fix w oc ld and past :: "action list"
      assume "landed req (session_of ew req) t oc ld" "w = w0"
      with j rounds show "session_ends ew req w (snd (cl', Some oc)) (rs @ ld)"
        unfolding session_ends_def Let_def snd_conv by (intro exI [of _ rs] exI [of _ ld]) blast
    qed
  next
    case SessionPanic
    then show ?thesis using rounds by (auto simp: x session_ends_def Let_def intro!: yields_return)
  qed
qed

lemma session_shape:
  "yields (\<lambda>w past x new.
      (\<exists>reason. snd x = Some (FailedRemediation reason 0)) \<and> (\<forall>a\<in>set new. open_action ew req a) \<or>
      (\<exists>op more. new = op @ more \<and> (\<forall>a\<in>set op. open_action ew req a) \<and> session_ends ew req w (snd x) more))
    (remediate_with_claude ew req cl)"
  (is "yields ?R _")
  unfolding remediate_with_claude_def
proof (rule yields_bind [OF open_worktree_yields])
  fix w0 p0 op and x :: "anyhow + edit_session"
  assume opened: "(\<forall>a\<in>set op. open_action ew req a) \<and> (\<forall>s. x = Inr s \<longrightarrow> s = session_of ew req)"
  show "yields (\<lambda>w past y more. w = w0 \<longrightarrow> past = p0 @ op \<longrightarrow> ?R w p0 y (op @ more))
    (case x of Inl e \<Rightarrow> io_return (cl, Some (FailedRemediation (''worktree: '' @ err_chain e) 0))
     | Inr s \<Rightarrow> io_bind (edit_rounds ew req s (unat (edit_attempts req)) 1 None cl) (\<lambda>(cl', r). case r of
           SessionPanic \<Rightarrow> io_return (cl', None)
         | SessionFailed reason \<Rightarrow>
             io_map (\<lambda>out. (cl', Some out)) (fail_session req s reason (spent (ew_F ew) cl cl'))
         | SessionFixed summary \<Rightarrow>
             io_map (\<lambda>out. (cl', Some out)) (land_session req s summary (spent (ew_F ew) cl cl'))))"
  proof (cases x)
    case (Inl e)
    then show ?thesis using opened by (auto intro!: yields_return)
  next
    case (Inr s)
    with opened have s: "s = session_of ew req" by simp
    show ?thesis unfolding Inr sum.case s
      by (rule yields_mono [OF rounds_then_end]) (use opened in blast)
  qed
qed

lemma round_actions [simp]:
  "\<not> round_action wt (Git d (commit_args m))" "\<not> round_action wt (Git d (''push'' # args))"
  "\<not> open_action ew req (Git d (commit_args m))" "\<not> open_action ew req (Git d (''push'' # args))"
  "\<not> open_action ew req (Rerun k)"
  by (simp_all add: round_action_def open_action_def commit_args_def)

lemma commit_args_eq [simp]: "commit_args m = commit_args m' \<longleftrightarrow> m = m'"
  by (simp add: commit_args_def)

lemma commits_of_committing:
  "Git d (commit_args m) \<in> set (committing req s t) \<Longrightarrow>
    d = es_worktree s \<and> m = edit_title req @ [nl, nl] @ edit_body t"
  "Git d (''push'' # args) \<notin> set (committing req s t)"
  by (auto simp: committing_def commit_args_def)

lemma no_commits [simp]:
  "Git d (commit_args m) \<notin> set (discarding req s)" "Git d (commit_args m) \<noteq> pushing s"
  "Git d (commit_args m) \<notin> set (requesting req s t)" "Git d (''push'' # args) \<notin> set (discarding req s)"
  "Git d (''push'' # args) \<notin> set (requesting req s t)"
  by (auto simp: discarding_def pushing_def requesting_def commit_args_def)

lemma commits_of_landed:
  assumes "landed req s t oc ld" "Git d (commit_args m) \<in> set ld"
  shows "d = es_worktree s \<and> m = edit_title req @ [nl, nl] @ edit_body t"
proof -
  from assms have "Git d (commit_args m) \<in> set (committing req s t)"
    by (cases oc) (auto dest!: set_mono_prefix)
  then show ?thesis by (rule commits_of_committing)
qed



definition session_action :: "edit_world \<Rightarrow> edit_request \<Rightarrow> action \<Rightarrow> bool" where
  "session_action ew req a \<longleftrightarrow> (let s = session_of ew req in
     open_action ew req a \<or> round_action (es_worktree s) a \<or> a \<in> set (discarding req s) \<or>
     (\<exists>t. a \<in> set (committing req s t @ requesting req s t)) \<or> ed_apply req \<and> a = pushing s)"

lemma session_action_landed:
  assumes "landed req (session_of ew req) t oc ld" "a \<in> set ld"
  shows "session_action ew req a"
  using assms
  by (cases oc) (auto dest!: set_mono_prefix simp: session_action_def Let_def)

lemma session_does: "does (session_action ew req) (remediate_with_claude ew req cl)"
  unfolding does_yields
proof (rule yields_mono [OF session_shape])
  fix w past new and x :: "claude_client \<times> remediation_outcome option"
  assume "(\<exists>reason. snd x = Some (FailedRemediation reason 0)) \<and> (\<forall>a\<in>set new. open_action ew req a) \<or>
    (\<exists>op more. new = op @ more \<and> (\<forall>a\<in>set op. open_action ew req a) \<and> session_ends ew req w (snd x) more)"
  moreover have "session_action ew req a" if "session_ends ew req w (snd x) more" "a \<in> set more" for more a
  proof -
    from that obtain rs ld where "more = rs @ ld" "a \<in> set rs \<Longrightarrow> session_action ew req a"
      "a \<in> set ld \<Longrightarrow> session_action ew req a"
      unfolding session_ends_def Let_def
      by (metis (no_types, lifting) empty_iff list.set(1) session_action_def session_action_landed)
    with that(2) show ?thesis by auto
  qed
  moreover have "open_action ew req a \<Longrightarrow> session_action ew req a" for a
    by (simp add: session_action_def Let_def)
  ultimately show "\<forall>a\<in>set new. session_action ew req a" by fastforce
qed

text \<open>
  all that a session does, whatever Claude and the world answer. In the checkout it looks for the
  repository and adds or removes its own worktree and branch; everything else happens in that
  worktree: edit sessions, reruns, staging, looking at the difference, commits. It pushes only in
  apply mode, and only its branch; it asks for a pull request only where it is configured to.
\<close>

theorem sessions_are_confined: "does (session_action ew req) (remediate_with_claude ew req cl)"
  by (rule session_does)

section \<open>A session\<close>

definition sample_editor :: claude_world where
  "sample_editor = Claude.sample_world
     \<lparr>cw_json := \<lambda>s. Some (default_envelope\<lparr>ce_result := ''repinned''\<rparr>),
      cw_cli := \<lambda>k b args d. CliExited True [] []\<rparr>"

lemma sample_edit:
  obtains run cl' res where
    "execute_edit_session 2 exact_f64 id sample_editor prompt dir bash sample_client =
      Some ([run], cl', Answered res)" "rr_claude_output res = ''repinned''"
proof -
  have "cw_asked sample_editor = cw_asked Claude.sample_world"
    "cw_acquire sample_editor = cw_acquire Claude.sample_world"
    "cw_clock sample_editor = cw_clock Claude.sample_world"
    by (simp_all add: sample_editor_def)
  then have "request_guards 2 exact_f64 id sample_editor sample_client =
      request_guards 2 exact_f64 id Claude.sample_world sample_client"
    by (simp only: request_guards_def)
  with sample_guards obtain cl1 where
    "request_guards 2 exact_f64 id sample_editor sample_client = Some (cl1, GuardsPassed)" by auto
  with that show ?thesis
    by (simp add: execute_edit_session_def edit_session_run_def interpret_answer_def interpret_run_def
        envelope_parse_def sample_editor_def default_envelope_def envelope_result_def Let_def)
qed

definition sample_request :: edit_request where
  "sample_request =
     \<lparr>ed_acfs_repo = ''/acfs'', ed_worktrees_dir = ''/wt'', ed_installer = ''uv'', ed_category = ''checksum'',
      ed_stderr = [], ed_apply = True, ed_create_pr = False, ed_max_attempts = 1, ed_allow_bash = False,
      ed_runner_config = sample_config, ed_override = None, ed_globals = \<lparr>gd_timeout_seconds = 300, gd_retries = 0\<rparr>\<rparr>"

definition sample_edit_world :: edit_world where
  "sample_edit_world =
     \<lparr>ew_rx = literal_rx, ew_F = exact_f64, ew_R = id, ew_fuel = 2, ew_claude = \<lambda>_. sample_editor,
      ew_checksums = \<lambda>_. Inr (sample_pins ''feed''), ew_run = \<lambda>_. sample_runs, ew_date = ''d'', ew_suffix = ''x''\<rparr>"

definition sample_answers :: world where
  "sample_answers past a =
     Answer True (if \<exists>d. a = Git d [''diff'', ''--cached'', ''--name-only''] then ''checksums.yaml'' else []) []"

lemma sample_answers_simps [simp]:
  "sample_answers past (Git d [''diff'', ''--cached'', ''--name-only'']) = Answer True ''checksums.yaml'' []"
  "args \<noteq> [''diff'', ''--cached'', ''--name-only''] \<Longrightarrow> sample_answers past (Git d args) = Answer True [] []"
  "sample_answers past (MakeDirs d) = Answer True [] []"
  "sample_answers past (Rerun k) = Answer True [] []"
  by (auto simp: sample_answers_def)

lemma sample_fields [simp]:
  "ew_rx sample_edit_world = literal_rx" "ew_F sample_edit_world = exact_f64" "ew_R sample_edit_world = id"
  "ew_fuel sample_edit_world = 2" "ew_claude sample_edit_world k = sample_editor"
  "ew_checksums sample_edit_world k = Inr (sample_pins ''feed'')" "ew_run sample_edit_world k = sample_runs"
  "ed_installer sample_request = ''uv''" "ed_category sample_request = ''checksum''"
  "ed_stderr sample_request = []" "ed_apply sample_request" "\<not> ed_create_pr sample_request"
  "edit_attempts sample_request = 1" "\<not> ed_allow_bash sample_request"
  "ed_runner_config sample_request = sample_config" "ed_override sample_request = None"
  "ed_globals sample_request = \<lparr>gd_timeout_seconds = 300, gd_retries = 0\<rparr>"
  by (simp_all add: sample_edit_world_def sample_request_def edit_attempts_def)

lemma sample_verification:
  obtains v where "verify_in_worktree sample_edit_world sample_request k = Inr v" "vf_passed v"
proof -
  obtain r where "run_test_with_retry literal_rx exact_f64 sample_config
      (to_test (resolve_spec ''uv'' (snd (hd (sample_pins ''feed''))) None
        \<lparr>gd_timeout_seconds = 300, gd_retries = 0\<rparr>)) sample_runs = Inr r" "tr_status r = Passed"
    using sample_executor by (metis less_eq_Suc_le linorder_not_less max.cobounded2 unat_1 word_le_nat_alt
        One_nat_def)
  with that show ?thesis
    by (simp add: verify_in_worktree_def sample_pins_def verification_of_def)
qed

lemma sample_judgement:
  "\<exists>acts. judge_round sample_edit_world sample_request s k ''repinned'' sample_answers past =
     (RoundFixed ''repinned'', past @ acts)"
proof -
  have strs: "annotate_risks literal_rx ''repinned'' = []"
    "changed_paths (trim (from_utf8_lossy ''checksums.yaml'')) = [''checksums.yaml'']"
    "path_allowed ''checksums.yaml''" "''checksums.yaml'' \<noteq> SECURITY_SH"
    by code_simp+
  obtain v where "verify_in_worktree sample_edit_world sample_request k = Inr v" "vf_passed v"
    by (rule sample_verification)
  with strs show ?thesis
    by (simp add: judge_round_def check_policy_def git_def git_answer_def io_simps Let_def)
qed

lemma sample_rounds:
  "\<exists>cl' acts. edit_rounds sample_edit_world sample_request s (Suc 0) 1 None sample_client sample_answers past =
     ((cl', SessionFixed ''repinned''), past @ acts)"
proof -
  obtain run cl' res where "execute_edit_session 2 exact_f64 id sample_editor
      (generate_edit_prompt ''uv'' ''checksum'' [] (from_utf8_lossy (es_worktree s)) None) (es_worktree s)
      False sample_client = Some ([run], cl', Answered res)" "rr_claude_output res = ''repinned''"
    by (rule sample_edit)
  moreover have "redact literal_rx ''repinned'' = ''repinned''" by code_simp
  moreover obtain acts where "judge_round sample_edit_world sample_request s 1 ''repinned'' sample_answers
      (past @ [Session 1]) = (RoundFixed ''repinned'', (past @ [Session 1]) @ acts)"
    using sample_judgement by blast
  ultimately show ?thesis
    by (simp add: edit_round_def io_simps)
qed

lemma sample_session:
  obtains r pre post where
    "remediate_with_claude sample_edit_world sample_request sample_client sample_answers [] =
       (r, pre @ Git (es_worktree (session_of sample_edit_world sample_request))
         (commit_args (edit_title sample_request @ [nl, nl] @ edit_body ''repinned'')) # post)"
proof -
  let ?s = "session_of sample_edit_world sample_request"
  obtain op where op: "open_worktree sample_edit_world sample_request sample_answers [] = (Inr ?s, op)"
    by (simp add: open_worktree_def git_def git_answer_def with_context_def io_simps Let_def)
  obtain cl' rs where rs: "edit_rounds sample_edit_world sample_request ?s (Suc 0) 1 None sample_client
      sample_answers op = ((cl', SessionFixed ''repinned''), op @ rs)" using sample_rounds by blast
  have "\<exists>x post. land_session sample_request ?s ''repinned'' cost sample_answers past =
      (x, (past @ [Git (es_worktree ?s) [''add'', ''-A'']]) @ Git (es_worktree ?s)
        (commit_args (edit_title sample_request @ [nl, nl] @ edit_body ''repinned'')) # post)" for cost past
    by (simp add: land_session_def commit_worktree_def push_branch_def git_def git_answer_def io_simps
        commit_args_def Let_def)
  then obtain x post where "land_session sample_request ?s ''repinned'' (spent exact_f64 sample_client cl')
      sample_answers (op @ rs) = (x, ((op @ rs) @ [Git (es_worktree ?s) [''add'', ''-A'']]) @ Git (es_worktree ?s)
        (commit_args (edit_title sample_request @ [nl, nl] @ edit_body ''repinned'')) # post)" by blast
  with op rs have "remediate_with_claude sample_edit_world sample_request sample_client sample_answers [] =
      ((cl', Some x), ((op @ rs) @ [Git (es_worktree ?s) [''add'', ''-A'']]) @ Git (es_worktree ?s)
        (commit_args (edit_title sample_request @ [nl, nl] @ edit_body ''repinned'')) # post)"
    by (simp add: remediate_with_claude_def io_simps)
  with that show ?thesis by blast
qed


definition idle_edit_world :: edit_world where
  \<comment> \<open>Claude times out\<close>
  "idle_edit_world = sample_edit_world
     \<lparr>ew_claude := \<lambda>_. sample_editor\<lparr>cw_cli := \<lambda>k b args d. CliTimeout\<rparr>\<rparr>"

lemma idle_session:
  obtains cl' reason c op where
    "remediate_with_claude idle_edit_world sample_request sample_client sample_answers [] =
       ((cl', Some (FailedRemediation reason c)),
        op @ [Session 1] @ discarding sample_request (session_of idle_edit_world sample_request))"
proof -
  let ?s = "session_of idle_edit_world sample_request" and ?w = "sample_editor\<lparr>cw_cli := \<lambda>k b args d. CliTimeout\<rparr>"
  have fields: "ew_F idle_edit_world = exact_f64" "ew_R idle_edit_world = id" "ew_fuel idle_edit_world = 2"
    "ew_claude idle_edit_world k = ?w" for k
    by (simp_all add: idle_edit_world_def)
  obtain op where op: "open_worktree idle_edit_world sample_request sample_answers [] = (Inr ?s, op)"
    by (simp add: open_worktree_def git_def git_answer_def with_context_def io_simps Let_def)
  have "cw_asked ?w = cw_asked Claude.sample_world" "cw_acquire ?w = cw_acquire Claude.sample_world"
    "cw_clock ?w = cw_clock Claude.sample_world"
    by (simp_all add: sample_editor_def)
  then have "request_guards 2 exact_f64 id ?w sample_client =
      request_guards 2 exact_f64 id Claude.sample_world sample_client"
    by (simp only: request_guards_def)
  with sample_guards obtain cl1 where "request_guards 2 exact_f64 id ?w sample_client = Some (cl1, GuardsPassed)"
    by auto
  then obtain run cl' where "execute_edit_session 2 exact_f64 id ?w prompt (es_worktree ?s) False sample_client =
      Some ([run prompt], cl' prompt, Refused RequestTimeout)" for prompt
    by (simp add: execute_edit_session_def edit_session_run_def interpret_answer_def Let_def)
  then show ?thesis
    using that op fields
    by (simp add: remediate_with_claude_def edit_round_def fail_session_def discard_worktree_def git_def
        discarding_def io_simps)
qed


end
