(* ===== verification/Remediate.thy ===== *)
theory Remediate
  imports Propose
begin

text \<open>
  What \<^verbatim>\<open>check --remediate\<close> does with the failures of a run (\<open>remediate_results\<close> of
  \<^verbatim>\<open>src/main.rs\<close>): drifted pins are refreshed, every other failure gets an edit session or, in
  advisory mode, an advice. The refresh, the sessions and the client are those of \<open>Refresh\<close>,
  \<open>Propose\<close> and \<open>Claude\<close>; the event log the outcomes are copied to is left out.
\<close>

text \<open>
  What the remediation meets: the world of the refresh, that of the session and the CLI for result
  \<open>i\<close>, the rounding to \<open>f32\<close>, the clock when the client is made, the binary from the environment.
\<close>

record remediation_world =
  mw_refresh :: refresh_world
  mw_inputs :: refresh_inputs
  mw_edit :: "nat \<Rightarrow> edit_world"
  mw_claude :: "nat \<Rightarrow> claude_world"
  mw_rx :: regex_crate
  mw_F :: f64_ops
  mw_R :: "rat \<Rightarrow> rat"
  mw_fuel :: nat
  mw_now :: instant
  mw_claude_bin :: "string option"
  mw_run_id :: string

definition remediation_mode_of :: "config \<Rightarrow> remediation_mode" where
  "remediation_mode_of cfg = (case effective_mode (cf_remediation cfg) of Off \<Rightarrow> Advisory | m \<Rightarrow> m)"

section \<open>Drifted pins\<close>

definition is_drifted :: "test_result \<Rightarrow> bool" where
  "is_drifted r \<longleftrightarrow>
     is_failure r \<and> (case tr_error r of Some c \<Rightarrow> ec_category c = ''checksum_mismatch'' | None \<Rightarrow> False)"

definition drifted_names :: "test_result list \<Rightarrow> string list" where
  "drifted_names rs = map tr_installer_name (filter is_drifted rs)"

definition landed_refresh :: "refresh_run \<Rightarrow> refresh_entry \<Rightarrow> remediation_outcome" where
  \<comment> \<open>the outcome of an entry that passed\<close>
  "landed_refresh run e =
     (case fr_proposal run of
        Some pr \<Rightarrow>
          if po_pushed pr then Applied (po_branch pr) (po_commit pr) (po_pr_url pr) 0
          else Proposed (po_branch pr) (Some (po_commit pr)) (po_pr_url pr) 0
      | None \<Rightarrow>
          VerifiedRefresh (rq_name e) (rq_old_sha256 e) (rq_new_sha256 e)
            (case fr_candidate_path run of Some p \<Rightarrow> from_utf8_lossy p | None \<Rightarrow> [])
            (map_option (\<lambda>d. risk_score_str (dp_score d)) (rq_drift e)))"

definition still_failing_refresh :: "refresh_entry \<Rightarrow> string" where
  "still_failing_refresh e =
     ''installer still fails with the refreshed hash ('' @
     (case rq_verification e of Some v \<Rightarrow> vf_status v | None \<Rightarrow> ''not verified'') @
     (case rq_drift e of Some d \<Rightarrow> '', drift '' @ risk_score_str (dp_score d) | None \<Rightarrow> []) @ '')''"

definition refresh_outcome :: "refresh_run \<Rightarrow> string \<Rightarrow> remediation_outcome" where
  "refresh_outcome run name =
     (case find (\<lambda>e. rq_name e = name) (rp_entries (fr_plan run)) of
        Some e \<Rightarrow>
          if is_verified e then landed_refresh run e
          else FailedRemediation (still_failing_refresh e) 0
      | None \<Rightarrow>
          (case find (\<lambda>s. fst s = name) (rp_skipped (fr_plan run)) of
             Some s \<Rightarrow> FailedRemediation (snd s) 0
           | None \<Rightarrow> SkippedRemediation ''served bytes match the pin again; rerun''))"

definition with_outcome :: "remediation_outcome \<Rightarrow> test_result \<Rightarrow> test_result" where
  "with_outcome out r = r\<lparr>tr_remediation := Some out\<rparr>"

definition note_drift :: "string list \<Rightarrow> (string \<Rightarrow> remediation_outcome) \<Rightarrow> test_result list \<Rightarrow> test_result list" where
  "note_drift names f rs =
     map (\<lambda>r. if tr_installer_name r \<in> set names then with_outcome (f (tr_installer_name r)) r else r) rs"

definition remediate_drift ::
  "remediation_world \<Rightarrow> (string \<Rightarrow> string option) \<Rightarrow> config \<Rightarrow> bool \<Rightarrow> test_result list \<Rightarrow> files
    \<Rightarrow> (files \<times> test_result list option) io" where
  \<comment> \<open>\<open>None\<close> is a panic\<close>
  "remediate_drift mw env cfg local rs fs =
     (let names = drifted_names rs
      in if names = [] then io_return (fs, Some rs)
         else io_map
           (\<lambda>(fs', a). (fs', case a of
              None \<Rightarrow> None
            | Some (Inl e) \<Rightarrow>
                Some (note_drift names
                  (\<lambda>_. FailedRemediation (''checksum refresh failed: '' @ afsc_error_str e) 0) rs)
            | Some (Inr run) \<Rightarrow> Some (note_drift names (refresh_outcome run) rs)))
           (refresh_checksums (mw_refresh mw) (mw_inputs mw) env cfg names (remediation_mode_of cfg)
             True local fs))"

section \<open>Every other failure\<close>

definition remediation_client :: "remediation_world \<Rightarrow> config \<Rightarrow> claude_client" where
  "remediation_client mw cfg =
     client_new (mw_F mw) (mw_now mw) (gc_acfs_repo (cf_general cfg))
       (default_claude_config
         \<lparr>cg_enabled := True, cg_cost_limit_usd := mw_R mw (rm_cost_limit_usd (cf_remediation cfg)),
          cg_timeout_seconds := rm_timeout_seconds (cf_remediation cfg),
          cg_max_attempts := rm_max_attempts (cf_remediation cfg),
          cg_max_turns := rm_max_turns (cf_remediation cfg),
          cg_auto_commit := False, cg_create_pr := False, cg_claude_bin := mw_claude_bin mw\<rparr>)"

definition suggestion_text :: "fallback_suggestion \<Rightarrow> string" where
  "suggestion_text s =
     fs_title s @ '': '' @ fs_description s @
     (if fs_commands s = [] then []
      else [nl] @ ''  $ '' @ join ([nl] @ ''  $ '') (fs_commands s))"

definition fallback_advice :: "regex_crate \<Rightarrow> error_classification \<Rightarrow> remediation_outcome" where
  "fallback_advice rx c =
     (let text = join [nl] (map suggestion_text (generate_suggestions c))
      in Advised text 0 (annotate_risks rx text) ''fallback'')"

definition advisory_prompt :: "error_classification \<Rightarrow> string \<Rightarrow> string \<Rightarrow> string" where
  "advisory_prompt c stderr repo =
     ''You are advising only: do not edit files or change anything; a human applies the fix. Reply with (1) the root cause in one short paragraph and (2) the exact commands or file edits to apply, in a fenced shell block, or say plainly that nothing in this repository can fix it.'' @
     [nl, nl] @ generate_prompt c stderr repo"

definition advise ::
  "remediation_world \<Rightarrow> nat \<Rightarrow> config \<Rightarrow> error_classification \<Rightarrow> string \<Rightarrow> claude_client
    \<Rightarrow> claude_client \<times> remediation_outcome option" where
  "advise mw i cfg c stderr cl =
     (case execute_with_resilience (mw_fuel mw) (mw_F mw) (mw_R mw) (mw_claude mw i)
         (advisory_prompt c stderr (from_utf8_lossy (gc_acfs_repo (cf_general cfg)))) cl of
        None \<Rightarrow> (cl, None)
      | Some (runs, cl', ClaudePanicked) \<Rightarrow> (cl', None)
      | Some (runs, cl', Answered res) \<Rightarrow>
          (cl', Some
            (if rr_method res = ManualRequired then fallback_advice (mw_rx mw) c
             else
               (let text = redact (mw_rx mw) (rr_claude_output res)
                in Advised text
                     (case rr_envelope res of
                        Some e \<Rightarrow> ce_total_cost_usd e
                      | None \<Rightarrow> rr_estimated_cost_usd res)
                     (annotate_risks (mw_rx mw) text) ''claude'')))
      | Some (runs, cl', Refused e) \<Rightarrow>
          (cl', Some (FailedRemediation (remediation_error_str e) (spent (mw_F mw) cl cl'))))"

definition classification_of :: "regex_crate \<Rightarrow> test_result \<Rightarrow> error_classification" where
  "classification_of rx r =
     unwrap_or (tr_error r) (classify_error rx (tr_stderr r) (unwrap_or (tr_exit_code r) (- 1)))"

definition edit_request_of ::
  "remediation_world \<Rightarrow> (string \<Rightarrow> string option) \<Rightarrow> config \<Rightarrow> bool \<Rightarrow> test_result \<Rightarrow> edit_request" where
  "edit_request_of mw env cfg local r =
     \<lparr>ed_acfs_repo = gc_acfs_repo (cf_general cfg),
      ed_worktrees_dir = Config.path_join (data_dir_path env (cf_general cfg)) ''worktrees'',
      ed_installer = tr_installer_name r,
      ed_category = ec_category (classification_of (mw_rx mw) r),
      ed_stderr = tail (tr_stderr r) 4096,
      ed_apply = (remediation_mode_of cfg = Apply),
      ed_create_pr = rm_create_pr (cf_remediation cfg),
      ed_max_attempts = rm_max_attempts (cf_remediation cfg),
      ed_allow_bash = rm_allow_bash (cf_remediation cfg),
      ed_runner_config =
        build_runner_config cfg local (dk_timeout_seconds (cf_docker cfg)) 0 False
          (''remediate-'' @ mw_run_id mw),
      ed_override = map_of (cf_installers cfg) (tr_installer_name r),
      ed_globals = \<lparr>gd_timeout_seconds = dk_timeout_seconds (cf_docker cfg), gd_retries = 0\<rparr>\<rparr>"

definition editing :: "config \<Rightarrow> bool" where
  "editing cfg \<longleftrightarrow> remediation_mode_of cfg = Propose \<or> remediation_mode_of cfg = Apply"

definition remediate_one ::
  "remediation_world \<Rightarrow> (string \<Rightarrow> string option) \<Rightarrow> config \<Rightarrow> bool \<Rightarrow> nat \<Rightarrow> test_result \<Rightarrow> claude_client
    \<Rightarrow> (claude_client \<times> remediation_outcome option) io" where
  "remediate_one mw env cfg local i r cl =
     (if editing cfg then remediate_with_claude (mw_edit mw i) (edit_request_of mw env cfg local r) cl
      else io_return (advise mw i cfg (classification_of (mw_rx mw) r) (tr_stderr r) cl))"

fun remediate_rest ::
  "remediation_world \<Rightarrow> (string \<Rightarrow> string option) \<Rightarrow> config \<Rightarrow> bool \<Rightarrow> nat \<Rightarrow> test_result list \<Rightarrow> claude_client
    \<Rightarrow> (claude_client \<times> test_result list option) io" where
  "remediate_rest mw env cfg local i [] cl = io_return (cl, Some [])"
| "remediate_rest mw env cfg local i (r # rs) cl =
     (if is_failure r \<and> tr_remediation r = None
      then io_bind (remediate_one mw env cfg local i r cl) (\<lambda>(cl', a). case a of
          None \<Rightarrow> io_return (cl', None)
        | Some out \<Rightarrow>
            io_map (\<lambda>(cl'', a). (cl'', map_option (Cons (with_outcome out r)) a))
              (remediate_rest mw env cfg local (Suc i) rs cl'))
      else io_map (\<lambda>(cl'', a). (cl'', map_option (Cons r) a))
        (remediate_rest mw env cfg local (Suc i) rs cl))"

definition remediate_results ::
  "remediation_world \<Rightarrow> (string \<Rightarrow> string option) \<Rightarrow> config \<Rightarrow> bool \<Rightarrow> test_result list \<Rightarrow> files
    \<Rightarrow> (files \<times> claude_client \<times> test_result list option) io" where
  "remediate_results mw env cfg local rs fs =
     io_bind (remediate_drift mw env cfg local rs fs) (\<lambda>(fs', a). case a of
       None \<Rightarrow> io_return (fs', remediation_client mw cfg, None)
     | Some rs' \<Rightarrow>
         io_map (Pair fs') (remediate_rest mw env cfg local 0 rs' (remediation_client mw cfg)))"

section \<open>What becomes of each result\<close>

text \<open>The outcomes that say a fix was found and verified.\<close>

fun landed_outcome :: "remediation_outcome \<Rightarrow> bool" where
  "landed_outcome (VerifiedRefresh _ _ _ _ _) \<longleftrightarrow> True"
| "landed_outcome (Proposed _ _ _ _) \<longleftrightarrow> True"
| "landed_outcome (Applied _ _ _ _) \<longleftrightarrow> True"
| "landed_outcome _ \<longleftrightarrow> False"

definition refreshed ::
  "remediation_world \<Rightarrow> (string \<Rightarrow> string option) \<Rightarrow> config \<Rightarrow> bool \<Rightarrow> string list \<Rightarrow> remediation_outcome
    \<Rightarrow> string \<Rightarrow> bool" where
  \<comment> \<open>\<open>out\<close> is what the refresh made of the pin of \<open>name\<close>\<close>
  "refreshed mw env cfg local names out name \<longleftrightarrow>
     (\<exists>e. out = FailedRemediation (''checksum refresh failed: '' @ afsc_error_str e) 0) \<or>
     (\<exists>fs w past fs' run. out = refresh_outcome run name \<and>
        fst (refresh_checksums (mw_refresh mw) (mw_inputs mw) env cfg names (remediation_mode_of cfg)
          True local fs w past) = (fs', Some (Inr run)))"

lemma remediate_drift_cases:
  assumes "remediate_drift mw env cfg local rs fs w past = ((fs', Some rs'), past')"
  obtains f where "rs' = note_drift (drifted_names rs) f rs"
    "\<And>n. n \<in> set (drifted_names rs) \<Longrightarrow> refreshed mw env cfg local (drifted_names rs) (f n) n"
proof (cases "drifted_names rs = []")
  case True
  with assms have "rs' = note_drift (drifted_names rs) f rs" for f
    by (simp add: remediate_drift_def io_return_def note_drift_def)
  with True that show ?thesis by (metis list.set(1) empty_iff)
next
  case False
  obtain fs1 a where run: "refresh_checksums (mw_refresh mw) (mw_inputs mw) env cfg (drifted_names rs)
      (remediation_mode_of cfg) True local fs w past = ((fs1, a), past')"
    using assms False by (auto simp: remediate_drift_def io_map_def io_bind_def io_return_def Let_def
        split: prod.splits)
  show ?thesis
  proof (cases a)
    case None
    with assms run False show ?thesis
      by (simp add: remediate_drift_def io_map_def io_bind_def io_return_def Let_def)
  next
    case (Some r)
    show ?thesis
    proof (cases r)
      case (Inl e)
      with assms run False Some have "rs' = note_drift (drifted_names rs)
          (\<lambda>_. FailedRemediation (''checksum refresh failed: '' @ afsc_error_str e) 0) rs"
        by (simp add: remediate_drift_def io_map_def io_bind_def io_return_def Let_def)
      with that show ?thesis unfolding refreshed_def by blast
    next
      case (Inr rr)
      with assms run False Some have "rs' = note_drift (drifted_names rs) (refresh_outcome rr) rs"
        by (simp add: remediate_drift_def io_map_def io_bind_def io_return_def Let_def)
      moreover have "fst (refresh_checksums (mw_refresh mw) (mw_inputs mw) env cfg (drifted_names rs)
          (remediation_mode_of cfg) True local fs w past) = (fs1, Some (Inr rr))"
        by (simp add: run Some Inr)
      ultimately show ?thesis using that unfolding refreshed_def by blast
    qed
  qed
qed

inductive treated ::
  "remediation_world \<Rightarrow> (string \<Rightarrow> string option) \<Rightarrow> config \<Rightarrow> bool \<Rightarrow> world \<Rightarrow> nat \<times> test_result
    \<Rightarrow> test_result \<Rightarrow> bool"
  for mw env cfg local w where
  treated_outcome: "treated mw env cfg local w (i, r) (with_outcome out r)"
    if "is_failure r \<and> tr_remediation r = None"
      "remediate_one mw env cfg local i r cl w past = ((cl', Some out), past')"
| treated_kept: "treated mw env cfg local w (i, r) r" if "\<not> (is_failure r \<and> tr_remediation r = None)"

inductive_cases treatedE: "treated mw env cfg local w (i, r) r'"

lemma remediate_rest_treats:
  assumes "remediate_rest mw env cfg local i rs cl w past = ((cl', Some rs'), past')"
  shows "list_all2 (treated mw env cfg local w) (List.enumerate i rs) rs'"
  using assms
proof (induction rs arbitrary: i cl past rs')
  case Nil
  then show ?case by (simp add: io_return_def)
next
  case (Cons r rs)
  show ?case
  proof (cases "is_failure r \<and> tr_remediation r = None")
    case True
    obtain cl1 a p where one: "remediate_one mw env cfg local i r cl w past = ((cl1, a), p)"
      by (metis prod.exhaust)
    with Cons.prems True obtain out where a: "a = Some out"
      by (cases a) (auto simp: io_map_def io_bind_def io_return_def)
    with Cons.prems True one obtain us where rest:
      "remediate_rest mw env cfg local (Suc i) rs cl1 w p = ((cl', Some us), past')"
      "rs' = with_outcome out r # us"
      by (auto simp: io_map_def io_bind_def io_return_def split: prod.splits)
    from treated_outcome [OF True one [unfolded a]] Cons.IH [OF rest(1)] show ?thesis
      by (simp add: rest(2))
  next
    case False
    with Cons.prems obtain us where rest:
      "remediate_rest mw env cfg local (Suc i) rs cl w past = ((cl', Some us), past')" "rs' = r # us"
      by (auto simp: io_map_def io_bind_def io_return_def split: prod.splits)
    from treated_kept [OF False] Cons.IH [OF rest(1)] show ?thesis
      by (simp add: rest(2))
  qed
qed

text \<open>The two passes together, by position.\<close>

inductive remediated ::
  "remediation_world \<Rightarrow> (string \<Rightarrow> string option) \<Rightarrow> config \<Rightarrow> bool \<Rightarrow> world \<Rightarrow> test_result list
    \<Rightarrow> nat \<Rightarrow> test_result \<Rightarrow> bool"
  for mw env cfg local w rs i where
  remediated_drift: "remediated mw env cfg local w rs i (with_outcome out (rs ! i))"
    if "tr_installer_name (rs ! i) \<in> set (drifted_names rs)"
      "refreshed mw env cfg local (drifted_names rs) out (tr_installer_name (rs ! i))"
| remediated_rest: "remediated mw env cfg local w rs i r'"
    if "tr_installer_name (rs ! i) \<notin> set (drifted_names rs)"
      "treated mw env cfg local w (i, rs ! i) r'"

lemma remediate_results_each:
  assumes "remediate_results mw env cfg local rs fs w past = ((fs', cl, Some rs'), past')"
  shows "length rs' = length rs \<and> (\<forall>i<length rs. remediated mw env cfg local w rs i (rs' ! i))"
proof -
  let ?names = "drifted_names rs"
  from assms obtain us p where drift: "remediate_drift mw env cfg local rs fs w past = ((fs', Some us), p)"
    and rest: "remediate_rest mw env cfg local 0 us (remediation_client mw cfg) w p = ((cl, Some rs'), past')"
    by (auto simp: remediate_results_def io_map_def io_bind_def io_return_def
        split: prod.splits option.splits)
  from drift obtain f where us: "us = note_drift ?names f rs"
    and f: "\<And>n. n \<in> set ?names \<Longrightarrow> refreshed mw env cfg local ?names (f n) n"
    by (rule remediate_drift_cases) blast
  from remediate_rest_treats [OF rest] have len: "length rs' = length rs"
    and each: "\<And>i. i < length rs \<Longrightarrow> treated mw env cfg local w (i, us ! i) (rs' ! i)"
    by (auto simp: us note_drift_def list_all2_conv_all_nth nth_enumerate_eq)
  have "remediated mw env cfg local w rs i (rs' ! i)" if i: "i < length rs" for i
  proof (cases "tr_installer_name (rs ! i) \<in> set ?names")
    case True
    with i have "us ! i = with_outcome (f (tr_installer_name (rs ! i))) (rs ! i)"
      by (simp add: us note_drift_def)
    with each [OF i] have "rs' ! i = with_outcome (f (tr_installer_name (rs ! i))) (rs ! i)"
      by (auto simp: with_outcome_def elim: treatedE)
    with True f show ?thesis by (auto intro: remediated_drift)
  next
    case False
    with i have "us ! i = rs ! i" by (simp add: us note_drift_def)
    with each [OF i] False show ?thesis by (auto intro: remediated_rest)
  qed
  with len show ?thesis by blast
qed

text \<open>
  C8: the remediation accounts for every failure and touches nothing else. The results keep their
  number and order; each keeps everything but its remediation. Every failed one gets an outcome; one
  that did not fail keeps what it had, unless its installer is among those whose pin drifted.
\<close>

theorem every_failure_is_remediated:
  assumes "remediate_results mw env cfg local rs fs w past = ((fs', cl, Some rs'), past')"
  shows "list_all2
    (\<lambda>r r'. \<exists>x. r' = r\<lparr>tr_remediation := x\<rparr> \<and> (is_failure r \<longrightarrow> x \<noteq> None) \<and>
       (\<not> is_failure r \<longrightarrow> tr_installer_name r \<notin> set (drifted_names rs) \<longrightarrow> x = tr_remediation r))
    rs rs'"
proof -
  have "\<exists>x. rs' ! i = (rs ! i)\<lparr>tr_remediation := x\<rparr> \<and> (is_failure (rs ! i) \<longrightarrow> x \<noteq> None) \<and>
      (\<not> is_failure (rs ! i) \<longrightarrow> tr_installer_name (rs ! i) \<notin> set (drifted_names rs) \<longrightarrow>
        x = tr_remediation (rs ! i))"
    if "remediated mw env cfg local w rs i (rs' ! i)" for i
  proof -
    have same: "(rs ! i)\<lparr>tr_remediation := tr_remediation (rs ! i)\<rparr> = rs ! i" by simp
    from that show ?thesis
    proof cases
      case (remediated_drift out)
      then show ?thesis by (auto simp: with_outcome_def)
    next
      case remediated_rest
      from remediated_rest(2) consider out where "rs' ! i = with_outcome out (rs ! i)" "is_failure (rs ! i)" |
        "rs' ! i = rs ! i" "\<not> (is_failure (rs ! i) \<and> tr_remediation (rs ! i) = None)"
        by (auto elim: treatedE)
      then show ?thesis
      proof cases
        case 2
        with same show ?thesis by metis
      qed (auto simp: with_outcome_def)
    qed
  qed
  with remediate_results_each [OF assms] show ?thesis by (auto simp: list_all2_conv_all_nth)
qed

section \<open>Fixes are rerun\<close>

abbreviation refresh_runner :: "remediation_world \<Rightarrow> config \<Rightarrow> bool \<Rightarrow> runner_config" where
  "refresh_runner mw cfg local \<equiv>
     build_runner_config cfg local (dk_timeout_seconds (cf_docker cfg)) 0 False (rg_run_id (mw_inputs mw))"

lemma refresh_outcome_landed:
  assumes "landed_outcome (refresh_outcome run name)"
  obtains e where "e \<in> set (rp_entries (fr_plan run))" "rq_name e = name" "is_verified e"
proof (cases "find (\<lambda>e. rq_name e = name) (rp_entries (fr_plan run))")
  case None
  with assms show ?thesis by (simp add: refresh_outcome_def split: option.splits)
next
  case (Some e)
  with assms have "is_verified e" by (simp add: refresh_outcome_def split: if_splits)
  moreover from Some have "e \<in> set (rp_entries (fr_plan run)) \<and> rq_name e = name"
    by (auto simp: find_Some_iff)
  ultimately show ?thesis using that by blast
qed

lemma refreshed_landed:
  assumes "refreshed mw env cfg local names out name" "landed_outcome out"
  shows "\<exists>cs q. rq_name q = name \<and> passed_run (mw_refresh mw) cfg (refresh_runner mw cfg local) cs q"
proof -
  from assms obtain fs w past fs' run where run: "landed_outcome (refresh_outcome run name)"
    "fst (refresh_checksums (mw_refresh mw) (mw_inputs mw) env cfg names (remediation_mode_of cfg)
       True local fs w past) = (fs', Some (Inr run))"
    by (auto simp: refreshed_def)
  from run(2) obtain cs where "\<forall>q\<in>set (rp_entries (fr_plan run)). is_verified q \<longrightarrow>
      passed_run (mw_refresh mw) cfg (refresh_runner mw cfg local) cs q" by (rule refresh_runs_passed)
  with run(1) show ?thesis by (elim refresh_outcome_landed) blast
qed

lemma session_landed:
  assumes "remediate_with_claude ew req cl w past = ((cl', Some out), past')" "landed_outcome out"
  shows "\<exists>k t. gates_passed ew req (session_of ew req) w k t"
proof -
  from yieldsD [OF session_shape assms(1)] assms(2) obtain more where "session_ends ew req w (Some out) more"
    by auto
  with assms(2) show ?thesis by (auto simp: session_ends_def Let_def)
qed

lemma advice_does_not_land: "advise mw i cfg c stderr cl = (cl', Some out) \<Longrightarrow> \<not> landed_outcome out"
  by (auto simp: advise_def fallback_advice_def Let_def split: option.splits claude_outcome.splits if_splits)


section \<open>What the remediation may do\<close>

lemma remediate_drift_yields:
  "yields (\<lambda>w past x new. (\<forall>a\<in>set new. refresh_action (mw_inputs mw) env cfg (remediation_mode_of cfg) a) \<and>
      (\<forall>us r. snd x = Some us \<longrightarrow> r \<in> set us \<longrightarrow> tr_remediation r = None \<longrightarrow> r \<in> set rs))
    (remediate_drift mw env cfg local rs fs)"
proof (rule yieldsI)
  fix w past
  let ?m = "remediate_drift mw env cfg local rs fs w past"
  have "does (refresh_action (mw_inputs mw) env cfg (remediation_mode_of cfg))
      (remediate_drift mw env cfg local rs fs)"
    unfolding remediate_drift_def Let_def by (intro does_intros does_refresh)
  then obtain new where "snd ?m = past @ new"
    "\<forall>a\<in>set new. refresh_action (mw_inputs mw) env cfg (remediation_mode_of cfg) a"
    unfolding does_def by blast
  moreover have "r \<in> set rs" if us: "snd (fst ?m) = Some us" and r: "r \<in> set us" "tr_remediation r = None" for us r
  proof -
    from us obtain fs' past' where "?m = ((fs', Some us), past')" by (metis prod.collapse)
    then obtain f where "us = note_drift (drifted_names rs) f rs" by (rule remediate_drift_cases) blast
    with r show ?thesis by (auto simp: note_drift_def with_outcome_def split: if_splits)
  qed
  ultimately show "\<exists>new. snd ?m = past @ new \<and>
      (\<forall>a\<in>set new. refresh_action (mw_inputs mw) env cfg (remediation_mode_of cfg) a) \<and>
      (\<forall>us r. snd (fst ?m) = Some us \<longrightarrow> r \<in> set us \<longrightarrow> tr_remediation r = None \<longrightarrow> r \<in> set rs)"
    by blast
qed

definition edit_action ::
  "remediation_world \<Rightarrow> (string \<Rightarrow> string option) \<Rightarrow> config \<Rightarrow> bool \<Rightarrow> test_result list \<Rightarrow> action \<Rightarrow> bool" where
  "edit_action mw env cfg local rs a \<longleftrightarrow>
     editing cfg \<and> (\<exists>i r. r \<in> set rs \<and> is_failure r \<and>
       session_action (mw_edit mw i) (edit_request_of mw env cfg local r) a)"

lemma does_remediate_rest:
  assumes "\<And>r. r \<in> set us \<Longrightarrow> tr_remediation r = None \<Longrightarrow> r \<in> set rs"
  shows "does (edit_action mw env cfg local rs) (remediate_rest mw env cfg local i us cl)"
  using assms
proof (induction us arbitrary: i cl)
  case (Cons r us)
  have "does (edit_action mw env cfg local rs) (remediate_one mw env cfg local i r cl)"
    if "is_failure r \<and> tr_remediation r = None"
  proof (cases "editing cfg")
    case True
    have "does (session_action (mw_edit mw i) (edit_request_of mw env cfg local r))
        (remediate_with_claude (mw_edit mw i) (edit_request_of mw env cfg local r) cl)"
      by (rule session_does)
    then have "does (edit_action mw env cfg local rs)
        (remediate_with_claude (mw_edit mw i) (edit_request_of mw env cfg local r) cl)"
      by (rule does_mono) (use that True Cons.prems in \<open>auto simp: edit_action_def\<close>)
    with True show ?thesis by (simp add: remediate_one_def)
  qed (simp add: remediate_one_def does_return)
  with Cons show ?case
    by (auto intro!: does_intros split: prod.split option.split)
qed (simp add: does_return)

text \<open>
  C9: all that a remediation does outside the ledger, whatever Claude and the world answer. What the
  refresh does in the configured mode; and, only in the modes propose and apply, what an edit session
  of a failed result of this run does. In advisory mode nothing but the candidate file is written.
\<close>

theorem remediation_stays_within_its_mode:
  "does (\<lambda>a. refresh_action (mw_inputs mw) env cfg (remediation_mode_of cfg) a \<or>
      edit_action mw env cfg local rs a)
    (remediate_results mw env cfg local rs fs)"
  unfolding does_yields remediate_results_def
proof (rule yields_bind [OF remediate_drift_yields])
  fix w0 p0 new and x :: "files \<times> test_result list option"
  assume x: "(\<forall>a\<in>set new. refresh_action (mw_inputs mw) env cfg (remediation_mode_of cfg) a) \<and>
    (\<forall>us r. snd x = Some us \<longrightarrow> r \<in> set us \<longrightarrow> tr_remediation r = None \<longrightarrow> r \<in> set rs)"
  have "does (edit_action mw env cfg local rs)
    (case x of (fs', a) \<Rightarrow> case a of
       None \<Rightarrow> io_return (fs', remediation_client mw cfg, None)
     | Some rs' \<Rightarrow> io_map (Pair fs') (remediate_rest mw env cfg local 0 rs' (remediation_client mw cfg)))"
    using x by (auto intro!: does_intros does_remediate_rest split: prod.split option.split)
  then show "yields (\<lambda>w past y more. w = w0 \<longrightarrow> past = p0 @ new \<longrightarrow>
      (\<forall>a\<in>set (new @ more). refresh_action (mw_inputs mw) env cfg (remediation_mode_of cfg) a \<or>
        edit_action mw env cfg local rs a))
    (case x of (fs', a) \<Rightarrow> case a of
       None \<Rightarrow> io_return (fs', remediation_client mw cfg, None)
     | Some rs' \<Rightarrow> io_map (Pair fs') (remediate_rest mw env cfg local 0 rs' (remediation_client mw cfg)))"
    unfolding does_yields by (rule yields_mono) (use x in auto)
qed

section \<open>What an advice costs\<close>

text \<open>
  the cost of a call that ends in the manual suggestions is reported as zero. When every run of
  an advisory call fails without deciding it, three runs are paid for and the account grows by all of
  them, but the result gets the fallback advice with cost zero, so nothing of it reaches the persisted
  outcome, the summary or the metrics.
\<close>

theorem fallback_costs_are_lost:
  assumes "ieee64 (mw_F mw)" "fresh_random (mw_claude mw i)" "never_decides (mw_R mw) (mw_claude mw i)"
    and "cl_retry cl = default_claude_retry (mw_F mw)"
    and "request_guards (mw_fuel mw) (mw_F mw) (mw_R mw) (mw_claude mw i) cl = Some (cl1, GuardsPassed)"
  shows "\<exists>runs cl'. advise mw i cfg c stderr cl = (cl', Some (fallback_advice (mw_rx mw) c)) \<and>
    outcome_cost_usd (fallback_advice (mw_rx mw) c) = 0 \<and> length runs = 3 \<and>
    cl_total_cost cl' = cl_total_cost cl +
      sum_list (map (\<lambda>kr. answer_cost (mw_R mw) (mw_claude mw i) (run_answer (mw_claude mw i) kr))
        (List.enumerate 0 runs))"
proof -
  let ?w = "mw_claude mw i"
  let ?prompt = "advisory_prompt c stderr (from_utf8_lossy (gc_acfs_repo (cf_general cfg)))"
  obtain runs cl' where "execute_with_resilience (mw_fuel mw) (mw_F mw) (mw_R mw) ?w ?prompt cl =
      Some (runs, cl', Answered (fallback_manual_instructions ?prompt))" "length runs = 3"
    "cl_total_cost cl' = cl_total_cost cl +
      sum_list (map (\<lambda>kr. answer_cost (mw_R mw) ?w (run_answer ?w kr)) (List.enumerate 0 runs))"
    using retries_ignore_the_cost_limit [OF assms(1,2,4,3,5)] by blast
  then show ?thesis
    by (intro exI [of _ runs] exI [of _ cl'])
      (simp add: advise_def fallback_manual_instructions_def fallback_advice_def Let_def)
qed

section \<open>A remediation\<close>

definition sample_remediation :: remediation_world where
  "sample_remediation =
     \<lparr>mw_refresh = sample_refresh_world, mw_inputs = sample_inputs ''feed'', mw_edit = \<lambda>_. sample_edit_world,
      mw_claude = \<lambda>_. Claude.sample_world, mw_rx = literal_rx, mw_F = exact_f64, mw_R = id, mw_fuel = 2,
      mw_now = 0, mw_claude_bin = None, mw_run_id = ''r''\<rparr>"

theorem fallback_costs_are_lost_witness:
  "\<exists>cl' out. advise sample_remediation 0 sample_refresh_config (classify_error literal_rx [] 1) [] sample_client = (cl', Some out) \<and>
     outcome_cost_usd out = 0 \<and> cl_total_cost cl' = 18000000"
proof -
  have w: "mw_F sample_remediation = exact_f64" "mw_R sample_remediation = id" "mw_fuel sample_remediation = 2"
    "mw_claude sample_remediation 0 = Claude.sample_world"
    by (simp_all add: sample_remediation_def)
  obtain cl1 where guards: "request_guards 2 exact_f64 id Claude.sample_world sample_client = Some (cl1, GuardsPassed)"
    using sample_guards by blast
  from fallback_costs_are_lost [of sample_remediation 0 sample_client cl1 sample_refresh_config
      "classify_error literal_rx [] 1" "[]",
      unfolded w, OF ieee64_exact sample_client_fields(1) sample_never_decides sample_client_fields(2) guards]
  show ?thesis
    by (auto simp: sample_cost sample_client_fields numeral_3_eq_3 length_Suc_conv)
qed

definition sample_drifted_result :: test_result where
  "sample_drifted_result = sample_failure
     \<lparr>tr_error := Some \<lparr>ec_severity = Configuration, ec_category = ''checksum_mismatch'', ec_suggestion = None,
        ec_retryable = False, ec_confidence = 1\<rparr>\<rparr>"

lemma sample_results:
  obtains fs' cl past' run where
    "remediate_results sample_remediation (\<lambda>_. None) sample_refresh_config True [sample_drifted_result]
       Map.empty (\<lambda>past a. Answer True [] []) [] =
     ((fs', cl, Some [with_outcome (refresh_outcome run ''uv'') sample_drifted_result]), past')"
    "landed_outcome (refresh_outcome run ''uv'')"
proof -
  have w: "mw_refresh sample_remediation = sample_refresh_world" "mw_inputs sample_remediation = sample_inputs ''feed''"
    by (simp_all add: sample_remediation_def)
  have r: "tr_installer_name sample_drifted_result = ''uv''" "is_drifted sample_drifted_result"
    by (simp_all add: sample_drifted_result_def sample_failure_def test_result_new_def is_drifted_def is_failure_def)
  have mode: "remediation_mode_of sample_refresh_config = Advisory"
    by (simp add: remediation_mode_of_def sample_refresh_config_def sample_check_config_def default_config_def
        default_remediation_config_def effective_mode_def)
  obtain fs' run past' where run:
    "refresh_checksums sample_refresh_world (sample_inputs ''feed'') (\<lambda>_. None) sample_refresh_config [''uv'']
       Advisory True True Map.empty (\<lambda>past a. Answer True [] []) [] = ((fs', Some (Inr run)), past')"
    "\<exists>e. rp_entries (fr_plan run) = [e] \<and> rq_name e = ''uv'' \<and> is_verified e" "fr_proposal run = None"
    by (rule sample_refresh [of "[''uv'']"]) auto
  then have "landed_outcome (refresh_outcome run ''uv'')"
    by (auto simp: refresh_outcome_def landed_refresh_def)
  moreover let ?rs = "[with_outcome (refresh_outcome run ''uv'') sample_drifted_result]"
  have "drifted_names [sample_drifted_result] = [''uv'']" by (simp add: drifted_names_def r)
  then have "remediate_drift sample_remediation (\<lambda>_. None) sample_refresh_config True [sample_drifted_result]
      Map.empty (\<lambda>past a. Answer True [] []) [] = ((fs', Some ?rs), past')"
    using run(1) by (simp add: remediate_drift_def w mode r note_drift_def io_map_def io_bind_def
        io_return_def Let_def)
  then have "remediate_results sample_remediation (\<lambda>_. None) sample_refresh_config True [sample_drifted_result]
      Map.empty (\<lambda>past a. Answer True [] []) [] =
      ((fs', remediation_client sample_remediation sample_refresh_config, Some ?rs), past')"
    by (simp add: remediate_results_def io_map_def io_bind_def io_return_def with_outcome_def)
  ultimately show ?thesis using that by blast
qed

theorem every_failure_is_remediated_witness:
  "\<exists>x rs'. snd (snd (fst (remediate_results sample_remediation (\<lambda>_. None) sample_refresh_config True
       [sample_drifted_result] Map.empty (\<lambda>past a. Answer True [] []) []))) = Some rs' \<and>
     rs' = [sample_drifted_result\<lparr>tr_remediation := x\<rparr>] \<and> x \<noteq> None"
proof -
  obtain fs' cl past' run where run:
    "remediate_results sample_remediation (\<lambda>_. None) sample_refresh_config True [sample_drifted_result]
       Map.empty (\<lambda>past a. Answer True [] []) [] =
     ((fs', cl, Some [with_outcome (refresh_outcome run ''uv'') sample_drifted_result]), past')"
    by (rule sample_results)
  have "is_failure sample_drifted_result"
    by (simp add: sample_drifted_result_def sample_failure_def is_failure_def)
  with every_failure_is_remediated [OF run] show ?thesis by (auto simp: run)
qed


end
