(* ===== verification/Rendering.thy ===== *)
theory Rendering
  imports History
begin

text \<open>
  Rendering of runs, timelines and differences (\<^verbatim>\<open>src/reporting/markdown.rs\<close>), shared by the status
  command and the bodies of GitHub issues. Formatting a time is a parameter.
\<close>

abbreviation arrow_right :: string where "arrow_right \<equiv> [CHR 0xE2, CHR 0x86, CHR 0x92]"

definition status_icon :: "string \<Rightarrow> string" where
  "status_icon status =
     (if status = ''passed'' then [CHR 0xE2, CHR 0x9C, CHR 0x85]
      else if status = ''failed'' then [CHR 0xE2, CHR 0x9D, CHR 0x8C]
      else if status = ''timedout'' then [CHR 0xE2, CHR 0x8F, CHR 0xB1, CHR 0xEF, CHR 0xB8, CHR 0x8F]
      else if status = ''cancelled'' then [CHR 0xE2, CHR 0x8A, CHR 0x98]
      else if status = ''skipped'' then [CHR 0xE2, CHR 0x9E, CHR 0x96]
      else [CHR 0xE2, CHR 0x9D, CHR 0x94])"

definition md_seconds :: "f64_ops \<Rightarrow> u64 \<Rightarrow> string" where
  "md_seconds F ms = show_fixed 1 (fl F (fl F (of_nat (unat ms)) / 1000)) @ ''s''"

section \<open>A run\<close>

text \<open>The counts of the head line: those of the summary, or counted when there is none.\<close>

definition md_counts :: "loaded_run \<Rightarrow> nat \<times> nat \<times> nat \<times> bool" where
  "md_counts run =
     (case lr_summary run of
        Some s \<Rightarrow> (su_passed s, su_failed s, su_skipped s, su_interrupted s)
      | None \<Rightarrow>
          (count (\<lambda>e. re_status e = ''passed'') (lr_entries run),
           count (\<lambda>e. is_failure_status (re_status e)) (lr_entries run),
           count (\<lambda>e. re_status e = ''skipped'') (lr_entries run), False))"

definition md_head :: "(instant \<Rightarrow> string) \<Rightarrow> loaded_run \<Rightarrow> string" where
  "md_head minute run =
     (case md_counts run of (p, f, s, interrupted) \<Rightarrow>
        ''## AFSC run `'' @ short_id (run_id_of run) @ ''` '' @ em_dash @ '' '' @ show_nat p @ '' passed, '' @
        show_nat f @ '' failed, '' @ show_nat s @ '' skipped ('' @ minute (started_at_of run) @ '' UTC)'' @
        (if interrupted then '' '' @ em_dash @ '' **interrupted**'' else []) @ [nl, nl])"

definition md_sorted :: "result_entry list \<Rightarrow> result_entry list" where
  \<comment> \<open>failures first, then by name; both sorts are stable\<close>
  "md_sorted es = sort_key (\<lambda>e. \<not> is_failure_status (re_status e)) (sort_key re_installer_name es)"

definition add_note :: "string \<Rightarrow> string \<Rightarrow> string" where
  "add_note note extra = (if note = [] then extra else note @ ''; '' @ extra)"

definition md_note :: "f64_ops \<Rightarrow> (string, assessment) btree \<Rightarrow> result_entry \<Rightarrow> string" where
  "md_note F assessments e =
     (let n0 = unwrap_or (Option.bind (map_of assessments (re_installer_name e)) (assessment_label F)) [];
          n1 = (if re_checksum_state e = ''mismatch'' then add_note n0 ''checksum mismatch'' else n0)
      in case re_installed_version e of Some v \<Rightarrow> add_note n1 v | None \<Rightarrow> n1)"

definition md_row :: "f64_ops \<Rightarrow> (string, assessment) btree \<Rightarrow> result_entry \<Rightarrow> string" where
  "md_row F assessments e =
     ''| '' @ re_installer_name e @ '' | '' @ status_icon (re_status e) @ '' '' @ re_status e @ '' | '' @
     unwrap_or (category_of e) [] @ '' | '' @ md_seconds F (re_duration_ms e) @ '' | '' @
     show_nat (max (length (re_attempts e)) 1) @ '' | '' @ md_note F assessments e @ '' |'' @ [nl]"

definition md_backend :: "run_header \<Rightarrow> string" where
  "md_backend h =
     [nl] @ ''Backend: '' @ rh_backend h @
     (case rh_image h of Some i \<Rightarrow> '' ('' @ i @ '')'' | None \<Rightarrow> []) @
     '', parallel '' @ show_nat (rh_parallel h) @ '', timeout '' @ show_nat (unat (rh_timeout_seconds h)) @
     ''s, retries '' @ show_nat (unat (rh_retries h)) @ '', tool v'' @ rh_tool_version h @ ''.'' @ [nl]"

definition render_run ::
  "f64_ops \<Rightarrow> (instant \<Rightarrow> string) \<Rightarrow> loaded_run \<Rightarrow> (string, assessment) btree \<Rightarrow> string" where
  "render_run F minute run assessments =
     md_head minute run @
     ''| installer | status | category | duration | attempts | note |'' @ [nl] @
     ''|---|---|---|---|---|---|'' @ [nl] @
     concat (map (md_row F assessments) (md_sorted (lr_entries run))) @
     (case lr_header run of Some h \<Rightarrow> md_backend h | None \<Rightarrow> [])"

section \<open>Timelines and differences\<close>

definition timeline_row :: "f64_ops \<Rightarrow> (instant \<Rightarrow> string) \<Rightarrow> history_entry \<Rightarrow> string" where
  "timeline_row F minute e =
     ''| `'' @ short_id (he_run_id e) @ ''` | '' @ minute (he_started_at e) @ '' | '' @
     status_icon (he_status e) @ '' '' @ he_status e @ '' | '' @ unwrap_or (he_category e) [] @ '' | '' @
     md_seconds F (he_duration_ms e) @ '' | '' @ show_nat (he_attempts e) @ '' | '' @
     unwrap_or (map_option (take_chars 8) (he_script_sha256 e)) [] @ '' | '' @
     unwrap_or (he_installed_version e) [] @ '' |'' @ [nl]"

definition render_timeline ::
  "f64_ops \<Rightarrow> (instant \<Rightarrow> string) \<Rightarrow> string \<Rightarrow> history_entry list \<Rightarrow> assessment \<Rightarrow> string" where
  "render_timeline F minute installer es a =
     ''## '' @ installer @ '' '' @ em_dash @ '' '' @ show_nat (length es) @ '' runs'' @
     (case assessment_label F a of
        Some label \<Rightarrow> '' '' @ em_dash @ '' **'' @ label @ ''**''
      | None \<Rightarrow> []) @
     [nl, nl] @ ''| run | started (UTC) | status | category | duration | attempts | script | version |'' @ [nl] @
     ''|---|---|---|---|---|---|---|---|'' @ [nl] @
     concat (map (timeline_row F minute) es)"

definition change_cell :: "string option \<Rightarrow> string option \<Rightarrow> string" where
  "change_cell status category =
     (case (status, category) of
        (Some s, Some c) \<Rightarrow> status_icon s @ '' '' @ s @ '' ('' @ c @ '')''
      | (Some s, None) \<Rightarrow> status_icon s @ '' '' @ s
      | (None, _) \<Rightarrow> em_dash)"

definition diff_row :: "diff_entry \<Rightarrow> string" where
  "diff_row c =
     ''| '' @ de_installer c @ '' | '' @ de_change c @ '' | '' @
     change_cell (de_before c) (de_category_before c) @ '' | '' @
     change_cell (de_after c) (de_category_after c) @ '' |'' @ [nl]"

definition render_diff :: "run_diff \<Rightarrow> string" where
  "render_diff d =
     ''## Diff `'' @ short_id (rd_from_run d) @ ''` '' @ arrow_right @ '' `'' @ short_id (rd_to_run d) @ ''` '' @
     em_dash @ '' '' @ show_nat (length (rd_changes d)) @ '' changed, '' @ show_nat (rd_unchanged d) @
     '' unchanged'' @ [nl, nl] @
     (if rd_changes d = [] then ''No installer changed status.'' @ [nl]
      else
        ''| installer | change | before | after |'' @ [nl] @ ''|---|---|---|---|'' @ [nl] @
        concat (map diff_row (rd_changes d)))"

end
