(* ===== verification/Notify.thy ===== *)
theory Notify
  imports Rendering Check "HOL-Library.State_Monad"
begin

text \<open>
  Notifications (\<^verbatim>\<open>src/reporting/notify.rs\<close> and, of \<^verbatim>\<open>src/main.rs\<close>, what decides about them): the
  rolling GitHub issue, the Slack message, the three modes, the digest queue and the command
  \<^verbatim>\<open>notify\<close>. Requests are sent in a state monad whose state is the list of requests so far; the
  server's answer may depend on all of them. Reading JSON, environment variables and the texts of
  times and HTTP statuses are parameters.
\<close>

section \<open>Requests\<close>

datatype slack_block = HeaderBlock string | FieldsBlock "string list" | SectionBlock string | ContextBlock string

record slack_message =
  sm_text :: string
  sm_blocks :: "slack_block list"
  sm_color :: string
  sm_attachment :: string
  sm_channel :: "string option"

datatype http_call =
  ListIssues string string \<comment> \<open>URL, token\<close>
| CreateIssue string string string string "string list" \<comment> \<open>URL, token, title, body, labels\<close>
| PostComment string string string \<comment> \<open>URL, token, body\<close>
| CloseIssue string string
| PostSlack string slack_message

datatype http_answer = Unsent string | Responded nat string \<comment> \<open>status, body\<close>

type_synonym server = "http_call list \<Rightarrow> http_call \<Rightarrow> http_answer"
type_synonym 'a net = "(http_call list, 'a) state"

definition request :: "server \<Rightarrow> http_call \<Rightarrow> http_answer net" where
  "request srv c = State (\<lambda>past. (srv past c, past @ [c]))"

definition net_try :: "(anyhow + 'a) net \<Rightarrow> ('a \<Rightarrow> (anyhow + 'b) net) \<Rightarrow> (anyhow + 'b) net" where
  "net_try m f = do {
     r \<leftarrow> m;
     case r of Inl e \<Rightarrow> State_Monad.return (Inl e) | Inr x \<Rightarrow> f x
   }"

lemma run_state_request [simp]: "run_state (request srv c) past = (srv past c, past @ [c])"
  by (simp add: request_def)

lemma run_state_net_try [simp]:
  "run_state (net_try m f) past =
    (case run_state m past of (Inl e, past') \<Rightarrow> (Inl e, past') | (Inr x, past') \<Rightarrow> run_state (f x) past')"
  by (auto simp: net_try_def split: prod.split sum.split)

definition http_success :: "nat \<Rightarrow> bool" where
  "http_success status \<longleftrightarrow> 200 \<le> status \<and> status < 300"

record gh_issue =
  gi_title :: "string option"
  gi_number :: "u64 option"
  gi_pull_request :: bool

text \<open>A line of the digest queue as it is written, and as it is read back.\<close>

record digest_entry =
  dg_run_id :: string
  dg_started_at :: instant
  dg_total :: nat
  dg_failing :: "(string, string) btree"
  dg_path :: string

record digest_view =
  dv_run_id :: "string option"
  dv_started :: "string option"
  dv_total :: string
  dv_failing :: "(string \<times> string option) list option"

text \<open>What is known of the outside besides the server.\<close>

record notify_world =
  nw_rx :: regex_crate
  nw_F :: f64_ops
  nw_minute :: "instant \<Rightarrow> string"
  nw_env :: "string \<Rightarrow> string option"
  nw_issues :: "string \<Rightarrow> gh_issue list"
  nw_number :: "string \<Rightarrow> u64 option"
  nw_status :: "nat \<Rightarrow> string"
  nw_line :: "digest_entry \<Rightarrow> string"
  nw_view :: "string \<Rightarrow> digest_view option"

section \<open>What is sent\<close>

record failure_line =
  fn_installer :: string
  fn_status :: string
  fn_category :: string
  fn_severity :: string
  fn_duration_ms :: u64
  fn_attempts :: nat
  fn_hint :: string

record notification =
  no_title :: string
  no_body :: string
  no_is_failure :: bool
  no_run_id :: string
  no_summary_fields :: "(string \<times> string) list"
  no_failures :: "failure_line list"
  no_kind :: string

record notify_outcome =
  ot_github :: "string option"
  ot_github_issue :: "u64 option"
  ot_slack :: "string option"

definition no_outcome :: notify_outcome where
  "no_outcome = \<lparr>ot_github = None, ot_github_issue = None, ot_slack = None\<rparr>"

definition plain_notification :: "string \<Rightarrow> string \<Rightarrow> bool \<Rightarrow> notification" where
  "plain_notification title message bad =
     \<lparr>no_title = title, no_body = message, no_is_failure = bad, no_run_id = [],
      no_summary_fields = [], no_failures = [],
      no_kind = (if bad then ''failure'' else ''success'')\<rparr>"

definition failure_text :: "f64_ops \<Rightarrow> failure_line \<Rightarrow> string" where
  "failure_text F f =
     ''*'' @ fn_installer f @ ''* '' @ em_dash @ '' '' @ fn_status f @ '' ('' @ fn_category f @ '', '' @
     fn_severity f @ '') '' @ em_dash @ '' '' @
     show_fixed 1 (fl F (fl F (of_nat (unat (fn_duration_ms f))) / 1000)) @ ''s, '' @
     show_nat (fn_attempts f) @ '' attempt(s)'' @
     (if fn_hint f = [] then [] else [nl] @ ''`'' @ take_chars 200 (fn_hint f) @ ''`'')"

definition slack_payload :: "f64_ops \<Rightarrow> notification \<Rightarrow> slack_message" where
  "slack_payload F n =
     \<lparr>sm_text = no_title n,
      sm_blocks =
        [HeaderBlock (take_chars 150 (no_title n))] @
        (if no_summary_fields n = [] then []
         else [FieldsBlock (map (\<lambda>(k, v). ''*'' @ k @ ''*'' @ [nl] @ v) (take 10 (no_summary_fields n)))]) @
        map (\<lambda>f. SectionBlock (failure_text F f)) (take 10 (no_failures n)) @
        (if length (no_failures n) > 10
         then [ContextBlock ([CHR 0xE2, CHR 0x80, CHR 0xA6] @ '' and '' @
           show_nat (length (no_failures n) - 10) @ '' more'')]
         else []) @
        (if no_run_id n = [] then []
         else [ContextBlock (''run `'' @ no_run_id n @ ''` '' @ [CHR 0xC2, CHR 0xB7] @ '' kind '' @ no_kind n)]),
      sm_color = (if no_is_failure n then ''#d73a49'' else ''#28a745''),
      sm_attachment = take_chars 2800 (no_body n), sm_channel = None\<rparr>"

definition excerpt :: "string \<Rightarrow> string" where
  "excerpt s = (if length (chars s) \<le> 200 then s else take_chars 200 s @ ''...'')"

section \<open>The rolling issue\<close>

definition ISSUE_LABEL :: string where "ISSUE_LABEL = ''afsc-automated''"

definition github_token :: "notify_world \<Rightarrow> github_config \<Rightarrow> string option" where
  "github_token w g =
     (if trim (gh_repo g) = [] \<or> trim (gh_token_env g) = [] then None
      else case nw_env w (gh_token_env g) of
        Some v \<Rightarrow> if trim v \<noteq> [] then Some v else None
      | None \<Rightarrow> None)"

definition trim_end_slashes :: "string \<Rightarrow> string" where
  "trim_end_slashes s = rev (dropWhile (\<lambda>c. c = CHR ''/'') (rev s))"

definition issues_url :: "github_config \<Rightarrow> string" where
  "issues_url g = trim_end_slashes (gh_api_url g) @ ''/repos/'' @ trim (gh_repo g) @ ''/issues''"

definition rolling_issue :: "string \<Rightarrow> gh_issue list \<Rightarrow> u64 option" where
  "rolling_issue title issues =
     Option.bind
       (find (\<lambda>i. case gi_title i of Some t \<Rightarrow> prefix title t | None \<Rightarrow> False)
         (filter (\<lambda>i. \<not> gi_pull_request i) issues))
       gi_number"

definition http_error :: "notify_world \<Rightarrow> string \<Rightarrow> nat \<Rightarrow> string \<Rightarrow> anyhow" where
  "http_error w what status body = [what @ '' returned '' @ nw_status w status @ '': '' @ excerpt body]"

definition find_open_issue ::
  "notify_world \<Rightarrow> server \<Rightarrow> string \<Rightarrow> string \<Rightarrow> string \<Rightarrow> (anyhow + u64 option) net" where
  "find_open_issue w srv base token title = do {
     a \<leftarrow> request srv (ListIssues (base @ ''?state=open&labels='' @ ISSUE_LABEL @ ''&per_page=50'') token);
     State_Monad.return (case a of
       Unsent e \<Rightarrow> Inl [''listing open issues'', e]
     | Responded status body \<Rightarrow>
         if \<not> http_success status then Inl (http_error w ''listing open issues'' status body)
         else Inr (rolling_issue title (nw_issues w body)))
   }"

definition create_issue ::
  "notify_world \<Rightarrow> server \<Rightarrow> string \<Rightarrow> string \<Rightarrow> string \<Rightarrow> string \<Rightarrow> (anyhow + u64) net" where
  "create_issue w srv base token title body = do {
     a \<leftarrow> request srv (CreateIssue base token title body [ISSUE_LABEL]);
     State_Monad.return (case a of
       Unsent e \<Rightarrow> Inl [''creating issue'', e]
     | Responded status text \<Rightarrow>
         if status \<noteq> 201 then Inl (http_error w ''creating issue'' status text)
         else Inr (unwrap_or (nw_number w text) 0))
   }"

definition post_comment ::
  "notify_world \<Rightarrow> server \<Rightarrow> string \<Rightarrow> string \<Rightarrow> u64 \<Rightarrow> string \<Rightarrow> (anyhow + unit) net" where
  "post_comment w srv base token number body = do {
     a \<leftarrow> request srv (PostComment (base @ ''/'' @ show_nat (unat number) @ ''/comments'') token body);
     State_Monad.return (case a of
       Unsent e \<Rightarrow> Inl [''commenting on issue'', e]
     | Responded status text \<Rightarrow>
         if status \<noteq> 201
         then Inl (http_error w (''commenting on issue #'' @ show_nat (unat number)) status text)
         else Inr ())
   }"

definition close_issue ::
  "notify_world \<Rightarrow> server \<Rightarrow> string \<Rightarrow> string \<Rightarrow> u64 \<Rightarrow> (anyhow + unit) net" where
  "close_issue w srv base token number = do {
     a \<leftarrow> request srv (CloseIssue (base @ ''/'' @ show_nat (unat number)) token);
     State_Monad.return (case a of
       Unsent e \<Rightarrow> Inl [''closing issue'', e]
     | Responded status text \<Rightarrow>
         if \<not> http_success status
         then Inl (http_error w (''closing issue #'' @ show_nat (unat number)) status text)
         else Inr ())
   }"

definition update_issue ::
  "notify_world \<Rightarrow> server \<Rightarrow> github_config \<Rightarrow> notification \<Rightarrow> string \<Rightarrow> string \<Rightarrow> u64 option
    \<Rightarrow> (anyhow + string \<times> u64 option) net" where
  "update_issue w srv g n base token existing =
     (if no_is_failure n then
        (case existing of
           Some number \<Rightarrow>
             if gh_add_comments g
             then net_try (post_comment w srv base token number (no_body n)) (\<lambda>_.
               State_Monad.return (Inr (''commented'', Some number)))
             else State_Monad.return (Inr (''skipped'', Some number))
         | None \<Rightarrow>
             if gh_create_issues g
             then net_try (create_issue w srv base token (gh_issue_title g) (no_body n)) (\<lambda>number.
               State_Monad.return (Inr (''created'', Some number)))
             else State_Monad.return (Inr (''skipped'', None)))
      else
        (case existing of
           Some number \<Rightarrow>
             net_try (post_comment w srv base token number
               (''Recovered: '' @ no_title n @ [nl, nl] @ no_body n)) (\<lambda>_.
             net_try (close_issue w srv base token number) (\<lambda>_.
               State_Monad.return (Inr (''closed'', Some number))))
         | None \<Rightarrow> State_Monad.return (Inr (''skipped'', None))))"

definition notify_github ::
  "notify_world \<Rightarrow> server \<Rightarrow> github_config \<Rightarrow> notification \<Rightarrow> (anyhow + string \<times> u64 option) net" where
  "notify_github w srv g n =
     (case github_token w g of
        None \<Rightarrow> State_Monad.return (Inr (''unconfigured'', None))
      | Some token \<Rightarrow>
          if CHR ''/'' \<notin> set (gh_repo g) then State_Monad.return (Inr (''unconfigured'', None))
          else net_try (find_open_issue w srv (issues_url g) token (gh_issue_title g))
            (update_issue w srv g n (issues_url g) token))"

section \<open>Sending\<close>

definition notify_slack ::
  "notify_world \<Rightarrow> server \<Rightarrow> slack_config \<Rightarrow> notification \<Rightarrow> (anyhow + string) net" where
  "notify_slack w srv s n =
     (if trim (sl_webhook_url_env s) = [] then State_Monad.return (Inr ''unconfigured'')
      else case (case nw_env w (sl_webhook_url_env s) of Some v \<Rightarrow> if trim v \<noteq> [] then Some v else None | None \<Rightarrow> None) of
        None \<Rightarrow> State_Monad.return (Inr ''unconfigured'')
      | Some url \<Rightarrow> do {
          a \<leftarrow> request srv (PostSlack url ((slack_payload (nw_F w) n)
            \<lparr>sm_channel := (if trim (sl_channel s) = [] then None else Some (trim (sl_channel s)))\<rparr>));
          State_Monad.return (case a of
            Unsent e \<Rightarrow> Inl [''posting to the Slack webhook'', e]
          | Responded status body \<Rightarrow>
              if \<not> http_success status then Inl (http_error w ''Slack webhook'' status body)
              else Inr ''sent'')
        })"

definition slack_wanted :: "slack_config \<Rightarrow> notification \<Rightarrow> bool" where
  "slack_wanted s n \<longleftrightarrow>
     no_is_failure n \<and> sl_notify_on_failure s \<or> \<not> no_is_failure n \<and> sl_notify_on_success s"

definition github_channel ::
  "notify_world \<Rightarrow> server \<Rightarrow> notification_config \<Rightarrow> notification \<Rightarrow> notify_outcome net" where
  "github_channel w srv c n =
     (case nc_github c of
        None \<Rightarrow> State_Monad.return no_outcome
      | Some g \<Rightarrow> do {
          r \<leftarrow> notify_github w srv g n;
          State_Monad.return (case r of
            Inr (done, issue) \<Rightarrow> no_outcome\<lparr>ot_github := Some done, ot_github_issue := issue\<rparr>
          | Inl e \<Rightarrow> no_outcome\<lparr>ot_github := Some ''failed''\<rparr>)
        })"

definition slack_channel ::
  "notify_world \<Rightarrow> server \<Rightarrow> notification_config \<Rightarrow> notification \<Rightarrow> notify_outcome \<Rightarrow> notify_outcome net" where
  "slack_channel w srv c n out =
     (case nc_slack c of
        None \<Rightarrow> State_Monad.return out
      | Some s \<Rightarrow>
          if \<not> slack_wanted s n then State_Monad.return (out\<lparr>ot_slack := Some ''skipped''\<rparr>)
          else do {
            r \<leftarrow> notify_slack w srv s n;
            State_Monad.return (out\<lparr>ot_slack := Some (case r of Inr sent \<Rightarrow> sent | Inl e \<Rightarrow> ''failed'')\<rparr>)
          })"

definition send :: "notify_world \<Rightarrow> server \<Rightarrow> notification_config \<Rightarrow> notification \<Rightarrow> notify_outcome net" where
  \<comment> \<open>always \<open>Ok\<close>\<close>
  "send w srv c n =
     (if \<not> nc_enabled c then State_Monad.return no_outcome
      else do {
        out \<leftarrow> github_channel w srv c n;
        slack_channel w srv c n out
      })"

section \<open>What a run says\<close>

definition first_hint :: "string \<Rightarrow> string" where
  "first_hint s = unwrap_or (find (\<lambda>l. l \<noteq> []) (map trim (lines s))) []"

definition failing_entries :: "loaded_run \<Rightarrow> result_entry list" where
  "failing_entries run = filter (\<lambda>e. is_failure_status (re_status e)) (lr_entries run)"

definition notification_title :: "loaded_run \<Rightarrow> string \<Rightarrow> string" where
  "notification_title run kind =
     (let short = take_chars 8 (run_id_of run); all = show_nat (length (lr_entries run))
      in if kind = ''recovered'' then ''AFSC: all '' @ all @ '' installers passing again (run '' @ short @ '')''
         else if kind = ''failure''
         then ''AFSC: '' @ show_nat (length (failing_entries run)) @ '' of '' @ all @
           '' installers failing (run '' @ short @ '')''
         else ''AFSC: '' @ show_nat (Persist.count (\<lambda>e. re_status e = ''passed'') (lr_entries run)) @ ''/'' @ all @
           '' passed (run '' @ short @ '')'')"

definition failure_line_of :: "regex_crate \<Rightarrow> result_entry \<Rightarrow> failure_line" where
  "failure_line_of rx e =
     \<lparr>fn_installer = re_installer_name e, fn_status = re_status e,
      fn_category = unwrap_or (category_of e) ''unknown'',
      fn_severity = unwrap_or (map_option ee_severity (re_error_classification e)) [],
      fn_duration_ms = re_duration_ms e, fn_attempts = max (length (re_attempts e)) 1,
      fn_hint = redact rx (first_hint (re_stderr_tail e))\<rparr>"

definition build_notification ::
  "notify_world \<Rightarrow> loaded_run \<Rightarrow> (string, assessment) btree \<Rightarrow> string \<Rightarrow> notification" where
  "build_notification w run assessments kind =
     \<lparr>no_title = notification_title run kind,
      no_body = render_run (nw_F w) (nw_minute w) run assessments @
        [nl] @ ''Run id: `'' @ run_id_of run @ ''`  '' @ [nl] @
        ''Results file: `'' @ rf_path (lr_info run) @ ''`'' @ [nl],
      no_is_failure = (failing_entries run \<noteq> []), no_run_id = run_id_of run,
      no_summary_fields =
        [(''Passed'', show_nat (Persist.count (\<lambda>e. re_status e = ''passed'') (lr_entries run))),
         (''Failed'', show_nat (length (failing_entries run))),
         (''Skipped'', show_nat (Persist.count (\<lambda>e. re_status e = ''skipped'') (lr_entries run))),
         (''Started (UTC)'', nw_minute w (started_at_of run))] @
        (case lr_header run of
           Some h \<Rightarrow> [(''Backend'', rh_backend h @
             (case rh_image h of Some i \<Rightarrow> '' ('' @ i @ '')'' | None \<Rightarrow> []))]
         | None \<Rightarrow> []),
      no_failures = map (failure_line_of (nw_rx w)) (failing_entries run), no_kind = kind\<rparr>"

section \<open>Deciding\<close>

definition run_kind :: "history \<Rightarrow> loaded_run \<Rightarrow> string" where
  "run_kind h run =
     (if failing_set run = []
      then if (case previous_run (run_id_of run) h of Some p \<Rightarrow> failing_set p | None \<Rightarrow> []) = []
        then ''success'' else ''recovered''
      else ''failure'')"

fun mode_name :: "notification_mode \<Rightarrow> string" where
  "mode_name EveryRun = ''everyrun''"
| "mode_name OnChange = ''onchange''"
| "mode_name DailyDigest = ''dailydigest''"

definition pending_digest_path :: "(string \<Rightarrow> string option) \<Rightarrow> config \<Rightarrow> string" where
  "pending_digest_path env cfg =
     Config.path_join (Config.path_join (data_dir_path env (cf_general cfg)) ''notify'') ''pending.jsonl''"

definition digest_entry_of :: "loaded_run \<Rightarrow> digest_entry" where
  "digest_entry_of run =
     \<lparr>dg_run_id = run_id_of run, dg_started_at = started_at_of run, dg_total = length (lr_entries run),
      dg_failing = failing_set run, dg_path = from_utf8_lossy (rf_path (lr_info run))\<rparr>"

definition append_line :: "string \<Rightarrow> string \<Rightarrow> files \<Rightarrow> files" where
  "append_line path line fs = fs(path \<mapsto> unwrap_or (fs path) [] @ line @ [nl])"

definition decide ::
  "notify_world \<Rightarrow> (string \<Rightarrow> string option) \<Rightarrow> config \<Rightarrow> history \<Rightarrow> loaded_run \<Rightarrow> bool \<Rightarrow> bool \<Rightarrow> files
    \<Rightarrow> files \<times> string" where
  \<comment> \<open>\<open>writable\<close>: the queue can be appended to\<close>
  "decide w env cfg h run force writable fs =
     (if force then (fs, ''send'')
      else case nt_mode (cf_notifications cfg) of
        EveryRun \<Rightarrow> (fs, ''send'')
      | OnChange \<Rightarrow>
          (fs, case previous_run (run_id_of run) h of
             Some p \<Rightarrow> if failing_set p = failing_set run then ''unchanged'' else ''send''
           | None \<Rightarrow> ''send'')
      | DailyDigest \<Rightarrow>
          if writable
          then (append_line (pending_digest_path env cfg) (nw_line w (digest_entry_of run)) fs, ''queued'')
          else (fs, ''queue_failed''))"

record notify_doc =
  nd_decision :: string
  nd_kind :: "string option"
  nd_mode :: "string option"
  nd_run_id :: "string option"
  nd_title :: "string option"
  nd_outcome :: notify_outcome
  nd_runs :: "nat option"
  nd_queue :: "string option"

definition assessments_of :: "notify_world \<Rightarrow> history \<Rightarrow> loaded_run \<Rightarrow> (string, assessment) btree" where
  "assessments_of w h run =
     (if length h > 1
      then bt_extend (map (\<lambda>e. (re_installer_name e, assess (nw_F w) (re_installer_name e) h)) (lr_entries run)) []
      else [])"

definition dispatch_notification ::
  "notify_world \<Rightarrow> server \<Rightarrow> (string \<Rightarrow> string option) \<Rightarrow> config \<Rightarrow> history \<Rightarrow> loaded_run \<Rightarrow> bool \<Rightarrow> bool
    \<Rightarrow> files \<Rightarrow> (files \<times> notify_doc) net" where
  "dispatch_notification w srv env cfg h run force writable fs =
     (let kind = run_kind h run;
          doc = \<lparr>nd_decision = [], nd_kind = Some kind,
            nd_mode = Some (mode_name (nt_mode (cf_notifications cfg))), nd_run_id = Some (run_id_of run),
            nd_title = None, nd_outcome = no_outcome, nd_runs = None, nd_queue = None\<rparr>
      in case decide w env cfg h run force writable fs of (fs', decision) \<Rightarrow>
           if decision \<noteq> ''send'' then State_Monad.return (fs', doc\<lparr>nd_decision := decision\<rparr>)
           else do {
             let n = build_notification w run (assessments_of w h run) kind;
             out \<leftarrow> send w srv (to_internal (cf_notifications cfg)) n;
             State_Monad.return (fs', doc\<lparr>nd_decision := ''sent'', nd_title := Some (no_title n), nd_outcome := out\<rparr>)
           })"

section \<open>The command\<close>

definition digest_failing :: "digest_view \<Rightarrow> (string, string) btree" where
  "digest_failing v =
     bt_extend (map (\<lambda>(k, c). (k, unwrap_or c ''unknown'')) (unwrap_or (dv_failing v) [])) []"

definition digest_row :: "digest_view \<Rightarrow> string" where
  "digest_row v =
     (let names = map fst (unwrap_or (dv_failing v) [])
      in ''| `'' @ take_chars 8 (unwrap_or (dv_run_id v) []) @ ''` | '' @ unwrap_or (dv_started v) [] @ '' | '' @
         dv_total v @ '' | '' @ (if names = [] then em_dash else join '', '' names) @ '' |'' @ [nl])"

definition digest_title :: "digest_view list \<Rightarrow> string" where
  "digest_title vs =
     ''AFSC daily digest: '' @ show_nat (length vs) @ '' run(s), '' @
     show_nat (length (digest_failing (last vs))) @ '' installer(s) currently failing''"

definition digest_body :: "digest_view list \<Rightarrow> string" where
  "digest_body vs =
     ''## AFSC daily digest '' @ em_dash @ '' '' @ show_nat (length vs) @ '' run(s)'' @ [nl, nl] @
     ''| run | started (UTC) | total | failing |'' @ [nl] @ ''|---|---|---|---|'' @ [nl] @
     concat (map digest_row vs)"

definition digest_notification :: "notify_world \<Rightarrow> history \<Rightarrow> digest_view list \<Rightarrow> notification" where
  "digest_notification w h vs =
     (let v = last vs; ok = (digest_failing v = [])
      in (case Option.bind (dv_run_id v) (\<lambda>i. history_find i h) of
            Some run \<Rightarrow>
              (let n = build_notification w run [] (if ok then ''success'' else ''failure'')
               in n\<lparr>no_body := digest_body vs @ [nl] @ ''### Latest run'' @ [nl, nl] @ no_body n\<rparr>)
          | None \<Rightarrow>
              \<lparr>no_title = [], no_body = digest_body vs, no_is_failure = (\<not> ok),
               no_run_id = unwrap_or (dv_run_id v) [], no_summary_fields = [], no_failures = [], no_kind = []\<rparr>)
         \<lparr>no_title := digest_title vs, no_kind := ''digest''\<rparr>)"

definition rotate_queue :: "string \<Rightarrow> string \<Rightarrow> bool \<Rightarrow> files \<Rightarrow> files" where
  "rotate_queue path rotated renamed fs = (if renamed then fs(rotated := fs path, path := None) else fs)"

definition pending_views :: "notify_world \<Rightarrow> string option \<Rightarrow> digest_view list" where
  "pending_views w content = List.map_filter (nw_view w) (lines (unwrap_or content []))"

definition cmd_notify ::
  "notify_world \<Rightarrow> server \<Rightarrow> (string \<Rightarrow> string option) \<Rightarrow> config \<Rightarrow> anyhow + history \<Rightarrow> string option \<Rightarrow> bool
    \<Rightarrow> string \<Rightarrow> bool \<Rightarrow> files \<Rightarrow> (afsc_error + files \<times> notify_doc) net" where
  \<comment> \<open>\<open>stamp\<close> is the formatted time, \<open>renamed\<close> whether the queue can be renamed\<close>
  "cmd_notify w srv env cfg loaded selector digest stamp renamed fs =
     (if \<not> nt_enabled (cf_notifications cfg)
      then State_Monad.return (Inl (ConfigError
        ''notifications are disabled: set [notifications].enabled = true (or AFSC_NOTIFICATIONS_ENABLED=1)''))
      else case loaded of
        Inl e \<Rightarrow> State_Monad.return (Inl (Other e))
      | Inr h \<Rightarrow>
          if digest then
            (let path = pending_digest_path env cfg; vs = pending_views w (fs path);
                 rotated = Config.path_join (Config.path_join (data_dir_path env (cf_general cfg)) ''notify'')
                   (''sent_'' @ stamp @ ''.jsonl'');
                 doc = \<lparr>nd_decision = ''nothing_pending'', nd_kind = Some ''notify'', nd_mode = None,
                   nd_run_id = None, nd_title = None, nd_outcome = no_outcome, nd_runs = Some 0, nd_queue = None\<rparr>
             in if vs = [] then State_Monad.return (Inr (fs, doc))
                else do {
                  let n = digest_notification w h vs;
                  out \<leftarrow> send w srv (to_internal (cf_notifications cfg)) n;
                  State_Monad.return (Inr (rotate_queue path rotated renamed fs,
                    doc\<lparr>nd_decision := ''sent'', nd_runs := Some (length vs), nd_title := Some (no_title n),
                        nd_outcome := out, nd_queue := Some rotated\<rparr>))
                })
          else
            (case history_find (unwrap_or selector ''last'') h of
               None \<Rightarrow> State_Monad.return (Inl (Usage
                 (''no run matches '' @ debug_str (unwrap_or selector ''last'') @ '' (try: status --list)'')))
             | Some run \<Rightarrow> do {
                 r \<leftarrow> dispatch_notification w srv env cfg h run True True fs;
                 State_Monad.return (Inr (fst r, (snd r)\<lparr>nd_kind := Some ''notify''\<rparr>))
               }))"

section \<open>The issue and the runs\<close>

text \<open>
  What the notifier relies on of GitHub, for the issues under \<open>base\<close>: \<open>view\<close> are the open ones with
  the label, newest first. Listing gives the first fifty and changes nothing; with fewer than fifty,
  a created issue of the title is open under a new number; a comment changes nothing; closing an issue takes
  it away. Every issue has a number of its own.
\<close>

definition tracks :: "notify_world \<Rightarrow> server \<Rightarrow> string \<Rightarrow> string \<Rightarrow> (http_call list \<Rightarrow> gh_issue list) \<Rightarrow> bool" where
  "tracks w srv base title view \<longleftrightarrow>
     (\<forall>past. distinct (map gi_number (view past)) \<and> None \<notin> set (map gi_number (view past))) \<and>
     (\<forall>past q tok. \<exists>body. srv past (ListIssues (base @ q) tok) = Responded 200 body \<and>
        nw_issues w body = take 50 (view past) \<and> view (past @ [ListIssues (base @ q) tok]) = view past) \<and>
     (\<forall>past tok body. let c = CreateIssue base tok title body [ISSUE_LABEL] in length (view past) < 50 \<longrightarrow>
        (\<exists>text n. srv past c = Responded 201 text \<and> nw_number w text = Some n \<and>
          view (past @ [c]) = \<lparr>gi_title = Some title, gi_number = Some n, gi_pull_request = False\<rparr> # view past)) \<and>
     (\<forall>past url tok body. (\<exists>text. srv past (PostComment url tok body) = Responded 201 text) \<and>
        view (past @ [PostComment url tok body]) = view past) \<and>
     (\<forall>past n tok. let c = CloseIssue (base @ ''/'' @ show_nat (unat n)) tok in
        (\<exists>text. srv past c = Responded 200 text) \<and>
        view (past @ [c]) = filter (\<lambda>i. gi_number i \<noteq> Some n) (view past))"

definition rolling :: "string \<Rightarrow> gh_issue \<Rightarrow> bool" where
  "rolling title i \<longleftrightarrow>
     \<not> gi_pull_request i \<and> (case gi_title i of Some t \<Rightarrow> prefix title t | None \<Rightarrow> False)"

lemma find_filter: "find P (filter Q xs) = find (\<lambda>x. Q x \<and> P x) xs"
  by (induction xs) auto

lemma rolling_issue_find: "rolling_issue title is = Option.bind (find (rolling title) is) gi_number"
  by (simp add: rolling_issue_def find_filter rolling_def [abs_def])

lemma filter_by_number:
  assumes "distinct (map gi_number is)" "filter P is = [i]" "gi_number i = Some n"
  shows "filter P (filter (\<lambda>j. gi_number j \<noteq> Some n) is) = []"
    "filter (\<lambda>j. \<not> P j) (filter (\<lambda>j. gi_number j \<noteq> Some n) is) = filter (\<lambda>j. \<not> P j) is"
proof -
  have "{j \<in> set is. P j} = {i}" using assms(2) by (metis empty_set list.simps(15) set_filter)
  note one = this
  then have i: "i \<in> set is" "P i" by blast+
  have only: "j = i" if "j \<in> set is" "P j" for j using one that by blast
  have same: "j = i" if "j \<in> set is" "gi_number j = Some n" for j
    using that i(1) assms(1,3) by (metis distinct_map inj_on_def)
  show "filter P (filter (\<lambda>j. gi_number j \<noteq> Some n) is) = []"
    using only assms(3) by (auto simp: filter_empty_conv)
  show "filter (\<lambda>j. \<not> P j) (filter (\<lambda>j. gi_number j \<noteq> Some n) is) = filter (\<lambda>j. \<not> P j) is"
    using same i(2) by (auto intro!: filter_cong)
qed

lemma tracksD:
  assumes "tracks w srv base title view"
  shows "distinct (map gi_number (view past))" "i \<in> set (view past) \<Longrightarrow> gi_number i \<noteq> None"
    and "\<exists>body. srv past (ListIssues (base @ q) tok) = Responded 200 body \<and>
      nw_issues w body = take 50 (view past) \<and> view (past @ [ListIssues (base @ q) tok]) = view past"
    and "length (view past) < 50 \<Longrightarrow> \<exists>text n. srv past (CreateIssue base tok title body [ISSUE_LABEL]) = Responded 201 text \<and>
      nw_number w text = Some n \<and> view (past @ [CreateIssue base tok title body [ISSUE_LABEL]]) =
        \<lparr>gi_title = Some title, gi_number = Some n, gi_pull_request = False\<rparr> # view past"
    and "\<exists>text. srv past (PostComment url tok body) = Responded 201 text"
    and "view (past @ [PostComment url tok body]) = view past"
    and "\<exists>text. srv past (CloseIssue (base @ ''/'' @ show_nat (unat m)) tok) = Responded 200 text"
    and "view (past @ [CloseIssue (base @ ''/'' @ show_nat (unat m)) tok]) =
      filter (\<lambda>i. gi_number i \<noteq> Some m) (view past)"
proof -
  note c = assms [unfolded tracks_def Let_def]
  note d = conjunct2 [OF c]
  note e = conjunct2 [OF d]
  note f = conjunct2 [OF e]
  show "distinct (map gi_number (view past))" using conjunct1 [OF c] by blast
  show "gi_number i \<noteq> None" if "i \<in> set (view past)"
    using conjunct1 [OF c] that by (metis image_eqI list.set_map)
  show "\<exists>body. srv past (ListIssues (base @ q) tok) = Responded 200 body \<and>
      nw_issues w body = take 50 (view past) \<and> view (past @ [ListIssues (base @ q) tok]) = view past"
    using conjunct1 [OF d] by blast
  show "\<exists>text n. srv past (CreateIssue base tok title body [ISSUE_LABEL]) = Responded 201 text \<and>
      nw_number w text = Some n \<and> view (past @ [CreateIssue base tok title body [ISSUE_LABEL]]) =
        \<lparr>gi_title = Some title, gi_number = Some n, gi_pull_request = False\<rparr> # view past"
    if "length (view past) < 50"
    using conjunct1 [OF e] that by blast
  show "\<exists>text. srv past (PostComment url tok body) = Responded 201 text"
    "view (past @ [PostComment url tok body]) = view past"
    using conjunct1 [OF f] by blast+
  show "\<exists>text. srv past (CloseIssue (base @ ''/'' @ show_nat (unat m)) tok) = Responded 200 text"
    "view (past @ [CloseIssue (base @ ''/'' @ show_nat (unat m)) tok]) =
      filter (\<lambda>i. gi_number i \<noteq> Some m) (view past)"
    using conjunct2 [OF f] by blast+
qed

lemma update_issue_tracks:
  assumes "tracks w srv (issues_url g) (gh_issue_title g) view" "gh_create_issues g"
    and "filter (rolling (gh_issue_title g)) (view past) = is"
    and "length (view past) < 50 + length is"
    and "is = [] \<and> existing = None \<or> (\<exists>i k. is = [i] \<and> gi_number i = Some k \<and> existing = Some k)"
  shows "\<exists>r past'. run_state (update_issue w srv g n (issues_url g) token existing) past = (Inr r, past') \<and>
    length (filter (rolling (gh_issue_title g)) (view past')) = (if no_is_failure n then 1 else 0) \<and>
    filter (\<lambda>i. \<not> rolling (gh_issue_title g) i) (view past') =
      filter (\<lambda>i. \<not> rolling (gh_issue_title g) i) (view past)"
proof -
  note gh = tracksD [OF assms(1)]
  from assms(5) show ?thesis
  proof (elim disjE exE conjE)
    assume none: "is = []" "existing = None"
    show ?thesis
    proof (cases "no_is_failure n")
      case True
      obtain answer m where "srv past (CreateIssue (issues_url g) token (gh_issue_title g) (no_body n) [ISSUE_LABEL]) =
          Responded 201 answer" "nw_number w answer = Some m"
        "view (past @ [CreateIssue (issues_url g) token (gh_issue_title g) (no_body n) [ISSUE_LABEL]]) =
          \<lparr>gi_title = Some (gh_issue_title g), gi_number = Some m, gi_pull_request = False\<rparr> # view past"
        using gh(4) assms(4) none(1) by force
      with True none assms(2,3) show ?thesis
        by (simp add: update_issue_def create_issue_def rolling_def)
    next
      case False
      with none assms(3) show ?thesis by (simp add: update_issue_def)
    qed
  next
    fix i k
    assume one: "is = [i]" "gi_number i = Some k" "existing = Some k"
    show ?thesis
    proof (cases "no_is_failure n")
      case True
      obtain answer where "srv past (PostComment (issues_url g @ ''/'' @ show_nat (unat k) @ ''/comments'') token
          (no_body n)) = Responded 201 answer"
        using gh(5) by blast
      with True one assms(3) show ?thesis
        by (simp add: update_issue_def post_comment_def gh(6))
    next
      case False
      let ?c = "PostComment (issues_url g @ ''/'' @ show_nat (unat k) @ ''/comments'') token
        (''Recovered: '' @ no_title n @ [nl, nl] @ no_body n)"
      let ?d = "CloseIssue (issues_url g @ ''/'' @ show_nat (unat k)) token"
      obtain a b where "srv past ?c = Responded 201 a" "srv (past @ [?c]) ?d = Responded 200 b"
        using gh(5,7) by meson
      moreover have "view ((past @ [?c]) @ [?d]) = filter (\<lambda>j. gi_number j \<noteq> Some k) (view past)"
        by (simp only: gh(6,8))
      moreover note filter_by_number [OF gh(1) assms(3) [unfolded one(1)] one(2)]
      ultimately show ?thesis
        using False one by (simp add: update_issue_def post_comment_def close_issue_def http_success_def)
    qed
  qed
qed

lemma rolling_issue_of:
  assumes "tracks w srv base title view" "length (filter (rolling title) (view past)) \<le> 1"
  shows "filter (rolling title) (view past) = [] \<and> rolling_issue title (view past) = None \<or>
    (\<exists>i k. filter (rolling title) (view past) = [i] \<and> gi_number i = Some k \<and>
      rolling_issue title (view past) = Some k)"
proof (cases "find (rolling title) (view past)")
  case None
  then have "filter (rolling title) (view past) = []" by (simp add: find_None_iff filter_empty_conv)
  with None show ?thesis by (simp add: rolling_issue_find)
next
  case (Some i)
  then have "i \<in> set (filter (rolling title) (view past))" by (auto simp: find_Some_iff)
  with assms(2) have "filter (rolling title) (view past) = [i]"
    by (cases "filter (rolling title) (view past)") auto
  moreover have "i \<in> set (view past)" using Some by (auto simp: find_Some_iff)
  then obtain k where "gi_number i = Some k" using tracksD(2) [OF assms(1)] by blast
  ultimately show ?thesis using Some by (simp add: rolling_issue_find)
qed

lemma issue_follows_one_run:
  assumes "tracks w srv (issues_url g) (gh_issue_title g) view" "github_token w g = Some token" "CHR ''/'' \<in> set (gh_repo g)"
    and "gh_create_issues g"
    and others: "length (filter (\<lambda>i. \<not> rolling (gh_issue_title g) i) (view past)) < 50"
    and "length (filter (rolling (gh_issue_title g)) (view past)) \<le> 1"
  shows "\<exists>r past'. run_state (notify_github w srv g n) past = (Inr r, past') \<and>
    length (filter (rolling (gh_issue_title g)) (view past')) = (if no_is_failure n then 1 else 0) \<and>
    filter (\<lambda>i. \<not> rolling (gh_issue_title g) i) (view past') =
      filter (\<lambda>i. \<not> rolling (gh_issue_title g) i) (view past)"
proof -
  have size: "length (view past) < 50 + length (filter (rolling (gh_issue_title g)) (view past))"
    using others sum_length_filter_compl [of "rolling (gh_issue_title g)" "view past"] by linarith
  let ?l = "ListIssues (issues_url g @ ''?state=open&labels='' @ ISSUE_LABEL @ ''&per_page=50'') token"
  obtain body where "srv past ?l = Responded 200 body" "nw_issues w body = take 50 (view past)"
    and same: "view (past @ [?l]) = view past"
    using tracksD(3) [OF assms(1)] by blast
  with size assms(6) have "run_state (find_open_issue w srv (issues_url g) token (gh_issue_title g)) past =
      (Inr (rolling_issue (gh_issue_title g) (view past)), past @ [?l])"
    by (simp add: find_open_issue_def http_success_def)
  moreover from update_issue_tracks [OF assms(1,4) refl, of "past @ [?l]", unfolded same,
      OF size rolling_issue_of [OF assms(1,6)]]
  obtain r past' where "run_state (update_issue w srv g n (issues_url g) token
      (rolling_issue (gh_issue_title g) (view past))) (past @ [?l]) = (Inr r, past')"
    "length (filter (rolling (gh_issue_title g)) (view past')) = (if no_is_failure n then 1 else 0)"
    "filter (\<lambda>i. \<not> rolling (gh_issue_title g) i) (view past') =
      filter (\<lambda>i. \<not> rolling (gh_issue_title g) i) (view past)"
    by blast
  ultimately show ?thesis using assms(2,3) by (simp add: notify_github_def)
qed

definition notify_runs ::
  "notify_world \<Rightarrow> server \<Rightarrow> github_config \<Rightarrow> notification list \<Rightarrow> http_call list \<Rightarrow> http_call list" where
  "notify_runs w srv g ns past = fold (\<lambda>n past. snd (run_state (notify_github w srv g n) past)) ns past"


section \<open>Deliveries that fail\<close>

lemma send_undelivered:
  assumes "\<And>past c. \<exists>e. srv past c = Unsent e" "run_state (send w srv c n) past = (out, past')"
  shows "ot_github out \<in> {None, Some ''unconfigured'', Some ''failed''} \<and>
    ot_slack out \<in> {None, Some ''unconfigured'', Some ''skipped'', Some ''failed''}"
proof -
  from assms(1) obtain e where srv: "srv past c = Unsent (e past c)" for past c by metis
  have github: "ot_github (fst (run_state (github_channel w srv c n) past)) \<in> {None, Some ''unconfigured'', Some ''failed''} \<and>
      ot_slack (fst (run_state (github_channel w srv c n) past)) = None" for past
    by (auto simp: github_channel_def notify_github_def find_open_issue_def srv no_outcome_def
        split: option.split)
  have slack: "ot_github (fst (run_state (slack_channel w srv c n o1) past)) = ot_github o1 \<and>
      (ot_slack o1 = None \<longrightarrow> ot_slack (fst (run_state (slack_channel w srv c n o1) past)) \<in>
        {None, Some ''unconfigured'', Some ''skipped'', Some ''failed''})" for o1 past
    by (auto simp: slack_channel_def notify_slack_def srv Let_def split: option.split)
  show ?thesis
  proof (cases "nc_enabled c")
    case True
    obtain o1 p1 where o1: "run_state (github_channel w srv c n) past = (o1, p1)" by force
    with True assms(2) have "run_state (slack_channel w srv c n o1) p1 = (out, past')" by (simp add: send_def)
    with slack [of o1 p1] github [of past] o1 show ?thesis by simp
  next
    case False
    with assms(2) show ?thesis by (auto simp: send_def no_outcome_def)
  qed
qed


text \<open>
  in the mode \<open>on_change\<close> a failure that could not be delivered stays unreported. The first
  failing run counts as sent although no request left, and the next run with the same failures sends
  nothing, whatever the server does by then.
\<close>

theorem undelivered_changes_are_not_repeated:
  assumes "\<And>past c. \<exists>e. srv past c = Unsent e" "nt_mode (cf_notifications cfg) = OnChange"
    and "case h of [] \<Rightarrow> True | q # _ \<Rightarrow> failing_set q \<noteq> failing_set p"
    and "run_id_of run \<noteq> run_id_of p" "failing_set run = failing_set p"
  shows "\<exists>doc1 past1. run_state (dispatch_notification w srv env cfg (p # h) p False writable fs) past =
      ((fs, doc1), past1) \<and> nd_decision doc1 = ''sent'' \<and>
    ot_github (nd_outcome doc1) \<in> {None, Some ''unconfigured'', Some ''failed''} \<and>
    ot_slack (nd_outcome doc1) \<in> {None, Some ''unconfigured'', Some ''skipped'', Some ''failed''} \<and>
    (\<exists>doc2. run_state (dispatch_notification w srv2 env cfg (run # p # h) run False writable fs) past1 =
       ((fs, doc2), past1) \<and> nd_decision doc2 = ''unchanged'')"
proof -
  let ?n = "build_notification w p (assessments_of w (p # h) p) (run_kind (p # h) p)"
  obtain out past1 where sent: "run_state (send w srv (to_internal (cf_notifications cfg)) ?n) past = (out, past1)"
    by force
  have "decide w env cfg (p # h) p False writable fs = (fs, ''send'')"
    using assms(2,3) by (cases h) (auto simp: decide_def)
  with sent send_undelivered [OF assms(1) sent] assms(2,4,5) show ?thesis
    by (simp add: dispatch_notification_def decide_def Let_def)
qed

section \<open>Where requests go\<close>

definition configured_call :: "notify_world \<Rightarrow> notification_config \<Rightarrow> notification \<Rightarrow> http_call \<Rightarrow> bool" where
  "configured_call w c n call \<longleftrightarrow> nc_enabled c \<and>
     (case call of
        ListIssues u t \<Rightarrow> \<exists>g. nc_github c = Some g \<and> github_token w g = Some t \<and> prefix (issues_url g) u
      | CreateIssue u t title body labels \<Rightarrow>
          \<exists>g. nc_github c = Some g \<and> github_token w g = Some t \<and> u = issues_url g \<and>
            gh_create_issues g \<and> no_is_failure n \<and> title = gh_issue_title g \<and> labels = [ISSUE_LABEL]
      | PostComment u t body \<Rightarrow>
          \<exists>g. nc_github c = Some g \<and> github_token w g = Some t \<and> prefix (issues_url g) u \<and>
            (no_is_failure n \<longrightarrow> gh_add_comments g)
      | CloseIssue u t \<Rightarrow>
          \<exists>g. nc_github c = Some g \<and> github_token w g = Some t \<and> prefix (issues_url g) u \<and> \<not> no_is_failure n
      | PostSlack u m \<Rightarrow>
          \<exists>s. nc_slack c = Some s \<and> nw_env w (sl_webhook_url_env s) = Some u \<and> slack_wanted s n)"

definition extends :: "(http_call \<Rightarrow> bool) \<Rightarrow> http_call list \<Rightarrow> http_call list \<Rightarrow> bool" where
  "extends P past past' \<longleftrightarrow> (\<exists>new. past' = past @ new \<and> list_all P new)"

lemma extends_refl: "extends P past past"
  by (simp add: extends_def)

lemma extends_trans: "extends P a b \<Longrightarrow> extends P b c \<Longrightarrow> extends P a c"
  unfolding extends_def by (metis append.assoc list_all_append)

lemma calls_return: "state_io_rel (extends P) (State_Monad.return x)"
  by (rule state_io_relI) (simp add: extends_refl)

lemma calls_request: "P c \<Longrightarrow> state_io_rel (extends P) (request srv c)"
  by (rule state_io_relI) (auto simp: extends_def)

lemma calls_bind:
  assumes "state_io_rel (extends P) m" "\<And>x. state_io_rel (extends P) (f x)"
  shows "state_io_rel (extends P) (State_Monad.bind m f)"
proof (rule state_io_relI)
  fix y past past'
  assume run: "run_state (State_Monad.bind m f) past = (y, past')"
  obtain x p where x: "run_state m past = (x, p)" by force
  with run have "run_state (f x) p = (y, past')" by simp
  with x assms show "extends P past past'" by (meson extends_trans state_io_relD)
qed

lemma calls_try:
  "state_io_rel (extends P) m \<Longrightarrow> (\<And>x. state_io_rel (extends P) (f x)) \<Longrightarrow> state_io_rel (extends P) (net_try m f)"
  unfolding net_try_def by (rule calls_bind) (auto intro: calls_return split: sum.split)

lemmas calls_intros = calls_return calls_request calls_bind calls_try

lemma github_calls:
  assumes "nc_enabled c" "nc_github c = Some g"
  shows "state_io_rel (extends (configured_call w c n)) (notify_github w srv g n)"
proof (cases "github_token w g")
  case (Some token)
  have calls: "configured_call w c n (ListIssues (issues_url g @ q) token)"
    "gh_create_issues g \<Longrightarrow> no_is_failure n \<Longrightarrow>
      configured_call w c n (CreateIssue (issues_url g) token (gh_issue_title g) body [ISSUE_LABEL])"
    "(no_is_failure n \<Longrightarrow> gh_add_comments g) \<Longrightarrow> configured_call w c n (PostComment (issues_url g @ q) token body)"
    "\<not> no_is_failure n \<Longrightarrow> configured_call w c n (CloseIssue (issues_url g @ q) token)" for q body
    using assms Some by (auto simp: configured_call_def)
  show ?thesis
    using Some
    by (auto simp: notify_github_def find_open_issue_def update_issue_def create_issue_def post_comment_def
        close_issue_def intro!: calls_intros calls split: option.split)
qed (auto simp: notify_github_def intro: calls_return)

lemma slack_calls:
  assumes "nc_enabled c" "nc_slack c = Some s" "slack_wanted s n"
  shows "state_io_rel (extends (configured_call w c n)) (notify_slack w srv s n)"
  using assms
  by (auto simp: notify_slack_def configured_call_def intro!: calls_intros split: option.split)

text \<open>
  C13: where requests go. Disabled notifications send nothing. Otherwise every request goes to the
  issues of the configured repository with the token of the configured variable, or to the webhook of
  the configured variable; issues are created, commented and closed, and the webhook is called, only
  as the configuration and the state of the run say.
\<close>

theorem requests_stay_configured:
  "state_io_rel (extends (configured_call w c n)) (send w srv c n)"
proof (cases "nc_enabled c")
  case True
  then show ?thesis
    by (auto simp: send_def github_channel_def slack_channel_def
        intro!: calls_intros github_calls slack_calls split: option.split)
qed (auto simp: send_def intro: calls_return)

section \<open>A server\<close>

text \<open>Issues of one title, numbered from 1; a listing is the bytes of their numbers.\<close>

definition fresh_number :: "nat list \<Rightarrow> nat" where
  "fresh_number ns = unwrap_or (find (\<lambda>k. k \<notin> set ns) [1..<52]) 0"

definition track_step :: "string \<Rightarrow> http_call \<Rightarrow> nat list \<Rightarrow> nat list" where
  "track_step base c ns =
     (case c of
        CreateIssue u t title body labels \<Rightarrow> if length ns < 50 then fresh_number ns # ns else ns
      | CloseIssue u t \<Rightarrow> filter (\<lambda>k. u \<noteq> base @ ''/'' @ show_nat k) ns
      | _ \<Rightarrow> ns)"

definition open_numbers :: "string \<Rightarrow> http_call list \<Rightarrow> nat list" where
  "open_numbers base past = fold (track_step base) past []"

definition sample_issue :: "nat \<Rightarrow> gh_issue" where
  "sample_issue k =
     \<lparr>gi_title = Some ''AFSC'', gi_number = Some (of_nat k), gi_pull_request = False\<rparr>"

definition sample_server :: "string \<Rightarrow> server" where
  "sample_server base past c =
     (case c of
        ListIssues u t \<Rightarrow> Responded 200 (map char_of (take 50 (open_numbers base past)))
      | CreateIssue u t title body labels \<Rightarrow> Responded 201 [char_of (fresh_number (open_numbers base past))]
      | PostComment u t body \<Rightarrow> Responded 201 []
      | _ \<Rightarrow> Responded 200 [])"

definition sample_notify_world :: notify_world where
  "sample_notify_world =
     \<lparr>nw_rx = literal_rx, nw_F = exact_f64, nw_minute = \<lambda>_. [], nw_env = \<lambda>_. Some ''secret'',
      nw_issues = map (\<lambda>c. sample_issue (of_char c)), nw_number = \<lambda>s. Some (of_nat (of_char (hd s))),
      nw_status = \<lambda>_. [], nw_line = dg_run_id,
      nw_view = \<lambda>s. Some \<lparr>dv_run_id = Some s, dv_started = None, dv_total = [], dv_failing = None\<rparr>\<rparr>"

lemma fresh_number:
  assumes "length ns < 50"
  shows "fresh_number ns \<notin> set ns \<and> fresh_number ns \<in> {1..51}"
proof (cases "find (\<lambda>k. k \<notin> set ns) [1..<52]")
  case None
  then have "{1..<52} \<subseteq> set ns" by (auto simp: find_None_iff)
  then have "card {1..<52 :: nat} \<le> card (set ns)" by (intro card_mono) auto
  also have "\<dots> \<le> length ns" by (rule card_length)
  finally show ?thesis using assms by simp
next
  case (Some k)
  then have "k \<notin> set ns \<and> k \<in> set [1..<52]" by (metis find_Some_iff nth_mem)
  with Some show ?thesis by (auto simp: fresh_number_def)
qed

lemma open_numbers_ok: "distinct (open_numbers base past) \<and> set (open_numbers base past) \<subseteq> {1..51}"
proof -
  have "distinct ns \<and> set ns \<subseteq> {1..51} \<Longrightarrow>
      distinct (track_step base c ns) \<and> set (track_step base c ns) \<subseteq> {1..51}" for c ns
    using fresh_number [of ns] by (cases c) (auto simp: track_step_def)
  then have "distinct (fold (track_step base) past ns) \<and> set (fold (track_step base) past ns) \<subseteq> {1..51}"
    if "distinct ns \<and> set ns \<subseteq> {1..51}" for ns
    using that by (induction past arbitrary: ns) simp_all
  then show ?thesis unfolding open_numbers_def by simp
qed

lemma open_numbers_snoc: "open_numbers base (past @ [c]) = track_step base c (open_numbers base past)"
  by (simp add: open_numbers_def)

lemma show_nat_eq [simp]: "show_nat m = show_nat k \<longleftrightarrow> m = k"
  by (metis digits_value_show_nat)

lemma small_number_eq:
  "k \<in> {1..51} \<Longrightarrow> (of_nat k :: u64) = m \<longleftrightarrow> k = unat m"
  by (simp add: word_unat_eq_iff unat_of_nat)

lemma sample_tracks:
  "tracks sample_notify_world (sample_server base) base ''AFSC'' (\<lambda>past. map sample_issue (open_numbers base past))"
proof -
  have small: "k \<in> {1..51}" if "k \<in> set (open_numbers base past)" for k past
    using that open_numbers_ok by blast
  have "inj_on (\<lambda>k. of_nat k :: u64) {1..51}"
    by (rule inj_onI) (metis small_number_eq)
  then have "distinct (map gi_number (map sample_issue (open_numbers base past)))" for past
    using open_numbers_ok [of base past]
    by (auto simp: distinct_map sample_issue_def inj_on_def)
  moreover have "nw_issues sample_notify_world (map char_of (take 50 (open_numbers base past))) =
      take 50 (map sample_issue (open_numbers base past))" for past
  proof -
    have "of_char (char_of k :: char) = k" if "k \<in> set (take 50 (open_numbers base past))" for k :: nat
      using small [OF in_set_takeD [OF that]] by simp
    then show ?thesis by (simp add: sample_notify_world_def take_map)
  qed
  moreover have "nw_number sample_notify_world [char_of (fresh_number (open_numbers base past))] =
      Some (of_nat (fresh_number (open_numbers base past)))" if "length (open_numbers base past) < 50" for past
    using fresh_number [OF that] by (simp add: sample_notify_world_def)
  moreover have "map sample_issue (filter (\<lambda>k. k \<noteq> unat m) (open_numbers base past)) =
      filter (\<lambda>i. gi_number i \<noteq> Some m) (map sample_issue (open_numbers base past))" for m past
  proof -
    have "filter (\<lambda>k. k \<noteq> unat m) (open_numbers base past) = filter (\<lambda>k. of_nat k \<noteq> m) (open_numbers base past)"
      by (rule filter_cong) (use small small_number_eq in blast)+
    then show ?thesis by (simp add: filter_map comp_def sample_issue_def)
  qed
  ultimately show ?thesis
    unfolding tracks_def Let_def
    by (auto simp: sample_server_def open_numbers_snoc track_step_def sample_issue_def eq_commute)
qed

definition sample_github :: github_config where
  "sample_github =
     \<lparr>gh_repo = ''o/r'', gh_token_env = ''T'', gh_create_issues = True, gh_add_comments = True,
      gh_api_url = ''h/'', gh_issue_title = ''AFSC''\<rparr>"


definition sample_notify_config :: config where
  "sample_notify_config = default_config
     \<lparr>cf_notifications := default_notifications_config\<lparr>nt_enabled := True\<rparr>\<rparr>"


definition sample_failing_run :: "string \<Rightarrow> loaded_run" where
  "sample_failing_run i =
     \<lparr>lr_info = \<lparr>rf_path = [], rf_run_id = i, rf_started_at = 0, rf_total = 1, rf_passed = 0, rf_failed = 1,
        rf_interrupted = False\<rparr>,
      lr_header = None, lr_entries = [entry_from sample_failure], lr_summary = None\<rparr>"

theorem undelivered_changes_are_not_repeated_witness:
  "\<exists>doc1 past1 doc2. run_state (dispatch_notification sample_notify_world (\<lambda>past c. Unsent ''down'') (\<lambda>_. None)
       sample_notify_config [sample_failing_run ''r1''] (sample_failing_run ''r1'') False True Map.empty) [] =
     ((Map.empty, doc1), past1) \<and> nd_decision doc1 = ''sent'' \<and>
   run_state (dispatch_notification sample_notify_world (\<lambda>past c. Responded 200 []) (\<lambda>_. None)
       sample_notify_config [sample_failing_run ''r2'', sample_failing_run ''r1''] (sample_failing_run ''r2'') False True Map.empty) past1 =
     ((Map.empty, doc2), past1) \<and> nd_decision doc2 = ''unchanged'' \<and> failing_set (sample_failing_run ''r2'') \<noteq> []"
proof -
  have "failing_set (sample_failing_run i) = [(''uv'', ''network'')]" for i
    by (simp add: failing_set_def sample_failing_run_def entry_from_def sample_failure_def test_result_new_def
        is_failure_status_def FAILURE_STATUSES_def category_of_def bt_extend_def Let_def)
  moreover have "run_id_of (sample_failing_run i) = i" for i
    by (simp add: run_id_of_def sample_failing_run_def)
  moreover have "nt_mode (cf_notifications sample_notify_config) = OnChange"
    by (simp add: sample_notify_config_def default_notifications_config_def)
  ultimately show ?thesis
    using undelivered_changes_are_not_repeated [where srv = "\<lambda>past c. Unsent ''down''" and cfg = sample_notify_config
        and h = "[]" and p = "sample_failing_run ''r1''" and run = "sample_failing_run ''r2''" and past = "[]"
        and w = sample_notify_world and env = "\<lambda>_. None" and writable = True and fs = Map.empty
        and ?srv2.0 = "\<lambda>past c. Responded 200 []"]
    by (simp only: list.case simp_thms) auto
qed

end
