(* ===== verification/Acfs.thy ===== *)
theory Acfs
  imports Spec "HOL-Library.Product_Lexorder"
begin

text \<open>
  The scanner of an ACFS checkout (\<^verbatim>\<open>src/checksums/acfs.rs\<close>): the table of known installers, the
  literal call sites of the runner, the cross check against the checksum file and the drift of the
  built-in profiles. The file tree is an argument; a regular expression that does not compile is a
  panic, \<open>None\<close>.
\<close>

section \<open>Types\<close>

record call_site =
  cs_name :: string
  cs_runner :: string
  cs_args :: "string list"
  cs_env :: "(string \<times> string) list"
  cs_file :: string
  cs_line :: nat

record acfs_scan =
  as_known_installers :: "(string, string) btree"
  as_call_sites :: "call_site list"
  as_scanned_files :: "string list"

record cross_check_result =
  cc_missing_from_checksums :: "string list"
  cc_extra_in_checksums :: "string list"
  cc_url_mismatches :: "(string \<times> string \<times> string) list"

definition has_errors :: "cross_check_result \<Rightarrow> bool" where
  "has_errors cc \<longleftrightarrow> cc_missing_from_checksums cc \<noteq> [] \<or> cc_url_mismatches cc \<noteq> []"

record profile_drift_entry =
  dr_name :: string
  dr_field :: string
  dr_acfs :: string
  dr_profile :: string
  dr_file :: string
  dr_line :: nat

section \<open>Parsing\<close>

definition ENTRY :: string where
  "ENTRY =
     bs [''^'', ''s*'', ''[([A-Za-z0-9_.-]+)'',
       '']='' @ [dquote] @ ''([^'' @ [dquote] @ '']+)'' @ [dquote]]"

definition CALL :: string where
  "CALL =
     bs [''((?:[A-Z_][A-Z0-9_]*=[^'', ''s'' @ [dquote, squote] @ '']+'',
       ''s+)*)fetch_and_run_with_runner'', ''s+('', ''S+)'', ''s+('', ''S+)'', ''s+('', ''S+)'',
       ''s+('' @ [dquote] @ ''?[A-Za-z0-9_.-]+'' @ [dquote] @ ''?|'', ''$'', ''w+)((?:'', ''s+[^'',
       ''s'' @ [dquote, squote] @ '';|&)]+)*)'']"

definition capture :: "rx_match \<Rightarrow> nat \<Rightarrow> string" where
  \<comment> \<open>\<open>c[i]\<close>: every group of the two expressions takes part in every match\<close>
  "capture m i = (case m of (a, b, gs) \<Rightarrow> if 0 < i \<and> i \<le> length gs then gs ! (i - 1) else [])"

fun known_lines ::
  "regex \<Rightarrow> bool \<Rightarrow> string list \<Rightarrow> (string, string) btree \<Rightarrow> (string, string) btree" where
  "known_lines re inside [] out = out"
| "known_lines re inside (l # ls) out =
     (if \<not> inside then known_lines re (contains l ''KNOWN_INSTALLERS=('') ls out
      else if prefix '')'' (trim_start l) then out
      else known_lines re True ls
        (case re l of [] \<Rightarrow> out | m # _ \<Rightarrow> bt_insert (capture m 1) (capture m 2) out))"

definition parse_known_installers :: "regex_crate \<Rightarrow> string \<Rightarrow> (string, string) btree option" where
  "parse_known_installers rx text =
     map_option (\<lambda>re. known_lines re False (lines text) []) (rx ENTRY)"

definition split_once :: "char \<Rightarrow> string \<Rightarrow> (string \<times> string) option" where
  "split_once d s =
     (case dropWhile (\<lambda>c. c \<noteq> d) s of
        [] \<Rightarrow> None | _ # r \<Rightarrow> Some (takeWhile (\<lambda>c. c \<noteq> d) s, r))"

definition call_site_of :: "string \<Rightarrow> nat \<Rightarrow> rx_match \<Rightarrow> call_site option" where
  "call_site_of file idx m =
     (let runner = capture m 2; name = trim_matches dquote (capture m 5)
      in if runner \<noteq> ''sh'' \<and> runner \<noteq> ''bash'' then None
         else if name = [] \<or> prefix ''$'' name then None
         else Some
           \<lparr>cs_name = name, cs_runner = runner,
            cs_args = map (trim_matches dquote)
              (filter (\<lambda>t. \<not> prefix ''$'' t) (split_whitespace (capture m 6))),
            cs_env = List.map_filter (split_once (CHR ''='')) (split_whitespace (capture m 1)),
            cs_file = file, cs_line = idx + 1\<rparr>)"

definition line_sites :: "regex \<Rightarrow> string \<Rightarrow> nat \<times> string \<Rightarrow> call_site list" where
  "line_sites re file il =
     (if prefix ''#'' (trim_start (snd il)) then []
      else List.map_filter (call_site_of file (fst il)) (re (snd il)))"

definition parse_call_sites :: "regex_crate \<Rightarrow> string \<Rightarrow> string \<Rightarrow> call_site list option" where
  "parse_call_sites rx text file =
     map_option (\<lambda>re. concat (map (line_sites re file) (List.enumerate 0 (lines text)))) (rx CALL)"

section \<open>Scanning\<close>

record acfs_tree =
  at_root :: string
  at_security :: "anyhow + string" \<comment> \<open>reading \<open>scripts/lib/security.sh\<close>\<close>
  at_dir :: "string \<Rightarrow> string list option" \<comment> \<open>the names in a directory\<close>
  at_install :: bool \<comment> \<open>whether \<open>install.sh\<close> exists\<close>
  at_read :: "string \<Rightarrow> string option"

definition has_sh_extension :: "string \<Rightarrow> bool" where
  "has_sh_extension n \<longleftrightarrow> suffix ''.sh'' n \<and> n \<noteq> ''.sh''"

definition dir_scripts :: "acfs_tree \<Rightarrow> string \<Rightarrow> string list" where
  "dir_scripts t d =
     (case at_dir t d of
        None \<Rightarrow> []
      | Some ns \<Rightarrow> map (\<lambda>n. d @ ''/'' @ n) (filter has_sh_extension ns))"

definition script_files :: "acfs_tree \<Rightarrow> string list" where
  "script_files t =
     sort (dir_scripts t ''scripts/lib'' @ dir_scripts t ''scripts/modules'' @
       (if at_install t then [''install.sh''] else []))"

fun scan_files ::
  "regex_crate \<Rightarrow> acfs_tree \<Rightarrow> string list \<Rightarrow> acfs_scan \<Rightarrow> acfs_scan option" where
  "scan_files rx t [] scan = Some scan"
| "scan_files rx t (p # ps) scan =
     (case at_read t p of
        None \<Rightarrow> scan_files rx t ps scan
      | Some content \<Rightarrow>
          (case parse_call_sites rx content p of
             None \<Rightarrow> None
           | Some sites \<Rightarrow>
               scan_files rx t ps
                 (scan\<lparr>as_call_sites := as_call_sites scan @ sites,
                       as_scanned_files := as_scanned_files scan @ [p]\<rparr>)))"

definition site_key :: "call_site \<Rightarrow> string \<times> string \<times> nat" where
  "site_key s = (cs_name s, cs_file s, cs_line s)"

definition scan_acfs_repo :: "regex_crate \<Rightarrow> acfs_tree \<Rightarrow> (anyhow + acfs_scan) option" where
  "scan_acfs_repo rx t =
     (case at_security t of
        Inl e \<Rightarrow> Some (Inl ((''Failed to read '' @ at_root t @ ''/scripts/lib/security.sh'') # e))
      | Inr text \<Rightarrow>
          (case parse_known_installers rx text of
             None \<Rightarrow> None
           | Some known \<Rightarrow>
               map_option (\<lambda>scan. Inr (scan\<lparr>as_call_sites := sort_key site_key (as_call_sites scan)\<rparr>))
                 (scan_files rx t (script_files t)
                   \<lparr>as_known_installers = known, as_call_sites = [], as_scanned_files = []\<rparr>)))"

section \<open>Cross check\<close>

definition cross_check :: "checksums_file \<Rightarrow> (string, string) btree \<Rightarrow> cross_check_result" where
  "cross_check cs known =
     \<lparr>cc_missing_from_checksums = map fst (filter (\<lambda>(name, url). map_of cs name = None) known),
      cc_extra_in_checksums = sort (filter (\<lambda>name. map_of known name = None) (map fst cs)),
      cc_url_mismatches =
        List.map_filter
          (\<lambda>(name, url).
             case map_of cs name of
               None \<Rightarrow> None
             | Some entry \<Rightarrow>
                 (case ie_url entry of
                    Some yaml_url \<Rightarrow> if yaml_url \<noteq> url then Some (name, yaml_url, url) else None
                  | None \<Rightarrow> None)) known\<rparr>"

section \<open>Profile drift\<close>

definition fmt_env :: "(string \<times> string) list \<Rightarrow> string" where
  "fmt_env e = join '' '' (map (\<lambda>(k, v). k @ ''='' @ v) e)"

definition drift_of :: "call_site \<Rightarrow> string \<Rightarrow> string \<Rightarrow> string \<Rightarrow> profile_drift_entry" where
  "drift_of site field acfs prof =
     \<lparr>dr_name = cs_name site, dr_field = field, dr_acfs = acfs, dr_profile = prof,
      dr_file = cs_file site, dr_line = cs_line site\<rparr>"

definition site_drift :: "call_site \<Rightarrow> profile_drift_entry list" where
  "site_drift site =
     (let p = profile_of (cs_name site);
          penv = sort (pf_env p);
          senv = sort (cs_env site)
      in (if interpreter_str (pf_interpreter p) \<noteq> cs_runner site
          then [drift_of site ''interpreter'' (cs_runner site) (interpreter_str (pf_interpreter p))]
          else []) @
         (if pf_args p \<noteq> cs_args site
          then [drift_of site ''args'' (join '' '' (cs_args site)) (join '' '' (pf_args p))] else []) @
         (if penv \<noteq> senv then [drift_of site ''env'' (fmt_env senv) (fmt_env penv)] else []))"

definition profile_drift :: "call_site list \<Rightarrow> profile_drift_entry list" where
  "profile_drift sites = concat (map site_drift sites)"

section \<open>Lemmas\<close>

lemma call_site_of_Some:
  "call_site_of file idx m = Some s \<Longrightarrow>
     cs_runner s \<in> {''sh'', ''bash''} \<and> cs_name s \<noteq> [] \<and> \<not> prefix ''$'' (cs_name s) \<and>
     cs_file s = file \<and> cs_line s = idx + 1"
  by (auto simp: call_site_of_def Let_def split: if_splits)

lemma line_sites_mem:
  "s \<in> set (line_sites re file (i, l)) \<Longrightarrow>
     \<not> prefix ''#'' (trim_start l) \<and> (\<exists>m\<in>set (re l). call_site_of file i m = Some s)"
  by (auto simp: line_sites_def set_map_filter split: if_splits)

lemma parse_call_sites_mem:
  assumes "parse_call_sites rx text file = Some sites" "s \<in> set sites"
  shows "\<exists>i m re. rx CALL = Some re \<and> i < length (lines text) \<and> m \<in> set (re (lines text ! i)) \<and>
     \<not> prefix ''#'' (trim_start (lines text ! i)) \<and> call_site_of file i m = Some s"
proof -
  obtain re where re: "rx CALL = Some re"
    "sites = concat (map (line_sites re file) (List.enumerate 0 (lines text)))"
    using assms(1) by (auto simp: parse_call_sites_def)
  with assms(2) obtain i l where "(i, l) \<in> set (List.enumerate 0 (lines text))"
    "s \<in> set (line_sites re file (i, l))"
    by auto
  then show ?thesis using re(1) line_sites_mem [of s re "file" i l] by (auto simp: in_set_enumerate_eq)
qed

lemma scan_files_sites:
  assumes "scan_files rx t ps scan = Some scan'" "s \<in> set (as_call_sites scan')"
  shows "s \<in> set (as_call_sites scan) \<or>
     (\<exists>p\<in>set ps. \<exists>text sites. at_read t p = Some text \<and> parse_call_sites rx text p = Some sites \<and>
        s \<in> set sites)"
  using assms
proof (induction rx t ps scan rule: scan_files.induct)
  case (2 rx t p ps scan)
  show ?case
  proof (cases "at_read t p")
    case None
    with 2 show ?thesis by auto
  next
    case (Some content)
    with "2.prems"(1) obtain sites where sites: "parse_call_sites rx content p = Some sites"
      by (auto split: option.splits)
    from "2.IH"(2) [OF Some sites] "2.prems" Some sites show ?thesis by auto
  qed
qed simp

lemma site_drift_Nil:
  "site_drift site = [] \<longleftrightarrow>
     cs_runner site = interpreter_str (pf_interpreter (profile_of (cs_name site))) \<and>
     cs_args site = pf_args (profile_of (cs_name site)) \<and>
     sort (cs_env site) = sort (pf_env (profile_of (cs_name site)))"
  by (auto simp: site_drift_def Let_def)

lemma map_of_sort: "distinct (map fst kvs) \<Longrightarrow> map_of (sort kvs) = map_of kvs"
proof -
  assume d: "distinct (map fst kvs)"
  then have "distinct (map fst (sort kvs))" by (simp add: distinct_map)
  from map_of_inject_set [OF this d] show "map_of (sort kvs) = map_of kvs" by simp
qed

text \<open>An installer whose call sites do not drift is resolved as ACFS calls it.\<close>

lemma undrifted_spec:
  fixes entry :: installer_entry and gd :: global_defaults
  assumes "profile_drift sites = []" "site \<in> set sites"
  defines "s \<equiv> resolve_spec (cs_name site) entry None gd"
  shows "sp_interpreter s = cs_runner site" "sp_args s = cs_args site"
    "map_of (sp_env s) = map_of (cs_env site)"
proof -
  have no: "site_drift site = []" using assms(1,2) by (auto simp: profile_drift_def)
  note eqs = no [unfolded site_drift_Nil]
  show "sp_interpreter s = cs_runner site" "sp_args s = cs_args site"
    using eqs by (auto simp: s_def resolved_fields resolve_interpreter_def resolve_args_def)
  have dp: "distinct (map fst (pf_env (profile_of (cs_name site))))" by (rule profile_env_distinct)
  then have "distinct (map fst (sort (cs_env site)))"
    using eqs by (simp add: distinct_map)
  then have "distinct (map fst (cs_env site))" by (simp add: distinct_map)
  with dp eqs have "map_of (cs_env site) = map_of (pf_env (profile_of (cs_name site)))"
    by (metis map_of_sort)
  then show "map_of (sp_env s) = map_of (cs_env site)"
    by (simp add: s_def resolved_fields resolve_env_def Let_def map_of_bt_extend_distinct dp)
qed

section \<open>Properties\<close>

text \<open>
  the cross check. It finds no error exactly when every known installer has an entry in the
  checksum file whose URL is absent or the very one ACFS uses, so that an installer ACFS would
  refuse is always reported; and the extra entries are, in order, those ACFS does not know.
\<close>

theorem cross_check_is_exact:
  assumes "well_formed cs" "bt_ok known"
  shows "(\<not> has_errors (cross_check cs known) \<longleftrightarrow>
      (\<forall>(n, u)\<in>set known. \<exists>e. map_of cs n = Some e \<and> (ie_url e = None \<or> ie_url e = Some u))) \<and>
    sorted_wrt (<) (cc_extra_in_checksums (cross_check cs known)) \<and>
    set (cc_extra_in_checksums (cross_check cs known)) = dom (map_of cs) - dom (map_of known)"
proof (intro conjI)
  let ?m = "\<lambda>(name, url). case map_of cs name of None \<Rightarrow> None | Some entry \<Rightarrow>
      (case ie_url entry of Some y \<Rightarrow> if y \<noteq> url then Some (name, y, url) else None | None \<Rightarrow> None)"
  have "List.map_filter f xs = [] \<longleftrightarrow> (\<forall>x\<in>set xs. f x = None)"
    for f :: "string \<times> string \<Rightarrow> (string \<times> string \<times> string) option" and xs
    by (simp add: map_filter_def filter_empty_conv del: not_None_eq)
  then have errs: "\<not> has_errors (cross_check cs known) \<longleftrightarrow>
      (\<forall>x\<in>set known. map_of cs (fst x) \<noteq> None \<and> ?m x = None)"
    by (auto simp: has_errors_def cross_check_def filter_empty_conv case_prod_unfold
        simp del: not_None_eq)
  have iff: "(map_of cs (fst x) \<noteq> None \<and> ?m x = None) \<longleftrightarrow>
      (\<exists>e. map_of cs (fst x) = Some e \<and> (ie_url e = None \<or> ie_url e = Some (snd x)))" for x
    by (auto simp: case_prod_unfold split: option.splits)
  show "\<not> has_errors (cross_check cs known) \<longleftrightarrow>
      (\<forall>(n, u)\<in>set known. \<exists>e. map_of cs n = Some e \<and> (ie_url e = None \<or> ie_url e = Some u))"
    unfolding errs iff by (simp add: case_prod_unfold)
  have "distinct (map fst cs)" using assms(1) by (simp add: well_formed_def)
  then show "sorted_wrt (<) (cc_extra_in_checksums (cross_check cs known))"
    by (simp add: cross_check_def strict_sorted_iff)
  show "set (cc_extra_in_checksums (cross_check cs known)) = dom (map_of cs) - dom (map_of known)"
    by (auto simp: cross_check_def map_of_eq_None_iff dom_map_of_conv_image_fst)
qed

theorem cross_check_is_exact_witness:
  "\<not> has_errors (cross_check [(''uv'', sample_entry)] [(''uv'', ''https://x'')]) \<and>
   has_errors (cross_check [(''uv'', sample_entry)] [(''bun'', ''https://x'')])"
  using cross_check_is_exact [of "[(''uv'', sample_entry)]" "[(''uv'', ''https://x'')]"]
    cross_check_is_exact [of "[(''uv'', sample_entry)]" "[(''bun'', ''https://x'')]"]
  by (simp add: well_formed_def bt_ok_def sample_entry_def)

text \<open>
  what the scanner takes for a call site is literal. Every call site of a scan stands in a
  scanned script, on the line it names, which is no comment; its runner is \<open>sh\<close> or \<open>bash\<close> and its name
  is not empty and no shell variable; and the list is in order of name, file and line.
\<close>

theorem call_sites_are_literal:
  assumes "scan_acfs_repo rx t = Some (Inr scan)"
  shows "sorted (map site_key (as_call_sites scan)) \<and>
    (\<forall>s\<in>set (as_call_sites scan). \<exists>text.
       at_read t (cs_file s) = Some text \<and> 0 < cs_line s \<and> cs_line s \<le> length (lines text) \<and>
       \<not> prefix ''#'' (trim_start (lines text ! (cs_line s - 1))) \<and>
       cs_runner s \<in> {''sh'', ''bash''} \<and> cs_name s \<noteq> [] \<and> \<not> prefix ''$'' (cs_name s))"
proof -
  obtain scan0 known where scan: "scan = scan0\<lparr>as_call_sites := sort_key site_key (as_call_sites scan0)\<rparr>"
    "scan_files rx t (script_files t) \<lparr>as_known_installers = known, as_call_sites = [],
       as_scanned_files = []\<rparr> = Some scan0"
    using assms by (auto simp: scan_acfs_repo_def split: sum.splits option.splits)
  show ?thesis
  proof (intro conjI ballI)
    show "sorted (map site_key (as_call_sites scan))" by (simp add: scan(1))
    fix s
    assume "s \<in> set (as_call_sites scan)"
    then have "s \<in> set (as_call_sites scan0)" by (simp add: scan(1))
    from scan_files_sites [OF scan(2) this] obtain p content sites where
      p: "at_read t p = Some content" "parse_call_sites rx content p = Some sites" "s \<in> set sites"
      by auto
    from parse_call_sites_mem [OF p(2,3)] obtain i m where
      i: "i < length (lines content)" "\<not> prefix ''#'' (trim_start (lines content ! i))"
        "call_site_of p i m = Some s"
      by blast
    from call_site_of_Some [OF i(3)] i p(1) show "\<exists>text. at_read t (cs_file s) = Some text \<and>
       0 < cs_line s \<and> cs_line s \<le> length (lines text) \<and>
       \<not> prefix ''#'' (trim_start (lines text ! (cs_line s - 1))) \<and>
       cs_runner s \<in> {''sh'', ''bash''} \<and> cs_name s \<noteq> [] \<and> \<not> prefix ''$'' (cs_name s)"
      by (intro exI [of _ content]) auto
  qed
qed

definition sample_call_rx :: regex_crate where
  \<comment> \<open>every line \<open>run\<close> is a call of \<open>uv\<close> by \<open>sh\<close>\<close>
  "sample_call_rx p =
     Some (\<lambda>l. if l = ''run'' then [(0, 3, [[], ''sh'', ''u'', ''h'', ''uv'', ''-y''])] else [])"

definition sample_tree :: acfs_tree where
  "sample_tree =
     \<lparr>at_root = ''/acfs'', at_security = Inr [], at_dir = (\<lambda>d. if d = ''scripts/lib'' then Some [''a.sh'', ''b.txt''] else None),
      at_install = False, at_read = (\<lambda>p. if p = ''scripts/lib/a.sh'' then Some ''run'' else None)\<rparr>"

theorem call_sites_are_literal_witness:
  "\<exists>scan s. scan_acfs_repo sample_call_rx sample_tree = Some (Inr scan) \<and>
     s \<in> set (as_call_sites scan) \<and> cs_name s = ''uv'' \<and> cs_args s = [''-y''] \<and> cs_line s = 1 \<and>
     cs_runner s \<in> {''sh'', ''bash''}"
proof -
  let ?s = "\<lparr>cs_name = ''uv'', cs_runner = ''sh'', cs_args = [''-y''], cs_env = [],
    cs_file = ''scripts/lib/a.sh'', cs_line = 1\<rparr>"
  have "scan_acfs_repo sample_call_rx sample_tree =
      Some (Inr \<lparr>as_known_installers = [], as_call_sites = [?s], as_scanned_files = [''scripts/lib/a.sh'']\<rparr>)"
    by code_simp
  with call_sites_are_literal [OF this] show ?thesis by fastforce
qed

end
