(* ===== verification/Metrics.thy ===== *)
theory Metrics
  imports History
begin

text \<open>
  Metrics and health (\<^verbatim>\<open>src/reporting/metrics.rs\<close>, and \<^verbatim>\<open>persist_metrics_snapshot\<close> of \<^verbatim>\<open>src/main.rs\<close>):
  everything is computed from the persisted runs and the last validation, but for the count of
  remediations, which a snapshot carries over. The \<open>u64\<close> counters count entries and are natural
  numbers; \<open>F\<close> rounds \<open>f64\<close>; the shortest decimal text of a float is the parameter \<open>sf\<close>.
\<close>

definition WINDOW :: duration where "WINDOW = 24 * 3600 * ns_per_sec"

section \<open>Snapshot\<close>

record metrics_snapshot =
  ms_last_test :: "instant option"
  ms_last_success :: "instant option"
  ms_last_failure :: "instant option"
  ms_success_rate_24h :: rat
  ms_total_tests_24h :: nat
  ms_successful_tests_24h :: nat
  ms_total_remediations_24h :: nat
  ms_uptime_seconds :: nat
  ms_snapshot_time :: instant
  ms_runs_24h :: nat

definition default_snapshot :: "instant \<Rightarrow> metrics_snapshot" where
  "default_snapshot now =
     \<lparr>ms_last_test = None, ms_last_success = None, ms_last_failure = None, ms_success_rate_24h = 0,
      ms_total_tests_24h = 0, ms_successful_tests_24h = 0, ms_total_remediations_24h = 0,
      ms_uptime_seconds = 0, ms_snapshot_time = now, ms_runs_24h = 0\<rparr>"

definition ratio :: "f64_ops \<Rightarrow> nat \<Rightarrow> nat \<Rightarrow> rat" where
  \<comment> \<open>\<open>a as f64 / b as f64\<close>\<close>
  "ratio F a b = fl F (fl F (of_nat a) / fl F (of_nat b))"

definition record_test :: "f64_ops \<Rightarrow> instant \<Rightarrow> bool \<Rightarrow> metrics_snapshot \<Rightarrow> metrics_snapshot" where
  "record_test F now success s =
     (let s1 = s\<lparr>ms_last_test := Some now, ms_total_tests_24h := ms_total_tests_24h s + 1\<rparr>;
          s2 = (if success
                then s1\<lparr>ms_last_success := Some now,
                        ms_successful_tests_24h := ms_successful_tests_24h s1 + 1\<rparr>
                else s1\<lparr>ms_last_failure := Some now\<rparr>)
      in s2\<lparr>ms_success_rate_24h := ratio F (ms_successful_tests_24h s2) (ms_total_tests_24h s2),
            ms_snapshot_time := now\<rparr>)"

definition record_remediation :: "instant \<Rightarrow> metrics_snapshot \<Rightarrow> metrics_snapshot" where
  "record_remediation now s =
     s\<lparr>ms_total_remediations_24h := ms_total_remediations_24h s + 1, ms_snapshot_time := now\<rparr>"

definition reset_if_stale :: "instant \<Rightarrow> metrics_snapshot \<Rightarrow> metrics_snapshot" where
  "reset_if_stale now s =
     (if now - ms_snapshot_time s > int WINDOW
      then s\<lparr>ms_total_tests_24h := 0, ms_successful_tests_24h := 0, ms_success_rate_24h := 0,
             ms_total_remediations_24h := 0, ms_runs_24h := 0\<rparr>
      else s)"

definition set_uptime :: "instant \<Rightarrow> nat \<Rightarrow> metrics_snapshot \<Rightarrow> metrics_snapshot" where
  "set_uptime now seconds s = s\<lparr>ms_uptime_seconds := seconds, ms_snapshot_time := now\<rparr>"

definition load_or_default :: "instant \<Rightarrow> metrics_snapshot option \<Rightarrow> metrics_snapshot" where
  "load_or_default now loaded = unwrap_or loaded (default_snapshot now)"

section \<open>Report\<close>

record installer_metric =
  im_status :: int
  im_duration_seconds :: rat
  im_attempts :: nat
  im_run_id :: string

datatype health_state = NoData | HealthOk | Stale

fun health_state_str :: "health_state \<Rightarrow> string" where
  "health_state_str NoData = ''no_data''"
| "health_state_str HealthOk = ''ok''"
| "health_state_str Stale = ''stale''"

record validation_report =
  vp_checked_at :: "instant option"
  vp_checksums_path :: string
  vp_total :: nat
  vp_matched :: nat
  vp_mismatched :: "string list"
  vp_unreachable :: "string list"

definition drift_total :: "validation_report \<Rightarrow> nat" where
  "drift_total v = length (vp_mismatched v) + length (vp_unreachable v)"

record metrics_report =
  mr_computed_at :: instant
  mr_health :: health_state
  mr_last_run_id :: "string option"
  mr_last_run_at :: "instant option"
  mr_last_run_age_seconds :: "int option"
  mr_last_run_interrupted :: bool
  mr_last_run_duration_seconds :: rat
  mr_last_success :: "instant option"
  mr_last_failure :: "instant option"
  mr_runs_24h :: nat
  mr_total_tests_24h :: nat
  mr_successful_tests_24h :: nat
  mr_failed_tests_24h :: nat
  mr_success_rate_24h :: rat
  mr_total_remediations_24h :: nat
  mr_remediations_verified_24h :: nat
  mr_remediations_cost_usd_24h :: rat
  mr_checksum_drift_total :: "nat option"
  mr_validated_at :: "instant option"
  mr_installers :: "(string, installer_metric) btree"
  mr_stale_after_seconds :: u64

definition later :: "instant option \<Rightarrow> instant \<Rightarrow> instant option" where
  \<comment> \<open>\<open>last.max(Some(t))\<close>\<close>
  "later so_far t = (case so_far of None \<Rightarrow> Some t | Some s \<Rightarrow> Some (max s t))"

definition entries_of :: "loaded_run list \<Rightarrow> result_entry list" where
  \<comment> \<open>\<open>for run in runs { for e in &run.entries { .. } }\<close>\<close>
  "entries_of runs = concat (map lr_entries runs)"

definition latest_where :: "(string \<Rightarrow> bool) \<Rightarrow> history \<Rightarrow> instant option" where
  "latest_where p h =
     fold (\<lambda>e l. if p (re_status e) then later l (re_timestamp e) else l) (entries_of h) None"

definition last_success_of :: "history \<Rightarrow> instant option" where
  "last_success_of h = latest_where (\<lambda>s. s = ''passed'') h"

definition last_failure_of :: "history \<Rightarrow> instant option" where
  "last_failure_of h = latest_where (\<lambda>s. s \<noteq> ''passed'' \<and> is_failure_status s) h"

definition installer_metric_of :: "f64_ops \<Rightarrow> loaded_run \<Rightarrow> result_entry \<Rightarrow> installer_metric" where
  "installer_metric_of F run e =
     \<lparr>im_status =
        (if re_status e = ''passed'' then 1
         else if re_status e = ''failed'' \<or> re_status e = ''timedout'' then 0 else - 1),
      im_duration_seconds = fl F (fl F (of_int (uint (re_duration_ms e))) / 1000),
      im_attempts = max (length (re_attempts e)) 1, im_run_id = run_id_of run\<rparr>"

definition or_insert :: "string \<times> 'v \<Rightarrow> (string, 'v) btree \<Rightarrow> (string, 'v) btree" where
  \<comment> \<open>\<open>entry(k).or_insert(v)\<close>\<close>
  "or_insert kv m = (if map_of m (fst kv) = None then bt_insert (fst kv) (snd kv) m else m)"

definition installer_metrics :: "f64_ops \<Rightarrow> history \<Rightarrow> (string, installer_metric) btree" where
  "installer_metrics F h =
     fold or_insert
       (concat (map (\<lambda>run. map (\<lambda>e. (re_installer_name e, installer_metric_of F run e)) (lr_entries run)) h))
       []"

definition num_seconds :: "int \<Rightarrow> int" where
  \<comment> \<open>\<open>Duration::num_seconds\<close> truncates towards zero\<close>
  "num_seconds ns = (if ns < 0 then - ((- ns) div int ns_per_sec) else ns div int ns_per_sec)"

definition health_of :: "int option \<Rightarrow> u64 \<Rightarrow> health_state" where
  \<comment> \<open>\<open>stale_after_seconds as i64\<close> wraps\<close>
  "health_of age stale_after =
     (case age of None \<Rightarrow> NoData | Some a \<Rightarrow> if a > sint stale_after then Stale else HealthOk)"

definition attempted_in :: "result_entry list \<Rightarrow> remediation_outcome list" where
  "attempted_in es = filter attempted (List.map_filter re_remediation es)"

definition compute ::
  "f64_ops \<Rightarrow> history \<Rightarrow> instant \<Rightarrow> u64 \<Rightarrow> validation_report option \<Rightarrow> nat \<Rightarrow> metrics_report" where
  "compute F h now stale_after validation remediations_24h =
     (let es = entries_of (runs_within now WINDOW h);
          counted = filter (\<lambda>e. re_status e \<noteq> ''skipped'') es;
          total = length counted;
          successful = count (\<lambda>e. re_status e = ''passed'') counted;
          bad = count (\<lambda>e. re_status e \<noteq> ''passed'' \<and> is_failure_status (re_status e)) counted;
          newest = latest_run h;
          age = map_option (\<lambda>r. num_seconds (now - started_at_of r)) newest
      in \<lparr>mr_computed_at = now, mr_health = health_of age stale_after,
          mr_last_run_id = map_option run_id_of newest, mr_last_run_at = map_option started_at_of newest,
          mr_last_run_age_seconds = age,
          mr_last_run_interrupted = unwrap_or (map_option (rf_interrupted \<circ> lr_info) newest) False,
          mr_last_run_duration_seconds =
            unwrap_or
              (map_option (\<lambda>s. fl F (fl F (of_int (uint (su_duration_total_ms s))) / 1000))
                (Option.bind newest lr_summary)) 0,
          mr_last_success = last_success_of h, mr_last_failure = last_failure_of h,
          mr_runs_24h = length (runs_within now WINDOW h),
          mr_total_tests_24h = total, mr_successful_tests_24h = successful,
          mr_failed_tests_24h = bad,
          mr_success_rate_24h = (if total > 0 then ratio F successful total else 0),
          mr_total_remediations_24h = max (length (attempted_in es)) remediations_24h,
          mr_remediations_verified_24h = count succeeded (List.map_filter re_remediation es),
          mr_remediations_cost_usd_24h =
            fold (\<lambda>r cost. fl F (cost + outcome_cost_usd r)) (attempted_in es) 0,
          mr_checksum_drift_total = map_option drift_total validation,
          mr_validated_at = Option.bind validation vp_checked_at,
          mr_installers = installer_metrics F h, mr_stale_after_seconds = stale_after\<rparr>)"

definition in_window :: "instant \<Rightarrow> metrics_snapshot option \<Rightarrow> metrics_snapshot option" where
  "in_window now s =
     (case s of Some m \<Rightarrow> if now - ms_snapshot_time m \<le> int WINDOW then Some m else None | None \<Rightarrow> None)"

definition carried_remediations :: "instant \<Rightarrow> metrics_snapshot option \<Rightarrow> nat" where
  "carried_remediations now loaded = unwrap_or (map_option ms_total_remediations_24h (in_window now loaded)) 0"

definition from_data_dir ::
  "f64_ops \<Rightarrow> anyhow + history \<Rightarrow> validation_report option \<Rightarrow> metrics_snapshot option \<Rightarrow> instant \<Rightarrow> u64
    \<Rightarrow> anyhow + metrics_report" where
  "from_data_dir F h validation snap now stale_after =
     (case h of
        Inl e \<Rightarrow> Inl e
      | Inr runs \<Rightarrow> Inr (compute F runs now stale_after validation (carried_remediations now snap)))"

definition snapshot_of :: "metrics_report \<Rightarrow> nat \<Rightarrow> nat \<Rightarrow> metrics_snapshot" where
  "snapshot_of r remediations uptime =
     \<lparr>ms_last_test = mr_last_run_at r, ms_last_success = mr_last_success r,
      ms_last_failure = mr_last_failure r, ms_success_rate_24h = mr_success_rate_24h r,
      ms_total_tests_24h = mr_total_tests_24h r, ms_successful_tests_24h = mr_successful_tests_24h r,
      ms_total_remediations_24h = remediations, ms_uptime_seconds = uptime,
      ms_snapshot_time = mr_computed_at r, ms_runs_24h = mr_runs_24h r\<rparr>"

definition persist_metrics_snapshot ::
  "f64_ops \<Rightarrow> anyhow + history \<Rightarrow> validation_report option \<Rightarrow> instant \<Rightarrow> u64 \<Rightarrow> bool \<Rightarrow> instant
    \<Rightarrow> metrics_snapshot option \<Rightarrow> anyhow + metrics_snapshot" where
  \<comment> \<open>the last argument is the snapshot that loads, the result the one that is saved\<close>
  "persist_metrics_snapshot F h validation now stale_after tried started_at loaded =
     (let remediations = carried_remediations now loaded + (if tried then 1 else 0)
      in case from_data_dir F h validation loaded now stale_after of
           Inl e \<Rightarrow> Inl e
         | Inr r \<Rightarrow> Inr (snapshot_of r remediations (nat (max (num_seconds (now - started_at)) 0))))"

section \<open>Exposition\<close>

record family =
  fm_kind :: string
  fm_samples :: "(string, rat) btree"

record metrics_exporter =
  me_families :: "(string, family) btree"
  me_prefix :: string

definition exporter_new :: "string \<Rightarrow> metrics_exporter" where
  "exporter_new pre = \<lparr>me_families = [], me_prefix = pre\<rparr>"

definition with_family ::
  "string \<Rightarrow> string \<Rightarrow> ((string, rat) btree \<Rightarrow> (string, rat) btree) \<Rightarrow> metrics_exporter
    \<Rightarrow> metrics_exporter" where
  \<comment> \<open>\<open>self.family(name, kind)\<close> and what the caller does to its samples\<close>
  "with_family name kind g x =
     (let key = me_prefix x @ ''_'' @ name;
          f = unwrap_or (map_of (me_families x) key) \<lparr>fm_kind = [], fm_samples = []\<rparr>
      in x\<lparr>me_families :=
             bt_insert key \<lparr>fm_kind = kind, fm_samples = g (fm_samples f)\<rparr> (me_families x)\<rparr>)"

definition inc_counter :: "f64_ops \<Rightarrow> string \<Rightarrow> metrics_exporter \<Rightarrow> metrics_exporter" where
  "inc_counter F name =
     with_family name ''counter'' (\<lambda>s. bt_insert [] (fl F (unwrap_or (map_of s []) 0 + 1)) s)"

definition set_gauge :: "string \<Rightarrow> rat \<Rightarrow> metrics_exporter \<Rightarrow> metrics_exporter" where
  "set_gauge name v = with_family name ''gauge'' (bt_insert [] v)"

definition escape_label :: "string \<Rightarrow> string" where
  "escape_label v =
     replace_char nl [backslash, CHR ''n'']
       (replace_char dquote [backslash, dquote] (replace_char backslash [backslash, backslash] v))"

definition render_labels :: "(string \<times> string) list \<Rightarrow> string" where
  "render_labels labels =
     ''{'' @ join '','' (map (\<lambda>(k, v). k @ ''='' @ dquote # escape_label v @ [dquote]) (sort labels)) @ ''}''"

definition set_labeled_gauge ::
  "string \<Rightarrow> (string \<times> string) list \<Rightarrow> rat \<Rightarrow> metrics_exporter \<Rightarrow> metrics_exporter" where
  "set_labeled_gauge name labels v = with_family name ''gauge'' (bt_insert (render_labels labels) v)"

definition exporter_value :: "string \<Rightarrow> metrics_exporter \<Rightarrow> rat option" where
  "exporter_value name x =
     Option.bind (map_of (me_families x) (me_prefix x @ ''_'' @ name)) (\<lambda>f. map_of (fm_samples f) [])"

definition format_value :: "(rat \<Rightarrow> string) \<Rightarrow> rat \<Rightarrow> string" where
  "format_value sf v = (if of_int \<lfloor>v\<rfloor> = v \<and> \<bar>v\<bar> < 10 ^ 15 then show_int \<lfloor>v\<rfloor> else sf v)"

definition METRIC_HELP :: "(string \<times> string) list" where
  "METRIC_HELP =
     [(''tests_total_24h'', ''Installer tests in the last 24 hours (skips excluded)''),
      (''successful_tests_24h'', ''Passed installer tests in the last 24 hours''),
      (''failed_tests_24h'', ''Failed, timed out or cancelled installer tests in the last 24 hours''),
      (''success_rate_24h'', ''Pass ratio in the last 24 hours''),
      (''runs_24h'', ''Runs started in the last 24 hours''),
      (''remediations_total_24h'', ''Remediation attempts in the last 24 hours''),
      (''remediations_verified_24h'', ''Remediations verified or applied in the last 24 hours''),
      (''remediations_cost_usd_24h'', ''Claude spend attributed to remediation in the last 24 hours''),
      (''uptime_seconds'', ''Most recent command runtime in seconds''),
      (''health'', ''1 ok, 0 stale (last run older than monitoring.stale_after_seconds), -1 no data''),
      (''run_last_timestamp'', ''Unix timestamp of the most recent run''),
      (''last_test_timestamp'', ''Unix timestamp of the most recent run''),
      (''run_last_age_seconds'', ''Seconds since the most recent run started''),
      (''run_last_interrupted'', ''1 when the most recent run was interrupted''),
      (''run_last_duration_seconds'', ''Wall-clock duration of the most recent run''),
      (''last_success_timestamp'', ''Unix timestamp of the most recent passed installer test''),
      (''last_failure_timestamp'', ''Unix timestamp of the most recent failed installer test''),
      (''checksum_drift_total'', ''Mismatched checksums plus unreachable URLs in the last validate --check-hashes''),
      (''validate_last_timestamp'', ''Unix timestamp of the last validate --check-hashes''),
      (''installer_status'', ''Latest outcome per installer: 1 passed, 0 failed/timed out, -1 skipped/cancelled''),
      (''installer_duration_seconds'', ''Latest total duration per installer (all attempts)''),
      (''installer_attempts'', ''Attempts used in the latest run per installer'')]"

definition metric_help :: "string \<Rightarrow> string" where
  "metric_help name =
     (case find (\<lambda>(s, t). suffix s name) METRIC_HELP of Some (s, t) \<Rightarrow> t | None \<Rightarrow> ''AFSC metric'')"

definition family_lines :: "(rat \<Rightarrow> string) \<Rightarrow> string \<times> family \<Rightarrow> string" where
  "family_lines sf nf =
     (case nf of (name, f) \<Rightarrow>
        ''# HELP '' @ name @ '' '' @ metric_help name @ [nl] @
        ''# TYPE '' @ name @ '' '' @ fm_kind f @ [nl] @
        concat (map (\<lambda>(labels, v). name @ labels @ '' '' @ format_value sf v @ [nl]) (fm_samples f)))"

definition export :: "(rat \<Rightarrow> string) \<Rightarrow> metrics_exporter \<Rightarrow> string" where
  "export sf x = concat (map (family_lines sf) (me_families x))"

definition timestamp :: "instant \<Rightarrow> int" where
  "timestamp t = t div int ns_per_sec"

definition gauges :: "(string \<times> rat) list \<Rightarrow> metrics_exporter \<Rightarrow> metrics_exporter" where
  "gauges kvs x = fold (\<lambda>(k, v). set_gauge k v) kvs x"

definition optional_gauge :: "string \<Rightarrow> rat option \<Rightarrow> (string \<times> rat) list" where
  "optional_gauge name v = (case v of None \<Rightarrow> [] | Some r \<Rightarrow> [(name, r)])"

fun health_value :: "health_state \<Rightarrow> rat" where
  "health_value HealthOk = 1"
| "health_value Stale = 0"
| "health_value NoData = - 1"

definition set_installer :: "f64_ops \<Rightarrow> string \<times> installer_metric \<Rightarrow> metrics_exporter \<Rightarrow> metrics_exporter" where
  "set_installer F nm x =
     (case nm of (name, m) \<Rightarrow>
        let labels = [(''installer'', name)]
        in set_labeled_gauge ''installer_attempts'' labels (fl F (of_nat (im_attempts m)))
             (set_labeled_gauge ''installer_duration_seconds'' labels (im_duration_seconds m)
               (set_labeled_gauge ''installer_status'' labels (fl F (of_int (im_status m))) x)))"

definition report_gauges :: "f64_ops \<Rightarrow> metrics_report \<Rightarrow> (string \<times> rat) list" where
  "report_gauges F r =
     (let n = (\<lambda>k. fl F (of_nat k)); ts = map_option (\<lambda>t. fl F (of_int (timestamp t)))
      in [(''tests_total_24h'', n (mr_total_tests_24h r)),
          (''successful_tests_24h'', n (mr_successful_tests_24h r)),
          (''failed_tests_24h'', n (mr_failed_tests_24h r)),
          (''success_rate_24h'', mr_success_rate_24h r),
          (''runs_24h'', n (mr_runs_24h r)),
          (''remediations_total_24h'', n (mr_total_remediations_24h r)),
          (''remediations_verified_24h'', n (mr_remediations_verified_24h r)),
          (''remediations_cost_usd_24h'', mr_remediations_cost_usd_24h r),
          (''health'', health_value (mr_health r))] @
         optional_gauge ''run_last_timestamp'' (ts (mr_last_run_at r)) @
         optional_gauge ''last_test_timestamp'' (ts (mr_last_run_at r)) @
         optional_gauge ''run_last_age_seconds'' (map_option (\<lambda>a. fl F (of_int a)) (mr_last_run_age_seconds r)) @
         [(''run_last_interrupted'', if mr_last_run_interrupted r then 1 else 0),
          (''run_last_duration_seconds'', mr_last_run_duration_seconds r)] @
         optional_gauge ''last_success_timestamp'' (ts (mr_last_success r)) @
         optional_gauge ''last_failure_timestamp'' (ts (mr_last_failure r)) @
         optional_gauge ''checksum_drift_total'' (map_option n (mr_checksum_drift_total r)) @
         optional_gauge ''validate_last_timestamp'' (ts (mr_validated_at r)))"

definition to_prometheus :: "f64_ops \<Rightarrow> (rat \<Rightarrow> string) \<Rightarrow> metrics_report \<Rightarrow> string" where
  "to_prometheus F sf r =
     export sf (fold (set_installer F) (mr_installers r)
       (gauges (report_gauges F r) (exporter_new ''afsc'')))"

definition from_snapshot :: "f64_ops \<Rightarrow> string \<Rightarrow> metrics_snapshot \<Rightarrow> metrics_exporter" where
  "from_snapshot F pre s =
     (let n = (\<lambda>k. fl F (of_nat k)); ts = map_option (\<lambda>t. fl F (of_int (timestamp t)))
      in gauges
           ([(''tests_total_24h'', n (ms_total_tests_24h s)),
             (''successful_tests_24h'', n (ms_successful_tests_24h s)),
             (''success_rate_24h'', ms_success_rate_24h s),
             (''remediations_total_24h'', n (ms_total_remediations_24h s)),
             (''uptime_seconds'', n (ms_uptime_seconds s)), (''runs_24h'', n (ms_runs_24h s))] @
            optional_gauge ''last_test_timestamp'' (ts (ms_last_test s)) @
            optional_gauge ''last_success_timestamp'' (ts (ms_last_success s)) @
            optional_gauge ''last_failure_timestamp'' (ts (ms_last_failure s))) (exporter_new pre))"

section \<open>Labels\<close>

text \<open>How a scraper reads a quoted label value: up to the first quote that is not escaped.\<close>

fun read_label :: "string \<Rightarrow> (string \<times> string) option" where
  "read_label [] = None"
| "read_label (c # cs) =
     (if c = dquote then Some ([], cs)
      else if c = backslash then
        (case cs of
           [] \<Rightarrow> None
         | d # ds \<Rightarrow> map_option (\<lambda>(v, rest). ((if d = CHR ''n'' then nl else d) # v, rest)) (read_label ds))
      else map_option (\<lambda>(v, rest). (c # v, rest)) (read_label cs))"

lemma escape_label_Nil: "escape_label [] = []"
  by (simp add: escape_label_def replace_char_def)

lemma escape_label_Cons:
  "escape_label (c # v) =
     (if c = backslash then [backslash, backslash] else if c = dquote then [backslash, dquote]
      else if c = nl then [backslash, CHR ''n''] else [c]) @ escape_label v"
  by (simp add: escape_label_def replace_char_def)

text \<open>
  an installer's name reads back from the exposition. A scraper that meets the escaped label and
  its closing quote gets the name and exactly the text after the quote, and the escaped label has no
  line break in it.
\<close>

theorem label_roundtrip:
  "read_label (escape_label v @ dquote # rest) = Some (v, rest) \<and> nl \<notin> set (escape_label v)"
  by (induction v) (auto simp: escape_label_Nil escape_label_Cons)

section \<open>Counts\<close>

lemma tests_split: "count p xs + count q xs = length xs" if "\<And>x. x \<in> set xs \<Longrightarrow> q x \<longleftrightarrow> \<not> p x"
  using that by (induction xs) (auto simp: count_def)

lemma count_disjoint: "count p xs + count q xs \<le> length xs" if "\<And>x. \<not> (p x \<and> q x)"
  using that by (induction xs) (auto simp: count_def)

lemma ratio_bounds:
  assumes "ieee64 F" "a \<le> b"
  shows "0 \<le> ratio F a b \<and> ratio F a b \<le> 1"
proof -
  have mono: "fl F x \<le> fl F y" if "x \<le> y" for x y using assms(1) that by (simp add: ieee64_def)
  have fix01: "fl F 0 = 0" "fl F 1 = 1"
    using assms(1) [unfolded ieee64_def, THEN conjunct2, THEN conjunct1, rule_format, of 0]
      assms(1) [unfolded ieee64_def, THEN conjunct2, THEN conjunct1, rule_format, of 4] by simp_all
  have a: "0 \<le> fl F (of_nat a)" using mono [of 0 "of_nat a"] fix01 by simp
  have ab: "fl F (of_nat a) \<le> fl F (of_nat b)" using assms(2) by (intro mono) simp
  have "0 \<le> fl F (of_nat a) / fl F (of_nat b)" "fl F (of_nat a) / fl F (of_nat b) \<le> 1"
    using a ab by (auto simp: divide_le_eq_1)
  from mono [OF this(1)] mono [OF this(2)] show ?thesis by (simp add: ratio_def fix01)
qed

text \<open>
  the numbers of a report agree. Passed and failed tests never exceed the tests counted, and make
  them up when every status is one of those the checker writes; the success rate is between 0 and 1;
  and health says stale exactly when the newest run is older than the limit, which a limit of
  \<open>2 ^ 63\<close> seconds or more turns negative.
\<close>

theorem metrics_agree:
  fixes h now stale_after validation k
  assumes "ieee64 F"
  defines "r \<equiv> compute F h now stale_after validation k"
  shows "mr_successful_tests_24h r + mr_failed_tests_24h r \<le> mr_total_tests_24h r \<and>
    (re_status ` set (entries_of h) \<subseteq> {''passed'', ''failed'', ''timedout'', ''cancelled'', ''skipped''} \<longrightarrow>
       mr_successful_tests_24h r + mr_failed_tests_24h r = mr_total_tests_24h r) \<and>
    0 \<le> mr_success_rate_24h r \<and> mr_success_rate_24h r \<le> 1 \<and>
    (mr_health r = NoData \<longleftrightarrow> h = []) \<and>
    (mr_health r = Stale \<longleftrightarrow> h \<noteq> [] \<and> sint stale_after < num_seconds (now - started_at_of (hd h)))"
proof -
  define es where "es = filter (\<lambda>e. re_status e \<noteq> ''skipped'') (entries_of (runs_within now WINDOW h))"
  define p where "p = (\<lambda>e :: result_entry. re_status e = ''passed'')"
  define q where "q = (\<lambda>e :: result_entry. re_status e \<noteq> ''passed'' \<and> is_failure_status (re_status e))"
  have r: "mr_successful_tests_24h r = count p es" "mr_failed_tests_24h r = count q es"
    "mr_total_tests_24h r = length es"
    "mr_success_rate_24h r = (if length es > 0 then ratio F (count p es) (length es) else 0)"
    by (simp_all add: r_def compute_def Let_def es_def p_def q_def)
  have sum: "count p es + count q es \<le> length es"
    by (rule count_disjoint) (simp add: p_def q_def)
  have "set es \<subseteq> set (entries_of h)"
    by (auto simp: es_def entries_of_def runs_within_def)
  then have "count p es + count q es = length es"
    if "re_status ` set (entries_of h) \<subseteq> {''passed'', ''failed'', ''timedout'', ''cancelled'', ''skipped''}"
  proof (intro tests_split)
    fix e
    assume "e \<in> set es"
    with that \<open>set es \<subseteq> _\<close>
    have "re_status e \<in> {''passed'', ''failed'', ''timedout'', ''cancelled'', ''skipped''}"
      by blast
    moreover have "re_status e \<noteq> ''skipped''" using \<open>e \<in> set es\<close> by (simp add: es_def)
    ultimately show "q e \<longleftrightarrow> \<not> p e"
      by (auto simp: p_def q_def is_failure_status_def FAILURE_STATUSES_def)
  qed
  moreover have "0 \<le> mr_success_rate_24h r \<and> mr_success_rate_24h r \<le> 1"
    using ratio_bounds [OF assms(1), of "count p es" "length es"] sum by (simp add: r)
  moreover have "mr_health r = NoData \<longleftrightarrow> h = []"
    "mr_health r = Stale \<longleftrightarrow> h \<noteq> [] \<and> sint stale_after < num_seconds (now - started_at_of (hd h))"
    by (cases h; simp add: r_def compute_def Let_def health_of_def latest_run_def)+
  ultimately show ?thesis using sum r by simp
qed

theorem metrics_agree_witness:
  "mr_health (compute exact_f64 [] 0 0 None 0) = NoData"
  using metrics_agree [OF ieee64_exact, of "[]"] by simp

section \<open>Newest outcome\<close>

lemma map_of_or_insert_all:
  "bt_ok m \<Longrightarrow> bt_ok (fold or_insert kvs m) \<and>
     map_of (fold or_insert kvs m) k = opt_or (map_of m k) (map_of kvs k)"
proof (induction kvs arbitrary: m)
  case (Cons kv kvs)
  have ok: "bt_ok (or_insert kv m)" using Cons.prems by (simp add: or_insert_def bt_ok_insert)
  have "map_of (or_insert kv m) k = opt_or (map_of m k) (if k = fst kv then Some (snd kv) else None)"
    using Cons.prems by (auto simp: or_insert_def map_of_bt_insert opt_or_def split: option.split)
  with Cons.IH [OF ok] show ?case
    by (cases kv) (auto simp: opt_or_def split: option.split)
qed (simp add: opt_or_def split: option.split)

lemma map_of_entries:
  "map_of (map (\<lambda>e. (re_installer_name e, g e)) es) n =
     map_option g (find (\<lambda>e. re_installer_name e = n) es)"
  by (induction es) auto

text \<open>
  the outcome shown for an installer is that of the first run of the history, newest first, that
  has the installer, a skipped one included, and is shown for no other installer.
\<close>

theorem newest_outcome_per_installer:
  "map_of (installer_metrics F h) n =
     (case find (\<lambda>run. entry_of n run \<noteq> None) h of
        None \<Rightarrow> None
      | Some run \<Rightarrow> map_option (installer_metric_of F run) (entry_of n run)) \<and>
   sorted_wrt (<) (map fst (installer_metrics F h))"
proof -
  let ?kvs = "\<lambda>h. concat (map (\<lambda>run. map (\<lambda>e. (re_installer_name e, installer_metric_of F run e)) (lr_entries run)) h)"
  have "map_of (?kvs h) n =
     (case find (\<lambda>run. entry_of n run \<noteq> None) h of
        None \<Rightarrow> None
      | Some run \<Rightarrow> map_option (installer_metric_of F run) (entry_of n run))"
    by (induction h) (auto simp: map_add_def map_of_entries entry_of_def split: option.splits)
  with map_of_or_insert_all [of "[]" "?kvs h" n] show ?thesis
    by (simp add: installer_metrics_def opt_or_def bt_ok_def)
qed

section \<open>The carried count\<close>

text \<open>A sequence of check commands: when each saves its snapshot, and whether it tried to remediate.\<close>

record saved_run =
  sr_now :: instant
  sr_tried :: bool
  sr_started_at :: instant
  sr_history :: history

fun snapshots ::
  "f64_ops \<Rightarrow> u64 \<Rightarrow> saved_run list \<Rightarrow> metrics_snapshot option \<Rightarrow> metrics_snapshot option" where
  "snapshots F stale_after [] s = s"
| "snapshots F stale_after (e # es) s =
     snapshots F stale_after es
       (case persist_metrics_snapshot F (Inr (sr_history e)) None (sr_now e) stale_after (sr_tried e)
              (sr_started_at e) s of
          Inl _ \<Rightarrow> s
        | Inr s' \<Rightarrow> Some s')"

lemma persist_fields:
  "persist_metrics_snapshot F (Inr h) v now st tried begun s = Inr s' \<Longrightarrow>
     ms_snapshot_time s' = now \<and>
     ms_total_remediations_24h s' = carried_remediations now s + (if tried then 1 else 0)"
  by (auto simp: persist_metrics_snapshot_def from_data_dir_def snapshot_of_def compute_def Let_def)

text \<open>
  the remediation count of the last day never forgets. As long as no two checks are more than a
  day apart, every check counts the remediations of all checks before it, however long ago they
  were: saving a snapshot renews the time of the whole count.
\<close>

theorem remediation_count_never_expires:
  assumes "successively (\<lambda>e e'. sr_now e' - sr_now e \<le> int WINDOW) es" "es \<noteq> []"
  shows "\<exists>s. snapshots F stale_after es None = Some s \<and> ms_snapshot_time s = sr_now (last es) \<and>
    ms_total_remediations_24h s = length (filter sr_tried es)"
proof -
  have "\<exists>s'. snapshots F stale_after (e # es) s = Some s' \<and> ms_snapshot_time s' = sr_now (last (e # es)) \<and>
      ms_total_remediations_24h s' = carried_remediations (sr_now e) s + length (filter sr_tried (e # es))"
    if "successively (\<lambda>e e'. sr_now e' - sr_now e \<le> int WINDOW) (e # es)" for e es s
    using that
  proof (induction es arbitrary: e s)
    case Nil
    obtain s' where "persist_metrics_snapshot F (Inr (sr_history e)) None (sr_now e) stale_after (sr_tried e)
        (sr_started_at e) s = Inr s'"
      by (simp add: persist_metrics_snapshot_def from_data_dir_def Let_def)
    with persist_fields [OF this] show ?case by simp
  next
    case (Cons d es)
    obtain s' where s': "persist_metrics_snapshot F (Inr (sr_history e)) None (sr_now e) stale_after
        (sr_tried e) (sr_started_at e) s = Inr s'"
      by (simp add: persist_metrics_snapshot_def from_data_dir_def Let_def)
    from Cons.prems have "sr_now d - sr_now e \<le> int WINDOW" by simp
    with persist_fields [OF s'] have "carried_remediations (sr_now d) (Some s') =
        carried_remediations (sr_now e) s + (if sr_tried e then 1 else 0)"
      by (simp add: carried_remediations_def in_window_def)
    with Cons.IH [of d "Some s'"] Cons.prems s' show ?case by auto
  qed
  from this [of "hd es" "tl es" None] assms show ?thesis
    by (simp add: carried_remediations_def in_window_def)
qed

definition sample_save :: "nat \<Rightarrow> bool \<Rightarrow> saved_run" where
  "sample_save h tried =
     \<lparr>sr_now = int (h * 3600 * ns_per_sec), sr_tried = tried, sr_started_at = 0, sr_history = []\<rparr>"

theorem remediation_count_never_expires_witness:
  "\<exists>s. snapshots exact_f64 0 [sample_save 0 True, sample_save 20 False, sample_save 40 False] None = Some s \<and>
     ms_snapshot_time s = int (40 * 3600 * ns_per_sec) \<and> ms_total_remediations_24h s = 1"
proof -
  have "successively (\<lambda>e e'. sr_now e' - sr_now e \<le> int WINDOW)
      [sample_save 0 True, sample_save 20 False, sample_save 40 False]"
    by (simp add: sample_save_def WINDOW_def ns_per_sec_def)
  from remediation_count_never_expires [OF this, of exact_f64 0] show ?thesis
    by (simp add: sample_save_def)
qed

end
