(* ===== verification/Validate.thy ===== *)
theory Validate
  imports Check Acfs Metrics
begin

text \<open>
  The command \<^verbatim>\<open>validate\<close> (\<^verbatim>\<open>src/main.rs\<close>): structure and URL policy of the checksum file, the cross
  check with the ACFS checkout it stands in, reachability and hashes, the lines it prints, the report
  it leaves for the metrics, and its exit code. Files, network and clock are what the world answers.
\<close>

section \<open>What it meets and what it prints\<close>

record validate_world =
  vw_exists :: bool
  vw_checksums :: "anyhow + checksums_file"
  vw_url_error :: "string \<Rightarrow> string option"
  vw_rx :: regex_crate
  vw_is_acfs :: bool \<comment> \<open>\<open>scripts/lib/security.sh\<close> exists beside the file\<close>
  vw_tree :: acfs_tree
  vw_net :: "string \<Rightarrow> url_answers"
  vw_fetch :: "string \<Rightarrow> fetch_answers"
  vw_sha256 :: "string \<Rightarrow> string"
  vw_now :: instant

record validate_flags =
  vf_urls :: bool
  vf_hashes :: bool
  vf_profile :: bool
  vf_format :: output_format

record validate_doc =
  vd_path :: string
  vd_format :: validation_result
  vd_cross_check :: "cross_check_result option"
  vd_profile_drift :: "profile_drift_entry list"
  vd_url_checks :: "(url_check_result list \<times> nat \<times> nat) option" \<comment> \<open>results, reachable, broken\<close>
  vd_hash_checks :: "(hash_check_result list \<times> nat \<times> nat) option" \<comment> \<open>results, matched, mismatched\<close>
  vd_exit_code :: int

datatype validate_line =
  TextLine string
| FormatLine string validation_result
| UrlLine url_check_result
| HashLine hash_check_result
| SummaryLine bool int
| ReportLine validate_doc

section \<open>Format and cross check\<close>

definition cross_findings :: "cross_check_result \<Rightarrow> validation_result \<Rightarrow> validation_result" where
  "cross_findings cc r =
     fold (\<lambda>name. add_warning (name @ '' is in checksums.yaml but not in KNOWN_INSTALLERS''))
       (cc_extra_in_checksums cc)
       (fold (\<lambda>(name, yaml_url, known_url).
            add_error (InvalidUrl name (''checksums.yaml has '' @ yaml_url @ '' but KNOWN_INSTALLERS has '' @ known_url)))
         (cc_url_mismatches cc)
         (fold (\<lambda>name. add_error (MissingUrl (name @ '' (in KNOWN_INSTALLERS but not in checksums.yaml)'')))
           (cc_missing_from_checksums cc) r))"

definition drift_text :: "profile_drift_entry \<Rightarrow> string" where
  "drift_text d =
     ''profile drift for '' @ dr_name d @ '': ACFS '' @ dr_field d @ '' = '' @ debug_str (dr_acfs d) @
     '' but built-in profile has '' @ debug_str (dr_profile d) @ '' ('' @ dr_file d @ '':'' @
     show_nat (dr_line d) @ '')''"

definition drift_findings :: "profile_drift_entry list \<Rightarrow> validation_result \<Rightarrow> validation_result" where
  "drift_findings ds = fold (\<lambda>d. add_warning (drift_text d)) ds"

definition check_checkout ::
  "validate_world \<Rightarrow> bool \<Rightarrow> checksums_file \<Rightarrow> validation_result
    \<Rightarrow> (validation_result \<times> cross_check_result option \<times> profile_drift_entry list) option" where
  \<comment> \<open>\<open>None\<close>: a built-in regular expression does not compile\<close>
  "check_checkout w profile cs r =
     (if vw_is_acfs w then
        (case scan_acfs_repo (vw_rx w) (vw_tree w) of
           None \<Rightarrow> None
         | Some (Inl e) \<Rightarrow> Some (add_warning (''ACFS repo scan failed: '' @ err_chain e) r, None, [])
         | Some (Inr scan) \<Rightarrow>
             let cc = cross_check cs (as_known_installers scan);
                 ds = (if profile then profile_drift (as_call_sites scan) else [])
             in Some (drift_findings ds (cross_findings cc r), Some cc, ds))
      else Some
        (if profile
         then add_warning (''--profile: no ACFS checkout found at '' @ at_root (vw_tree w) @
           '' (scripts/lib/security.sh missing)'') r
         else r, None, []))"

definition format_result :: "validate_world \<Rightarrow> bool \<Rightarrow> checksums_file \<Rightarrow> validation_result" where
  "format_result w allow cs =
     fold add_error (validate_url_policy cs allow) (validate_checksums (vw_url_error w) cs False)"

definition format_lines :: "output_format \<Rightarrow> string \<Rightarrow> validation_result \<Rightarrow> validate_line list" where
  "format_lines fmt path r =
     (case fmt of
        Human \<Rightarrow>
          (if vr_valid r then [TextLine ''checksums.yaml is valid'']
           else TextLine ''checksums.yaml has errors:'' #
             map (\<lambda>e. TextLine (''  ERROR: '' @ validation_error_str e)) (vr_errors r)) @
          (if vr_warnings r = [] then []
           else TextLine ''Warnings:'' # map (\<lambda>w. TextLine (''  WARN: '' @ w)) (vr_warnings r))
      | Jsonl \<Rightarrow> [FormatLine path r]
      | _ \<Rightarrow> [])"

section \<open>URLs and hashes\<close>

definition mark :: "bool \<Rightarrow> string" where
  "mark ok = [CHR 0xE2, CHR 0x9C, if ok then CHR 0x93 else CHR 0x97]"

definition error_note :: "string option \<Rightarrow> string" where
  "error_note e = (case e of Some t \<Rightarrow> '' ('' @ t @ '')'' | None \<Rightarrow> [])"

definition url_text :: "url_check_result \<Rightarrow> string" where
  "url_text r =
     ''  '' @ mark (uc_reachable r) @ '' '' @ uc_name r @ '' - '' @
     (case uc_status r of Some s \<Rightarrow> ''HTTP '' @ show_nat (unat s) | None \<Rightarrow> ''error'') @ '' '' @
     show_nat (unat (uc_response_time_ms r)) @ ''ms'' @ error_note (uc_error r)"

definition reachable_count :: "url_check_result list \<Rightarrow> nat" where
  "reachable_count rs = length (filter uc_reachable rs)"

definition url_lines :: "output_format \<Rightarrow> url_check_result list \<Rightarrow> validate_line list" where
  "url_lines fmt rs =
     (let ok = reachable_count rs
      in case fmt of
        Human \<Rightarrow>
          [TextLine [], TextLine ''Checking URLs...''] @ map (\<lambda>r. TextLine (url_text r)) rs @
          [TextLine [], TextLine (''URL check: '' @ show_nat ok @ '' reachable, '' @ show_nat (length rs - ok) @
            '' broken out of '' @ show_nat (length rs) @ '' total'')]
      | Json \<Rightarrow> []
      | _ \<Rightarrow> map UrlLine rs)"

definition hash_texts :: "hash_check_result \<Rightarrow> string list" where
  "hash_texts r =
     [''  '' @ mark (hc_matches r) @ '' '' @ hc_name r @ '' - '' @ show_nat (unat (hc_response_time_ms r)) @ ''ms'' @
       error_note (hc_error r)] @
     (if hc_matches r then []
      else (case hc_expected r of Some e \<Rightarrow> [''      expected: '' @ e] | None \<Rightarrow> []) @
        (case hc_actual r of Some a \<Rightarrow> [''      actual:   '' @ a] | None \<Rightarrow> []))"

definition matched_count :: "hash_check_result list \<Rightarrow> nat" where
  "matched_count rs = length (filter hc_matches rs)"

definition hash_lines :: "output_format \<Rightarrow> hash_check_result list \<Rightarrow> validate_line list" where
  "hash_lines fmt rs =
     (let ok = matched_count rs
      in case fmt of
        Human \<Rightarrow>
          [TextLine [], TextLine ''Checking hashes...''] @ map TextLine (concat (map hash_texts rs)) @
          [TextLine [], TextLine (''Hash check: '' @ show_nat ok @ '' matched, '' @ show_nat (length rs - ok) @
            '' mismatched out of '' @ show_nat (length rs) @ '' total'')]
      | Json \<Rightarrow> []
      | _ \<Rightarrow> map HashLine rs)"

definition report_of :: "instant \<Rightarrow> string \<Rightarrow> hash_check_result list \<Rightarrow> validation_report" where
  "report_of now path rs =
     \<lparr>vp_checked_at = Some now, vp_checksums_path = from_utf8_lossy path, vp_total = length rs,
      vp_matched = matched_count rs,
      vp_mismatched = map hc_name (filter (\<lambda>r. \<not> hc_matches r \<and> hc_error r = None) rs),
      vp_unreachable = map hc_name (filter (\<lambda>r. \<not> hc_matches r \<and> hc_error r \<noteq> None) rs)\<rparr>"

section \<open>The command\<close>

record validate_outcome =
  vo_lines :: "validate_line list"
  vo_report :: "validation_report option" \<comment> \<open>what is saved for the metrics\<close>
  vo_result :: "afsc_error + unit"

definition validate_exit :: "bool \<Rightarrow> nat \<Rightarrow> nat \<Rightarrow> int" where
  "validate_exit valid broken mismatched =
     (if broken > 0 \<or> mismatched > 0 then 4 else if valid then 0 else 2)"

definition drift_summary :: "nat \<Rightarrow> nat \<Rightarrow> string list" where
  "drift_summary broken mismatched =
     (if broken > 0 then [show_nat broken @ '' unreachable URL(s)''] else []) @
     (if mismatched > 0 then [show_nat mismatched @ '' checksum mismatch(es)''] else [])"

definition final_lines :: "output_format \<Rightarrow> validate_doc \<Rightarrow> validate_line list" where
  "final_lines fmt doc =
     (case fmt of
        Json \<Rightarrow> [ReportLine doc]
      | Human \<Rightarrow> []
      | _ \<Rightarrow> [SummaryLine (vr_valid (vd_format doc)) (vd_exit_code doc)])"

definition validate_result :: "validation_result \<Rightarrow> nat \<Rightarrow> nat \<Rightarrow> afsc_error + unit" where
  "validate_result r broken mismatched =
     (let code = validate_exit (vr_valid r) broken mismatched
      in if code = 0 then Inr ()
         else if code = 2 then
           Inl (ChecksumsInvalid (''checksums.yaml has '' @ show_nat (length (vr_errors r)) @ '' error(s)''))
         else Inl (ValidationDrift (join '', '' (drift_summary broken mismatched))))"

definition validated ::
  "validate_world \<Rightarrow> validate_flags \<Rightarrow> string \<Rightarrow> checksums_file
    \<Rightarrow> validation_result \<times> cross_check_result option \<times> profile_drift_entry list \<Rightarrow> validate_outcome" where
  "validated w flags path cs checked =
     (case checked of (r, cross, drift) \<Rightarrow>
        let urls = (if vr_valid r \<and> vf_urls flags then Some (check_urls (vw_net w) cs) else None);
            hashes = (if vr_valid r \<and> vf_hashes flags
                      then Some (check_hashes (vw_sha256 w) (vw_fetch w) cs) else None);
            broken = (case urls of Some rs \<Rightarrow> length rs - reachable_count rs | None \<Rightarrow> 0);
            mismatched = (case hashes of Some rs \<Rightarrow> length rs - matched_count rs | None \<Rightarrow> 0);
            doc = \<lparr>vd_path = from_utf8_lossy path, vd_format = r, vd_cross_check = cross,
                   vd_profile_drift = drift,
                   vd_url_checks = map_option (\<lambda>rs. (rs, reachable_count rs, broken)) urls,
                   vd_hash_checks = map_option (\<lambda>rs. (rs, matched_count rs, mismatched)) hashes,
                   vd_exit_code = validate_exit (vr_valid r) broken mismatched\<rparr>
        in \<lparr>vo_lines =
              format_lines (vf_format flags) (from_utf8_lossy path) r @
              (case urls of Some rs \<Rightarrow> url_lines (vf_format flags) rs | None \<Rightarrow> []) @
              (case hashes of Some rs \<Rightarrow> hash_lines (vf_format flags) rs | None \<Rightarrow> []) @
              final_lines (vf_format flags) doc,
            vo_report = map_option (report_of (vw_now w) path) hashes,
            vo_result = validate_result r broken mismatched\<rparr>)"

definition refused :: "afsc_error \<Rightarrow> validate_outcome" where
  "refused e = \<lparr>vo_lines = [], vo_report = None, vo_result = Inl e\<rparr>"

definition cmd_validate ::
  "validate_world \<Rightarrow> config \<Rightarrow> string option \<Rightarrow> validate_flags \<Rightarrow> validate_outcome option" where
  "cmd_validate w cfg given flags =
     (let path = unwrap_or given (Config.path_join (gc_acfs_repo (cf_general cfg)) ''checksums.yaml'')
      in if \<not> vw_exists w
         then Some (refused (ConfigError (''checksums.yaml not found at '' @ debug_str path)))
         else case vw_checksums w of
           Inl e \<Rightarrow> Some (refused (Other e))
         | Inr cs \<Rightarrow>
             map_option (validated w flags path cs)
               (check_checkout w (vf_profile flags) cs
                 (format_result w (gc_allow_file_urls (cf_general cfg)) cs)))"

section \<open>Lemmas\<close>

lemma fold_add_error:
  "fold (\<lambda>x. add_error (f x)) xs r =
     r\<lparr>vr_valid := vr_valid r \<and> xs = [], vr_errors := vr_errors r @ map f xs\<rparr>"
  by (induction xs arbitrary: r) (simp_all add: add_error_def)

lemma fold_add_warning:
  "fold (\<lambda>x. add_warning (f x)) xs r = r\<lparr>vr_warnings := vr_warnings r @ map f xs\<rparr>"
  by (induction xs arbitrary: r) (simp_all add: add_warning_def)

lemma cross_findings_valid:
  "vr_valid (cross_findings cc r) \<longleftrightarrow> vr_valid r \<and> \<not> has_errors cc"
  by (auto simp: cross_findings_def fold_add_error fold_add_warning split_def has_errors_def)

lemma drift_findings_valid: "vr_valid (drift_findings ds r) = vr_valid r"
  by (simp add: drift_findings_def fold_add_warning)

definition agrees_with_checkout :: "validate_world \<Rightarrow> checksums_file \<Rightarrow> bool" where
  "agrees_with_checkout w cs \<longleftrightarrow>
     (vw_is_acfs w \<longrightarrow> (\<forall>scan. scan_acfs_repo (vw_rx w) (vw_tree w) = Some (Inr scan) \<longrightarrow>
        \<not> has_errors (cross_check cs (as_known_installers scan))))"

lemma check_checkout_valid:
  assumes "check_checkout w profile cs r = Some (r', cross, ds)"
  shows "vr_valid r' \<longleftrightarrow> vr_valid r \<and> agrees_with_checkout w cs"
  using assms
  by (auto simp: check_checkout_def agrees_with_checkout_def cross_findings_valid drift_findings_valid
      add_warning_def Let_def split: if_splits option.splits sum.splits)

lemma format_result_valid:
  assumes "well_formed cs"
  shows "vr_valid (format_result w allow cs) \<longleftrightarrow>
     (\<forall>(n, e)\<in>set cs. \<forall>u. ie_url e = Some u \<longrightarrow>
        vw_url_error w u = None \<and> (ie_enabled e \<longrightarrow> url_policy_violation u allow = None))"
proof -
  have p: "validate_url_policy cs allow = [] \<longleftrightarrow>
      (\<forall>(n, e)\<in>set cs. \<forall>u. ie_url e = Some u \<longrightarrow> ie_enabled e \<longrightarrow> url_policy_violation u allow = None)"
  proof -
    have "validate_url_policy cs allow = [] \<longleftrightarrow> set (validate_url_policy cs allow) = {}" by simp
    also have "\<dots> \<longleftrightarrow> (\<forall>n e u why. (n, e) \<in> set cs \<longrightarrow> ie_enabled e \<longrightarrow> ie_url e = Some u \<longrightarrow>
        url_policy_violation u allow \<noteq> Some why)"
      unfolding set_validate_url_policy [OF assms [unfolded well_formed_def]] by blast
    also have "\<dots> \<longleftrightarrow> (\<forall>n e u. (n, e) \<in> set cs \<longrightarrow> ie_enabled e \<longrightarrow> ie_url e = Some u \<longrightarrow>
        url_policy_violation u allow = None)"
      by (metis not_Some_eq)
    also have "\<dots> \<longleftrightarrow> (\<forall>(n, e)\<in>set cs. \<forall>u. ie_url e = Some u \<longrightarrow> ie_enabled e \<longrightarrow>
        url_policy_violation u allow = None)"
      by blast
    finally show ?thesis .
  qed
  have "vr_valid (validate_checksums (vw_url_error w) cs False) \<longleftrightarrow>
      (\<forall>(n, e)\<in>set cs. \<forall>u. ie_url e = Some u \<longrightarrow> vw_url_error w u = None)"
    using validate_entries [of "vw_url_error w" cs validation_result_new]
    by (auto simp: validate_checksums_def validation_result_new_def entry_urls_ok_def split: option.splits)
  then show ?thesis
    using fold_add_error [of "\<lambda>e. e" "validate_url_policy cs allow" "validate_checksums (vw_url_error w) cs False"]
    by (auto simp: format_result_def p)
qed

lemma filter_rest_empty: "length xs - length (filter P xs) = 0 \<longleftrightarrow> (\<forall>x\<in>set xs. P x)"
  by (metis (no_types, lifting) diff_is_0_eq filter_True length_filter_le length_filter_less linorder_not_less le_antisym)

lemma set_check_urls:
  "r \<in> set (check_urls net cs) \<longleftrightarrow>
     (\<exists>n e u. (n, e) \<in> set cs \<and> ie_enabled e \<and> ie_url e = Some u \<and> r = check_url (net n) n u)"
  by (force simp: check_urls_def set_map_filter split: if_splits)

lemma check_url_reachable:
  "uc_reachable (check_url a n u) \<longleftrightarrow> (\<exists>st. head_response a = Inr st \<and> 200 \<le> st \<and> st < 300)"
  by (auto simp: check_url_def split: sum.split)

text \<open>What the checks ask of one entry.\<close>

definition passes :: "validate_world \<Rightarrow> bool \<Rightarrow> validate_flags \<Rightarrow> string \<times> installer_entry \<Rightarrow> bool" where
  "passes w allow flags ne =
     (case ne of (n, e) \<Rightarrow>
        (case ie_url e of
           None \<Rightarrow> True
         | Some u \<Rightarrow>
             vw_url_error w u = None \<and>
             (ie_enabled e \<longrightarrow>
                url_policy_violation u allow = None \<and>
                (vf_urls flags \<longrightarrow> uc_reachable (check_url (vw_net w n) n u)) \<and>
                (vf_hashes flags \<longrightarrow>
                   hc_matches (check_hash (vw_sha256 w) (vw_fetch w n) n u (normalized_pin e))))))"

definition broken_count :: "validate_world \<Rightarrow> validate_flags \<Rightarrow> checksums_file \<Rightarrow> validation_result \<Rightarrow> nat" where
  "broken_count w flags cs r =
     (if vr_valid r \<and> vf_urls flags
      then length (check_urls (vw_net w) cs) - reachable_count (check_urls (vw_net w) cs) else 0)"

definition mismatched_count :: "validate_world \<Rightarrow> validate_flags \<Rightarrow> checksums_file \<Rightarrow> validation_result \<Rightarrow> nat" where
  "mismatched_count w flags cs r =
     (let rs = check_hashes (vw_sha256 w) (vw_fetch w) cs
      in if vr_valid r \<and> vf_hashes flags then length rs - matched_count rs else 0)"

lemma validated_result:
  "vo_result (validated w flags path cs (r, cross, ds)) =
     validate_result r (broken_count w flags cs r) (mismatched_count w flags cs r)"
  by (simp add: validated_def broken_count_def mismatched_count_def Let_def)

lemma validated_report:
  "vo_report (validated w flags path cs (r, cross, ds)) =
     (if vr_valid r \<and> vf_hashes flags
      then Some (report_of (vw_now w) path (check_hashes (vw_sha256 w) (vw_fetch w) cs)) else None)"
  by (simp add: validated_def Let_def)

lemma validate_result_ok:
  "validate_result r b m = Inr () \<longleftrightarrow> vr_valid r \<and> b = 0 \<and> m = 0"
  by (auto simp: validate_result_def validate_exit_def Let_def)

lemma broken_none:
  "broken_count w flags cs r = 0 \<longleftrightarrow>
     (vr_valid r \<longrightarrow> vf_urls flags \<longrightarrow> (\<forall>(n, e)\<in>set cs. \<forall>u. ie_url e = Some u \<longrightarrow> ie_enabled e \<longrightarrow>
        uc_reachable (check_url (vw_net w n) n u)))"
proof -
  have "(\<forall>x\<in>set (check_urls net cs). uc_reachable x) \<longleftrightarrow>
      (\<forall>(n, e)\<in>set cs. \<forall>u. ie_url e = Some u \<longrightarrow> ie_enabled e \<longrightarrow> uc_reachable (check_url (net n) n u))"
    for net unfolding Ball_def set_check_urls by blast
  then show ?thesis by (simp only: broken_count_def reachable_count_def filter_rest_empty split: if_split) simp
qed

lemma mismatched_none:
  "mismatched_count w flags cs r = 0 \<longleftrightarrow>
     (vr_valid r \<longrightarrow> vf_hashes flags \<longrightarrow> (\<forall>(n, e)\<in>set cs. \<forall>u. ie_url e = Some u \<longrightarrow> ie_enabled e \<longrightarrow>
        hc_matches (check_hash (vw_sha256 w) (vw_fetch w n) n u (normalized_pin e))))"
proof -
  have "(\<forall>x\<in>set (check_hashes sha net cs). hc_matches x) \<longleftrightarrow>
      (\<forall>(n, e)\<in>set cs. \<forall>u. ie_url e = Some u \<longrightarrow> ie_enabled e \<longrightarrow>
        hc_matches (check_hash sha (net n) n u (normalized_pin e)))"
    for sha net unfolding Ball_def set_check_hashes by blast
  then show ?thesis
    by (simp only: mismatched_count_def matched_count_def Let_def filter_rest_empty split: if_split) simp
qed

lemma all_pass:
  "(\<forall>ne\<in>set cs. passes w allow flags ne) \<longleftrightarrow>
     (\<forall>(n, e)\<in>set cs. \<forall>u. ie_url e = Some u \<longrightarrow>
        vw_url_error w u = None \<and> (ie_enabled e \<longrightarrow> url_policy_violation u allow = None)) \<and>
     (vf_urls flags \<longrightarrow> (\<forall>(n, e)\<in>set cs. \<forall>u. ie_url e = Some u \<longrightarrow> ie_enabled e \<longrightarrow>
        uc_reachable (check_url (vw_net w n) n u))) \<and>
     (vf_hashes flags \<longrightarrow> (\<forall>(n, e)\<in>set cs. \<forall>u. ie_url e = Some u \<longrightarrow> ie_enabled e \<longrightarrow>
        hc_matches (check_hash (vw_sha256 w) (vw_fetch w n) n u (normalized_pin e))))"
proof -
  have "passes w allow flags (n, e) \<longleftrightarrow> (\<forall>u. ie_url e = Some u \<longrightarrow>
      (vw_url_error w u = None \<and> (ie_enabled e \<longrightarrow> url_policy_violation u allow = None)) \<and>
      (vf_urls flags \<longrightarrow> ie_enabled e \<longrightarrow> uc_reachable (check_url (vw_net w n) n u)) \<and>
      (vf_hashes flags \<longrightarrow> ie_enabled e \<longrightarrow>
        hc_matches (check_hash (vw_sha256 w) (vw_fetch w n) n u (normalized_pin e))))" for n e
    by (cases "ie_url e") (auto simp: passes_def)
  then show ?thesis by (simp only: split_paired_Ball_Sigma split_paired_All Ball_def prod.case) blast
qed

section \<open>Properties\<close>


text \<open>
  the output format changes what is printed, never the verdict or what is kept. A JSON document
  and the summary line carry the exit code the process ends with.
\<close>

theorem formats_agree:
  assumes "cmd_validate w cfg given flags = Some out"
  shows "\<exists>out'. cmd_validate w cfg given (flags\<lparr>vf_format := f\<rparr>) = Some out' \<and> vo_result out' = vo_result out \<and>
      vo_report out' = vo_report out \<and>
      (vo_lines out' \<noteq> [] \<longrightarrow> f \<noteq> Human \<longrightarrow>
         (case last (vo_lines out') of
            ReportLine doc \<Rightarrow> f = Json \<and> vd_exit_code doc = snd (main_exit (vo_result out))
          | SummaryLine valid code \<Rightarrow> f \<noteq> Json \<and> code = snd (main_exit (vo_result out))
          | _ \<Rightarrow> False))"
proof (cases "vw_exists w \<and> (\<exists>cs. vw_checksums w = Inr cs)")
  case False
  with assms show ?thesis
    by (cases "vw_checksums w") (auto simp: cmd_validate_def refused_def Let_def split: if_splits)
next
  case True
  then obtain cs where cs: "vw_exists w" "vw_checksums w = Inr cs" by blast
  obtain r cross ds path where chk: "check_checkout w (vf_profile flags) cs
      (format_result w (gc_allow_file_urls (cf_general cfg)) cs) = Some (r, cross, ds)"
    and out: "out = validated w flags path cs (r, cross, ds)"
    and path: "path = unwrap_or given (Config.path_join (gc_acfs_repo (cf_general cfg)) ''checksums.yaml'')"
    using assms cs by (auto simp: cmd_validate_def Let_def)
  have "cmd_validate w cfg given (flags\<lparr>vf_format := f\<rparr>) = Some (validated w (flags\<lparr>vf_format := f\<rparr>) path cs (r, cross, ds))"
    using cs chk by (simp add: cmd_validate_def path)
  moreover have "vo_result (validated w (flags\<lparr>vf_format := f\<rparr>) path cs (r, cross, ds)) = vo_result out"
    "vo_report (validated w (flags\<lparr>vf_format := f\<rparr>) path cs (r, cross, ds)) = vo_report out"
    by (simp_all add: out validated_result validated_report broken_count_def mismatched_count_def)
  moreover have code: "snd (main_exit (validate_result r b m)) = validate_exit (vr_valid r) b m" for b m
    by (auto simp: validate_result_def validate_exit_def main_exit_def Let_def)
  have "f \<noteq> Human \<longrightarrow> (case last (vo_lines (validated w (flags\<lparr>vf_format := f\<rparr>) path cs (r, cross, ds))) of
        ReportLine doc \<Rightarrow> f = Json \<and> vd_exit_code doc = snd (main_exit (vo_result out))
      | SummaryLine valid code \<Rightarrow> f \<noteq> Json \<and> code = snd (main_exit (vo_result out))
      | _ \<Rightarrow> False)"
    by (cases f) (auto simp: out validated_result code validated_def final_lines_def broken_count_def
        mismatched_count_def Let_def)
  ultimately show ?thesis by blast
qed

lemma download_errors:
  assumes "strip_prefix u ''file://'' = None"
  shows "hc_error (check_hash sha a n u pin) = None \<longleftrightarrow> hc_matches (check_hash sha a n u pin)"
  using assms
  by (cases pin) (auto simp: check_hash_def hash_result_def pin_matches_def split: sum.split prod.split)

text \<open>
  what validation leaves for the metrics. The saved report counts every hash result once, as
  matched, mismatched or unreachable. But a script that was downloaded and does not have its pinned
  hash is filed as unreachable: without \<open>file://\<close> URLs the list of mismatches is always empty.
\<close>

theorem downloaded_drift_is_filed_as_unreachable:
  assumes "cmd_validate w cfg given flags = Some out" "vo_report out = Some rep" "vw_checksums w = Inr cs"
    and "\<And>n e u. (n, e) \<in> set cs \<Longrightarrow> ie_enabled e \<Longrightarrow> ie_url e = Some u \<Longrightarrow> strip_prefix u ''file://'' = None"
  shows "vp_matched rep + drift_total rep = vp_total rep \<and> vp_mismatched rep = [] \<and>
    (\<forall>n e u. (n, e) \<in> set cs \<longrightarrow> ie_enabled e \<longrightarrow> ie_url e = Some u \<longrightarrow>
       \<not> hc_matches (check_hash (vw_sha256 w) (vw_fetch w n) n u (normalized_pin e)) \<longrightarrow>
       n \<in> set (vp_unreachable rep))"
proof -
  let ?rs = "check_hashes (vw_sha256 w) (vw_fetch w) cs"
  obtain path where rep: "rep = report_of (vw_now w) path ?rs"
    using assms(1-3)
    by (auto simp: cmd_validate_def refused_def validated_report Let_def split: if_splits)
  have dl: "hc_error r = None \<longleftrightarrow> hc_matches r" if "r \<in> set ?rs" for r
    using that assms(4) by (auto simp: set_check_hashes download_errors)
  then have "filter (\<lambda>r. \<not> hc_matches r \<and> hc_error r = None) ?rs = []"
    "filter (\<lambda>r. \<not> hc_matches r \<and> hc_error r \<noteq> None) ?rs = filter (\<lambda>r. \<not> hc_matches r) ?rs"
    by (auto simp: filter_empty_conv cong: filter_cong simp del: not_None_eq)
  then have lists: "vp_mismatched rep = []" "vp_unreachable rep = map hc_name (filter (\<lambda>r. \<not> hc_matches r) ?rs)"
    "vp_total rep = length ?rs" "vp_matched rep = length (filter hc_matches ?rs)"
    by (simp_all add: rep report_of_def matched_count_def)
  have "hc_name (check_hash sha a n u pin) = n" for sha a n u pin
    by (auto simp: check_hash_def hash_result_def split: option.split sum.split prod.split)
  moreover have "check_hash (vw_sha256 w) (vw_fetch w n) n u (normalized_pin e) \<in> set ?rs"
    if "(n, e) \<in> set cs" "ie_enabled e" "ie_url e = Some u" for n e u
    using that unfolding set_check_hashes by blast
  ultimately have "n \<in> hc_name ` {r \<in> set ?rs. \<not> hc_matches r}"
    if "(n, e) \<in> set cs" "ie_enabled e" "ie_url e = Some u"
      "\<not> hc_matches (check_hash (vw_sha256 w) (vw_fetch w n) n u (normalized_pin e))" for n e u
    using that by (metis (mono_tags, lifting) image_eqI mem_Collect_eq)
  then show ?thesis
    using lists sum_length_filter_compl [of hc_matches ?rs] by (auto simp: drift_total_def)
qed

text \<open>
  a file that validates is not refused by the check command: under the same setting of
  \<open>allow_file_urls\<close>, no selection of installers violates the URL policy there.
\<close>

theorem validated_files_pass_the_policy:
  assumes "cmd_validate w cfg given flags = Some out" "vo_result out = Inr ()" "vw_checksums w = Inr cs"
    and "well_formed cs" "cw_exists cw" "cw_checksums cw = Inr cs"
    and "requested_installers (cw_history cw) opts = Inr (Requested req)"
  shows "cmd_check cw cfg opts = run_specs cw opts (check_specs cfg opts req (cw_manifest cw)
      (case cw_history cw of Inr h \<Rightarrow> h | Inl _ \<Rightarrow> []) cs)"
proof -
  let ?allow = "gc_allow_file_urls (cf_general cfg)"
  obtain r cross ds path where chk: "check_checkout w (vf_profile flags) cs (format_result w ?allow cs) = Some (r, cross, ds)"
    and out: "out = validated w flags path cs (r, cross, ds)"
    using assms(1-3) by (auto simp: cmd_validate_def refused_def Let_def split: if_splits)
  have "vr_valid r" using assms(2) by (simp add: out validated_result validate_result_ok)
  then have valid: "vr_valid (format_result w ?allow cs)" by (simp add: check_checkout_valid [OF chk])
  have "validate_url_policy cs ?allow = []"
    using valid fold_add_error [of "\<lambda>e. e" "validate_url_policy cs ?allow" "validate_checksums (vw_url_error w) cs False"]
    by (simp add: format_result_def)
  then have "policy_errors req cs ?allow = []" by (simp add: policy_errors_def)
  with assms(5-7) show ?thesis by (simp add: cmd_check_def)
qed

section \<open>Sample input\<close>

definition sample_pin :: checksums_file where
  "sample_pin = [(''uv'', sample_entry\<lparr>ie_sha256 := Some ''aa''\<rparr>)]"

definition sample_validate_world :: "string \<Rightarrow> validate_world" where
  \<comment> \<open>the pinned script is served with the given hash\<close>
  "sample_validate_world h =
     \<lparr>vw_exists = True, vw_checksums = Inr sample_pin, vw_url_error = \<lambda>_. None, vw_rx = literal_rx,
      vw_is_acfs = False, vw_tree = sample_tree,
      vw_net = \<lambda>_. \<lparr>ua_head = Inr 200, ua_ranged_get = Inr 200, ua_elapsed_ms = 1\<rparr>,
      vw_fetch = \<lambda>_. \<lparr>fa_file = \<lambda>_. Inl ''no file'', fa_get = \<lambda>_. Inr (200, Inr ''script''), fa_elapsed_ms = 1\<rparr>,
      vw_sha256 = \<lambda>_. h, vw_now = 0\<rparr>"

definition sample_flags :: validate_flags where
  "sample_flags = \<lparr>vf_urls = True, vf_hashes = True, vf_profile = True, vf_format = Human\<rparr>"

lemma sample_pin_ok:
  "well_formed sample_pin" "to_lower (trim ''aa'') = ''aa''" "url_policy_violation ''https://x'' b = None"
  "strip_prefix ''https://x'' ''file://'' = None"
proof -
  show "well_formed sample_pin" by (simp add: sample_pin_def well_formed_def)
  show "to_lower (trim ''aa'') = ''aa''" "strip_prefix ''https://x'' ''file://'' = None" by code_simp+
  have "prefix ''https://'' (to_lower (trim ''https://x''))" by code_simp
  then show "url_policy_violation ''https://x'' b = None" by (simp add: url_policy_violation_def)
qed

lemma sample_hash:
  "hc_matches (check_hash (\<lambda>_. h) \<lparr>fa_file = f, fa_get = \<lambda>_. Inr (200, Inr ''script''), fa_elapsed_ms = 1\<rparr> ''uv''
     ''https://x'' (Some ''aa'')) \<longleftrightarrow> h = ''aa''"
  by (auto simp: check_hash_matches sample_pin_ok)

lemma sample_passes:
  "passes (sample_validate_world h) b sample_flags (''uv'', sample_entry\<lparr>ie_sha256 := Some ''aa''\<rparr>) \<longleftrightarrow> h = ''aa''"
  by (simp add: passes_def sample_validate_world_def sample_flags_def sample_entry_def sample_pin_ok
      normalized_pin_def check_url_reachable head_response_def sample_hash)

lemma sample_validated: "\<exists>out. cmd_validate (sample_validate_world h) cfg None sample_flags = Some out"
  by (simp add: cmd_validate_def check_checkout_def sample_validate_world_def Let_def)

lemma sample_validated_ok:
  "\<exists>out. cmd_validate (sample_validate_world ''aa'') default_config None sample_flags = Some out \<and> vo_result out = Inr ()"
proof -
  let ?w = "sample_validate_world ''aa''"
  have "\<forall>ne\<in>set sample_pin. passes ?w False sample_flags ne"
    by (simp add: sample_pin_def sample_passes)
  then have pass: "vr_valid (format_result ?w False sample_pin)" "broken_count ?w sample_flags sample_pin r = 0"
    "mismatched_count ?w sample_flags sample_pin r = 0" for r
    unfolding all_pass format_result_valid [OF sample_pin_ok(1)] broken_none mismatched_none by blast+
  obtain r where "check_checkout ?w True sample_pin (format_result ?w False sample_pin) = Some (r, None, [])" "vr_valid r"
    using pass(1) by (auto simp: check_checkout_def sample_validate_world_def add_warning_def)
  moreover have "vw_exists ?w" "vw_checksums ?w = Inr sample_pin" "vf_profile sample_flags"
    "\<not> gc_allow_file_urls (cf_general default_config)"
    by (simp_all add: sample_validate_world_def sample_flags_def default_config_def default_general_config_def)
  ultimately show ?thesis
    by (simp add: cmd_validate_def validated_result validate_result_ok pass(2,3))
qed


theorem formats_agree_witness:
  "\<exists>out out'. cmd_validate (sample_validate_world ''aa'') default_config None sample_flags = Some out \<and>
     cmd_validate (sample_validate_world ''aa'') default_config None (sample_flags\<lparr>vf_format := Json\<rparr>) = Some out' \<and>
     vo_result out' = vo_result out"
  using sample_validated [of "''aa''" default_config] formats_agree [of "sample_validate_world ''aa''" default_config None sample_flags _ Json]
  by blast

theorem downloaded_drift_is_filed_as_unreachable_witness:
  "\<exists>out rep. cmd_validate (sample_validate_world ''bb'') default_config None sample_flags = Some out \<and>
     vo_report out = Some rep \<and> vp_mismatched rep = [] \<and> ''uv'' \<in> set (vp_unreachable rep)"
proof -
  let ?w = "sample_validate_world ''bb''"
  obtain r where "check_checkout ?w True sample_pin (format_result ?w False sample_pin) = Some (r, None, [])" "vr_valid r"
    using format_result_valid [OF sample_pin_ok(1), of ?w False]
    by (auto simp: check_checkout_def sample_validate_world_def add_warning_def sample_pin_def sample_pin_ok sample_entry_def)
  then obtain out rep where out: "cmd_validate ?w default_config None sample_flags = Some out" "vo_report out = Some rep"
    by (auto simp: cmd_validate_def validated_report sample_flags_def Let_def default_config_def
        default_general_config_def sample_validate_world_def)
  have "ie_url e = Some u \<Longrightarrow> strip_prefix u ''file://'' = None" if "(n, e) \<in> set sample_pin" for n e u
    using that by (auto simp: sample_pin_def sample_entry_def sample_pin_ok)
  moreover have "vw_checksums ?w = Inr sample_pin" by (simp add: sample_validate_world_def)
  moreover have "(''uv'', sample_entry\<lparr>ie_sha256 := Some ''aa''\<rparr>) \<in> set sample_pin" by (simp add: sample_pin_def)
  ultimately have "vp_mismatched rep = [] \<and> ''uv'' \<in> set (vp_unreachable rep)"
    using downloaded_drift_is_filed_as_unreachable [OF out, of sample_pin] sample_hash [of "''bb''"]
    by (force simp: sample_validate_world_def normalized_pin_def sample_pin_ok sample_entry_def)
  with out show ?thesis by blast
qed

theorem validated_files_pass_the_policy_witness:
  "cmd_check (sample_check_world\<lparr>cw_checksums := Inr sample_pin\<rparr>) default_config (sample_options\<lparr>op_dry_run := True\<rparr>) =
     (Some (Planned (check_specs default_config (sample_options\<lparr>op_dry_run := True\<rparr>) [] [] [] sample_pin)), Inr ())"
proof -
  obtain out where out: "cmd_validate (sample_validate_world ''aa'') default_config None sample_flags = Some out" "vo_result out = Inr ()"
    using sample_validated_ok by auto
  have "requested_installers (Inr []) (sample_options\<lparr>op_dry_run := True\<rparr>) = Inr (Requested [])"
    by (simp add: requested_installers_def sample_options_def)
  then show ?thesis
    using validated_files_pass_the_policy [OF out _ sample_pin_ok(1), of "sample_check_world\<lparr>cw_checksums := Inr sample_pin\<rparr>"
        "sample_options\<lparr>op_dry_run := True\<rparr>" "[]"]
    by (simp add: sample_validate_world_def sample_check_world_def run_specs_def)
qed

end
