(* ===== verification/Watchdog.thy ===== *)
theory Watchdog
  imports Check
begin

text \<open>
  The systemd watchdog (\<^verbatim>\<open>src/watchdog.rs\<close>) and the frame of the program that drives it (\<^verbatim>\<open>real_main\<close>
  in \<^verbatim>\<open>src/main.rs\<close>). The ping task and the program run side by side: a step relation with a clock,
  in nanoseconds since the task was started.
\<close>

section \<open>Settings\<close>

record watchdog =
  wd_enabled :: bool
  wd_interval :: duration
  wd_log_pings :: bool
  wd_socket_path :: "string option"

definition watchdog_usec :: "(string \<Rightarrow> string option) \<Rightarrow> nat option" where
  "watchdog_usec env = Option.bind (env ''WATCHDOG_USEC'') (parse_unsigned 64)"

definition watchdog_new :: "(string \<Rightarrow> string option) \<Rightarrow> watchdog" where
  "watchdog_new env =
     (let usec = watchdog_usec env; socket = env ''NOTIFY_SOCKET''
      in \<lparr>wd_enabled = (usec \<noteq> None \<and> socket \<noteq> None),
          wd_interval = (case usec of Some u \<Rightarrow> (u div 2) * 1000 | None \<Rightarrow> 120 * ns_per_sec),
          wd_log_pings = False, wd_socket_path = socket\<rparr>)"

definition with_config :: "watchdog_config \<Rightarrow> watchdog \<Rightarrow> watchdog" where
  "with_config c w =
     (if wd_enabled w then w else w\<lparr>wd_interval := from_secs (wg_default_interval_seconds c)\<rparr>)
       \<lparr>wd_log_pings := wg_log_pings c\<rparr>"

text \<open>A notification: where it goes and what it says. A send that fails is only logged.\<close>

definition notify_socket :: "string \<Rightarrow> watchdog \<Rightarrow> (string \<times> string) list" where
  "notify_socket message w = (case wd_socket_path w of Some p \<Rightarrow> [(p, message)] | None \<Rightarrow> [])"

definition ping :: "watchdog \<Rightarrow> (string \<times> string) list" where "ping = notify_socket ''WATCHDOG=1''"
definition notify_ready :: "watchdog \<Rightarrow> (string \<times> string) list" where "notify_ready = notify_socket ''READY=1''"
definition notify_stopping :: "watchdog \<Rightarrow> (string \<times> string) list" where
  "notify_stopping = notify_socket ''STOPPING=1''"
definition notify_reloading :: "watchdog \<Rightarrow> (string \<times> string) list" where
  "notify_reloading = notify_socket ''RELOADING=1''"
definition notify_status :: "string \<Rightarrow> watchdog \<Rightarrow> (string \<times> string) list" where
  "notify_status s = notify_socket (''STATUS='' @ s)"
definition notify_extend_timeout :: "u64 \<Rightarrow> watchdog \<Rightarrow> (string \<times> string) list" where
  "notify_extend_timeout us = notify_socket (''EXTEND_TIMEOUT_USEC='' @ show_nat (unat us))"

text \<open>What starting gives: no task, a task that panics at once (\<open>interval\<close> refuses the period zero), or one that runs.\<close>

datatype ping_task = NoTask | Panicking | Pinging

definition watchdog_start :: "watchdog \<Rightarrow> ping_task" where
  "watchdog_start w = (if \<not> wd_enabled w then NoTask else if wd_interval w = 0 then Panicking else Pinging)"

section \<open>The program around a command\<close>

definition command_status :: "cli \<Rightarrow> string option" where
  "command_status c =
     (if (cm_format c = Prometheus \<or> cm_format c = Markdown) \<and>
         (case cm_command c of StatusCmd _ \<Rightarrow> False | _ \<Rightarrow> True) then None
      else case cm_command c of
        CheckCmd a \<Rightarrow> if ca_reap a then None else Some ''Running installer checks''
      | ServeCmd hp mp \<Rightarrow> Some ''Serving monitoring endpoints''
      | _ \<Rightarrow> None)"

definition watchdog_of :: "(string \<Rightarrow> string option) \<Rightarrow> cli \<Rightarrow> config \<Rightarrow> watchdog option" where
  "watchdog_of env c cfg = (if cm_watchdog c then Some (with_config (cf_watchdog cfg) (watchdog_new env)) else None)"

definition real_main ::
  "(string \<Rightarrow> string option) \<Rightarrow> cli \<Rightarrow> anyhow + config \<Rightarrow> (config \<Rightarrow> afsc_error + unit)
    \<Rightarrow> (string \<times> string) list \<times> (afsc_error + unit)" where
  \<comment> \<open>what it sends besides pings, and its result; \<open>run\<close> is \<open>run_command\<close>\<close>
  "real_main env c settings run =
     (case settings of
        Inl e \<Rightarrow> ([], Inl (ConfigError (err_chain e)))
      | Inr cfg \<Rightarrow>
          ((case watchdog_of env c cfg of
              None \<Rightarrow> []
            | Some w \<Rightarrow> notify_ready w @
                (case command_status c of Some s \<Rightarrow> notify_status s w | None \<Rightarrow> []) @ notify_stopping w),
           run cfg))"

section \<open>Pings and the program, interleaved\<close>

datatype main_phase = Starting | Running | Working | Stopping | Stopped

record service =
  sr_now :: nat
  sr_pings :: "nat list" \<comment> \<open>when pings were sent, newest first\<close>
  sr_sent :: "(string \<times> string) list" \<comment> \<open>the other notifications, in order\<close>
  sr_phase :: main_phase
  sr_ticker :: bool \<comment> \<open>the ping task runs\<close>
  sr_shutdown :: bool

definition service_start :: "watchdog \<Rightarrow> service" where
  "service_start w =
     \<lparr>sr_now = 0, sr_pings = [], sr_sent = [], sr_phase = Starting, sr_ticker = (watchdog_start w = Pinging),
      sr_shutdown = False\<rparr>"

text \<open>
  The \<open>n\<close>-th tick is due at \<open>n\<close> periods after the start, whatever happened to the earlier ones
  (tokio's default); \<open>lag\<close> is how late the runtime may serve a tick that is due.
\<close>

definition due :: "watchdog \<Rightarrow> service \<Rightarrow> nat" where
  "due w s = length (sr_pings s) * wd_interval w"

inductive service_step :: "watchdog \<Rightarrow> cli \<Rightarrow> nat \<Rightarrow> service \<Rightarrow> service \<Rightarrow> bool"
  for w :: watchdog and c :: cli and lag :: nat
where
  pass: "(sr_ticker s \<Longrightarrow> sr_now s + d \<le> due w s + lag) \<Longrightarrow>
    service_step w c lag s (s\<lparr>sr_now := sr_now s + d\<rparr>)"
| tick: "sr_ticker s \<Longrightarrow> due w s \<le> sr_now s \<Longrightarrow> \<not> sr_shutdown s \<Longrightarrow>
    service_step w c lag s (s\<lparr>sr_pings := sr_now s # sr_pings s\<rparr>)"
| quit: "sr_ticker s \<Longrightarrow> due w s \<le> sr_now s \<Longrightarrow> sr_shutdown s \<Longrightarrow>
    service_step w c lag s (s\<lparr>sr_ticker := False\<rparr>)"
| ready: "sr_phase s = Starting \<Longrightarrow>
    service_step w c lag s (s\<lparr>sr_phase := Running, sr_sent := sr_sent s @ notify_ready w\<rparr>)"
| status: "sr_phase s = Running \<Longrightarrow>
    service_step w c lag s (s\<lparr>sr_phase := Working, sr_sent := sr_sent s @
      (case command_status c of Some t \<Rightarrow> notify_status t w | None \<Rightarrow> [])\<rparr>)"
| stopping: "sr_phase s = Working \<Longrightarrow>
    service_step w c lag s (s\<lparr>sr_phase := Stopping, sr_sent := sr_sent s @ notify_stopping w\<rparr>)"
| stop: "sr_phase s = Stopping \<Longrightarrow>
    service_step w c lag s (s\<lparr>sr_phase := Stopped, sr_shutdown := True\<rparr>)"

inductive_cases service_stepE: "service_step w c lag s s'"

definition service_reachable :: "watchdog \<Rightarrow> cli \<Rightarrow> nat \<Rightarrow> service \<Rightarrow> bool" where
  "service_reachable w c lag s \<longleftrightarrow> (service_step w c lag)\<^sup>*\<^sup>* (service_start w) s"

lemma service_invariant [consumes 1, case_names start step]:
  assumes "service_reachable w c lag s" "P (service_start w)"
    and "\<And>s s'. service_reachable w c lag s \<Longrightarrow> P s \<Longrightarrow> service_step w c lag s s' \<Longrightarrow> P s'"
  shows "P s"
  using assms(1) unfolding service_reachable_def
proof (induction rule: rtranclp_induct)
  case base
  show ?case by (rule assms(2))
next
  case (step s s')
  from step.hyps(1) have "service_reachable w c lag s" by (simp add: service_reachable_def)
  from assms(3) [OF this step.IH step.hyps(2)] show ?case .
qed

section \<open>Timely pings\<close>

definition on_time :: "watchdog \<Rightarrow> nat \<Rightarrow> service \<Rightarrow> bool" where
  "on_time w lag s \<longleftrightarrow>
     (\<forall>i<length (sr_pings s). i * wd_interval w \<le> rev (sr_pings s) ! i \<and>
        rev (sr_pings s) ! i \<le> i * wd_interval w + lag \<and> rev (sr_pings s) ! i \<le> sr_now s) \<and>
     (sr_ticker s \<longrightarrow> sr_now s \<le> due w s + lag) \<and>
     (\<not> sr_shutdown s \<longrightarrow> sr_ticker s = (watchdog_start w = Pinging))"

lemma on_time_start: "on_time w lag (service_start w)"
  by (simp add: on_time_def service_start_def)

lemma on_time_step:
  assumes "on_time w lag s" "service_step w c lag s s'"
  shows "on_time w lag s'"
  using assms(2,1)
proof cases
  case (tick)
  with assms(1) show ?thesis
    by (auto simp: on_time_def due_def nth_append less_Suc_eq)
qed (auto simp: on_time_def due_def intro: le_trans)

lemma reachable_on_time: "service_reachable w c lag s \<Longrightarrow> on_time w lag s"
  by (induction rule: service_invariant) (auto intro: on_time_start on_time_step)

lemma watchdog_of_env:
  assumes "watchdog_usec env = Some u" "env ''NOTIFY_SOCKET'' = Some p"
  shows "wd_interval (with_config cfg (watchdog_new env)) = (u div 2) * 1000"
    "wd_socket_path (with_config cfg (watchdog_new env)) = Some p"
    "watchdog_start (with_config cfg (watchdog_new env)) = (if u < 2 then Panicking else Pinging)"
  using assms by (auto simp: with_config_def watchdog_new_def watchdog_start_def)

text \<open>
  C21: the watchdog is fed in time. When systemd asks for a sign of life every \<open>u\<close> microseconds
  and the runtime serves a tick at most half of that late, two pings are never further apart than
  \<open>u\<close>, and until the program stops the last one is never older, whatever the command does meanwhile.
\<close>

theorem watchdog_is_fed:
  assumes "watchdog_usec env = Some u" "env ''NOTIFY_SOCKET'' = Some p" "2 \<le> u"
    and "service_reachable (with_config cfg (watchdog_new env)) c lag s" "lag \<le> (u div 2) * 1000"
  shows "(\<forall>i. Suc i < length (sr_pings s) \<longrightarrow> sr_pings s ! i \<le> sr_pings s ! Suc i + u * 1000) \<and>
    (\<not> sr_shutdown s \<longrightarrow> sr_now s \<le> (case sr_pings s of [] \<Rightarrow> 0 | t # _ \<Rightarrow> t) + u * 1000)"
proof -
  let ?w = "with_config cfg (watchdog_new env)" and ?ts = "sr_pings s"
  note w = watchdog_of_env [OF assms(1,2), of cfg]
  have ot: "on_time ?w lag s" by (rule reachable_on_time [OF assms(4)])
  have u: "(u div 2) * 1000 + lag \<le> u * 1000" using assms(5) by linarith
  have at_i: "(length ?ts - Suc i) * wd_interval ?w \<le> ?ts ! i \<and> ?ts ! i \<le> (length ?ts - Suc i) * wd_interval ?w + lag"
    if "i < length ?ts" for i
    using ot that unfolding on_time_def
    by (metis (no_types, lifting) diff_less length_rev rev_nth rev_rev_ident zero_less_Suc zero_less_iff_neq_zero
        length_0_conv less_nat_zero_code list.size(3))
  have "?ts ! i \<le> ?ts ! Suc i + u * 1000" if i: "Suc i < length ?ts" for i
  proof -
    have "length ?ts - Suc i = Suc (length ?ts - Suc (Suc i))" using i by simp
    then have "(length ?ts - Suc i) * wd_interval ?w = (length ?ts - Suc (Suc i)) * wd_interval ?w + (u div 2) * 1000"
      by (simp add: w)
    with at_i [of i] at_i [of "Suc i"] i u show ?thesis by linarith
  qed
  moreover have "sr_now s \<le> (case ?ts of [] \<Rightarrow> 0 | t # _ \<Rightarrow> t) + u * 1000" if "\<not> sr_shutdown s"
  proof (cases ?ts)
    case Nil
    with ot that w assms(3) u show ?thesis by (auto simp: on_time_def due_def)
  next
    case (Cons t ts)
    then have "sr_now s \<le> length ts * wd_interval ?w + wd_interval ?w + lag" "length ts * wd_interval ?w \<le> t"
      using ot that w assms(3) at_i [of 0] by (auto simp: on_time_def due_def)
    with Cons u w(1) show ?thesis by simp
  qed
  ultimately show ?thesis by blast
qed

definition announced :: "watchdog \<Rightarrow> cli \<Rightarrow> (string \<times> string) list" where
  "announced w c = (case command_status c of Some t \<Rightarrow> notify_status t w | None \<Rightarrow> [])"

lemma sent_by_phase:
  assumes "service_reachable w c lag s"
  shows "sr_shutdown s = (sr_phase s = Stopped) \<and> sr_sent s =
     (case sr_phase s of Starting \<Rightarrow> [] | Running \<Rightarrow> notify_ready w | Working \<Rightarrow> notify_ready w @ announced w c
      | _ \<Rightarrow> notify_ready w @ announced w c @ notify_stopping w)"
  using assms
proof (induction rule: service_invariant)
  case start
  show ?case by (simp add: service_start_def)
next
  case (step s s')
  from step(3,2) show ?case by (elim service_stepE) (simp_all add: announced_def)
qed

text \<open>
  what systemd is told, in which order. Side by side with the pings, the program announces that
  it is ready, what it does and that it stops, in the order of its code; once it has stopped no
  ping follows, and the ping task ends within a period.
\<close>

theorem notifications_in_order:
  assumes "watchdog_of env c cfg = Some w" "service_reachable w c lag s"
  shows "prefix (sr_sent s) (fst (real_main env c (Inr cfg) run)) \<and>
    (sr_phase s = Stopped \<longrightarrow> sr_sent s = fst (real_main env c (Inr cfg) run) \<and>
       (\<forall>s'. service_step w c lag s s' \<longrightarrow> sr_pings s' = sr_pings s \<and> sr_sent s' = sr_sent s) \<and>
       (sr_ticker s \<longrightarrow> sr_now s \<le> due w s + lag))"
proof -
  have sent: "fst (real_main env c (Inr cfg) run) = notify_ready w @ announced w c @ notify_stopping w"
    by (simp add: real_main_def assms(1) announced_def)
  have "prefix (sr_sent s) (notify_ready w @ announced w c @ notify_stopping w)"
    using sent_by_phase [OF assms(2)] by (cases "sr_phase s") (auto simp: prefix_def)
  moreover have "sr_pings s' = sr_pings s \<and> sr_sent s' = sr_sent s"
    if "sr_phase s = Stopped" "service_step w c lag s s'" for s'
    using that(2,1) sent_by_phase [OF assms(2)] by cases auto
  moreover have "sr_ticker s \<Longrightarrow> sr_now s \<le> due w s + lag"
    using reachable_on_time [OF assms(2)] by (simp add: on_time_def)
  ultimately show ?thesis using sent_by_phase [OF assms(2)] unfolding sent by auto
qed

text \<open>
  A watchdog of less than two microseconds is taken for enabled, but its task dies at once: the
  period is zero, and no ping is ever sent.
\<close>

theorem short_watchdog_never_pings:
  assumes "watchdog_usec env = Some u" "env ''NOTIFY_SOCKET'' = Some p" "u < 2"
    and "service_reachable (with_config cfg (watchdog_new env)) c lag s"
  shows "wd_enabled (with_config cfg (watchdog_new env)) \<and> \<not> sr_ticker s \<and> sr_pings s = []"
proof -
  have "wd_enabled (with_config cfg (watchdog_new env))"
    using assms(1,2) by (simp add: with_config_def watchdog_new_def)
  moreover have "\<not> sr_ticker s \<and> sr_pings s = []"
    using assms(4)
  proof (induction rule: service_invariant)
    case start
    show ?case using watchdog_of_env(3) [OF assms(1,2), of cfg] assms(3) by (simp add: service_start_def)
  next
    case (step s s')
    from step(3,2) show ?case by (elim service_stepE) simp_all
  qed
  ultimately show ?thesis by blast
qed

section \<open>Sample input\<close>

definition sample_systemd :: "string \<Rightarrow> string option" where
  "sample_systemd = [''WATCHDOG_USEC'' \<mapsto> ''4'', ''NOTIFY_SOCKET'' \<mapsto> ''/run/s'']"

definition sample_serve :: cli where
  "sample_serve =
     \<lparr>cm_command = ServeCmd None None, cm_format = Human, cm_quiet = False, cm_acfs_repo = None,
      cm_data_dir = None, cm_image = None, cm_allow_file_urls = False, cm_watchdog = True\<rparr>"

lemma sample_usec: "watchdog_usec sample_systemd = Some 4" "sample_systemd ''NOTIFY_SOCKET'' = Some ''/run/s''"
proof -
  have "show_nat 4 = ''4''" by code_simp
  then have "parse_unsigned 64 ''4'' = Some 4" using parse_unsigned_show_nat [of 4 64] by simp
  then show "watchdog_usec sample_systemd = Some 4" "sample_systemd ''NOTIFY_SOCKET'' = Some ''/run/s''"
    by (simp_all add: watchdog_usec_def sample_systemd_def)
qed

theorem watchdog_is_fed_witness:
  "\<exists>s. service_reachable (with_config default_watchdog_config (watchdog_new sample_systemd)) sample_serve 500 s \<and>
     sr_pings s = [2300, 0] \<and> sr_now s \<le> 2300 + 4 * 1000"
proof -
  let ?w = "with_config default_watchdog_config (watchdog_new sample_systemd)" and ?R = "service_step"
  note w = watchdog_of_env [OF sample_usec, of default_watchdog_config]
  let ?s0 = "service_start ?w"
  let ?s1 = "?s0\<lparr>sr_pings := [0]\<rparr>"
  let ?s2 = "?s1\<lparr>sr_now := 2300\<rparr>"
  let ?s3 = "?s2\<lparr>sr_pings := [2300, 0]\<rparr>"
  have 1: "?R ?w sample_serve 500 ?s0 ?s1"
    using service_step.tick [of ?s0 ?w sample_serve 500] by (simp add: service_start_def w due_def)
  have 2: "?R ?w sample_serve 500 ?s1 ?s2"
    using service_step.pass [of ?s1 2300 ?w 500 sample_serve] by (simp add: service_start_def w due_def)
  have 3: "?R ?w sample_serve 500 ?s2 ?s3"
    using service_step.tick [of ?s2 ?w sample_serve 500] by (simp add: service_start_def w due_def)
  from 1 2 3 have r: "service_reachable ?w sample_serve 500 ?s3"
    unfolding service_reachable_def by (meson converse_rtranclp_into_rtranclp rtranclp.rtrancl_refl)
  have "sr_now ?s3 \<le> 2300 + 4 * 1000"
    using watchdog_is_fed [OF sample_usec _ r] by (simp add: service_start_def)
  with r show ?thesis by (intro exI [of _ ?s3]) simp
qed

theorem notifications_in_order_witness:
  "\<exists>w s. watchdog_of sample_systemd sample_serve default_config = Some w \<and> service_reachable w sample_serve 0 s \<and>
     sr_sent s = [(''/run/s'', ''READY=1'')] \<and>
     prefix (sr_sent s) (fst (real_main sample_systemd sample_serve (Inr default_config) (\<lambda>_. Inr ())))"
proof -
  obtain w where w: "watchdog_of sample_systemd sample_serve default_config = Some w"
    "w = with_config (cf_watchdog default_config) (watchdog_new sample_systemd)"
    by (simp add: watchdog_of_def sample_serve_def)
  have "service_step w sample_serve 0 (service_start w)
      ((service_start w)\<lparr>sr_phase := Running, sr_sent := sr_sent (service_start w) @ notify_ready w\<rparr>)"
    by (rule service_step.ready) (simp add: service_start_def)
  then obtain s where s: "service_reachable w sample_serve 0 s" "sr_sent s = notify_ready w"
    unfolding service_reachable_def
    by (metis (no_types, lifting) append_Nil r_into_rtranclp select_convs(3) service.surjective service_start_def
        service.select_convs(3) service.update_convs(3) service.update_convs(4))
  have "notify_ready w = [(''/run/s'', ''READY=1'')]"
    using watchdog_of_env(2) [OF sample_usec, of "cf_watchdog default_config"]
    by (simp add: notify_ready_def notify_socket_def w(2))
  with s w(1) notifications_in_order [OF w(1) s(1), of "\<lambda>_. Inr ()"] show ?thesis by auto
qed

end
