(* ===== verification/Server.thy ===== *)
theory Server
  imports Check Metrics
begin

text \<open>
  The monitoring server (\<^verbatim>\<open>src/server.rs\<close>): its settings, its two endpoints, and the accept loop.
  Every request is answered from the data directory as it is then. Reading the directory, the text
  of a JSON document and parsing an IP address are parameters; hyper's parsing of a request is too.
\<close>

section \<open>Settings\<close>

record server_config =
  sc_health_enabled :: bool
  sc_metrics_enabled :: bool
  sc_bind :: string \<comment> \<open>the address, as a socket address writes it\<close>
  sc_listen_port :: u16
  sc_stale_after_seconds :: u64
  sc_stale_status_code :: u16

definition server_from_config ::
  "(string \<Rightarrow> string + string) \<Rightarrow> monitoring_config \<Rightarrow> u16 option \<Rightarrow> u16 option \<Rightarrow> anyhow + server_config" where
  "server_from_config parse_ip m health_port metrics_port =
     (if \<not> mo_health_endpoint m \<and> \<not> mo_metrics_enabled m
      then Inl [''monitoring endpoints are disabled in config; enable [monitoring].health_endpoint and/or [monitoring].metrics_enabled'']
      else
        let configured = (if mo_health_endpoint m then mo_health_port m else mo_metrics_port m);
            port = unwrap_or (opt_or health_port metrics_port) configured
        in case parse_ip (trim (mo_bind m)) of
             Inl e \<Rightarrow> Inl [''[monitoring].bind '' @ debug_str (mo_bind m) @ '' is not an IP address'', e]
           | Inr ip \<Rightarrow>
               Inr \<lparr>sc_health_enabled = mo_health_endpoint m, sc_metrics_enabled = mo_metrics_enabled m,
                    sc_bind = ip, sc_listen_port = port, sc_stale_after_seconds = mo_stale_after_seconds m,
                    sc_stale_status_code = mo_stale_status_code m\<rparr>)"

section \<open>Responses\<close>

record response =
  rs_status :: nat
  rs_content_type :: string
  rs_cache_control :: string
  rs_content_length :: nat
  rs_body :: string

definition JSON_CONTENT_TYPE :: string where "JSON_CONTENT_TYPE = ''application/json''"
definition TEXT_CONTENT_TYPE :: string where "TEXT_CONTENT_TYPE = ''text/plain; charset=utf-8''"
definition PROMETHEUS_CONTENT_TYPE :: string where
  "PROMETHEUS_CONTENT_TYPE = ''text/plain; version=0.0.4; charset=utf-8''"

definition response_of :: "nat \<Rightarrow> string \<Rightarrow> string \<Rightarrow> response" where
  "response_of status content_type body =
     \<lparr>rs_status = status, rs_content_type = content_type, rs_cache_control = ''no-store'',
      rs_content_length = length body, rs_body = body\<rparr>"

record health_doc =
  hd_status :: string
  hd_last_run_id :: "string option"
  hd_last_run :: "instant option"
  hd_last_run_age_seconds :: "int option"
  hd_last_run_interrupted :: bool
  hd_stale_after_seconds :: u64
  hd_last_success :: "instant option"
  hd_last_failure :: "instant option"
  hd_runs_24h :: nat
  hd_total_tests_24h :: nat
  hd_successful_tests_24h :: nat
  hd_failed_tests_24h :: nat
  hd_success_rate_24h :: rat
  hd_total_remediations_24h :: nat
  hd_remediations_verified_24h :: nat
  hd_remediations_cost_usd_24h :: rat
  hd_checksum_drift_total :: "nat option"
  hd_validated_at :: "instant option"
  hd_computed_at :: instant

definition health_json :: "metrics_report \<Rightarrow> health_doc" where
  "health_json r =
     \<lparr>hd_status = health_state_str (mr_health r), hd_last_run_id = mr_last_run_id r,
      hd_last_run = mr_last_run_at r, hd_last_run_age_seconds = mr_last_run_age_seconds r,
      hd_last_run_interrupted = mr_last_run_interrupted r,
      hd_stale_after_seconds = mr_stale_after_seconds r, hd_last_success = mr_last_success r,
      hd_last_failure = mr_last_failure r, hd_runs_24h = mr_runs_24h r,
      hd_total_tests_24h = mr_total_tests_24h r,
      hd_successful_tests_24h = mr_successful_tests_24h r, hd_failed_tests_24h = mr_failed_tests_24h r,
      hd_success_rate_24h = mr_success_rate_24h r,
      hd_total_remediations_24h = mr_total_remediations_24h r,
      hd_remediations_verified_24h = mr_remediations_verified_24h r,
      hd_remediations_cost_usd_24h = mr_remediations_cost_usd_24h r,
      hd_checksum_drift_total = mr_checksum_drift_total r, hd_validated_at = mr_validated_at r,
      hd_computed_at = mr_computed_at r\<rparr>"

datatype json_body = HealthBody health_doc | ErrorBody string

text \<open>What a request meets: the data directory and the clock, and how values are written.\<close>

record server_world =
  sw_F :: f64_ops
  sw_history :: "anyhow + history"
  sw_validation :: "validation_report option"
  sw_snapshot :: "metrics_snapshot option"
  sw_now :: instant
  sw_json :: "json_body \<Rightarrow> string"
  sw_float :: "rat \<Rightarrow> string"

definition server_compute :: "server_world \<Rightarrow> server_config \<Rightarrow> anyhow + metrics_report" where
  "server_compute w c =
     from_data_dir (sw_F w) (sw_history w) (sw_validation w) (sw_snapshot w) (sw_now w) (sc_stale_after_seconds c)"

definition status_from_u16 :: "u16 \<Rightarrow> nat option" where
  \<comment> \<open>\<open>StatusCode::from_u16\<close>: three digits\<close>
  "status_from_u16 code = (if 100 \<le> unat code \<and> unat code < 1000 then Some (unat code) else None)"

definition health_status :: "metrics_report \<Rightarrow> u16 \<Rightarrow> nat" where
  "health_status r stale_code =
     (case mr_health r of Stale \<Rightarrow> unwrap_or (status_from_u16 stale_code) 503 | _ \<Rightarrow> 200)"

definition health_response :: "server_world \<Rightarrow> server_config \<Rightarrow> response" where
  "health_response w c =
     (case server_compute w c of
        Inr r \<Rightarrow> response_of (health_status r (sc_stale_status_code c)) JSON_CONTENT_TYPE
          (sw_json w (HealthBody (health_json r)))
      | Inl e \<Rightarrow> response_of 500 JSON_CONTENT_TYPE (sw_json w (ErrorBody (err_msg e))))"

definition metrics_response :: "server_world \<Rightarrow> server_config \<Rightarrow> response" where
  "metrics_response w c =
     (case server_compute w c of
        Inr r \<Rightarrow> response_of 200 PROMETHEUS_CONTENT_TYPE (to_prometheus (sw_F w) (sw_float w) r)
      | Inl e \<Rightarrow> response_of 500 TEXT_CONTENT_TYPE (''failed to compute metrics: '' @ err_msg e))"

section \<open>Requests\<close>

record http_request =
  rq_method :: string
  rq_path :: string

definition answer_request :: "server_world \<Rightarrow> server_config \<Rightarrow> bool \<Rightarrow> string \<Rightarrow> response" where
  "answer_request w c method_ok path =
     (if \<not> method_ok then response_of 405 TEXT_CONTENT_TYPE ''method not allowed''
      else if path = ''/health'' \<and> sc_health_enabled c then health_response w c
      else if path = ''/metrics'' \<and> sc_metrics_enabled c then metrics_response w c
      else if path = ''/health'' \<or> path = ''/metrics''
      then response_of 404 TEXT_CONTENT_TYPE ''endpoint disabled''
      else response_of 404 TEXT_CONTENT_TYPE ''not found'')"

definition handle_request :: "server_world \<Rightarrow> server_config \<Rightarrow> http_request \<Rightarrow> response" where
  "handle_request w c rq =
     (let head_only = (rq_method rq = ''HEAD'');
          r = answer_request w c (rq_method rq = ''GET'' \<or> rq_method rq = ''HEAD'') (rq_path rq)
      in if head_only then r\<lparr>rs_body := []\<rparr> else r)"

section \<open>Serving\<close>

text \<open>
  What the accept loop meets, in order. A connection is served by a task of its own, with the
  world each of its requests meets; what goes wrong on it is only logged.
\<close>

datatype server_event =
  Shutdown | AcceptFailed string | Connection "(server_world \<times> http_request) list"

fun accept_loop :: "server_config \<Rightarrow> server_event list \<Rightarrow> response list \<times> (anyhow + unit) option" where
  \<comment> \<open>the responses and the result, \<open>None\<close> while it serves\<close>
  "accept_loop c [] = ([], None)"
| "accept_loop c (Shutdown # es) = ([], Some (Inr ()))"
| "accept_loop c (AcceptFailed e # es) = ([], Some (Inl [e]))"
| "accept_loop c (Connection rqs # es) =
     (case accept_loop c es of (rs, res) \<Rightarrow> (map (\<lambda>(w, rq). handle_request w c rq) rqs @ rs, res))"

definition serve_monitoring ::
  "(string \<Rightarrow> string + string) \<Rightarrow> (string \<Rightarrow> u16 \<Rightarrow> anyhow + unit) \<Rightarrow> monitoring_config \<Rightarrow> u16 option \<Rightarrow> u16 option
    \<Rightarrow> server_event list \<Rightarrow> response list \<times> (anyhow + unit) option" where
  \<comment> \<open>\<open>bind\<close> is listening on an address\<close>
  "serve_monitoring parse_ip bind m health_port metrics_port events =
     (case server_from_config parse_ip m health_port metrics_port of
        Inl e \<Rightarrow> ([], Some (Inl e))
      | Inr c \<Rightarrow>
          (case bind (sc_bind c) (sc_listen_port c) of
             Inl e \<Rightarrow> ([], Some (Inl ((''failed to bind monitoring server to '' @ sc_bind c @ '':'' @
               show_nat (unat (sc_listen_port c))) # e)))
           | Inr _ \<Rightarrow> accept_loop c events))"

definition serve_error :: "anyhow \<Rightarrow> afsc_error" where
  \<comment> \<open>how the command \<open>serve\<close> classifies the end of the server\<close>
  "serve_error e =
     (let t = err_chain e
      in if contains t ''failed to bind'' then Infra t
         else if contains t ''disabled in config'' \<or> contains t ''not an IP address'' then ConfigError t
         else Other e)"

definition health_document :: "server_world \<Rightarrow> u64 \<Rightarrow> anyhow + health_doc" where
  "health_document w stale_after =
     map_sum id health_json (from_data_dir (sw_F w) (sw_history w) (sw_validation w) (sw_snapshot w) (sw_now w) stale_after)"

section \<open>Lemmas\<close>

lemma response_of_simps [simp]:
  "rs_status (response_of st ct body) = st" "rs_body (response_of st ct body) = body"
  "rs_content_length (response_of st ct body) = length body" "rs_content_type (response_of st ct body) = ct"
  by (simp_all add: response_of_def)

lemma answered_length: "rs_content_length (answer_request w c ok p) = length (rs_body (answer_request w c ok p))"
  by (simp add: answer_request_def health_response_def metrics_response_def split: sum.split)

lemma sint_small: "uint (x :: u64) < 2 ^ 63 \<Longrightarrow> sint x = uint x"
  using uint_ge_0 [of x] by (simp add: sint_uint signed_take_bit_int_eq_self order.trans [of "- 9223372036854775808" 0])

lemma less_div:
  fixes n :: int
  assumes "0 < n"
  shows "k < d div n \<longleftrightarrow> (k + 1) * n \<le> d"
proof
  assume "k < d div n"
  then have "(k + 1) * n \<le> d div n * n" using assms by (intro mult_right_mono) simp_all
  also have "\<dots> \<le> d" using div_mult_mod_eq [of d n] pos_mod_sign [OF assms, of d] by linarith
  finally show "(k + 1) * n \<le> d" .
next
  assume "(k + 1) * n \<le> d"
  from zdiv_mono1 [OF this assms] assms show "k < d div n" by simp
qed

lemma num_seconds_gt:
  assumes "0 \<le> k"
  shows "k < num_seconds d \<longleftrightarrow> (k + 1) * int ns_per_sec \<le> d"
proof -
  have n: "int ns_per_sec = 1000000000" by (simp add: ns_per_sec_def)
  show ?thesis
  proof (cases "d < 0")
    case True
    then have "0 \<le> (- d) div 1000000000" by simp
    with True assms show ?thesis unfolding num_seconds_def n by auto
  next
    case False
    have "k < d div 1000000000 \<longleftrightarrow> (k + 1) * 1000000000 \<le> d" by (rule less_div) simp
    with False show ?thesis unfolding num_seconds_def n by simp
  qed
qed

lemma compute_health: "mr_health (compute F h now limit v k) =
    health_of (map_option (\<lambda>r. num_seconds (now - started_at_of r)) (latest_run h)) limit"
  by (simp add: compute_def Let_def)

definition too_old :: "server_config \<Rightarrow> instant \<Rightarrow> history \<Rightarrow> bool" where
  \<comment> \<open>the newest run started more than the configured number of whole seconds ago\<close>
  "too_old c now h =
     (case latest_run h of
        None \<Rightarrow> False
      | Some run \<Rightarrow> started_at_of run + int ((unat (sc_stale_after_seconds c) + 1) * ns_per_sec) \<le> now)"

section \<open>Properties\<close>

text \<open>
  a HEAD request is answered like a GET: the same status and headers with an empty body, so that
  the length announced is that of the body a GET would have. Any other method is refused.
\<close>

theorem head_is_get_without_body:
  "handle_request w c \<lparr>rq_method = ''HEAD'', rq_path = p\<rparr> =
     (handle_request w c \<lparr>rq_method = ''GET'', rq_path = p\<rparr>)\<lparr>rs_body := []\<rparr> \<and>
   rs_content_length (handle_request w c \<lparr>rq_method = ''GET'', rq_path = p\<rparr>) =
     length (rs_body (handle_request w c \<lparr>rq_method = ''GET'', rq_path = p\<rparr>)) \<and>
   (m \<in> {''GET'', ''HEAD''} \<or> rs_status (handle_request w c \<lparr>rq_method = m, rq_path = p\<rparr>) = 405)"
  using answered_length [of w c True p] by (simp add: handle_request_def Let_def answer_request_def)

text \<open>
  the health endpoint tells the age of the last run. With a readable history it answers the
  configured code exactly when there is a run and the newest one started more than the configured
  number of whole seconds ago, and 200 otherwise, also when there is none; its document says the same
  word. A history that cannot be read is a 500 on both endpoints.
\<close>

theorem health_tells_the_age:
  fixes w :: server_world and c :: server_config
  assumes "sc_health_enabled c" "unat (sc_stale_after_seconds c) < 2 ^ 63"
  defines "r \<equiv> handle_request w c \<lparr>rq_method = ''GET'', rq_path = ''/health''\<rparr>"
    and "stale \<equiv> too_old c (sw_now w)"
  shows "(\<forall>h. sw_history w = Inr h \<longrightarrow>
      rs_status r = (if stale h then unwrap_or (status_from_u16 (sc_stale_status_code c)) 503 else 200) \<and>
      (\<exists>doc. rs_body r = sw_json w (HealthBody doc) \<and> hd_status doc =
         (if latest_run h = None then ''no_data'' else if stale h then ''stale'' else ''ok''))) \<and>
    (\<forall>e. sw_history w = Inl e \<longrightarrow> rs_status r = 500 \<and>
      (sc_metrics_enabled c \<longrightarrow>
         rs_status (handle_request w c \<lparr>rq_method = ''GET'', rq_path = ''/metrics''\<rparr>) = 500))"
proof (intro conjI allI impI)
  fix h
  assume h: "sw_history w = Inr h"
  let ?lim = "sc_stale_after_seconds c"
  let ?m = "compute (sw_F w) h (sw_now w) ?lim (sw_validation w) (carried_remediations (sw_now w) (sw_snapshot w))"
  have "uint ?lim < 2 ^ 63" using assms(2) by (metis of_nat_less_iff of_nat_numeral of_nat_power uint_nat)
  then have lim: "sint ?lim = int (unat ?lim)" by (simp add: sint_small)
  have age: "sint ?lim < num_seconds (sw_now w - started_at_of run) \<longleftrightarrow>
      started_at_of run + int ((unat ?lim + 1) * ns_per_sec) \<le> sw_now w" for run
  proof -
    have "(sint ?lim + 1) * int ns_per_sec = int ((unat ?lim + 1) * ns_per_sec)"
      unfolding lim by (simp only: of_nat_mult of_nat_add of_nat_1)
    then show ?thesis using num_seconds_gt [of "sint ?lim" "sw_now w - started_at_of run"] lim by linarith
  qed
  have health: "mr_health ?m = (if latest_run h = None then NoData else if stale h then Stale else HealthOk)"
    by (cases "latest_run h") (simp_all add: compute_health health_of_def stale_def too_old_def age)
  have r: "r = response_of (health_status ?m (sc_stale_status_code c)) JSON_CONTENT_TYPE
      (sw_json w (HealthBody (health_json ?m)))"
    using h assms(1)
    by (simp add: r_def handle_request_def answer_request_def health_response_def server_compute_def from_data_dir_def)
  have none: "\<not> stale h" if "latest_run h = None" using that by (simp add: stale_def too_old_def)
  show "rs_status r = (if stale h then unwrap_or (status_from_u16 (sc_stale_status_code c)) 503 else 200)"
    using none by (auto simp: r health_status_def health)
  show "\<exists>doc. rs_body r = sw_json w (HealthBody doc) \<and> hd_status doc =
      (if latest_run h = None then ''no_data'' else if stale h then ''stale'' else ''ok'')"
    by (rule exI [of _ "health_json ?m"]) (simp add: r health_json_def health)
qed (use assms(1) in \<open>simp_all add: r_def handle_request_def answer_request_def health_response_def
    metrics_response_def server_compute_def from_data_dir_def\<close>)

fun is_connection :: "server_event \<Rightarrow> bool" where
  "is_connection (Connection rqs) = True"
| "is_connection e = False"

fun connection_responses :: "server_config \<Rightarrow> server_event \<Rightarrow> response list" where
  "connection_responses c (Connection rqs) = map (\<lambda>(w, rq). handle_request w c rq) rqs"
| "connection_responses c e = []"

text \<open>
  how long the server serves. It answers every request of the connections accepted before the
  first shutdown or failed accept, in their order, and nothing after it. A shutdown ends it in
  success; but a single accept that fails, of whatever passing cause, ends it as well, with that error.
\<close>

theorem server_ends_at_the_first_failed_accept:
  "accept_loop c es =
     (concat (map (connection_responses c) (takeWhile is_connection es)),
      case dropWhile is_connection es of
        [] \<Rightarrow> None
      | e # _ \<Rightarrow> Some (case e of AcceptFailed m \<Rightarrow> Inl [m] | _ \<Rightarrow> Inr ()))"
proof (induction es)
  case (Cons e es)
  then show ?case by (cases e) auto
qed simp

section \<open>Sample input\<close>

definition sample_server_config :: server_config where
  "sample_server_config =
     \<lparr>sc_health_enabled = True, sc_metrics_enabled = True, sc_bind = ''127.0.0.1'', sc_listen_port = 8080,
      sc_stale_after_seconds = 100, sc_stale_status_code = 503\<rparr>"

definition sample_old_run :: loaded_run where
  "sample_old_run =
     \<lparr>lr_info = \<lparr>rf_path = [], rf_run_id = ''r'', rf_started_at = 0, rf_total = 0, rf_passed = 0, rf_failed = 0,
        rf_interrupted = False\<rparr>, lr_header = None, lr_entries = [], lr_summary = None\<rparr>"

definition sample_server_world :: "instant \<Rightarrow> history \<Rightarrow> server_world" where
  "sample_server_world now h =
     \<lparr>sw_F = exact_f64, sw_history = Inr h, sw_validation = None, sw_snapshot = None, sw_now = now,
      sw_json = \<lambda>_. [], sw_float = \<lambda>_. []\<rparr>"

theorem health_tells_the_age_witness:
  "rs_status (handle_request (sample_server_world (101 * int ns_per_sec) [sample_old_run]) sample_server_config
     \<lparr>rq_method = ''GET'', rq_path = ''/health''\<rparr>) = 503 \<and>
   rs_status (handle_request (sample_server_world (100 * int ns_per_sec) [sample_old_run]) sample_server_config
     \<lparr>rq_method = ''GET'', rq_path = ''/health''\<rparr>) = 200"
proof -
  have w: "sw_history (sample_server_world t h) = Inr h" "sw_now (sample_server_world t h) = t" for t h
    by (simp_all add: sample_server_world_def)
  have c: "sc_health_enabled sample_server_config" "unat (sc_stale_after_seconds sample_server_config) < 2 ^ 63"
    "status_from_u16 (sc_stale_status_code sample_server_config) = Some 503"
    by (simp_all add: sample_server_config_def status_from_u16_def)
  have "too_old sample_server_config (101 * int ns_per_sec) [sample_old_run]"
    "\<not> too_old sample_server_config (100 * int ns_per_sec) [sample_old_run]"
    by (simp_all add: too_old_def latest_run_def sample_old_run_def started_at_of_def sample_server_config_def ns_per_sec_def)
  then show ?thesis
    using health_tells_the_age [OF c(1,2), of "sample_server_world (101 * int ns_per_sec) [sample_old_run]"]
      health_tells_the_age [OF c(1,2), of "sample_server_world (100 * int ns_per_sec) [sample_old_run]"]
    by (simp add: w c(3))
qed

end
