(* ===== verification/Padding.thy ===== *)
theory Padding
  imports Fmt
begin

text \<open>Rust's \<open>{:<n}\<close> and \<open>{:>n}\<close>: a text filled with blanks to a width in characters, never cut.\<close>

definition pad_right :: "nat \<Rightarrow> string \<Rightarrow> string" where
  "pad_right n s = s @ replicate (n - length (chars s)) (CHR '' '')"

definition pad_left :: "nat \<Rightarrow> string \<Rightarrow> string" where
  "pad_left n s = replicate (n - length (chars s)) (CHR '' '') @ s"

lemma pad_right_prefix: "prefix s (pad_right n s)"
  by (simp add: pad_right_def)

lemma pad_left_suffix: "suffix s (pad_left n s)"
  by (simp add: pad_left_def suffix_def)

end
