(* ===== verification/Doctor.thy ===== *)
theory Doctor
  imports Check Metrics Acfs Padding
begin

text \<open>
  The command \<^verbatim>\<open>doctor\<close> (\<^verbatim>\<open>src/doctor.rs\<close> and its caller in \<^verbatim>\<open>src/main.rs\<close>): one check after the
  other, the report with its counts, its rendering and the verdict. Docker, the file system, \<^verbatim>\<open>df\<close>,
  the version of tools and the clock are what the host answers (\<open>host\<close>).
\<close>

section \<open>Checks and reports\<close>

datatype check_status = Pass | Warning | Fail | Skip

fun status_mark :: "check_status \<Rightarrow> string" where
  "status_mark Pass = [CHR 0xE2, CHR 0x9C, CHR 0x93]"
| "status_mark Warning = ''!''"
| "status_mark Fail = [CHR 0xE2, CHR 0x9C, CHR 0x97]"
| "status_mark Skip = ''-''"

text \<open>The facts a check puts into the header of a run.\<close>

datatype facts =
  ConfigFacts "string option"
| DockerFacts string "string option" "string option" "string option" "string option"
| ImageFacts string "(string option \<times> string option) option" string bool \<comment> \<open>tag, id and date of creation, base, prepared\<close>
| RepoFacts string nat nat
| PathFacts string
| VersionFacts string
| RunFacts string instant int

record check_entry =
  ck_name :: string
  ck_status :: check_status
  ck_detail :: string
  ck_hint :: "string option"
  ck_data :: "facts option"

definition check_new :: "string \<Rightarrow> check_status \<Rightarrow> string \<Rightarrow> check_entry" where
  "check_new name status detail =
     \<lparr>ck_name = name, ck_status = status, ck_detail = detail, ck_hint = None, ck_data = None\<rparr>"

definition hint :: "string \<Rightarrow> check_entry \<Rightarrow> check_entry" where "hint h c = c\<lparr>ck_hint := Some h\<rparr>"
definition data :: "facts \<Rightarrow> check_entry \<Rightarrow> check_entry" where "data d c = c\<lparr>ck_data := Some d\<rparr>"

record doctor_report =
  dp_checked_at :: instant
  dp_tool_version :: string
  dp_checks :: "check_entry list"
  dp_passed :: nat
  dp_warnings :: nat
  dp_failed :: nat
  dp_skipped :: nat

definition report_ok :: "doctor_report \<Rightarrow> bool" where "report_ok r \<longleftrightarrow> dp_failed r = 0"

definition with_status :: "check_status \<Rightarrow> check_entry list \<Rightarrow> nat" where
  "with_status st cs = length (filter (\<lambda>c. ck_status c = st) cs)"

definition finish :: "doctor_report \<Rightarrow> doctor_report" where
  "finish r =
     r\<lparr>dp_passed := with_status Pass (dp_checks r), dp_warnings := with_status Warning (dp_checks r),
       dp_failed := with_status Fail (dp_checks r), dp_skipped := with_status Skip (dp_checks r)\<rparr>"

datatype env_value = CheckFacts facts | DoctorOk bool

definition environment :: "doctor_report \<Rightarrow> (string, env_value) btree" where
  "environment r =
     bt_insert ''doctor_ok'' (DoctorOk (report_ok r))
       (bt_extend (List.map_filter (\<lambda>c. map_option (\<lambda>d. (ck_name c, CheckFacts d)) (ck_data c)) (dp_checks r)) [])"

section \<open>The host\<close>

record docker_version =
  kv_version :: "string option"
  kv_api :: "string option"
  kv_os :: "string option"
  kv_arch :: "string option"
  kv_kernel :: "string option"

record host =
  ho_client :: "anyhow + unit" \<comment> \<open>making a client\<close>
  ho_version :: "string + docker_version"
  ho_docker_root :: "string option"
  ho_sha256 :: "string \<Rightarrow> string"
  ho_dockerfile :: "anyhow + string"
  ho_inspect :: "string \<Rightarrow> (string option \<times> string option) option" \<comment> \<open>id and date of creation of an image\<close>
  ho_days_since :: "string \<Rightarrow> int option" \<comment> \<open>whole days since a date, if it parses\<close>
  ho_managed :: "anyhow + orphan_info list"
  ho_orphans :: "duration \<Rightarrow> anyhow + orphan_info list"
  ho_exists :: "string \<Rightarrow> bool"
  ho_checksums :: "anyhow + checksums_file"
  ho_rx :: regex_crate
  ho_tree :: acfs_tree
  ho_create_dir :: "string \<Rightarrow> string option" \<comment> \<open>the error, if any\<close>
  ho_write_probe :: "string \<Rightarrow> string option"
  ho_df :: "string \<Rightarrow> string option" \<comment> \<open>the output of \<^verbatim>\<open>df -Pk\<close>\<close>
  ho_tool :: "string \<Rightarrow> (string \<times> string) option" \<comment> \<open>stdout and stderr of \<open>--version\<close>\<close>
  ho_env :: "string \<Rightarrow> string option"
  ho_recent :: "anyhow + history" \<comment> \<open>the newest run only\<close>
  ho_validation :: "validation_report option"
  ho_now :: instant
  ho_F :: f64_ops
  ho_minute :: "instant \<Rightarrow> string"

record doctor_options =
  do_skip_docker :: bool
  do_unknown_keys :: "string list"
  do_config_path :: "string option"

definition free_bytes :: "host \<Rightarrow> string \<Rightarrow> u64 option" where
  \<comment> \<open>the fourth word of the second line; the product wraps in a release build\<close>
  "free_bytes H path =
     (case ho_df H path of
        None \<Rightarrow> None
      | Some t \<Rightarrow>
          (case lines t of
             _ # line # _ \<Rightarrow>
               (case split_whitespace line of
                  _ # _ # _ # w # _ \<Rightarrow> map_option (\<lambda>kb. of_nat kb * 1024) (parse_unsigned 64 w)
                | _ \<Rightarrow> None)
           | _ \<Rightarrow> None))"

definition gib :: "f64_ops \<Rightarrow> u64 \<Rightarrow> string" where
  "gib F bytes = show_fixed 1 (fl F (fl F (of_nat (unat bytes)) / 1073741824)) @ '' GiB''"

definition tool_version :: "host \<Rightarrow> string \<Rightarrow> string option" where
  "tool_version H bin =
     map_option (\<lambda>(out, err). trim (case lines (if out = [] then err else out) of l # _ \<Rightarrow> l | [] \<Rightarrow> []))
       (ho_tool H bin)"

definition writable :: "host \<Rightarrow> string \<Rightarrow> string + unit" where
  "writable H dir =
     (case ho_create_dir H dir of
        Some e \<Rightarrow> Inl (''cannot create '' @ dir @ '': '' @ e)
      | None \<Rightarrow>
          (case ho_write_probe H dir of
             Some e \<Rightarrow> Inl (''cannot write in '' @ dir @ '': '' @ e)
           | None \<Rightarrow> Inr ()))"

definition LOW_DISK_BYTES :: u64 where "LOW_DISK_BYTES = 5 * 1024 * 1024 * 1024"

definition humanize :: "int \<Rightarrow> string" where
  \<comment> \<open>the divisions are of positive numbers\<close>
  "humanize s =
     (if s < 90 then show_int s @ ''s''
      else if s < 5400 then show_int (s div 60) @ ''m''
      else if s < 172800 then show_int (s div 3600) @ ''h''
      else show_int (s div 86400) @ ''d'')"

section \<open>The groups of checks\<close>

definition config_check :: "doctor_options \<Rightarrow> check_entry" where
  "config_check opts =
     (if do_unknown_keys opts = []
      then data (ConfigFacts (do_config_path opts))
        (check_new ''config'' Pass (unwrap_or (do_config_path opts) ''built-in defaults''))
      else hint ''Compare with `config default` and remove or rename the keys''
        (check_new ''config'' Warning (''unknown keys ignored: '' @ join '', '' (do_unknown_keys opts))))"

definition doctor_container_config :: "config \<Rightarrow> container_config" where
  "doctor_container_config cfg =
     default_container_config\<lparr>cc_image := dk_image (cf_docker cfg), cc_prepare := dk_prepare (cf_docker cfg)\<rparr>"

definition image_check :: "host \<Rightarrow> config \<Rightarrow> check_entry" where
  "image_check H cfg =
     (case image_plan_of (ho_sha256 H) (ho_dockerfile H) (doctor_container_config cfg) of
        Inl e \<Rightarrow> check_new ''image'' Fail (''cannot plan image: '' @ err_chain e)
      | Inr plan \<Rightarrow>
          (case ho_inspect H (ip_run_image plan) of
             None \<Rightarrow>
               data (ImageFacts (ip_run_image plan) None (ip_base plan) (ip_prepared plan))
                 (hint ''The first `check` builds it (a few minutes); or run `check --rebuild-base`''
                   (check_new ''image'' Warning (ip_run_image plan @ '' not built yet'')))
           | Some (i, created) \<Rightarrow>
               let age = ho_days_since H (unwrap_or created []);
                   old = (case age of Some d \<Rightarrow> d > 30 | None \<Rightarrow> False);
                   c = data (ImageFacts (ip_run_image plan) (Some (i, created)) (ip_base plan) (ip_prepared plan))
                     (check_new ''image'' (if old then Warning else Pass)
                       (ip_run_image plan @ '' present'' @
                        (case age of Some d \<Rightarrow> '', built '' @ show_int d @ '' day(s) ago'' | None \<Rightarrow> [])))
               in if old then hint ''Rebuild to pick up base-image security updates: check --rebuild-base'' c
                  else c))"

definition reap_age :: "config \<Rightarrow> duration" where
  "reap_age cfg =
     from_secs (max (let t = dk_timeout_seconds (cf_docker cfg) in saturating_add_word t t) 60)"

definition containers_check :: "host \<Rightarrow> config \<Rightarrow> check_entry" where
  "containers_check H cfg =
     (case ho_orphans H (reap_age cfg) of
        Inl e \<Rightarrow> check_new ''containers'' Warning (''cannot list containers: '' @ err_chain e)
      | Inr leaked \<Rightarrow>
          let warning = hint ''Remove them with: check --reap''
            (check_new ''containers'' Warning (show_nat (length leaked) @ '' leaked container(s): '' @
              join '', '' (map (\<lambda>c. oi_name c @ '' ('' @ oi_reason c @ '')'') leaked)))
          in case ho_managed H of
               Inr all \<Rightarrow>
                 if leaked = []
                 then check_new ''containers'' Pass (show_nat (length all) @ '' afsc-managed container(s), none leaked'')
                 else warning
             | Inl _ \<Rightarrow> warning)"

definition docker_checks :: "host \<Rightarrow> config \<Rightarrow> bool \<Rightarrow> check_entry list" where
  "docker_checks H cfg skip =
     (if skip then [check_new ''docker'' Skip ''skipped (--local)'']
      else case ho_client H of
        Inl e \<Rightarrow> [hint ''Set DOCKER_HOST or start Docker''
          (check_new ''docker'' Fail (''cannot create client: '' @ err_chain e))]
      | Inr _ \<Rightarrow>
          (case ho_version H of
             Inl e \<Rightarrow> [hint ''Start Docker (systemctl start docker), add the user to the docker group, or use check --local''
               (check_new ''docker'' Fail (''daemon unreachable: '' @ e))]
           | Inr v \<Rightarrow>
               [data (DockerFacts (unwrap_or (kv_version v) []) (kv_api v) (kv_os v) (kv_arch v) (kv_kernel v))
                  (check_new ''docker'' Pass
                    (''daemon '' @ unwrap_or (kv_version v) [] @ '' ('' @ unwrap_or (kv_api v) [] @ '')'')),
                image_check H cfg, containers_check H cfg]))"

definition docker_root_of :: "host \<Rightarrow> bool \<Rightarrow> string option" where
  "docker_root_of H skip =
     (if skip then None
      else case (ho_client H, ho_version H) of (Inr _, Inr _) \<Rightarrow> ho_docker_root H | _ \<Rightarrow> None)"

definition cross_check_entry :: "host \<Rightarrow> string \<Rightarrow> checksums_file \<Rightarrow> check_entry option" where
  \<comment> \<open>\<open>None\<close>: a built-in regular expression does not compile\<close>
  "cross_check_entry H repo cs =
     (if \<not> ho_exists H (Config.path_join repo ''scripts/lib/security.sh'')
      then Some (check_new ''acfs_cross_check'' Skip ''not a full ACFS checkout (no scripts/lib/security.sh)'')
      else case scan_acfs_repo (ho_rx H) (ho_tree H) of
        None \<Rightarrow> None
      | Some (Inl e) \<Rightarrow> Some (check_new ''acfs_cross_check'' Warning (''cannot scan repo: '' @ err_chain e))
      | Some (Inr scan) \<Rightarrow>
          let cc = cross_check cs (as_known_installers scan);
              drift = profile_drift (as_call_sites scan);
              problems = length (cc_missing_from_checksums cc) + length (cc_url_mismatches cc) + length drift;
              c = check_new ''acfs_cross_check'' (if problems = 0 then Pass else Warning)
                (show_nat (length (as_known_installers scan)) @ '' KNOWN_INSTALLERS; '' @
                 show_nat (length (cc_missing_from_checksums cc)) @ '' missing from checksums, '' @
                 show_nat (length (cc_extra_in_checksums cc)) @ '' stale, '' @
                 show_nat (length (cc_url_mismatches cc)) @ '' URL mismatch(es), '' @
                 show_nat (length drift) @ '' profile drift(s)'')
          in Some (if problems > 0
                   then hint ''Run `validate --profile` for details; update checksums.yaml or the built-in profile table'' c
                   else c))"

definition repo_checks :: "host \<Rightarrow> config \<Rightarrow> check_entry list option" where
  "repo_checks H cfg =
     (let repo = gc_acfs_repo (cf_general cfg); path = Config.path_join repo ''checksums.yaml''
      in if \<not> ho_exists H path
         then Some [hint ''Set [general].acfs_repo (or --acfs-repo) to an agentic_coding_flywheel_setup checkout''
           (check_new ''acfs_repo'' Fail (repo @ '' has no checksums.yaml''))]
         else case ho_checksums H of
           Inl e \<Rightarrow> Some [hint ''Run `validate` for the format errors''
             (check_new ''acfs_repo'' Fail (path @ '' does not parse: '' @ err_msg e))]
         | Inr cs \<Rightarrow>
             let enabled = length (filter (\<lambda>(n, e). ie_enabled e) cs)
             in map_option (\<lambda>c.
                  [data (RepoFacts repo (length cs) enabled)
                     (check_new ''acfs_repo'' Pass (repo @ '' ('' @ show_nat (length cs) @ '' installers, '' @
                       show_nat enabled @ '' enabled)'')), c])
                  (cross_check_entry H repo cs))"

definition dir_check :: "host \<Rightarrow> string \<Rightarrow> string \<Rightarrow> string \<Rightarrow> bool \<Rightarrow> check_entry" where
  "dir_check H name dir advice with_path =
     (case writable H dir of
        Inr _ \<Rightarrow> (if with_path then data (PathFacts dir) else id) (check_new name Pass dir)
      | Inl e \<Rightarrow> hint advice (check_new name Fail e))"

definition dir_checks :: "host \<Rightarrow> config \<Rightarrow> check_entry list" where
  "dir_checks H cfg =
     [dir_check H ''data_dir'' (data_dir_path (ho_env H) (cf_general cfg))
        ''Fix permissions or set [general].data_dir / --data-dir'' True,
      dir_check H ''log_dir'' (log_dir_path (ho_env H) (cf_general cfg))
        ''Fix permissions or set [general].log_dir'' False]"

definition disk_check :: "host \<Rightarrow> string \<times> string \<Rightarrow> check_entry" where
  "disk_check H target =
     (case target of (label, path) \<Rightarrow>
        (case free_bytes H path of
           Some free \<Rightarrow>
             if free < LOW_DISK_BYTES
             then hint (''Free space (docker system prune, results retention) '' @ em_dash @ '' installers download toolchains'')
               (check_new ''disk'' Warning (label @ '' '' @ path @ '': only '' @ gib (ho_F H) free @ '' free''))
             else check_new ''disk'' Pass (label @ '' '' @ path @ '': '' @ gib (ho_F H) free @ '' free'')
         | None \<Rightarrow> check_new ''disk'' Skip (label @ '': cannot determine free space'')))"

definition disk_checks :: "host \<Rightarrow> config \<Rightarrow> bool \<Rightarrow> check_entry list" where
  "disk_checks H cfg skip =
     map (disk_check H)
       ((''data dir'', data_dir_path (ho_env H) (cf_general cfg)) #
        (case docker_root_of H skip of
           Some path \<Rightarrow> if ho_exists H path then [(''docker root'', path)] else []
         | None \<Rightarrow> []))"

definition claude_check :: "host \<Rightarrow> config \<Rightarrow> check_entry" where
  "claude_check H cfg =
     (if effective_mode (cf_remediation cfg) \<noteq> Off then
        (case tool_version H ''claude'' of
           Some v \<Rightarrow> data (VersionFacts v) (check_new ''claude'' Pass v)
         | None \<Rightarrow> hint (''Install Claude Code or set [remediation].mode = '' @ [dquote] @ ''off'' @ [dquote])
             (check_new ''claude'' Fail ''claude CLI not found but remediation is enabled''))
      else
        (case tool_version H ''claude'' of
           Some v \<Rightarrow> check_new ''claude'' Pass (v @ '' (remediation off)'')
         | None \<Rightarrow> check_new ''claude'' Skip ''not installed (remediation off)''))"

definition gh_check :: "host \<Rightarrow> notifications_config \<Rightarrow> check_entry" where
  "gh_check H n =
     (case tool_version H ''gh'' of
        Some v \<Rightarrow> check_new ''gh'' Pass v
      | None \<Rightarrow>
          if nt_enabled n \<and> trim (nt_github_issue_repo n) \<noteq> []
          then check_new ''gh'' Skip ''gh CLI not found (notifications use the API directly; gh is only needed for remediation PRs)''
          else check_new ''gh'' Skip ''not installed'')"

fun mode_debug :: "notification_mode \<Rightarrow> string" where
  "mode_debug EveryRun = ''EveryRun''"
| "mode_debug OnChange = ''OnChange''"
| "mode_debug DailyDigest = ''DailyDigest''"

definition unset_variables :: "host \<Rightarrow> notifications_config \<Rightarrow> string list" where
  "unset_variables H n =
     filter (\<lambda>v. v \<noteq> [] \<and> (case ho_env H v of Some t \<Rightarrow> trim t = [] | None \<Rightarrow> True))
       [trim (nt_slack_webhook_env n), trim (nt_github_token_env n)]"

definition notifications_check :: "host \<Rightarrow> notifications_config \<Rightarrow> check_entry" where
  "notifications_check H n =
     (if \<not> nt_enabled n then check_new ''notifications'' Skip ''disabled''
      else if unset_variables H n = []
      then check_new ''notifications'' Pass (''enabled (mode '' @ mode_debug (nt_mode n) @ '')'')
      else hint ''Export them for the service (systemd: Environment= or an EnvironmentFile)''
        (check_new ''notifications'' Warning (''env var(s) not set: '' @ join '', '' (unset_variables H n))))"

definition systemd_unit :: string where
  "systemd_unit = ''/etc/systemd/system/automated-flywheel-checker.service''"

definition systemd_check :: "host \<Rightarrow> check_entry" where
  "systemd_check H =
     (if ho_exists H systemd_unit then check_new ''systemd'' Pass (systemd_unit @ '' installed'')
      else hint ''scripts/install-systemd.sh (see README: Deployment)''
        (check_new ''systemd'' Skip ''units not installed''))"

definition last_run_check :: "host \<Rightarrow> config \<Rightarrow> check_entry" where
  "last_run_check H cfg =
     (case ho_recent H of
        Inl e \<Rightarrow> check_new ''last_run'' Warning (''cannot read results: '' @ err_chain e)
      | Inr h \<Rightarrow>
          (case latest_run h of
             None \<Rightarrow> hint ''Run: automated_flywheel_setup_checker check''
               (check_new ''last_run'' Warning ''no runs recorded'')
           | Some run \<Rightarrow>
               let age = num_seconds (ho_now H - started_at_of run);
                   stale = age > sint (mo_stale_after_seconds (cf_monitoring cfg));
                   c = data (RunFacts (run_id_of run) (started_at_of run) age)
                     (check_new ''last_run'' (if stale then Warning else Pass)
                       (take_chars 8 (run_id_of run) @ '' '' @ humanize age @ '' ago ('' @
                        show_nat (rf_passed (lr_info run)) @ '' passed, '' @ show_nat (rf_failed (lr_info run)) @ '' failed)''))
               in if stale then hint ''Older than monitoring.stale_after_seconds; is the timer enabled?'' c else c))"

definition validation_check :: "host \<Rightarrow> check_entry" where
  "validation_check H =
     (case ho_validation H of
        None \<Rightarrow> hint ''Run: validate --check-hashes'' (check_new ''validate'' Skip ''no hash check recorded'')
      | Some v \<Rightarrow>
          check_new ''validate'' (if drift_total v = 0 then Pass else Warning)
            (''last check-hashes '' @ (case vp_checked_at v of Some t \<Rightarrow> ho_minute H t | None \<Rightarrow> []) @ '': '' @
             show_nat (vp_matched v) @ '' matched, '' @ show_nat (length (vp_mismatched v)) @ '' mismatched, '' @
             show_nat (length (vp_unreachable v)) @ '' unreachable''))"

section \<open>The report\<close>

definition run_doctor :: "host \<Rightarrow> string \<Rightarrow> config \<Rightarrow> doctor_options \<Rightarrow> doctor_report option" where
  "run_doctor H version cfg opts =
     map_option
       (\<lambda>repo. finish \<lparr>dp_checked_at = ho_now H, dp_tool_version = version,
          dp_checks =
            [config_check opts] @ docker_checks H cfg (do_skip_docker opts) @ repo @ dir_checks H cfg @
            disk_checks H cfg (do_skip_docker opts) @
            [claude_check H cfg, gh_check H (cf_notifications cfg),
             notifications_check H (cf_notifications cfg), systemd_check H, last_run_check H cfg,
             validation_check H],
          dp_passed = 0, dp_warnings = 0, dp_failed = 0, dp_skipped = 0\<rparr>)
       (repo_checks H cfg)"

definition check_text :: "check_entry \<Rightarrow> string" where
  "check_text c =
     status_mark (ck_status c) @ '' '' @ pad_right 17 (ck_name c) @ '' '' @ ck_detail c @ [nl] @
     (case ck_hint c of Some h \<Rightarrow> ''    hint: '' @ h @ [nl] | None \<Rightarrow> [])"

definition render_human :: "doctor_report \<Rightarrow> string" where
  "render_human r =
     concat (map check_text (dp_checks r)) @ [nl] @ show_nat (dp_passed r) @ '' passed, '' @
     show_nat (dp_warnings r) @ '' warning(s), '' @ show_nat (dp_failed r) @ '' failed, '' @
     show_nat (dp_skipped r) @ '' skipped '' @ em_dash @ '' '' @
     (if report_ok r then ''ready'' else ''NOT ready'') @ [nl]"

datatype doctor_line =
  DoctorText string | DoctorDocument doctor_report | CheckLine check_entry
| CountsLine nat nat nat nat bool \<comment> \<open>passed, warnings, failed, skipped, ok\<close>

definition cmd_doctor ::
  "host \<Rightarrow> string \<Rightarrow> config \<Rightarrow> string list \<Rightarrow> string option \<Rightarrow> bool \<Rightarrow> output_format
    \<Rightarrow> (doctor_line list \<times> (afsc_error + unit)) option" where
  "cmd_doctor H version cfg unknown path local fmt =
     map_option
       (\<lambda>r. ((case fmt of
                Human \<Rightarrow> [DoctorText (render_human r)]
              | Json \<Rightarrow> [DoctorDocument r]
              | _ \<Rightarrow> map CheckLine (dp_checks r) @
                  [CountsLine (dp_passed r) (dp_warnings r) (dp_failed r) (dp_skipped r) (report_ok r)]),
             if report_ok r then Inr ()
             else Inl (Infra (''doctor found '' @ show_nat (dp_failed r) @ '' failing check(s)''))))
       (run_doctor H version cfg
         \<lparr>do_skip_docker = local, do_unknown_keys = unknown, do_config_path = path\<rparr>)"

section \<open>Lemmas\<close>

lemma check_new_simps [simp]: "ck_status (check_new n st d) = st" "ck_status (hint h c) = ck_status c"
  "ck_status (data f c) = ck_status c"
  by (simp_all add: check_new_def hint_def data_def)

text \<open>Which checks can fail, and when.\<close>

lemma config_check_status: "ck_status (config_check opts) \<noteq> Fail"
  by (simp add: config_check_def)

lemma image_check_status:
  "ck_status (image_check H cfg) = Fail \<longleftrightarrow>
     (\<exists>e. image_plan_of (ho_sha256 H) (ho_dockerfile H) (doctor_container_config cfg) = Inl e)"
  by (auto simp: image_check_def Let_def split: sum.split option.split)

lemma containers_check_status: "ck_status (containers_check H cfg) \<noteq> Fail"
  by (auto simp: containers_check_def Let_def split: sum.split)

lemma docker_checks_status:
  "(\<forall>c\<in>set (docker_checks H cfg skip). ck_status c \<noteq> Fail) \<longleftrightarrow> skip \<or>
     ((\<exists>u. ho_client H = Inr u) \<and> (\<exists>v. ho_version H = Inr v) \<and>
      (\<exists>plan. image_plan_of (ho_sha256 H) (ho_dockerfile H) (doctor_container_config cfg) = Inr plan))"
proof -
  have "ck_status (image_check H cfg) \<noteq> Fail \<longleftrightarrow>
      (\<exists>plan. image_plan_of (ho_sha256 H) (ho_dockerfile H) (doctor_container_config cfg) = Inr plan)"
    unfolding image_check_status
    by (cases "image_plan_of (ho_sha256 H) (ho_dockerfile H) (doctor_container_config cfg)") auto
  then show ?thesis
    by (cases "ho_client H"; cases "ho_version H") (simp_all add: docker_checks_def containers_check_status)
qed

lemma cross_check_entry_status: "cross_check_entry H repo cs = Some c \<Longrightarrow> ck_status c \<noteq> Fail"
  by (auto simp: cross_check_entry_def Let_def split: if_splits option.splits sum.splits)

lemma repo_checks_status:
  assumes "repo_checks H cfg = Some repo"
  shows "(\<forall>c\<in>set repo. ck_status c \<noteq> Fail) \<longleftrightarrow>
     ho_exists H (Config.path_join (gc_acfs_repo (cf_general cfg)) ''checksums.yaml'') \<and>
     (\<exists>cs. ho_checksums H = Inr cs)"
  using assms cross_check_entry_status
  by (cases "ho_checksums H") (auto simp: repo_checks_def Let_def split: if_splits)

lemma dir_check_status:
  "ck_status (dir_check H name dir advice wp) \<noteq> Fail \<longleftrightarrow>
     ho_create_dir H dir = None \<and> ho_write_probe H dir = None"
  by (cases "ho_create_dir H dir"; cases "ho_write_probe H dir") (simp_all add: dir_check_def writable_def)

lemma disk_check_status: "ck_status (disk_check H t) \<noteq> Fail"
  by (auto simp: disk_check_def split: prod.split option.split)

lemma claude_check_status:
  "ck_status (claude_check H cfg) \<noteq> Fail \<longleftrightarrow>
     (effective_mode (cf_remediation cfg) = Off \<or> ho_tool H ''claude'' \<noteq> None)"
proof -
  have "tool_version H ''claude'' = None \<longleftrightarrow> ho_tool H ''claude'' = None" by (simp add: tool_version_def)
  then show ?thesis by (cases "tool_version H ''claude''") (auto simp: claude_check_def)
qed

lemma other_checks_status:
  "ck_status (gh_check H n) \<noteq> Fail" "ck_status (notifications_check H n) \<noteq> Fail"
  "ck_status (systemd_check H) \<noteq> Fail" "ck_status (last_run_check H cfg) \<noteq> Fail"
  "ck_status (validation_check H) \<noteq> Fail"
  by (auto simp: gh_check_def notifications_check_def systemd_check_def last_run_check_def
      validation_check_def Let_def split: option.split sum.split)

lemma with_status_none: "with_status st cs = 0 \<longleftrightarrow> (\<forall>c\<in>set cs. ck_status c \<noteq> st)"
  by (simp add: with_status_def filter_empty_conv)

lemma finished_counts:
  "dp_passed (finish r) + dp_warnings (finish r) + dp_failed (finish r) + dp_skipped (finish r) =
     length (dp_checks (finish r))"
proof -
  have "with_status Pass cs + with_status Warning cs + with_status Fail cs + with_status Skip cs = length cs" for cs
  proof (induction cs)
    case (Cons c cs)
    then show ?case by (cases "ck_status c") (simp_all add: with_status_def)
  qed (simp add: with_status_def)
  then show ?thesis by (simp add: finish_def)
qed

section \<open>Properties\<close>

text \<open>
  when the host is ready. Doctor succeeds exactly when Docker answers and the image can be
  planned (not asked for with \<^verbatim>\<open>--local\<close>), the checksum file is there and parses, the data and log
  directories can be written, and the Claude CLI is there if remediation is on; nothing else it looks
  at is more than a warning. Its counts account for every check.
\<close>

theorem doctor_verdict:
  assumes "cmd_doctor H version cfg unknown path local fmt = Some (out, res)"
  shows "(res = Inr () \<longleftrightarrow>
      (local \<or> (\<exists>u. ho_client H = Inr u) \<and> (\<exists>v. ho_version H = Inr v) \<and>
        (\<exists>plan. image_plan_of (ho_sha256 H) (ho_dockerfile H) (doctor_container_config cfg) = Inr plan)) \<and>
      ho_exists H (Config.path_join (gc_acfs_repo (cf_general cfg)) ''checksums.yaml'') \<and>
      (\<exists>cs. ho_checksums H = Inr cs) \<and>
      (\<forall>dir\<in>{data_dir_path (ho_env H) (cf_general cfg), log_dir_path (ho_env H) (cf_general cfg)}.
         ho_create_dir H dir = None \<and> ho_write_probe H dir = None) \<and>
      (effective_mode (cf_remediation cfg) = Off \<or> ho_tool H ''claude'' \<noteq> None)) \<and>
    (res \<noteq> Inr () \<longrightarrow> snd (main_exit res) = 3) \<and>
    (fmt = Json \<longrightarrow> (\<exists>r. out = [DoctorDocument r] \<and>
       dp_passed r + dp_warnings r + dp_failed r + dp_skipped r = length (dp_checks r)))"
proof -
  let ?opts = "\<lparr>do_skip_docker = local, do_unknown_keys = unknown, do_config_path = path\<rparr>"
  obtain r where r: "run_doctor H version cfg ?opts = Some r"
    and res: "res = (if report_ok r then Inr () else Inl (Infra (''doctor found '' @ show_nat (dp_failed r) @ '' failing check(s)'')))"
    and out: "fmt = Json \<longrightarrow> out = [DoctorDocument r]"
    using assms by (auto simp: cmd_doctor_def)
  obtain repo where repo: "repo_checks H cfg = Some repo"
    using r by (auto simp: run_doctor_def)
  have checks: "report_ok r \<longleftrightarrow> (\<forall>c\<in>set (docker_checks H cfg local). ck_status c \<noteq> Fail) \<and>
      (\<forall>c\<in>set repo. ck_status c \<noteq> Fail) \<and> (\<forall>c\<in>set (dir_checks H cfg). ck_status c \<noteq> Fail) \<and>
      ck_status (claude_check H cfg) \<noteq> Fail"
    using r repo
    by (auto simp: run_doctor_def report_ok_def finish_def with_status_none disk_checks_def config_check_status
        disk_check_status other_checks_status)
  have dirs: "(\<forall>c\<in>set (dir_checks H cfg). ck_status c \<noteq> Fail) \<longleftrightarrow>
      (\<forall>dir\<in>{data_dir_path (ho_env H) (cf_general cfg), log_dir_path (ho_env H) (cf_general cfg)}.
         ho_create_dir H dir = None \<and> ho_write_probe H dir = None)"
    unfolding dir_checks_def list.set ball_simps dir_check_status by simp
  have ok: "res = Inr () \<longleftrightarrow> report_ok r" and code: "res \<noteq> Inr () \<longrightarrow> snd (main_exit res) = 3"
    by (simp_all add: res main_exit_def)
  have counts: "dp_passed r + dp_warnings r + dp_failed r + dp_skipped r = length (dp_checks r)"
    using r finished_counts by (auto simp: run_doctor_def)
  show ?thesis
  proof (intro conjI)
    show "fmt = Json \<longrightarrow> (\<exists>r. out = [DoctorDocument r] \<and>
        dp_passed r + dp_warnings r + dp_failed r + dp_skipped r = length (dp_checks r))"
      using out counts by blast
  qed (simp only: ok checks dirs docker_checks_status repo_checks_status [OF repo] claude_check_status conj_assoc,
      rule code)
qed

text \<open>
  doctor and the health endpoint agree on the last run. Over the same history, of which doctor
  reads only the newest run, its check passes exactly when the metrics report says \<open>ok\<close>.
\<close>

theorem doctor_agrees_with_health:
  assumes "ho_recent H = Inr (take 1 h)"
  shows "ck_status (last_run_check H cfg) = Pass \<longleftrightarrow>
    mr_health (compute F h (ho_now H) (mo_stale_after_seconds (cf_monitoring cfg)) v k) = HealthOk"
proof -
  have "latest_run (take 1 h) = latest_run h" by (cases h) (simp_all add: latest_run_def)
  then show ?thesis
    using assms
    by (cases "latest_run h") (simp_all add: last_run_check_def compute_def health_of_def Let_def)
qed

section \<open>Sample input\<close>

definition sample_host :: host where
  "sample_host =
     \<lparr>ho_client = Inl [''no socket''], ho_version = Inl ''down'', ho_docker_root = None, ho_sha256 = \<lambda>_. [],
      ho_dockerfile = Inl [''none''], ho_inspect = \<lambda>_. None, ho_days_since = \<lambda>_. None, ho_managed = Inr [],
      ho_orphans = \<lambda>_. Inr [], ho_exists = \<lambda>p. \<not> suffix ''.sh'' p, ho_checksums = Inr [],
      ho_rx = literal_rx, ho_tree = sample_tree, ho_create_dir = \<lambda>_. None, ho_write_probe = \<lambda>_. None,
      ho_df = \<lambda>_. None, ho_tool = \<lambda>_. None, ho_env = \<lambda>_. None, ho_recent = Inr [], ho_validation = None,
      ho_now = 0, ho_F = exact_f64, ho_minute = \<lambda>_. []\<rparr>"

lemma sample_repo:
  "ho_exists sample_host (Config.path_join ''/data/projects/agentic_coding_flywheel_setup'' ''checksums.yaml'')"
  "\<not> ho_exists sample_host (Config.path_join ''/data/projects/agentic_coding_flywheel_setup'' ''scripts/lib/security.sh'')"
  by (simp add: sample_host_def; code_simp)+

lemma sample_doctor: "\<exists>out res. cmd_doctor sample_host v default_config [] None local fmt = Some (out, res)"
proof -
  have "gc_acfs_repo (cf_general default_config) = ''/data/projects/agentic_coding_flywheel_setup''"
    by (simp add: default_config_def default_general_config_def)
  moreover have "ho_checksums sample_host = Inr []" by (simp add: sample_host_def)
  ultimately show ?thesis
    by (simp add: cmd_doctor_def run_doctor_def repo_checks_def cross_check_entry_def sample_repo Let_def)
qed

theorem doctor_verdict_witness:
  "\<exists>out out' res'. cmd_doctor sample_host ''0.1'' default_config [] None True Human = Some (out, Inr ()) \<and>
     cmd_doctor sample_host ''0.1'' default_config [] None False Human = Some (out', res') \<and> snd (main_exit res') = 3"
proof -
  obtain out res where l: "cmd_doctor sample_host ''0.1'' default_config [] None True Human = Some (out, res)"
    using sample_doctor by blast
  obtain out' res' where d: "cmd_doctor sample_host ''0.1'' default_config [] None False Human = Some (out', res')"
    using sample_doctor by blast
  have h: "ho_exists sample_host (Config.path_join (gc_acfs_repo (cf_general default_config)) ''checksums.yaml'')"
    "ho_checksums sample_host = Inr []" "ho_create_dir sample_host dir = None" "ho_write_probe sample_host dir = None"
    "effective_mode (cf_remediation default_config) = Off" "ho_client sample_host = Inl [''no socket'']" for dir
    using sample_repo(1)
    by (simp_all add: sample_host_def default_config_def default_general_config_def effective_mode_def
        default_remediation_config_def)
  have "res = Inr ()" using doctor_verdict [OF l] h by simp
  moreover have "snd (main_exit res') = 3" using doctor_verdict [OF d] h(6) by auto
  ultimately show ?thesis using l d by blast
qed

theorem doctor_agrees_with_health_witness:
  "ck_status (last_run_check sample_host default_config) = Pass \<longleftrightarrow>
     mr_health (compute exact_f64 [] 0 (mo_stale_after_seconds (cf_monitoring default_config)) None 0) = HealthOk"
  using doctor_agrees_with_health [of sample_host "[]" default_config exact_f64 None 0]
  by (simp add: sample_host_def)

end
