(* ===== verification/Show.thy ===== *)
theory Show
  imports Doctor Rendering
begin

text \<open>
  The commands of \<^verbatim>\<open>src/main.rs\<close> that only show something: \<open>list\<close>, \<open>status\<close> with its variants,
  \<open>classify-error\<close>, \<open>config\<close> and \<open>check --reap\<close>. A command gives what it prints and its result; it is
  \<open>None\<close> when it panics. How a document is laid out as JSON or TOML is left out.
\<close>

section \<open>What is printed\<close>

record listing =
  li_name :: string
  li_url :: "string option"
  li_sha256 :: "string option"
  li_enabled :: bool
  li_interpreter :: string
  li_args :: "string list"
  li_skip_reason :: "string option"
  li_overrides :: "string list"

datatype show_line =
  Said string \<comment> \<open>a line\<close> | Printed string \<comment> \<open>text as it is\<close>
| ListDocument "listing list" | ListLine listing
| RunsDocument "run_info list" | RunInfoLine run_info | NoRunsDocument
| StatusDocument "run_header option" "result_entry list" "run_summary_entry option"
    "(string, assessment) btree" string
| FileLine json_line
| HistoryDocument string "history_entry list" assessment
| HistoryLine string history_entry | AssessmentLine string assessment
| DiffDocument run_diff | DiffLine string string diff_entry
| ClassificationDocument error_classification "(string \<times> string \<times> nat) option option"
| SettingsDocument settings | ConfigDocument config
| ReapDocument "orphan_info list"

section \<open>Listing\<close>

definition list_rows ::
  "config \<Rightarrow> bool \<Rightarrow> checksums_file \<Rightarrow> (string \<times> installer_entry \<times> installer_spec) list" where
  "list_rows cfg runnable cs =
     sort_key fst
       (filter (\<lambda>(name, entry, sp). \<not> runnable \<or> (ie_enabled entry \<and> sp_skip_reason sp = None))
         (map (\<lambda>(name, entry). (name, entry, resolve_spec name entry (map_of (cf_installers cfg) name)
                \<lparr>gd_timeout_seconds = dk_timeout_seconds (cf_docker cfg),
                 gd_retries = ex_retry_transient (cf_execution cfg)\<rparr>)) cs))"

definition list_row_text :: "string \<times> installer_entry \<times> installer_spec \<Rightarrow> string" where
  "list_row_text row =
     (case row of (name, entry, sp) \<Rightarrow>
        ''  '' @ name @ '' - '' @ command_line sp @ (if ie_sha256 entry \<noteq> None then '' sha256'' else []) @
        (case sp_skip_reason sp of Some r \<Rightarrow> '' [skip: '' @ r @ '']'' | None \<Rightarrow> []) @
        (if overridden_fields sp = [] then []
         else '' [overrides: '' @ join '', '' (overridden_fields sp) @ '']''))"

definition listing_of :: "string \<times> installer_entry \<times> installer_spec \<Rightarrow> listing" where
  "listing_of row =
     (case row of (name, entry, sp) \<Rightarrow>
        \<lparr>li_name = name, li_url = ie_url entry, li_sha256 = ie_sha256 entry, li_enabled = ie_enabled entry,
         li_interpreter = sp_interpreter sp, li_args = sp_args sp, li_skip_reason = sp_skip_reason sp,
         li_overrides = overridden_fields sp\<rparr>)"

definition cmd_list ::
  "config \<Rightarrow> bool \<Rightarrow> anyhow + checksums_file \<Rightarrow> bool \<Rightarrow> output_format \<Rightarrow> show_line list \<times> (afsc_error + unit)" where
  \<comment> \<open>whether the file exists, and what parsing it gives\<close>
  "cmd_list cfg exists_file parsed runnable fmt =
     (let path = path_join (gc_acfs_repo (cf_general cfg)) ''checksums.yaml''
      in if \<not> exists_file then ([], Inl (ConfigError (''checksums.yaml not found at '' @ debug_str path)))
         else case parsed of
           Inl e \<Rightarrow> ([], Inl (Other e))
         | Inr cs \<Rightarrow>
             (let rows = list_rows cfg runnable cs
              in case fmt of
                   Human \<Rightarrow> (Said (''Installers ('' @ show_nat (length rows) @ ''):'') #
                     map (Said \<circ> list_row_text) rows, Inr ())
                 | Json \<Rightarrow> ([ListDocument (map listing_of rows)], Inr ())
                 | _ \<Rightarrow> (map (ListLine \<circ> listing_of) rows, Inr ())))"

section \<open>Start times from file names\<close>

definition RESULTS_FORMATS :: "string list" where
  "RESULTS_FORMATS = [''%Y%m%dT%H%M%S%.3fZ'', ''%Y%m%dT%H%M%SZ'']"

fun stripped :: "nat \<Rightarrow> (string \<Rightarrow> string option) \<Rightarrow> string \<Rightarrow> string" where
  \<comment> \<open>strip again and again, at most as often as the first argument says\<close>
  "stripped 0 f s = s"
| "stripped (Suc n) f s = (case f s of Some r \<Rightarrow> stripped n f r | None \<Rightarrow> s)"

definition trim_start_matches :: "string \<Rightarrow> string \<Rightarrow> string" where
  "trim_start_matches pat s = stripped (length s) (\<lambda>x. strip_prefix x pat) s"

definition trim_end_matches :: "string \<Rightarrow> string \<Rightarrow> string" where
  "trim_end_matches pat s = stripped (length s) (\<lambda>x. strip_suffix x pat) s"

definition path_name :: "string \<Rightarrow> string" where
  "path_name path = (case rsplit_once CHR ''/'' path of Some (_, n) \<Rightarrow> n | None \<Rightarrow> path)"

definition started_at_from_path ::
  "(string \<Rightarrow> string \<Rightarrow> instant option) \<Rightarrow> (string \<Rightarrow> instant option) \<Rightarrow> string \<Rightarrow> instant" where
  \<comment> \<open>parsing a time with a format, and the modification time of a file; else the epoch\<close>
  "started_at_from_path parse modified path =
     (let rest = trim_start_matches ''results_'' (path_name path);
          stamp = (case split_on CHR ''_'' rest of s # _ \<Rightarrow> s | [] \<Rightarrow> [])
      in case find_map (\<lambda>fmt. parse fmt stamp) RESULTS_FORMATS of
           Some t \<Rightarrow> t
         | None \<Rightarrow>
             (case parse ''%Y%m%d_%H%M%S'' (trim_end_matches ''.jsonl'' rest) of
                Some t \<Rightarrow> t
              | None \<Rightarrow> unwrap_or (modified path) 0))"

section \<open>The status command\<close>

text \<open>
  What it meets: the readings of a line of JSON, the start times from file names, rounding, times as text
  (to the minute, to the second, the time of day), the names in the results directory and the files, the clock,
  and what the metrics need.
\<close>

record status_world =
  sw_js :: "string \<Rightarrow> json_view option"
  sw_stamp :: "string \<Rightarrow> instant"
  sw_F :: f64_ops
  sw_minute :: "instant \<Rightarrow> string"
  sw_second :: "instant \<Rightarrow> string"
  sw_clock :: "instant \<Rightarrow> string"
  sw_names :: "anyhow + string list"
  sw_files :: files
  sw_unreadable :: "string \<Rightarrow> anyhow"
  sw_now :: instant
  sw_shortest :: "rat \<Rightarrow> string"
  sw_validation :: "validation_report option"
  sw_snapshot :: "metrics_snapshot option"

abbreviation option_list :: "'a option \<Rightarrow> 'a list" where
  "option_list x \<equiv> (case x of Some a \<Rightarrow> [a] | None \<Rightarrow> [])"

definition stored_runs :: "status_world \<Rightarrow> string \<Rightarrow> anyhow + run_info list" where
  "stored_runs w dir =
     map_sum id (\<lambda>names. list_runs (sw_js w) (sw_stamp w) dir names (sw_files w)) (sw_names w)"

definition stored_history :: "status_world \<Rightarrow> string \<Rightarrow> anyhow + history" where
  "stored_history w dir =
     map_sum id (\<lambda>names. load_recent (sw_js w) (sw_stamp w) dir names (sw_files w) None) (sw_names w)"

definition no_run_matches :: "string \<Rightarrow> afsc_error" where
  "no_run_matches pre = Usage (''no run matches '' @ debug_str pre @ '' (try: status --list)'')"

subsection \<open>The history of an installer\<close>

definition history_row :: "status_world \<Rightarrow> history_entry \<Rightarrow> string" where
  "history_row w e =
     ''  '' @ pad_right 8 (take_chars 8 (he_run_id e)) @ ''  '' @ pad_right 16 (sw_minute w (he_started_at e)) @
     ''  '' @ pad_right 9 (he_status e) @ ''  '' @ pad_right 11 (unwrap_or (he_category e) []) @
     ''  '' @ pad_left 7 (show_nat (unat (he_duration_ms e))) @ ''ms  '' @ pad_left 4 (show_nat (he_attempts e)) @
     ''  '' @ pad_right 8 (unwrap_or (map_option (take_chars 8) (he_script_sha256 e)) []) @ ''  '' @
     unwrap_or (he_installed_version e) []"

definition bracketed :: "string option \<Rightarrow> string" where
  "bracketed label = (case label of Some l \<Rightarrow> ''  ['' @ l @ '']'' | None \<Rightarrow> [])"

definition newest_entries :: "nat option \<Rightarrow> history_entry list \<Rightarrow> history_entry list" where
  "newest_entries limit es = (case limit of Some n \<Rightarrow> drop (length es - n) es | None \<Rightarrow> es)"

definition cmd_status_history ::
  "status_world \<Rightarrow> string \<Rightarrow> string \<Rightarrow> usize option \<Rightarrow> output_format \<Rightarrow> show_line list \<times> (afsc_error + unit)" where
  "cmd_status_history w dir installer limit fmt =
     (case stored_history w dir of
        Inl e \<Rightarrow> ([], Inl (Other e))
      | Inr h \<Rightarrow>
          (let timeline = installer_timeline installer h; es = newest_entries limit timeline;
               a = assess (sw_F w) installer h
           in if timeline = []
              then ([], Inl (Usage (''no history for installer '' @ debug_str installer @ '' (known: '' @
                     join '', '' (history_installers h) @ '')'')))
              else
                (case fmt of
                   Human \<Rightarrow>
                     [Said (installer @ '': '' @ show_nat (length es) @ '' run(s)'' @
                        bracketed (assessment_label (sw_F w) a)),
                      Said (''  '' @ pad_right 8 ''run'' @ ''  '' @ pad_right 16 ''started (UTC)'' @ ''  '' @
                        pad_right 9 ''status'' @ ''  '' @ pad_right 11 ''category'' @ ''  '' @
                        pad_left 8 ''duration'' @ ''  '' @ pad_left 4 ''att'' @ ''  '' @ pad_right 8 ''script'' @
                        ''  version'')] @
                     map (Said \<circ> history_row w) es @
                     [Said (''  pass probability '' @
                        show_fixed 0 (fl (sw_F w) (am_pass_probability a * 100)) @ ''% over '' @
                        show_nat (am_trials a) @ '' trial(s) since the last script change ('' @
                        show_nat (am_script_versions a) @ '' script version(s) seen)'')]
                 | Json \<Rightarrow> [HistoryDocument installer es a]
                 | Markdown \<Rightarrow> [Printed (render_timeline (sw_F w) (sw_minute w) installer es a)]
                 | _ \<Rightarrow> map (HistoryLine installer) es @ [AssessmentLine installer a], Inr ())))"

subsection \<open>The difference of two runs\<close>

definition cmd_status_diff ::
  "status_world \<Rightarrow> string \<Rightarrow> string \<Rightarrow> string \<Rightarrow> output_format \<Rightarrow> show_line list \<times> (afsc_error + unit)" where
  "cmd_status_diff w dir a b fmt =
     (case stored_history w dir of
        Inl e \<Rightarrow> ([], Inl (Other e))
      | Inr h \<Rightarrow>
          (case history_find a h of
             None \<Rightarrow> ([], Inl (no_run_matches a))
           | Some f \<Rightarrow>
               (case history_find b h of
                  None \<Rightarrow> ([], Inl (no_run_matches b))
                | Some t \<Rightarrow>
                    (let d = diff_runs f t
                     in (case fmt of
                           Human \<Rightarrow>
                             Said (''Diff '' @ take_chars 8 (rd_from_run d) @ '' -> '' @ take_chars 8 (rd_to_run d) @
                               '': '' @ show_nat (length (rd_changes d)) @ '' changed, '' @
                               show_nat (rd_unchanged d) @ '' unchanged'') #
                             map (\<lambda>c. Said (''  '' @ pad_right 10 (de_change c) @ '' '' @ pad_right 16 (de_installer c) @
                               '' '' @ unwrap_or (de_before c) ''-'' @ '' -> '' @ unwrap_or (de_after c) ''-''))
                               (rd_changes d)
                         | Json \<Rightarrow> [DiffDocument d]
                         | Markdown \<Rightarrow> [Printed (render_diff d)]
                         | _ \<Rightarrow> map (DiffLine (rd_from_run d) (rd_to_run d)) (rd_changes d), Inr ())))))"

subsection \<open>The list of runs\<close>

definition run_row :: "status_world \<Rightarrow> run_info \<Rightarrow> string" where
  "run_row w r =
     ''  '' @ pad_right 8 (take_chars 8 (rf_run_id r)) @ ''  '' @ pad_right 20 (sw_second w (rf_started_at r)) @
     ''  '' @ pad_left 5 (show_nat (rf_total r)) @ ''  '' @ pad_left 6 (show_nat (rf_passed r)) @
     ''  '' @ pad_left 6 (show_nat (rf_failed r)) @ ''  '' @ (if rf_interrupted r then ''interrupted'' else [])"

definition no_runs_text :: string where
  "no_runs_text = ''No runs found. Run: automated_flywheel_setup_checker check''"

definition status_list :: "status_world \<Rightarrow> run_info list \<Rightarrow> output_format \<Rightarrow> show_line list" where
  "status_list w runs fmt =
     (case fmt of
        Human \<Rightarrow>
          if runs = [] then [Said no_runs_text]
          else
            [Said (''Recent runs ('' @ show_nat (length runs) @ ''), newest first:''),
             Said (''  '' @ pad_right 8 ''run'' @ ''  '' @ pad_right 20 ''started (UTC)'' @ ''  '' @
               pad_left 5 ''total'' @ ''  '' @ pad_left 6 ''passed'' @ ''  '' @ pad_left 6 ''failed'' @ ''  note'')] @
            map (Said \<circ> run_row w) runs
      | Json \<Rightarrow> [RunsDocument runs]
      | _ \<Rightarrow> map RunInfoLine runs)"

subsection \<open>One run\<close>

definition entry_icon :: "string \<Rightarrow> string" where
  "entry_icon status =
     (if status = ''passed'' then [CHR 0xE2, CHR 0x9C, CHR 0x93]
      else if status = ''failed'' then [CHR 0xE2, CHR 0x9C, CHR 0x97]
      else if status = ''timedout'' then [CHR 0xE2, CHR 0xA7, CHR 0x96]
      else if status = ''cancelled'' then [CHR 0xE2, CHR 0x8A, CHR 0x98]
      else if status = ''skipped'' then ''-'' else ''?'')"

definition entry_text :: "f64_ops \<Rightarrow> (string, assessment) btree \<Rightarrow> result_entry \<Rightarrow> string" where
  "entry_text F assessments e =
     ''  '' @ entry_icon (re_status e) @ '' '' @ re_installer_name e @ '' ('' @
     show_nat (unat (re_duration_ms e)) @ ''ms'' @
     (if re_retry_count e > 0 then '', '' @ show_nat (unat (re_retry_count e)) @ '' retries'' else []) @ '')'' @
     (if re_sha256_verified e then '' sha256'' else []) @
     bracketed (Option.bind (map_of assessments (re_installer_name e)) (assessment_label F))"

definition mib :: "f64_ops \<Rightarrow> u64 \<Rightarrow> string" where
  "mib F b = show_fixed 1 (fl F (fl F (of_nat (unat b)) / (1024 * 1024)))"

definition attempt_text :: "attempt_entry \<Rightarrow> string" where
  "attempt_text a =
     ''      attempt '' @ show_nat (unat (ae_index a)) @ '': '' @ ae_status a @ '' exit='' @
     (case ae_exit_code a of Some c \<Rightarrow> show_int c | None \<Rightarrow> ''-'') @ '' '' @
     show_nat (unat (ae_duration_ms a)) @ ''ms waited='' @ show_nat (unat (ae_waited_before_ms a)) @ ''ms''"

definition entry_details :: "f64_ops \<Rightarrow> result_entry \<Rightarrow> string list option" where
  "entry_details F e =
     map_option
       (\<lambda>remediation.
          (if re_stderr_excerpt e \<noteq> [] \<and> re_status e \<noteq> ''passed''
           then [''      stderr: '' @ join (nl # ''      '') (take 3 (lines (re_stderr_excerpt e)))] else []) @
          (case re_error_classification e of
             Some c \<Rightarrow> [''      error: '' @ ee_category c @ '' ('' @ ee_severity c @ '', retryable='' @
               (if ee_retryable c then ''true'' else ''false'') @ '', confidence='' @
               show_fixed 0 (fl F (ee_confidence c * 100)) @ ''%)'']
           | None \<Rightarrow> []) @
          (if re_checksum_state e \<noteq> [] then [''      checksum: '' @ re_checksum_state e] else []) @
          (case re_telemetry e of
             Some t \<Rightarrow> [''      resources: peak memory '' @ mib F (peak_memory_bytes t) @ '' MiB, cpu '' @
               show_fixed 1 (cpu_seconds t) @ ''s, net rx '' @ mib F (network_rx_bytes t) @ '' MiB / tx '' @
               mib F (network_tx_bytes t) @ '' MiB ('' @ show_nat (unat (samples t)) @ '' samples)'']
           | None \<Rightarrow> []) @
          remediation @ map attempt_text (re_attempts e))
       (case re_remediation e of
          Some r \<Rightarrow> map_option (\<lambda>d. [''      remediation: '' @ d]) (describe r)
        | None \<Rightarrow> Some [])"

fun entries_text ::
  "f64_ops \<Rightarrow> (string, assessment) btree \<Rightarrow> bool \<Rightarrow> result_entry list \<Rightarrow> string list option" where
  "entries_text F assessments detailed [] = Some []"
| "entries_text F assessments detailed (e # es) =
     Option.bind (if detailed then entry_details F e else Some [])
       (\<lambda>ds. map_option (\<lambda>rest. entry_text F assessments e # ds @ rest) (entries_text F assessments detailed es))"

definition summary_text :: "status_world \<Rightarrow> run_header option \<Rightarrow> run_summary_entry \<Rightarrow> string list" where
  "summary_text w header s =
     [''Last run: '' @ take_chars 8 (su_run_id s) @ '' ('' @ show_nat (su_total s) @ '' total, '' @
        show_nat (su_passed s) @ '' passed, '' @ show_nat (su_failed s) @ '' failed, '' @
        show_nat (su_skipped s) @ '' skipped'' @ (if su_interrupted s then '', interrupted'' else []) @ '')'',
      ''Duration: '' @ show_nat (unat (su_duration_total_ms s)) @ ''ms'',
      ''Time: '' @ sw_second w (su_timestamp_start s) @ '' - '' @ sw_clock w (su_timestamp_end s)] @
     (case header of
        Some h \<Rightarrow> [''Backend: '' @ rh_backend h @
          (case rh_image h of Some i \<Rightarrow> '' ('' @ i @ '')'' | None \<Rightarrow> []) @
          ''  parallel='' @ show_nat (rh_parallel h) @ ''  timeout='' @ show_nat (unat (rh_timeout_seconds h)) @
          ''s  retries='' @ show_nat (unat (rh_retries h))]
      | None \<Rightarrow> []) @ [[]]"

definition status_human ::
  "status_world \<Rightarrow> (string, assessment) btree \<Rightarrow> bool \<Rightarrow> string \<Rightarrow> run_file \<Rightarrow> show_line list option" where
  "status_human w assessments detailed path f =
     map_option
       (\<lambda>es. map Said ((case fl_summary f of Some s \<Rightarrow> summary_text w (fl_header f) s | None \<Rightarrow> []) @ es @
          [nl # ''Results file: '' @ path]))
       (entries_text (sw_F w) assessments detailed (fl_entries f))"

definition status_assessments :: "f64_ops \<Rightarrow> history \<Rightarrow> result_entry list \<Rightarrow> (string, assessment) btree" where
  "status_assessments F h es =
     (if length h > 1
      then bt_extend (map (\<lambda>e. (re_installer_name e, assess F (re_installer_name e) h)) es) [] else [])"

definition status_markdown ::
  "status_world \<Rightarrow> history \<Rightarrow> (string, assessment) btree \<Rightarrow> string \<Rightarrow> run_file \<Rightarrow> string" where
  "status_markdown w h assessments path f =
     (let run_id = (case fl_header f of
                      Some x \<Rightarrow> rh_run_id x
                    | None \<Rightarrow> (case fl_summary f of Some s \<Rightarrow> su_run_id s | None \<Rightarrow> []))
      in render_run (sw_F w) (sw_minute w)
           (case history_find run_id h of
              Some run \<Rightarrow> run
            | None \<Rightarrow>
                \<lparr>lr_info = \<lparr>rf_path = path, rf_run_id = run_id, rf_started_at = sw_now w,
                    rf_total = length (fl_entries f), rf_passed = 0, rf_failed = 0, rf_interrupted = False\<rparr>,
                 lr_header = fl_header f, lr_entries = [], lr_summary = fl_summary f\<rparr>)
           assessments)"

definition show_run ::
  "status_world \<Rightarrow> string \<Rightarrow> bool \<Rightarrow> string \<Rightarrow> output_format \<Rightarrow> (show_line list \<times> (afsc_error + unit)) option" where
  "show_run w dir detailed path fmt =
     (case read_run_file (sw_js w) (sw_files w) path of
        None \<Rightarrow> Some ([], Inl (Other (sw_unreadable w path)))
      | Some f \<Rightarrow>
          (let h = (case stored_history w dir of Inr h \<Rightarrow> h | Inl _ \<Rightarrow> []);
               assessments = status_assessments (sw_F w) h (fl_entries f)
           in map_option (\<lambda>out. (out, Inr ()))
                (case fmt of
                   Markdown \<Rightarrow> Some [Printed (status_markdown w h assessments path f)]
                 | Human \<Rightarrow> status_human w assessments detailed path f
                 | Json \<Rightarrow> Some [StatusDocument (fl_header f) (fl_entries f) (fl_summary f) assessments path]
                 | _ \<Rightarrow> Some (map (FileLine \<circ> RunLine) (option_list (fl_header f)) @
                     map (FileLine \<circ> ResultLine) (fl_entries f) @
                     map (FileLine \<circ> SummaryLine) (option_list (fl_summary f))))))"

definition selected_run :: "string option \<Rightarrow> run_info list \<Rightarrow> afsc_error + string option" where
  "selected_run run runs =
     (case run of
        Some pre \<Rightarrow>
          (case find_run pre runs of Some info \<Rightarrow> Inr (Some (rf_path info)) | None \<Rightarrow> Inl (no_run_matches pre))
      | None \<Rightarrow> Inr (latest_results runs))"

definition cmd_status ::
  "status_world \<Rightarrow> string \<Rightarrow> config \<Rightarrow> status_args \<Rightarrow> output_format
    \<Rightarrow> (show_line list \<times> (afsc_error + unit)) option" where
  \<comment> \<open>\<open>dir\<close>: the results directory of the configuration\<close>
  "cmd_status w dir cfg a fmt =
     (case sa_history a of
        Some installer \<Rightarrow> Some (cmd_status_history w dir installer (sa_last a) fmt)
      | None \<Rightarrow>
        (case sa_diff a of
          [x, y] \<Rightarrow> Some (cmd_status_diff w dir x y fmt)
        | _ \<Rightarrow>
          if fmt = Prometheus then
            Some (case from_data_dir (sw_F w) (stored_history w dir) (sw_validation w) (sw_snapshot w) (sw_now w)
                         (mo_stale_after_seconds (cf_monitoring cfg)) of
                    Inl e \<Rightarrow> ([], Inl (Other e))
                  | Inr r \<Rightarrow> ([Printed (to_prometheus (sw_F w) (sw_shortest w) r)], Inr ()))
          else
            (case stored_runs w dir of
               Inl e \<Rightarrow> Some ([], Inl (Other e))
             | Inr runs \<Rightarrow>
                 if sa_list a then Some (status_list w runs fmt, Inr ())
                 else
                   (case selected_run (sa_run a) runs of
                      Inl e \<Rightarrow> Some ([], Inl e)
                    | Inr None \<Rightarrow>
                        Some ([if fmt = Human then Said no_runs_text else NoRunsDocument], Inr ())
                    | Inr (Some path) \<Rightarrow> show_run w dir (sa_detailed a) path fmt))))"

section \<open>The other commands\<close>

definition cmd_classify_error ::
  "regex_crate \<Rightarrow> f64_ops \<Rightarrow> string \<Rightarrow> i32 \<Rightarrow> bool \<Rightarrow> output_format \<Rightarrow> show_line list" where
  "cmd_classify_error rx F stderr code why fmt =
     (let c = classify_error rx stderr code; ex = (if why then explain rx stderr code else None)
      in case fmt of
           Human \<Rightarrow> map Said
             ([''Error Classification:'', ''  Severity: '' @ severity_debug (ec_severity c),
               ''  Category: '' @ ec_category c,
               ''  Retryable: '' @ (if ec_retryable c then ''true'' else ''false''),
               ''  Confidence: '' @ show_fixed 0 (fl F (ec_confidence c * 100)) @ ''%''] @
              (case ec_suggestion c of Some s \<Rightarrow> [''  Suggestion: '' @ s] | None \<Rightarrow> []) @
              (if why
               then [case ex of
                       Some (cat, pattern, offset) \<Rightarrow>
                         ''  Matched: '' @ cat @ '' via `'' @ pattern @ ''` at byte '' @ show_nat offset
                     | None \<Rightarrow> ''  Matched: no pattern (fallback classification)'']
               else []))
         | _ \<Rightarrow> [ClassificationDocument c (if why then Some ex else None)])"

text \<open>\<open>pretty\<close> is the TOML text of a configuration, \<open>sv\<close> that of a value; either may fail.\<close>

definition show_config ::
  "(config \<Rightarrow> anyhow + string) \<Rightarrow> string \<Rightarrow> config \<Rightarrow> output_format \<Rightarrow> show_line list \<times> (afsc_error + unit)" where
  "show_config pretty title cfg fmt =
     (if fmt = Human
      then (case pretty cfg of
              Inl e \<Rightarrow> ([Said title], Inl (Other e))
            | Inr t \<Rightarrow> ([Said title, Said t], Inr ()))
      else ([ConfigDocument cfg], Inr ()))"

definition cmd_config ::
  "(config \<Rightarrow> anyhow + string) \<Rightarrow> (settings \<Rightarrow> anyhow + string) \<Rightarrow> config_cmd \<Rightarrow> settings \<Rightarrow> output_format
    \<Rightarrow> show_line list \<times> (afsc_error + unit)" where
  \<comment> \<open>the second argument is \<open>render_annotated\<close>\<close>
  "cmd_config pretty annotated cmd s fmt =
     (case cmd of
        ShowConfig resolved \<Rightarrow>
          if \<not> resolved then show_config pretty ''Current configuration:'' (st_config s) fmt
          else if fmt = Human
          then (case annotated s of
                  Inl e \<Rightarrow> ([Said ''# Resolved configuration (value  # source)''], Inl (Other e))
                | Inr t \<Rightarrow> ([Said ''# Resolved configuration (value  # source)'', Printed t], Inr ()))
          else ([SettingsDocument s], Inr ())
      | DefaultConfig \<Rightarrow> show_config pretty ''Default configuration:'' default_config fmt
      | ValidateConfig strict \<Rightarrow>
          (case st_config_path s of
             None \<Rightarrow> ([Said ''No configuration file specified, using defaults''], Inr ())
           | Some path \<Rightarrow>
               let warnings = map (\<lambda>k. Said (''WARN: unknown configuration key: '' @ k)) (st_unknown_keys s)
               in if strict \<and> st_unknown_keys s \<noteq> []
                  then (warnings, Inl (ConfigError (''Configuration file has '' @
                         show_nat (length (st_unknown_keys s)) @ '' unknown key(s): '' @ debug_str path)))
                  else (warnings @ [Said (''Configuration file is valid: '' @ debug_str path)], Inr ())))"

definition reaped_lines :: "orphan_info list \<Rightarrow> output_format \<Rightarrow> show_line list" where
  "reaped_lines os fmt =
     (if fmt = Human
      then if os = [] then [Said ''No orphaned containers found'']
           else Said (''Removed '' @ show_nat (length os) @ '' orphaned container(s):'') #
             map (\<lambda>c. Said (''  '' @ oi_name c @ '' ('' @ oi_reason c @ '')'')) os
      else [ReapDocument os])"

definition cmd_reap ::
  "anyhow + unit \<Rightarrow> anyhow + unit \<Rightarrow> (duration \<Rightarrow> anyhow + orphan_info list) \<Rightarrow> config \<Rightarrow> output_format
    \<Rightarrow> show_line list \<times> (afsc_error + unit)" where
  \<comment> \<open>the client, its preflight, and reaping with an age in seconds\<close>
  "cmd_reap client preflight reap cfg fmt =
     (let infra = (\<lambda>e. ([], Inl (Infra (err_msg e))))
      in case client of
           Inl e \<Rightarrow> infra e
         | Inr _ \<Rightarrow>
             (case preflight of
                Inl e \<Rightarrow> infra e
              | Inr _ \<Rightarrow>
                  (case reap (reap_age cfg) of
                     Inl e \<Rightarrow> infra e
                   | Inr os \<Rightarrow> (reaped_lines os fmt, Inr ()))))"

section \<open>Lemmas\<close>

text \<open>The history has the listed runs in their order, with what their files hold.\<close>

definition loaded_from :: "(string \<Rightarrow> json_view option) \<Rightarrow> files \<Rightarrow> run_info \<Rightarrow> loaded_run" where
  "loaded_from js fs info =
     (let f = (case read_run_file js fs (rf_path info) of Some f \<Rightarrow> f | None \<Rightarrow> empty_run_file)
      in \<lparr>lr_info = info, lr_header = fl_header f, lr_entries = fl_entries f, lr_summary = fl_summary f\<rparr>)"

lemma loaded_from_info [simp]: "lr_info (loaded_from js fs info) = info"
  by (simp add: loaded_from_def Let_def)

lemma listed_runs_are_readable:
  assumes "info \<in> set (list_runs js st dir names fs)"
  obtains f where "read_run_file js fs (rf_path info) = Some f" "info = run_info_of st (rf_path info) f"
  using assms by (auto simp: list_runs_def set_map_filter)

lemma load_recent_loaded:
  "load_recent js st dir names fs None = map (loaded_from js fs) (list_runs js st dir names fs)"
proof -
  have "List.map_filter (\<lambda>info. map_option
      (\<lambda>f. \<lparr>lr_info = info, lr_header = fl_header f, lr_entries = fl_entries f, lr_summary = fl_summary f\<rparr>)
      (read_run_file js fs (rf_path info))) rs = map (loaded_from js fs) rs"
    if "\<forall>r\<in>set rs. \<exists>f. read_run_file js fs (rf_path r) = Some f" for rs
    using that by (induction rs) (auto simp: map_filter_simps loaded_from_def)
  moreover have "\<forall>r\<in>set (list_runs js st dir names fs). \<exists>f. read_run_file js fs (rf_path r) = Some f"
    by (metis listed_runs_are_readable)
  ultimately show ?thesis by (simp add: load_recent_def)
qed

lemma history_find_loaded:
  "history_find pre (map (loaded_from js fs) rs) = map_option (loaded_from js fs) (find_run pre rs)"
  by (induction rs) (auto simp: history_find_def latest_run_def find_run_def run_id_of_def split: list.splits)

text \<open>A run found by a prefix of its id is found by its id.\<close>

lemma find_by_id:
  assumes "find (\<lambda>r. prefix pre (f r)) rs = Some r"
  shows "find (\<lambda>q. prefix (f r) (f q)) rs = Some r"
proof -
  have "prefix pre (f r)" using assms by (auto simp: find_Some_iff)
  then have "prefix pre (f q)" if "prefix (f r) (f q)" for q
    using that by (rule prefix_order.trans)
  with assms show ?thesis by (induction rs) (auto split: if_splits)
qed

lemma find_run_by_id:
  assumes "find_run pre rs = Some r" "\<not> eq_ignore_ascii_case (rf_run_id r) ''last''"
  shows "find_run (rf_run_id r) rs = Some r"
  using assms find_by_id [of pre rf_run_id rs r] by (auto simp: find_run_def split: if_splits list.splits)

lemma find_run_member: "find_run pre rs = Some r \<Longrightarrow> r \<in> set rs"
  by (auto simp: find_run_def find_Some_iff split: if_splits list.splits)

lemma selected_run_found:
  assumes "selected_run sel runs = Inr (Some path)"
  obtains info where "find_run (unwrap_or sel ''last'') runs = Some info" "rf_path info = path"
proof -
  have "eq_ignore_ascii_case ''last'' ''last''" by code_simp
  then show ?thesis
    using assms that
    by (auto simp: selected_run_def latest_results_def find_run_def split: option.splits list.splits if_splits)
qed

lemma run_info_of_id:
  "rf_run_id (run_info_of st p f) =
     (case fl_header f of Some x \<Rightarrow> rh_run_id x
      | None \<Rightarrow> (case fl_summary f of Some s \<Rightarrow> su_run_id s | None \<Rightarrow> []))"
  by (simp add: run_info_of_def split: option.splits prod.splits)

section \<open>Properties\<close>

text \<open>
  C18: status shows the run that was selected, in every format. Without \<open>--run\<close> that is the newest run,
  with it the newest whose id has the prefix. JSON and Markdown are both made of what that run's file holds, and the
  Markdown, which looks its run up again by id, never shows another: unless a run is called \<open>last\<close>.
\<close>

theorem status_shows_the_selected_run:
  assumes "sa_history a = None" "sa_diff a = []" "\<not> sa_list a"
    and "stored_runs w dir = Inr runs"
    and "selected_run (sa_run a) runs = Inr (Some path)"
    and "\<forall>r\<in>set runs. \<not> eq_ignore_ascii_case (rf_run_id r) ''last''"
  shows "\<exists>run f. run \<in> set (map (loaded_from (sw_js w) (sw_files w)) runs) \<and>
    find_run (unwrap_or (sa_run a) ''last'') runs = Some (lr_info run) \<and>
    rf_path (lr_info run) = path \<and> read_run_file (sw_js w) (sw_files w) path = Some f \<and>
    lr_header run = fl_header f \<and> lr_entries run = fl_entries f \<and> lr_summary run = fl_summary f \<and>
    (\<exists>assessments.
      cmd_status w dir cfg a Markdown = Some ([Printed (render_run (sw_F w) (sw_minute w) run assessments)], Inr ()) \<and>
      cmd_status w dir cfg a Json =
        Some ([StatusDocument (lr_header run) (lr_entries run) (lr_summary run) assessments path], Inr ()))"
proof -
  obtain names where names: "sw_names w = Inr names"
    and runs: "runs = list_runs (sw_js w) (sw_stamp w) dir names (sw_files w)"
    using assms(4) by (cases "sw_names w") (auto simp: stored_runs_def)
  obtain info where found: "find_run (unwrap_or (sa_run a) ''last'') runs = Some info" and path: "rf_path info = path"
    using assms(5) by (rule selected_run_found)
  then have info: "info \<in> set runs" by (simp add: find_run_member)
  then obtain f where f: "read_run_file (sw_js w) (sw_files w) path = Some f" "info = run_info_of (sw_stamp w) path f"
    using path runs by (metis listed_runs_are_readable)
  let ?run = "loaded_from (sw_js w) (sw_files w) info"
  have run: "lr_header ?run = fl_header f" "lr_entries ?run = fl_entries f" "lr_summary ?run = fl_summary f"
    using f(1) path by (simp_all add: loaded_from_def)
  have h: "stored_history w dir = Inr (map (loaded_from (sw_js w) (sw_files w)) runs)"
    by (simp add: stored_history_def names runs load_recent_loaded)
  have "find_run (rf_run_id info) runs = Some info"
    using find_run_by_id [OF found] info assms(6) by simp
  then have "history_find (rf_run_id info) (map (loaded_from (sw_js w) (sw_files w)) runs) = Some ?run"
    by (simp add: history_find_loaded)
  moreover have "rf_run_id info = (case fl_header f of Some x \<Rightarrow> rh_run_id x
      | None \<Rightarrow> (case fl_summary f of Some s \<Rightarrow> su_run_id s | None \<Rightarrow> []))"
    by (simp add: f(2) run_info_of_id)
  ultimately have md: "status_markdown w (map (loaded_from (sw_js w) (sw_files w)) runs) as path f =
      render_run (sw_F w) (sw_minute w) ?run as" for as
    by (simp add: status_markdown_def Let_def)
  let ?as = "status_assessments (sw_F w) (map (loaded_from (sw_js w) (sw_files w)) runs) (fl_entries f)"
  have "cmd_status w dir cfg a Markdown = Some ([Printed (render_run (sw_F w) (sw_minute w) ?run ?as)], Inr ())"
    "cmd_status w dir cfg a Json =
        Some ([StatusDocument (lr_header ?run) (lr_entries ?run) (lr_summary ?run) ?as path], Inr ())"
    using assms(1-5) f(1) by (simp_all add: cmd_status_def show_run_def h md run Let_def)
  with info found path f(1) run show ?thesis by (intro exI [of _ ?run] exI [of _ f]) auto
qed

lemma listed_path: "info \<in> set (list_runs js st dir names fs) \<Longrightarrow> rf_path info \<in> set (result_files dir names)"
  by (auto simp: list_runs_def set_map_filter)

lemma results_filename_listed: "is_results_name (results_filename stamp rid)"
  by (simp add: is_results_name_def results_filename_def suffix_def)

lemma persisted_file:
  assumes "persist_with_header enc dir stamp now h i results = (ops, path)"
  shows "path = dir @ ''/'' @ results_filename stamp (rh_run_id h)"
    "fold fs_apply ops fs path = Some (run_text enc (run_lines h i now results))"
  using assms results.complete by (auto simp: persist_with_header_def Let_def)

lemma head_is_newest:
  assumes "r \<in> set (newest_first rs)"
  shows "\<exists>q qs. newest_first rs = q # qs \<and> run_age r \<le> run_age q"
  using assms newest_first_sorted [of rs] by (cases "newest_first rs") auto

text \<open>
  C16: \<open>status\<close> prints what \<open>check\<close> stored. After a run was persisted, \<open>status --format jsonl\<close> prints exactly the
  lines of its file, header, results in order and summary, provided every line of JSON reads back and the
  other runs in the directory started before it.
\<close>

theorem status_prints_the_stored_run:
  assumes "\<forall>l\<in>set (run_lines h i now results). codec_line enc (sw_js w) l"
    and "persist_with_header enc dir stamp now h i results = (ops, path)"
    and "sw_files w = fold fs_apply ops fs"
    and "sw_names w = Inr names" "results_filename stamp (rh_run_id h) \<in> set names"
    and "\<forall>r\<in>set (list_runs (sw_js w) (sw_stamp w) dir names (sw_files w)).
           rf_path r = path \<or> rf_started_at r < rh_started_at h"
    and "sa_history a = None" "sa_diff a = []" "\<not> sa_list a" "sa_run a = None"
  shows "cmd_status w dir cfg a Jsonl = Some (map FileLine (run_lines h i now results), Inr ())"
proof -
  let ?runs = "list_runs (sw_js w) (sw_stamp w) dir names (sw_files w)"
  let ?f = "\<lparr>fl_header = Some h, fl_entries = map entry_from results, fl_summary = Some (summary_of h i now results)\<rparr>"
  let ?info = "run_info_of (sw_stamp w) path ?f"
  have f: "read_run_file (sw_js w) (sw_files w) path = Some ?f"
    using persisted_file(2) [OF assms(2)] read_run_text_lines [OF assms(1)]
    by (simp add: read_run_file_def assms(3) run_lines_def add_results empty_run_file_def)
  have "path \<in> set (result_files dir names)"
    using assms(5) results_filename_listed persisted_file(1) [OF assms(2)] by (auto simp: result_files_def)
  with f have "?info \<in> set ?runs" by (force simp: list_runs_def set_map_filter)
  then obtain q qs where q: "?runs = q # qs" "run_age ?info \<le> run_age q"
    unfolding list_runs_def by (blast dest: head_is_newest)
  have "rf_started_at ?info = rh_started_at h" by (simp add: run_info_of_def split: prod.split)
  with q assms(6) have "rf_path q = path" by (auto simp: run_age_def)
  with q(1) assms(4) assms(7-) show ?thesis
    by (simp add: cmd_status_def stored_runs_def selected_run_def latest_results_def show_run_def f Let_def run_lines_def)
qed

text \<open>
  \<open>list --runnable\<close> and \<open>check\<close>. The list shows, sorted by name, the installers that a check of everything
  tests, whatever the timeouts and retries on the command line, and besides them the enabled ones without a URL,
  which a check passes over without a result.
\<close>

theorem runnable_list_against_check:
  "\<exists>ls. cmd_list cfg True (Inr cs) True Json = ([ListDocument ls], Inr ()) \<and> sorted (map li_name ls) \<and>
    set (map li_name ls) =
      set (map it_name (runnable_tests (check_specs cfg opts [] manifest h cs))) \<union>
      {n. \<exists>e. (n, e) \<in> set cs \<and> ie_enabled e \<and> unwrap_or (ie_url e) [] = [] \<and>
         resolve_skip (map_of (cf_installers cfg) n) = None} \<and>
    (\<forall>t\<in>set (runnable_tests (check_specs cfg opts [] manifest h cs)). it_url t \<noteq> [])"
proof -
  let ?specs = "check_specs cfg opts [] manifest h cs"
  let ?spec = "\<lambda>(n, e). resolve_spec n e (map_of (cf_installers cfg) n)
      \<lparr>gd_timeout_seconds = op_timeout opts, gd_retries = op_retries opts\<rparr>"
  have "set ?specs = ?spec ` {(n, e) \<in> set cs. ie_enabled e}"
    by (auto simp: check_specs_def enabled_entries_def image_iff
        simp flip: set_mset_mset simp: mset_order_specs)
  then have tests: "set (map it_name (runnable_tests ?specs)) = {n. \<exists>e. (n, e) \<in> set cs \<and> ie_enabled e \<and>
      unwrap_or (ie_url e) [] \<noteq> [] \<and> resolve_skip (map_of (cf_installers cfg) n) = None}"
    unfolding runnable_names set_map set_filter
    by (simp add: Collect_conj_eq2 image_iff set_eq_iff Bex_def resolved_fields) (force simp: resolved_fields)
  have rows: "map li_name (map listing_of (list_rows cfg True cs)) = map fst (list_rows cfg True cs)"
    by (simp add: listing_of_def comp_def split: prod.split)
  have "set (map fst (list_rows cfg True cs)) = {n. \<exists>e. (n, e) \<in> set cs \<and> ie_enabled e \<and>
      resolve_skip (map_of (cf_installers cfg) n) = None}"
    by (force simp: list_rows_def resolved_fields)
  then have "set (map fst (list_rows cfg True cs)) = set (map it_name (runnable_tests ?specs)) \<union>
      {n. \<exists>e. (n, e) \<in> set cs \<and> ie_enabled e \<and> unwrap_or (ie_url e) [] = [] \<and>
         resolve_skip (map_of (cf_installers cfg) n) = None}"
    unfolding tests by blast
  moreover have "sorted (map fst (list_rows cfg True cs))" by (simp add: list_rows_def)
  moreover have "\<forall>t\<in>set (runnable_tests ?specs). it_url t \<noteq> []"
    by (auto simp: runnable_tests_def to_test_fields)
  ultimately show ?thesis
    by (intro exI [of _ "map listing_of (list_rows cfg True cs)"])
      (simp only: rows, simp add: cmd_list_def Let_def)
qed

section \<open>Sample input\<close>

definition sample_results :: "test_result list" where
  "sample_results = [passed 7 (test_result_new 6 ''uv'')]"

definition sample_status_world :: "files \<Rightarrow> status_world" where
  "sample_status_world fs =
     \<lparr>sw_js = sample_js sample_header (entry_from (hd sample_results)) (summary_of sample_header False 9 sample_results),
      sw_stamp = \<lambda>_. 0, sw_F = exact_f64, sw_minute = \<lambda>_. ''m'', sw_second = \<lambda>_. ''s'', sw_clock = \<lambda>_. ''c'',
      sw_names = Inr [results_filename ''t'' ''ab-12''], sw_files = fs, sw_unreadable = \<lambda>p. [p], sw_now = 10,
      sw_shortest = \<lambda>_. ''1'', sw_validation = None, sw_snapshot = None\<rparr>"

definition plain_status :: status_args where
  "plain_status =
     \<lparr>sa_detailed = False, sa_list = False, sa_run = None, sa_history = None, sa_last = None, sa_diff = []\<rparr>"

lemma sample_header_id: "rh_run_id sample_header = ''ab-12''"
  by (simp add: sample_header_def run_header_new_def)

lemma sample_codec_lines:
  "\<forall>l\<in>set (run_lines sample_header False 9 sample_results). codec_line sample_enc (sw_js (sample_status_world fs)) l"
proof -
  have "trim ''h'' = ''h'' \<and> trim ''r'' = ''r'' \<and> trim ''s'' = ''s'' \<and> chop_cr ''h'' = ''h'' \<and>
      chop_cr ''r'' = ''r'' \<and> chop_cr ''s'' = ''s''" by code_simp
  then show ?thesis
    by (simp add: sample_results_def run_lines_def codec_line_def sample_enc_def sample_js_def sample_status_world_def)
qed

lemma sample_listed:
  assumes "persist_with_header sample_enc ''d'' ''t'' 9 sample_header False sample_results = (ops, path)"
    and "r \<in> set (list_runs js st ''d'' [results_filename ''t'' ''ab-12''] fs)"
  shows "rf_path r = path"
  using listed_path [OF assms(2)] persisted_file(1) [OF assms(1)] by (simp add: result_files_def sample_header_id split: if_splits)

theorem status_prints_the_stored_run_witness:
  "\<exists>w. cmd_status w ''d'' default_config plain_status Jsonl =
     Some (map FileLine (run_lines sample_header False 9 sample_results), Inr ())"
proof -
  obtain ops path where ops:
    "persist_with_header sample_enc ''d'' ''t'' 9 sample_header False sample_results = (ops, path)" by fastforce
  let ?w = "sample_status_world (fold fs_apply ops Map.empty)"
  have "cmd_status ?w ''d'' default_config plain_status Jsonl =
     Some (map FileLine (run_lines sample_header False 9 sample_results), Inr ())"
  proof (rule status_prints_the_stored_run [OF sample_codec_lines ops])
    show "sw_names ?w = Inr [results_filename ''t'' ''ab-12'']" by (simp add: sample_status_world_def)
    show "results_filename ''t'' (rh_run_id sample_header) \<in> set [results_filename ''t'' ''ab-12'']"
      unfolding sample_header_id by (rule list.set_intros)
    show "\<forall>r\<in>set (list_runs (sw_js ?w) (sw_stamp ?w) ''d'' [results_filename ''t'' ''ab-12''] (sw_files ?w)).
        rf_path r = path \<or> rf_started_at r < rh_started_at sample_header"
      using sample_listed [OF ops] by blast
  qed (simp_all add: sample_status_world_def plain_status_def)
  then show ?thesis by blast
qed

theorem status_shows_the_selected_run_witness:
  "\<exists>w run assessments. cmd_status w ''d'' default_config plain_status Markdown =
     Some ([Printed (render_run exact_f64 (\<lambda>_. ''m'') run assessments)], Inr ()) \<and> lr_header run = Some sample_header"
proof -
  obtain ops path where ops:
    "persist_with_header sample_enc ''d'' ''t'' 9 sample_header False sample_results = (ops, path)" by fastforce
  let ?w = "sample_status_world (fold fs_apply ops Map.empty)"
  let ?f = "\<lparr>fl_header = Some sample_header, fl_entries = map entry_from sample_results,
      fl_summary = Some (summary_of sample_header False 9 sample_results)\<rparr>"
  let ?runs = "[run_info_of (\<lambda>_. 0) path ?f]"
  have f: "read_run_file (sw_js ?w) (sw_files ?w) path = Some ?f"
    using persisted_file(2) [OF ops, of Map.empty] read_run_text_lines [OF sample_codec_lines]
    by (simp add: read_run_file_def run_lines_def add_results empty_run_file_def sample_status_world_def)
  have "result_files ''d'' [results_filename ''t'' ''ab-12''] = [path]"
    using results_filename_listed persisted_file(1) [OF ops] by (simp add: result_files_def sample_header_id)
  then have runs: "stored_runs ?w ''d'' = Inr ?runs"
    using f by (simp add: stored_runs_def sample_status_world_def list_runs_def newest_first_def map_filter_simps)
  have "rf_run_id (run_info_of (\<lambda>_. 0) path ?f) = ''ab-12''" by (simp add: run_info_of_id sample_header_id)
  moreover have "\<not> eq_ignore_ascii_case ''ab-12'' ''last''" by code_simp
  ultimately have "\<forall>r\<in>set ?runs. \<not> eq_ignore_ascii_case (rf_run_id r) ''last''" by simp
  from status_shows_the_selected_run [OF _ _ _ runs _ this, of plain_status path default_config]
  obtain run assessments where "cmd_status ?w ''d'' default_config plain_status Markdown =
      Some ([Printed (render_run (sw_F ?w) (sw_minute ?w) run assessments)], Inr ())" "lr_header run = fl_header ?f"
    using f by (auto simp: plain_status_def selected_run_def latest_results_def)
  then show ?thesis by (auto simp: sample_status_world_def)
qed

end
