(* ===== verification/EventLog.thy ===== *)
theory EventLog
  imports Persist Config
begin

text \<open>
  The event log of a run (\<^verbatim>\<open>src/reporting/eventlog.rs\<close>) over the levelled reporter of
  \<^verbatim>\<open>src/reporting/jsonl.rs\<close>: the builders of its entries, opening with pruning, and its events. What
  an event carries is the text of a JSON value.
\<close>

section \<open>Entries\<close>

definition log_info :: "instant \<Rightarrow> string \<Rightarrow> string \<Rightarrow> log_entry" where "log_info now = log_entry_new now Info"
definition log_error :: "instant \<Rightarrow> string \<Rightarrow> string \<Rightarrow> log_entry" where "log_error now = log_entry_new now Error"
definition log_warn :: "instant \<Rightarrow> string \<Rightarrow> string \<Rightarrow> log_entry" where "log_warn now = log_entry_new now Warn"
definition log_debug :: "instant \<Rightarrow> string \<Rightarrow> string \<Rightarrow> log_entry" where "log_debug now = log_entry_new now Debug"

definition with_data :: "string \<Rightarrow> log_entry \<Rightarrow> log_entry" where "with_data d e = e\<lparr>lg_data := d\<rparr>"
definition with_duration_ms :: "u64 \<Rightarrow> log_entry \<Rightarrow> log_entry" where
  "with_duration_ms ms e = e\<lparr>lg_duration_ms := Some ms\<rparr>"
definition with_error :: "string \<Rightarrow> log_entry \<Rightarrow> log_entry" where "with_error t e = e\<lparr>lg_error := Some t\<rparr>"
definition with_correlation_id :: "string \<Rightarrow> log_entry \<Rightarrow> log_entry" where
  "with_correlation_id i e = e\<lparr>lg_correlation_id := Some i\<rparr>"
definition with_installer :: "string \<Rightarrow> log_entry \<Rightarrow> log_entry" where
  "with_installer n e = e\<lparr>lg_installer := Some n\<rparr>"

section \<open>The log\<close>

record event_log =
  el_reporter :: jsonl_reporter
  el_path :: string
  el_run_id :: string

definition LOG_PREFIX :: string where "LOG_PREFIX = ''checker''"

definition event_log_open ::
  "(nat \<Rightarrow> string) \<Rightarrow> string \<Rightarrow> string list option \<Rightarrow> string \<Rightarrow> u32 \<Rightarrow> string \<Rightarrow> string list \<times> event_log" where
  \<comment> \<open>the names pruned and the log; \<open>days_ago\<close> gives the date that many days ago, \<open>names\<close> is what reading the
    directory gives (an error is only logged); the file is opened for appending\<close>
  "event_log_open days_ago today names dir retention run_id =
     ((case names of
         Some ns \<Rightarrow> prune_old_logs LOG_PREFIX (days_ago (unat (max retention 1))) ns
       | None \<Rightarrow> []),
      \<lparr>el_reporter = with_buffer_size 1 (reporter_new Debug), el_path = log_path dir LOG_PREFIX today,
       el_run_id = run_id\<rparr>)"

definition log_event_entry ::
  "instant \<Rightarrow> log_level \<Rightarrow> string \<Rightarrow> string \<Rightarrow> string option \<Rightarrow> string \<Rightarrow> log_entry" where
  "log_event_entry now level event payload installer run_id =
     (let e = with_correlation_id run_id (with_data payload (log_entry_new now level ''checker'' event))
      in case installer of Some n \<Rightarrow> with_installer n e | None \<Rightarrow> e)"

definition log_entry_event ::
  "instant \<Rightarrow> log_level \<Rightarrow> string \<Rightarrow> string \<Rightarrow> string option \<Rightarrow> event_log \<Rightarrow> event_log" where
  "log_entry_event now level event payload installer l =
     l\<lparr>el_reporter := reporter_log (log_event_entry now level event payload installer (el_run_id l)) (el_reporter l)\<rparr>"

definition event :: "instant \<Rightarrow> string \<Rightarrow> string \<Rightarrow> event_log \<Rightarrow> event_log" where
  "event now e payload = log_entry_event now Info e payload None"

definition installer_event :: "instant \<Rightarrow> string \<Rightarrow> string \<Rightarrow> string \<Rightarrow> event_log \<Rightarrow> event_log" where
  "installer_event now e installer payload = log_entry_event now Info e payload (Some installer)"

definition warn_event :: "instant \<Rightarrow> string \<Rightarrow> string \<Rightarrow> event_log \<Rightarrow> event_log" where
  "warn_event now e payload = log_entry_event now Warn e payload None"

definition event_log_flush :: "event_log \<Rightarrow> event_log" where
  "event_log_flush l = l\<lparr>el_reporter := reporter_flush (el_reporter l)\<rparr>"

section \<open>Lemmas\<close>

text \<open>A log that writes every event at once.\<close>

definition immediate :: "event_log \<Rightarrow> bool" where
  "immediate l \<longleftrightarrow> jr_min_level (el_reporter l) = Debug \<and> jr_buffer_size (el_reporter l) = 1 \<and>
     jr_pending (el_reporter l) = []"

lemma opened_immediate: "immediate (snd (event_log_open days_ago today names dir retention run_id))"
  by (simp add: event_log_open_def immediate_def with_buffer_size_def reporter_new_def)

definition written :: "event_log \<Rightarrow> log_entry list" where "written l = jr_written (el_reporter l)"

lemma log_entry_event_written:
  assumes "immediate l" "level \<in> {Info, Warn}"
  shows "immediate (log_entry_event now level e payload installer l)"
    "written (log_entry_event now level e payload installer l) =
       written l @ [log_event_entry now level e payload installer (el_run_id l)]"
    "el_run_id (log_entry_event now level e payload installer l) = el_run_id l"
    "el_path (log_entry_event now level e payload installer l) = el_path l"
proof -
  have "jr_min_level (el_reporter l) \<le> level"
    using assms by (auto simp: immediate_def less_eq_log_level_def)
  moreover have "lg_level (log_event_entry now level e payload installer i) = level" for i
    by (simp add: log_event_entry_def with_correlation_id_def with_data_def with_installer_def log_entry_new_def
        Let_def split: option.split)
  ultimately show "immediate (log_entry_event now level e payload installer l)"
    "written (log_entry_event now level e payload installer l) =
       written l @ [log_event_entry now level e payload installer (el_run_id l)]"
    using assms(1)
    by (simp_all add: log_entry_event_def reporter_log_def reporter_flush_def immediate_def written_def Let_def
        less_eq_log_level_def)
  show "el_run_id (log_entry_event now level e payload installer l) = el_run_id l"
    "el_path (log_entry_event now level e payload installer l) = el_path l"
    by (simp_all add: log_entry_event_def)
qed

lemmas event_defs = event_def installer_event_def warn_event_def

lemma flush_written: "immediate l \<Longrightarrow> event_log_flush l = l"
  by (simp add: event_log_flush_def reporter_flush_def immediate_def)

lemma fold_events_written:
  assumes "immediate l"
  shows "written (fold (\<lambda>x. installer_event (t x) e (n x) (f x)) xs l) =
     written l @ map (\<lambda>x. log_event_entry (t x) Info e (f x) (Some (n x)) (el_run_id l)) xs \<and>
   immediate (fold (\<lambda>x. installer_event (t x) e (n x) (f x)) xs l) \<and>
   el_run_id (fold (\<lambda>x. installer_event (t x) e (n x) (f x)) xs l) = el_run_id l"
  using assms
proof (induction xs arbitrary: l)
  case (Cons x xs)
  note w = log_entry_event_written [OF Cons.prems, of Info]
  have "immediate (installer_event (t x) e (n x) (f x) l)" by (simp add: event_defs w)
  from Cons.IH [OF this] show ?case by (simp add: event_defs w)
qed simp

section \<open>Properties\<close>

lemma log_date_of_path: "log_date LOG_PREFIX (LOG_PREFIX @ ''_'' @ d @ ''.jsonl'') = Some d"
  by (simp add: log_date_def LOG_PREFIX_def suffix_def)

text \<open>
  opening never prunes the log of the day, nor any younger than the retention, of at least one day.
\<close>

theorem open_keeps_recent_logs:
  assumes "n \<in> set (fst (event_log_open days_ago today (Some names) dir retention run_id))"
  shows "n \<in> set names \<and> (\<exists>d. log_date LOG_PREFIX n = Some d \<and> d < days_ago (max (unat retention) 1))"
proof -
  have "unat (max retention 1) = max (unat retention) 1"
    by (simp add: max_def word_le_nat_alt)
  with assms show ?thesis
    by (auto simp: event_log_open_def prune_old_logs_def split: option.splits)
qed

theorem open_keeps_recent_logs_witness:
  "''checker_20250101.jsonl'' \<in> set (fst (event_log_open (\<lambda>_. ''20260101'') ''20260131'' (Some [''checker_20250101.jsonl'']) ''/l'' 30 ''r'')) \<and>
   (\<exists>d. log_date LOG_PREFIX ''checker_20250101.jsonl'' = Some d \<and> d < ''20260101'')"
proof -
  have d: "log_date LOG_PREFIX ''checker_20250101.jsonl'' = Some ''20250101''" "''20250101'' < (''20260101'' :: string)"
    by code_simp+
  then have m: "''checker_20250101.jsonl'' \<in> set (fst (event_log_open (\<lambda>_. ''20260101'') ''20260131''
      (Some [''checker_20250101.jsonl'']) ''/l'' 30 ''r''))"
    by (simp add: event_log_open_def prune_old_logs_def)
  show ?thesis using open_keeps_recent_logs [OF m] m d by simp
qed

end
