(* ===== verification/Finish.thy ===== *)
theory Finish
  imports Show Notify EventLog
begin

text \<open>
  Around the tests of \<open>check\<close> (\<^verbatim>\<open>cmd_check\<close> of \<^verbatim>\<open>src/main.rs\<close>): what a dry run prints, the events of the run in
  the event log, and what follows the tests: remediation, the printed results, the stored run with its pruning, the
  metrics and the notification, and the verdict. The signal is read three times there: when the
  results are complete, when the summary is printed, and at the end.
\<close>

section \<open>What is printed\<close>

record check_summary =
  cs_counts :: run_counts
  cs_run_id :: string
  cs_interrupted :: bool
  cs_deadline_exceeded :: bool
  cs_exit_code :: int

datatype check_line =
  CheckText string | HeaderLine run_header
| RerunDocument string | PlanDocument run_header "(installer_spec \<times> string \<times> string list) list" u64
| ResultDocument test_result | SummaryDocument check_summary
| CheckDocument run_header "test_result list" check_summary

definition rerun_lines :: "output_format \<Rightarrow> string \<Rightarrow> check_line list" where
  "rerun_lines fmt run_id =
     [if fmt = Human then CheckText (''Nothing to rerun: run '' @ take_chars 8 run_id @ '' had no failures'')
      else RerunDocument run_id]"

subsection \<open>A dry run\<close>

definition plan_checks :: "installer_spec \<Rightarrow> string" where
  "plan_checks sp =
     join '','' ((if sp_expect_binary sp \<noteq> None then [''bin''] else []) @
       (if sp_verify_cmd sp \<noteq> None then [''verify''] else []) @
       (if sp_version_cmd sp \<noteq> None then [''version''] else []))"

definition plan_row :: "installer_spec \<Rightarrow> string list" where
  "plan_row sp =
     (case sp_skip_reason sp of
        Some reason \<Rightarrow> [''  '' @ pad_right 16 (sp_name sp) @ '' (skipped: '' @ reason @ '')'']
      | None \<Rightarrow>
          [''  '' @ pad_right 16 (sp_name sp) @ '' '' @ pad_right 5 (if sp_sha256 sp \<noteq> None then ''yes'' else ''no'') @
           '' '' @ pad_left 7 (show_nat (unat (sp_timeout_seconds sp))) @ ''s '' @
           pad_left 7 (show_nat (unat (sp_retries sp))) @ '' '' @ pad_right 7 (plan_checks sp) @ '' '' @
           command_line sp @
           (if overridden_fields sp = [] then []
            else ''  [overrides: '' @ join '', '' (overridden_fields sp) @ '']'')] @
          (if sp_env sp = [] then []
           else [''  '' @ pad_right 16 [] @ '' env: '' @ join '' '' (map (\<lambda>(k, v). k @ ''='' @ v) (sp_env sp))]))"

definition plan_lines :: "config \<Rightarrow> check_options \<Rightarrow> run_header \<Rightarrow> installer_spec list \<Rightarrow> check_line list" where
  "plan_lines cfg opts header specs =
     (if op_format opts = Human
      then map CheckText
        ([''Would check '' @ show_nat (count (\<lambda>s. sp_skip_reason s = None) specs) @ '' installer(s) with '' @
            show_nat (op_parallel opts) @ '' parallel workers (backend: '' @
            (if op_local opts then ''local'' else ''docker'') @
            (if op_local opts then [] else '', image '' @ dk_image (cf_docker cfg)) @ ''):'',
          ''Defaults: timeout '' @ show_nat (unat (op_timeout opts)) @ ''s, '' @
            show_nat (unat (op_retries opts)) @ '' retries (transient failures only), image build timeout '' @
            show_nat (unat (dk_build_timeout_seconds (cf_docker cfg))) @ ''s'',
          [],
          ''  '' @ pad_right 16 ''installer'' @ '' '' @ pad_right 5 ''sha'' @ '' '' @ pad_left 8 ''timeout'' @ '' '' @
            pad_left 7 ''retries'' @ '' '' @ pad_right 7 ''checks'' @ '' command''] @
         concat (map plan_row specs))
      else [PlanDocument header (map (\<lambda>s. (s, command_line s, overridden_fields s)) specs)
              (dk_build_timeout_seconds (cf_docker cfg))])"

subsection \<open>Results\<close>

text \<open>The name \<open>{:?}\<close> gives a status.\<close>

fun status_debug :: "test_status \<Rightarrow> string" where
  "status_debug Pending = ''Pending''"
| "status_debug Running = ''Running''"
| "status_debug Passed = ''Passed''"
| "status_debug Failed = ''Failed''"
| "status_debug Skipped = ''Skipped''"
| "status_debug TimedOut = ''TimedOut''"
| "status_debug Cancelled = ''Cancelled''"

definition error_lines :: "f64_ops \<Rightarrow> test_result \<Rightarrow> string list" where
  "error_lines F r =
     (case tr_error r of
        None \<Rightarrow> []
      | Some e \<Rightarrow>
          (''    error: '' @ ec_category e @ '' ('' @ severity_debug (ec_severity e) @ '', retryable='' @
             (if ec_retryable e then ''true'' else ''false'') @ '', confidence='' @
             show_fixed 0 (fl F (ec_confidence e * 100)) @ ''%)'') #
          (case ec_suggestion e of Some s \<Rightarrow> [''    suggestion: '' @ s] | None \<Rightarrow> []))"

fun advice_lines :: "remediation_outcome \<Rightarrow> string list" where
  "advice_lines (Advised suggestion _ risks _) =
     map (\<lambda>l. ''      | '' @ l) (take 12 (lines suggestion)) @
     (if length (lines suggestion) > 12 then [''      | '' @ ellipsis] else []) @
     map (\<lambda>r. ''      !! '' @ rn_risk r @ '' ('' @ rn_command r @ ''): '' @ rn_reason r) risks"
| "advice_lines _ = []"

definition result_text :: "f64_ops \<Rightarrow> test_result \<Rightarrow> string list option" where
  \<comment> \<open>\<open>None\<close>: describing the remediation panics\<close>
  "result_text F r =
     map_option
       (\<lambda>remediation.
          [entry_icon (if tr_success r then ''passed'' else ''failed'') @ '' '' @ tr_installer_name r @ '' ('' @
             status_debug (tr_status r) @ '', '' @ show_nat (unat (tr_duration_ms r)) @ ''ms'' @
             (if length (tr_attempts r) > 1 then '', '' @ show_nat (length (tr_attempts r)) @ '' attempts'' else []) @
             '')''] @
          (if \<not> tr_success r \<and> tr_stderr r \<noteq> []
           then [''    stderr: '' @ join [nl] (take 3 (lines (tr_stderr r)))] else []) @
          (if tr_success r then [] else error_lines F r) @ remediation)
       (case tr_remediation r of
          None \<Rightarrow> Some []
        | Some o1 \<Rightarrow> map_option (\<lambda>d. (''    remediation: '' @ d) # advice_lines o1) (describe o1))"

fun each_line :: "('a \<Rightarrow> 'b list option) \<Rightarrow> 'a list \<Rightarrow> 'b list option" where
  "each_line f [] = Some []"
| "each_line f (x # xs) = Option.bind (f x) (\<lambda>ys. map_option (append ys) (each_line f xs))"

definition result_lines :: "f64_ops \<Rightarrow> check_options \<Rightarrow> test_result list \<Rightarrow> check_line list option" where
  "result_lines F opts rs =
     (case op_format opts of
        Human \<Rightarrow> if op_quiet opts then Some [] else map_option (map CheckText) (each_line (result_text F) rs)
      | Json \<Rightarrow> Some []
      | _ \<Rightarrow> Some (map ResultDocument rs))"

subsection \<open>The summary\<close>

definition summary_of_check ::
  "string \<Rightarrow> bool \<Rightarrow> bool \<Rightarrow> signal option \<Rightarrow> bool \<Rightarrow> test_result list \<Rightarrow> check_summary" where
  "summary_of_check run_id interrupted deadline_exceeded sig bad rs =
     \<lparr>cs_counts = summary_counts rs, cs_run_id = run_id, cs_interrupted = interrupted,
      cs_deadline_exceeded = deadline_exceeded, cs_exit_code = reported_exit_code sig bad\<rparr>"

definition totals_lines ::
  "check_options \<Rightarrow> u64 \<Rightarrow> bool \<Rightarrow> bool \<Rightarrow> bool \<Rightarrow> test_result list \<Rightarrow> string list" where
  "totals_lines opts deadline_seconds deadline_exceeded signalled interrupted rs =
     (let skips = count (\<lambda>r. tr_status r = Skipped) rs
      in (if op_quiet opts then [] else [[]]) @
         (if deadline_exceeded \<and> \<not> signalled
          then [''Run deadline of '' @ show_nat (unat deadline_seconds) @ ''s exceeded: '' @
                 show_nat (count (\<lambda>r. tr_status r = Cancelled) rs) @ '' installer(s) cancelled (not tested)'']
          else if interrupted
          then [''Run interrupted: '' @
                 show_nat (count (\<lambda>r. tr_status r = Cancelled \<or> tr_status r = Skipped) rs) @
                 '' installer(s) cancelled or skipped'']
          else []) @
         [''Results: '' @ show_nat (count tr_success rs) @ '' passed, '' @ show_nat (count is_failure rs) @ '' failed'' @
            (if skips > 0 then '', '' @ show_nat skips @ '' skipped'' else []) @
            '' out of '' @ show_nat (length rs) @ '' total''])"

section \<open>Before the tests\<close>

definition hostname :: "string option \<Rightarrow> string option \<Rightarrow> string" where
  \<comment> \<open>the text of \<open>/etc/hostname\<close> and the variable \<open>HOSTNAME\<close>\<close>
  "hostname etc var =
     (let t = map_option trim etc
      in case (if t = Some [] then None else t) of Some s \<Rightarrow> s | None \<Rightarrow> unwrap_or var ''unknown'')"

definition reaped_names ::
  "config \<Rightarrow> check_options \<Rightarrow> anyhow + unit \<Rightarrow> anyhow + unit \<Rightarrow> (duration \<Rightarrow> anyhow + orphan_info list)
    \<Rightarrow> afsc_error + string list" where
  \<comment> \<open>the preflight, the client, and reaping with an age; only reaping may fail without ending the command\<close>
  "reaped_names cfg opts preflight client reap =
     (if op_local opts then Inr []
      else case preflight of
        Inl e \<Rightarrow> Inl (Infra (err_msg e))
      | Inr _ \<Rightarrow>
          if \<not> dk_reap_orphans (cf_docker cfg) then Inr []
          else case client of
            Inl e \<Rightarrow> Inl (Infra (err_msg e))
          | Inr _ \<Rightarrow>
              (case reap (from_secs (max (saturating_add_word (op_timeout opts) (op_timeout opts)) 60)) of
                 Inl e \<Rightarrow> Inr []
               | Inr os \<Rightarrow> Inr (map oi_name os)))"

definition header_after_image ::
  "check_options \<Rightarrow> string option \<Rightarrow> (string option \<Rightarrow> string option) \<Rightarrow> run_header \<Rightarrow> run_header" where
  \<comment> \<open>the image's id, and what the answers of Docker add to the environment\<close>
  "header_after_image opts image_id add h =
     (if op_local opts then h
      else h\<lparr>rh_image_id := image_id, rh_environment := add (rh_environment h)\<rparr>)"

definition first_lines :: "check_options \<Rightarrow> run_header \<Rightarrow> check_line list" where
  "first_lines opts h = (if op_format opts = Jsonl then [HeaderLine h] else [])"

section \<open>The events of a run\<close>

text \<open>The payloads; \<open>ej\<close> gives their JSON. Every event has its own time.\<close>

datatype run_event =
  RunStarted string "string option" usize u64 u32 nat nat string
    \<comment> \<open>backend, image, parallel, timeout, retries, to run, skipped, version\<close>
| Reaped "string list"
| InstallerFinished string "i32 option" u64 nat string "string option" "string option"
    \<comment> \<open>status, exit code, duration, attempts, checksum, category, version\<close>
| RunFinished run_counts bool
| Remediated string rat string
| Notified notify_doc

definition log_started ::
  "(run_event \<Rightarrow> string) \<Rightarrow> instant \<Rightarrow> instant \<Rightarrow> string \<Rightarrow> check_options \<Rightarrow> run_header \<Rightarrow> installer_spec list \<Rightarrow> string list
    \<Rightarrow> event_log \<Rightarrow> event_log" where
  "log_started ej t t' version opts header specs reaped l =
     (let l1 = event t ''run_started''
            (ej (RunStarted (if op_local opts then ''local'' else ''docker'') (rh_image header) (op_parallel opts)
              (op_timeout opts) (op_retries opts) (count (\<lambda>s. sp_skip_reason s = None) specs)
              (count (\<lambda>s. sp_skip_reason s \<noteq> None) specs) version)) l
      in if reaped \<noteq> [] then warn_event t' ''reaper'' (ej (Reaped reaped)) l1 else l1)"

definition finished_event :: "test_result \<Rightarrow> run_event" where
  "finished_event r =
     InstallerFinished (test_status_str (tr_status r)) (tr_exit_code r) (tr_duration_ms r)
       (max (length (tr_attempts r)) 1) (checksum_state_str (tr_checksum_state r))
       (map_option ec_category (tr_error r)) (tr_installed_version r)"

definition log_finished ::
  "(run_event \<Rightarrow> string) \<Rightarrow> (nat \<Rightarrow> instant) \<Rightarrow> instant \<Rightarrow> bool \<Rightarrow> test_result list \<Rightarrow> event_log \<Rightarrow> event_log" where
  "log_finished ej clk t interrupted rs l =
     event_log_flush (event t ''run_finished'' (ej (RunFinished (summary_counts rs) interrupted))
       (fold (\<lambda>x. installer_event (clk (fst x)) ''installer_finished'' (tr_installer_name (snd x))
          (ej (finished_event (snd x)))) (enumerate 0 rs) l))"

definition remediation_event :: "test_result \<Rightarrow> run_event option" where
  \<comment> \<open>of a result with an outcome; \<open>None\<close>: describing it panics\<close>
  "remediation_event r =
     (case tr_remediation r of
        None \<Rightarrow> None
      | Some o1 \<Rightarrow> map_option (Remediated (outcome_kind o1) (outcome_cost_usd o1)) (describe o1))"

fun log_remediations ::
  "(run_event \<Rightarrow> string) \<Rightarrow> instant \<Rightarrow> test_result list \<Rightarrow> event_log \<Rightarrow> event_log option" where
  "log_remediations ej t [] l = Some (event_log_flush l)"
| "log_remediations ej t (r # rs) l =
     (if tr_remediation r = None then log_remediations ej t rs l
      else case remediation_event r of
        None \<Rightarrow> None
      | Some e \<Rightarrow> log_remediations ej t rs (installer_event t ''remediation'' (tr_installer_name r) (ej e) l))"

section \<open>After the tests\<close>

text \<open>
  What the end of the command meets: whether the run was cancelled and whether by the deadline; the three readings
  of the signal; remediation with what it does to the files (\<open>None\<close>: a panic); times; JSON; whether the results can be
  written; the runs and the history read from files; what the metrics need.
\<close>

record finish_world =
  fw_F :: f64_ops
  fw_notify :: notify_world
  fw_cancelled :: bool
  fw_deadline :: bool
  fw_signal :: "signal option"
  fw_signal_printed :: "signal option"
  fw_signal_end :: "signal option"
  fw_remediate :: "test_result list \<Rightarrow> files \<Rightarrow> (files \<times> test_result list) option"
  fw_enc :: "json_line \<Rightarrow> string"
  fw_ej :: "run_event \<Rightarrow> string"
  fw_clk :: "nat \<Rightarrow> instant"
  fw_now :: instant
  fw_started :: instant \<comment> \<open>of the command\<close>
  fw_dir :: string
  fw_stamp :: string
  fw_write_error :: "anyhow option"
  fw_runs :: "files \<Rightarrow> anyhow + run_info list"
  fw_history :: "files \<Rightarrow> anyhow + history"
  fw_validation :: "validation_report option"
  fw_snapshot :: "metrics_snapshot option"
  fw_queue_writable :: bool

record check_end =
  ce_lines :: "check_line list"
  ce_files :: files
  ce_log :: "event_log option"
  ce_metrics :: "anyhow + metrics_snapshot"
  ce_results :: "test_result list"
  ce_result :: "afsc_error + unit"

definition remediation_step ::
  "finish_world \<Rightarrow> check_options \<Rightarrow> bool \<Rightarrow> test_result list \<Rightarrow> event_log option \<Rightarrow> files
    \<Rightarrow> (files \<times> test_result list \<times> event_log option) option" where
  "remediation_step w opts bad rs lg fs =
     (if \<not> wants_remediation opts bad (fw_cancelled w) then Some (fs, rs, lg)
      else case fw_remediate w rs fs of
        None \<Rightarrow> None
      | Some (fs', rs') \<Rightarrow>
          (case lg of
             None \<Rightarrow> Some (fs', rs', None)
           | Some l \<Rightarrow> map_option (\<lambda>l'. (fs', rs', Some l')) (log_remediations (fw_ej w) (fw_now w) rs' l)))"

definition store_results ::
  "finish_world \<Rightarrow> config \<Rightarrow> check_options \<Rightarrow> run_header \<Rightarrow> test_result list \<Rightarrow> files \<Rightarrow> files \<times> check_line list" where
  \<comment> \<open>a failure to list the runs is only logged; deleting succeeds\<close>
  "store_results w cfg opts header rs fs =
     (case fw_write_error w of
        Some e \<Rightarrow> (fs, [])
      | None \<Rightarrow>
          (case persist_with_header (fw_enc w) (fw_dir w) (fw_stamp w) (fw_now w) header (fw_cancelled w) rs of
             (ops, path) \<Rightarrow>
               (let fs1 = fold fs_apply ops fs;
                    pruned = (case fw_runs w fs1 of
                        Inr runs \<Rightarrow> prune_runs (unat (gc_results_retention (cf_general cfg))) runs
                      | Inl _ \<Rightarrow> [])
                in (fold fs_apply pruned fs1,
                    if op_format opts = Human \<and> \<not> op_quiet opts
                    then [CheckText (''Results saved to: '' @ path)] else []))))"

definition summary_lines ::
  "finish_world \<Rightarrow> config \<Rightarrow> check_options \<Rightarrow> run_header \<Rightarrow> bool \<Rightarrow> test_result list \<Rightarrow> check_line list" where
  "summary_lines w cfg opts header bad rs =
     (let s = summary_of_check (rh_run_id header) (fw_cancelled w) (fw_deadline w) (fw_signal_printed w) bad rs
      in case op_format opts of
           Human \<Rightarrow> map CheckText (totals_lines opts (ex_run_deadline_seconds (cf_execution cfg)) (fw_deadline w)
             (fw_signal w \<noteq> None) (fw_cancelled w) rs)
         | Json \<Rightarrow> [CheckDocument header rs s]
         | _ \<Rightarrow> [SummaryDocument s])"

definition notification_step ::
  "finish_world \<Rightarrow> server \<Rightarrow> (string \<Rightarrow> string option) \<Rightarrow> config \<Rightarrow> run_header \<Rightarrow> event_log option \<Rightarrow> files
    \<Rightarrow> (files \<times> event_log option) net" where
  "notification_step w srv env cfg header lg fs =
     (let h = (case fw_history w fs of Inr h \<Rightarrow> h | Inl _ \<Rightarrow> [])
      in if \<not> nt_enabled (cf_notifications cfg) \<or> fw_signal w \<noteq> None then State_Monad.return (fs, lg)
         else case history_find (rh_run_id header) h of
           None \<Rightarrow> State_Monad.return (fs, lg)
         | Some run \<Rightarrow> do {
             r \<leftarrow> dispatch_notification (fw_notify w) srv env cfg h run False (fw_queue_writable w) fs;
             State_Monad.return (fst r, map_option (\<lambda>l. event_log_flush
               (event (fw_now w) ''notification'' (fw_ej w (Notified (snd r))) l)) lg)
           })"

definition finish_check ::
  "finish_world \<Rightarrow> server \<Rightarrow> (string \<Rightarrow> string option) \<Rightarrow> config \<Rightarrow> check_options \<Rightarrow> run_header \<Rightarrow> event_log option
    \<Rightarrow> test_result list \<Rightarrow> files \<Rightarrow> check_end option net" where
  "finish_check w srv env cfg opts header lg rs fs =
     (let bad = any_failed (fw_deadline w) (fw_signal w \<noteq> None) rs;
          lg1 = map_option (log_finished (fw_ej w) (fw_clk w) (fw_now w) (fw_cancelled w) rs) lg
      in case remediation_step w opts bad rs lg1 fs of
           None \<Rightarrow> State_Monad.return None
         | Some (fs1, rs1, lg2) \<Rightarrow>
             (case result_lines (fw_F w) opts rs1 of
                None \<Rightarrow> State_Monad.return None
              | Some ls \<Rightarrow>
                  (case store_results w cfg opts header rs1 fs1 of (fs2, saved) \<Rightarrow>
                     let metrics = persist_metrics_snapshot (fw_F w) (fw_history w fs2) (fw_validation w) (fw_now w)
                           (mo_stale_after_seconds (cf_monitoring cfg)) (op_remediate opts \<and> bad)
                           (case rs1 of r # _ \<Rightarrow> tr_started_at r | [] \<Rightarrow> fw_started w) (fw_snapshot w)
                     in do {
                       r \<leftarrow> notification_step w srv env cfg header lg2 fs2;
                       State_Monad.return (Some
                         \<lparr>ce_lines = ls @ summary_lines w cfg opts header bad rs1 @ saved, ce_files = fst r,
                          ce_log = snd r, ce_metrics = metrics, ce_results = rs1,
                          ce_result = check_result (fw_signal_end w) bad rs1\<rparr>)
                     })))"

section \<open>Lemmas\<close>

definition grows :: "event_log option \<Rightarrow> event_log option \<Rightarrow> bool" where
  \<comment> \<open>the log is kept, writes at once, and only gets longer\<close>
  "grows lg lg' \<longleftrightarrow>
     (case lg of
        None \<Rightarrow> lg' = None
      | Some l \<Rightarrow> \<exists>l'. lg' = Some l' \<and> immediate l' \<and> prefix (written l) (written l') \<and> el_run_id l' = el_run_id l)"

lemma grows_refl: "(\<forall>l. lg = Some l \<longrightarrow> immediate l) \<Longrightarrow> grows lg lg"
  by (auto simp: grows_def split: option.split)

lemma grows_trans: "grows a b \<Longrightarrow> grows b c \<Longrightarrow> grows a c"
  by (auto simp: grows_def intro: prefix_order.trans split: option.splits)

lemma event_grows:
  assumes "immediate l"
  shows "grows (Some l) (Some (event t e p l))" "grows (Some l) (Some (installer_event t e n p l))"
    "grows (Some l) (Some (event_log_flush (event t e p l)))"
proof -
  note w = log_entry_event_written [OF assms, of Info]
  show "grows (Some l) (Some (event t e p l))" "grows (Some l) (Some (installer_event t e n p l))"
    by (simp_all add: grows_def event_defs w)
  moreover have "immediate (event t e p l)" by (simp add: event_defs w)
  ultimately show "grows (Some l) (Some (event_log_flush (event t e p l)))" by (simp add: flush_written)
qed

lemma log_remediations_grows:
  "immediate l \<Longrightarrow> log_remediations ej t rs l = Some l' \<Longrightarrow> grows (Some l) (Some l')"
proof (induction rs arbitrary: l)
  case Nil
  then show ?case by (simp add: flush_written grows_refl)
next
  case (Cons r rs)
  show ?case
  proof (cases "tr_remediation r = None")
    case False
    then obtain e where rest: "log_remediations ej t rs
        (installer_event t ''remediation'' (tr_installer_name r) (ej e) l) = Some l'"
      using Cons.prems(2) by (auto split: option.splits)
    have g: "grows (Some l) (Some (installer_event t ''remediation'' (tr_installer_name r) (ej e) l))"
      using Cons.prems(1) by (rule event_grows)
    then have "immediate (installer_event t ''remediation'' (tr_installer_name r) (ej e) l)"
      by (simp add: grows_def)
    from g Cons.IH [OF this rest] show ?thesis by (rule grows_trans)
  qed (use Cons in simp)
qed

lemma remediation_step_grows:
  assumes "remediation_step w opts bad rs lg fs = Some (fs', rs', lg')" "\<forall>l. lg = Some l \<longrightarrow> immediate l"
  shows "grows lg lg'"
proof (cases "wants_remediation opts bad (fw_cancelled w)")
  case True
  then show ?thesis
    using assms log_remediations_grows
    by (cases lg) (auto simp: remediation_step_def grows_def split: option.splits)
qed (use assms grows_refl in \<open>auto simp: remediation_step_def\<close>)

lemma run_state_bind': "run_state (do { x \<leftarrow> m; f x }) s = (case run_state m s of (x, s') \<Rightarrow> run_state (f x) s')"
  by (simp add: State_Monad.bind_def)

lemma notification_step_grows:
  assumes "\<forall>l. lg = Some l \<longrightarrow> immediate l"
  shows "grows lg (snd (fst (run_state (notification_step w srv env cfg header lg fs) cs)))"
proof -
  have "grows lg (map_option (\<lambda>l. event_log_flush (event t e p l)) lg)" for t e p
    using assms event_grows(3) by (cases lg) (auto simp: grows_def)
  then show ?thesis
    using grows_refl [OF assms]
    by (simp add: notification_step_def run_state_bind' Let_def State_Monad.return_def split: option.split prod.split)
qed

lemma finish_checkE:
  assumes "fst (run_state (finish_check w srv env cfg opts header lg rs fs) cs) = Some e"
  defines "bad \<equiv> any_failed (fw_deadline w) (fw_signal w \<noteq> None) rs"
  obtains fs1 lg2 ls fs2 saved where
    "remediation_step w opts bad rs (map_option (log_finished (fw_ej w) (fw_clk w) (fw_now w) (fw_cancelled w) rs) lg) fs =
       Some (fs1, ce_results e, lg2)"
    "result_lines (fw_F w) opts (ce_results e) = Some ls" "store_results w cfg opts header (ce_results e) fs1 = (fs2, saved)"
    "ce_lines e = ls @ summary_lines w cfg opts header bad (ce_results e) @ saved"
    "ce_log e = snd (fst (run_state (notification_step w srv env cfg header lg2 fs2) cs))"
    "ce_result e = check_result (fw_signal_end w) bad (ce_results e)"
  using assms
  by (fastforce simp: finish_check_def run_state_bind' Let_def State_Monad.return_def split: option.splits prod.splits)

lemma log_started_written:
  assumes "immediate l"
  shows "immediate (log_started ej t t' version opts header specs reaped l)"
    "el_run_id (log_started ej t t' version opts header specs reaped l) = el_run_id l"
    "written (log_started ej t t' version opts header specs reaped l) = written l @
       [log_event_entry t Info ''run_started''
          (ej (RunStarted (if op_local opts then ''local'' else ''docker'') (rh_image header) (op_parallel opts)
            (op_timeout opts) (op_retries opts) (count (\<lambda>s. sp_skip_reason s = None) specs)
            (count (\<lambda>s. sp_skip_reason s \<noteq> None) specs) version)) None (el_run_id l)] @
       (if reaped = [] then []
        else [log_event_entry t' Warn ''reaper'' (ej (Reaped reaped)) None (el_run_id l)])"
proof -
  note w = log_entry_event_written [OF assms, of Info, simplified]
  note w' = log_entry_event_written [OF w(1), of Warn, simplified]
  show "immediate (log_started ej t t' version opts header specs reaped l)"
    "el_run_id (log_started ej t t' version opts header specs reaped l) = el_run_id l"
    "written (log_started ej t t' version opts header specs reaped l) = written l @
       [log_event_entry t Info ''run_started''
          (ej (RunStarted (if op_local opts then ''local'' else ''docker'') (rh_image header) (op_parallel opts)
            (op_timeout opts) (op_retries opts) (count (\<lambda>s. sp_skip_reason s = None) specs)
            (count (\<lambda>s. sp_skip_reason s \<noteq> None) specs) version)) None (el_run_id l)] @
       (if reaped = [] then []
        else [log_event_entry t' Warn ''reaper'' (ej (Reaped reaped)) None (el_run_id l)])"
    by (simp_all add: log_started_def Let_def event_defs w w')
qed

lemma log_finished_written:
  assumes "immediate l"
  shows "immediate (log_finished ej clk t i rs l)" "el_run_id (log_finished ej clk t i rs l) = el_run_id l"
    "written (log_finished ej clk t i rs l) = written l @
       map (\<lambda>x. log_event_entry (clk (fst x)) Info ''installer_finished'' (ej (finished_event (snd x)))
          (Some (tr_installer_name (snd x))) (el_run_id l)) (enumerate 0 rs) @
       [log_event_entry t Info ''run_finished'' (ej (RunFinished (summary_counts rs) i)) None (el_run_id l)]"
proof -
  let ?l = "fold (\<lambda>x. installer_event (clk (fst x)) ''installer_finished'' (tr_installer_name (snd x))
      (ej (finished_event (snd x)))) (enumerate 0 rs) l"
  note f = fold_events_written [OF assms, of "\<lambda>x. clk (fst x)" "''installer_finished''" "\<lambda>x. tr_installer_name (snd x)"
      "\<lambda>x. ej (finished_event (snd x))" "enumerate 0 rs"]
  from f have i: "immediate ?l" by simp
  have w: "immediate (event t0 e0 p0 ?l)" "written (event t0 e0 p0 ?l) = written ?l @
      [log_event_entry t0 Info e0 p0 None (el_run_id ?l)]" "el_run_id (event t0 e0 p0 ?l) = el_run_id ?l" for t0 e0 p0
    by (simp_all add: event_def log_entry_event_written [OF i])
  have fin: "log_finished ej clk t i rs l = event t ''run_finished'' (ej (RunFinished (summary_counts rs) i)) ?l"
    unfolding log_finished_def by (rule flush_written [OF w(1)])
  show "immediate (log_finished ej clk t i rs l)" "el_run_id (log_finished ej clk t i rs l) = el_run_id l"
    "written (log_finished ej clk t i rs l) = written l @
       map (\<lambda>x. log_event_entry (clk (fst x)) Info ''installer_finished'' (ej (finished_event (snd x)))
          (Some (tr_installer_name (snd x))) (el_run_id l)) (enumerate 0 rs) @
       [log_event_entry t Info ''run_finished'' (ej (RunFinished (summary_counts rs) i)) None (el_run_id l)]"
    unfolding fin using f by (simp_all only: w append_assoc simp_thms)
qed

section \<open>Properties\<close>



text \<open>
  a signal that comes late is not in the summary. When it arrives after the summary's exit code is read, what is
  printed says 0 or 1, but the process exits with 130 or 143.
\<close>

theorem late_signals_are_not_printed:
  assumes "fst (run_state (finish_check w srv env cfg opts header lg rs fs) cs) = Some e"
    and "op_format opts = Jsonl" "fw_signal_printed w = None" "fw_signal_end w = Some sig"
  shows "\<exists>s. SummaryDocument s \<in> set (ce_lines e) \<and> cs_exit_code s \<in> {0, 1} \<and>
    snd (main_exit (ce_result e)) \<in> {130, 143}"
proof -
  let ?bad = "any_failed (fw_deadline w) (fw_signal w \<noteq> None) rs"
  obtain ls saved where lines: "ce_lines e = ls @ summary_lines w cfg opts header ?bad (ce_results e) @ saved"
    and res: "ce_result e = check_result (fw_signal_end w) ?bad (ce_results e)"
    using assms(1) by (rule finish_checkE)
  let ?s = "summary_of_check (rh_run_id header) (fw_cancelled w) (fw_deadline w) None ?bad (ce_results e)"
  have "SummaryDocument ?s \<in> set (ce_lines e)"
    by (simp add: lines summary_lines_def assms(2,3) Let_def)
  moreover have "cs_exit_code ?s \<in> {0, 1}" by (simp add: summary_of_check_def reported_exit_code_def)
  moreover have "snd (main_exit (ce_result e)) \<in> {130, 143}"
    by (cases sig) (simp_all add: res assms(4) check_result_def main_exit_def)
  ultimately show ?thesis by blast
qed

section \<open>Sample input\<close>

text \<open>One installer, skipped; the signal as it is read at the end.\<close>

definition sample_finish :: "signal option \<Rightarrow> finish_world" where
  "sample_finish sig =
     \<lparr>fw_F = exact_f64, fw_notify = sample_notify_world, fw_cancelled = False, fw_deadline = False, fw_signal = None,
      fw_signal_printed = None, fw_signal_end = sig, fw_remediate = \<lambda>rs fs. None, fw_enc = sample_enc,
      fw_ej = \<lambda>_. ''e'', fw_clk = int, fw_now = 9, fw_started = 5, fw_dir = ''d'', fw_stamp = ''t'',
      fw_write_error = None, fw_runs = \<lambda>_. Inr [], fw_history = \<lambda>_. Inr [], fw_validation = None,
      fw_snapshot = None, fw_queue_writable = True\<rparr>"

lemma sample_finish_runs:
  "\<exists>e. fst (run_state (finish_check (sample_finish sig) srv env default_config (sample_options\<lparr>op_format := Jsonl\<rparr>)
      sample_header lg [sample_skipped] Map.empty) cs) = Some e \<and> ce_results e = [sample_skipped]"
proof -
  have "nt_enabled (cf_notifications default_config) = False"
    by (simp add: default_config_def default_notifications_config_def)
  then show ?thesis
    by (simp add: finish_check_def remediation_step_def wants_remediation_def sample_options_def result_lines_def
        store_results_def notification_step_def run_state_bind' Let_def State_Monad.return_def split: prod.split)
qed


lemma sample_skipped_settled: "settled_result sample_skipped"
  by (simp add: settled_result_def sample_skipped_def skipped_def test_result_new_def)


theorem late_signals_are_not_printed_witness:
  "\<exists>(e :: check_end) s. SummaryDocument s \<in> set (ce_lines e) \<and> cs_exit_code s \<in> {0, 1} \<and> snd (main_exit (ce_result e)) \<in> {130, 143}"
proof -
  obtain e where "fst (run_state (finish_check (sample_finish (Some Interrupt)) (\<lambda>_ _. Unsent ''u'') (\<lambda>_. None)
      default_config (sample_options\<lparr>op_format := Jsonl\<rparr>) sample_header None [sample_skipped] Map.empty) []) = Some e"
    using sample_finish_runs by blast
  from late_signals_are_not_printed [OF this _ _, of Interrupt]
  obtain s where "SummaryDocument s \<in> set (ce_lines e)" "cs_exit_code s \<in> {0, 1}" "snd (main_exit (ce_result e)) \<in> {130, 143}"
    by (auto simp: sample_finish_def)
  then show ?thesis by blast
qed

end
