(* ===== verification/Signals.thy ===== *)
theory Signals
  imports Finish
begin

text \<open>
  What stops a run (\<^verbatim>\<open>spawn_signal_handler\<close> and the deadline of \<^verbatim>\<open>cmd_check\<close> in \<^verbatim>\<open>src/main.rs\<close>): the task that waits for
  a signal and the task that waits for the deadline, beside the main task, over three shared cells: the signal
  seen, the flag of the deadline, and the cancellation token. Every access of a cell is a step of its own, in
  the order of the code. The handler takes one signal only.
\<close>

datatype handler_phase = HandlerWaits | HandlerSaw | HandlerEnded
datatype timer_phase = TimerSleeps | TimerDecided | TimerMarked | TimerEnded

text \<open>
  The main task: the tests run, then it reads the deadline's flag, the signal, the token, and the
  signal again for the summary and for its result.
\<close>

datatype main_step = TestsRun | TestsDone | ReadDeadline | ReadSignal | ReadToken | ReadForSummary | ReadAtEnd

record stop_state =
  ss_seen :: "signal option"
  ss_hit :: bool
  ss_cancelled :: bool
  ss_handler :: handler_phase
  ss_timer :: timer_phase
  ss_main :: main_step
  ss_stopped :: bool \<comment> \<open>whether the token was cancelled while the tests ran\<close>
  ss_deadline_exceeded :: bool
  ss_signal :: "signal option"
  ss_interrupted :: bool
  ss_signal_printed :: "signal option"
  ss_signal_end :: "signal option"

definition stop_start :: "u64 \<Rightarrow> stop_state" where
  \<comment> \<open>there is a timer when \<open>run_deadline_seconds\<close> is positive\<close>
  "stop_start deadline_seconds =
     \<lparr>ss_seen = None, ss_hit = False, ss_cancelled = False, ss_handler = HandlerWaits,
      ss_timer = (if deadline_seconds > 0 then TimerSleeps else TimerEnded), ss_main = TestsRun, ss_stopped = False,
      ss_deadline_exceeded = False, ss_signal = None, ss_interrupted = False, ss_signal_printed = None,
      ss_signal_end = None\<rparr>"

inductive stop_step :: "stop_state \<Rightarrow> stop_state \<Rightarrow> bool" where
  catch: "ss_handler s = HandlerWaits \<Longrightarrow>
    stop_step s (s\<lparr>ss_seen := Some sig, ss_handler := HandlerSaw\<rparr>)"
| stop: "ss_handler s = HandlerSaw \<Longrightarrow>
    stop_step s (s\<lparr>ss_cancelled := True, ss_handler := HandlerEnded\<rparr>)"
| wake: "ss_timer s = TimerSleeps \<Longrightarrow>
    stop_step s (s\<lparr>ss_timer := (if ss_cancelled s then TimerEnded else TimerDecided)\<rparr>)"
| mark: "ss_timer s = TimerDecided \<Longrightarrow>
    stop_step s (s\<lparr>ss_hit := True, ss_timer := TimerMarked\<rparr>)"
| expire: "ss_timer s = TimerMarked \<Longrightarrow>
    stop_step s (s\<lparr>ss_cancelled := True, ss_timer := TimerEnded\<rparr>)"
| tests_done: "ss_main s = TestsRun \<Longrightarrow>
    stop_step s (s\<lparr>ss_main := TestsDone, ss_stopped := ss_cancelled s\<rparr>)"
| read_deadline: "ss_main s = TestsDone \<Longrightarrow>
    stop_step s (s\<lparr>ss_main := ReadDeadline, ss_deadline_exceeded := ss_hit s\<rparr>)"
| read_signal: "ss_main s = ReadDeadline \<Longrightarrow>
    stop_step s (s\<lparr>ss_main := ReadSignal, ss_signal := ss_seen s\<rparr>)"
| read_token: "ss_main s = ReadSignal \<Longrightarrow>
    stop_step s (s\<lparr>ss_main := ReadToken, ss_interrupted := ss_cancelled s\<rparr>)"
| read_for_summary: "ss_main s = ReadToken \<Longrightarrow>
    stop_step s (s\<lparr>ss_main := ReadForSummary, ss_signal_printed := ss_seen s\<rparr>)"
| read_at_end: "ss_main s = ReadForSummary \<Longrightarrow>
    stop_step s (s\<lparr>ss_main := ReadAtEnd, ss_signal_end := ss_seen s\<rparr>)"

inductive_cases stop_stepE: "stop_step s t"

inductive stops :: "u64 \<Rightarrow> stop_state \<Rightarrow> bool" for d where
  start: "stops d (stop_start d)"
| step: "stops d s \<Longrightarrow> stop_step s t \<Longrightarrow> stops d t"

section \<open>The invariant\<close>

fun main_rank :: "main_step \<Rightarrow> nat" where
  "main_rank TestsRun = 0"
| "main_rank TestsDone = 1"
| "main_rank ReadDeadline = 2"
| "main_rank ReadSignal = 3"
| "main_rank ReadToken = 4"
| "main_rank ReadForSummary = 5"
| "main_rank ReadAtEnd = 6"

text \<open>
  Why the token is cancelled is known before it is; a flag read later is at least what was read before.
\<close>

definition stop_inv :: "u64 \<Rightarrow> stop_state \<Rightarrow> bool" where
  "stop_inv d s \<longleftrightarrow>
     (ss_handler s = HandlerWaits \<longleftrightarrow> ss_seen s = None) \<and>
     (ss_timer s = TimerMarked \<longrightarrow> ss_hit s) \<and> (ss_hit s \<longrightarrow> d > 0) \<and>
     (ss_timer s \<noteq> TimerEnded \<longrightarrow> d > 0) \<and>
     (ss_cancelled s \<longrightarrow> ss_seen s \<noteq> None \<or> ss_hit s) \<and>
     (ss_stopped s \<longrightarrow> ss_cancelled s \<and> main_rank (ss_main s) \<ge> 1) \<and>
     (ss_deadline_exceeded s \<longrightarrow> ss_hit s) \<and>
     (main_rank (ss_main s) \<ge> 2 \<and> ss_stopped s \<longrightarrow> ss_deadline_exceeded s \<or> ss_seen s \<noteq> None) \<and>
     (main_rank (ss_main s) \<ge> 3 \<and> ss_stopped s \<longrightarrow> ss_deadline_exceeded s \<or> ss_signal s \<noteq> None) \<and>
     (main_rank (ss_main s) \<ge> 4 \<and> ss_stopped s \<longrightarrow> ss_interrupted s) \<and>
     (ss_interrupted s \<longrightarrow> ss_cancelled s) \<and>
     (ss_signal s \<noteq> None \<longrightarrow> ss_seen s = ss_signal s) \<and>
     (ss_signal_printed s \<noteq> None \<longrightarrow> ss_seen s = ss_signal_printed s) \<and>
     (ss_signal_end s \<noteq> None \<longrightarrow> ss_seen s = ss_signal_end s) \<and>
     (main_rank (ss_main s) \<ge> 5 \<and> ss_signal s \<noteq> None \<longrightarrow> ss_signal_printed s = ss_signal s) \<and>
     (main_rank (ss_main s) \<ge> 6 \<and> ss_signal_printed s \<noteq> None \<longrightarrow> ss_signal_end s = ss_signal_printed s)"

lemma stop_inv_start: "stop_inv d (stop_start d)"
  by (simp add: stop_inv_def stop_start_def)

lemma stop_inv_step:
  assumes "stop_step s t" "stop_inv d s"
  shows "stop_inv d t"
  using assms unfolding stop_inv_def by (elim stop_stepE conjE) (simp_all del: not_None_eq, blast)

lemma stops_inv: "stops d s \<Longrightarrow> stop_inv d s"
  by (induction rule: stops.induct) (auto intro: stop_inv_start stop_inv_step)

section \<open>Properties\<close>

text \<open>
  C19: a run that was stopped knows why. In every interleaving of the signal handler, the deadline and the main
  task: if the token was cancelled while the tests ran, the results are judged with the deadline's flag or
  the signal set, and the run is reported as interrupted. A deadline is only ever reported when
  one is set. The signal, once read, is read again the same, in the summary and at the end.
\<close>

theorem stopped_runs_know_why:
  assumes "stops d s" "ss_main s = ReadAtEnd"
  shows "(ss_stopped s \<longrightarrow> (ss_deadline_exceeded s \<or> ss_signal s \<noteq> None) \<and> ss_interrupted s) \<and>
    (ss_deadline_exceeded s \<longrightarrow> d > 0) \<and>
    (ss_signal s \<noteq> None \<longrightarrow> ss_signal_printed s = ss_signal s) \<and>
    (ss_signal_printed s \<noteq> None \<longrightarrow> ss_signal_end s = ss_signal_printed s)"
  using stops_inv [OF assms(1)] assms(2) by (simp add: stop_inv_def)

definition read_by :: "stop_state \<Rightarrow> finish_world \<Rightarrow> bool" where
  \<comment> \<open>the world the end of the command meets has these readings\<close>
  "read_by s w \<longleftrightarrow> fw_deadline w = ss_deadline_exceeded s \<and> fw_signal w = ss_signal s \<and>
     fw_cancelled w = ss_interrupted s \<and> fw_signal_printed w = ss_signal_printed s \<and> fw_signal_end w = ss_signal_end s"

text \<open>
  the printed and the real exit code. With the readings that the three tasks leave, a run exits with 1 or 0 by its
  results or with the code of the signal; the code in the summary is that one, but for a signal that
  came after it was printed, and never that of a signal the process does not exit with.
\<close>

theorem printed_exit_code_against_process:
  assumes "stops d s" "ss_main s = ReadAtEnd" "read_by s w" "op_format opts = Jsonl"
    and "fst (run_state (finish_check w srv env cfg opts header lg rs fs) cs) = Some e"
  shows "\<exists>sm. SummaryDocument sm \<in> set (ce_lines e) \<and>
    (cs_exit_code sm = snd (main_exit (ce_result e)) \<or>
     cs_exit_code sm \<in> {0, 1} \<and> ss_signal_printed s = None \<and> snd (main_exit (ce_result e)) \<in> {130, 143}) \<and>
    (\<forall>sig. ss_signal s = Some sig \<longrightarrow>
       cs_exit_code sm = (case sig of Interrupt \<Rightarrow> 130 | Terminate \<Rightarrow> 143) \<and>
       snd (main_exit (ce_result e)) = cs_exit_code sm)"
proof -
  define bad where "bad = any_failed (fw_deadline w) (fw_signal w \<noteq> None) rs"
  obtain ls saved where lines: "ce_lines e = ls @ summary_lines w cfg opts header bad (ce_results e) @ saved"
    and res: "ce_result e = check_result (fw_signal_end w) bad (ce_results e)"
    unfolding bad_def using assms(5) by (rule finish_checkE)
  let ?sm = "summary_of_check (rh_run_id header) (fw_cancelled w) (fw_deadline w) (fw_signal_printed w) bad (ce_results e)"
  have "SummaryDocument ?sm \<in> set (ce_lines e)" by (simp add: lines summary_lines_def assms(4) Let_def)
  moreover have "cs_exit_code ?sm = reported_exit_code (ss_signal_printed s) bad"
    using assms(3) by (simp add: summary_of_check_def read_by_def)
  ultimately obtain sm where sm: "SummaryDocument sm \<in> set (ce_lines e)"
    and code: "cs_exit_code sm = reported_exit_code (ss_signal_printed s) bad" by blast
  have "snd (main_exit (check_result sg b r)) = reported_exit_code sg b" for sg b r
    by (auto simp: main_exit_def check_result_def reported_exit_code_def split: option.split signal.split)
  then have exit: "snd (main_exit (ce_result e)) = reported_exit_code (ss_signal_end s) bad"
    using assms(3) by (simp add: res read_by_def)
  have reads: "ss_signal s \<noteq> None \<longrightarrow> ss_signal_printed s = ss_signal s"
      "ss_signal_printed s \<noteq> None \<longrightarrow> ss_signal_end s = ss_signal_printed s"
    using stops_inv [OF assms(1)] assms(2) by (simp_all add: stop_inv_def)
  have "reported_exit_code None bad \<in> {0, 1}"
    "reported_exit_code (Some g) bad = (case g of Interrupt \<Rightarrow> 130 | Terminate \<Rightarrow> 143)"
    "(case g of Interrupt \<Rightarrow> 130 | Terminate \<Rightarrow> (143 :: int)) \<in> {130, 143}" for g
    by (auto simp: reported_exit_code_def split: signal.split)
  with reads have "(cs_exit_code sm = snd (main_exit (ce_result e)) \<or>
     cs_exit_code sm \<in> {0, 1} \<and> ss_signal_printed s = None \<and> snd (main_exit (ce_result e)) \<in> {130, 143}) \<and>
    (\<forall>sig. ss_signal s = Some sig \<longrightarrow>
       cs_exit_code sm = (case sig of Interrupt \<Rightarrow> 130 | Terminate \<Rightarrow> 143) \<and>
       snd (main_exit (ce_result e)) = cs_exit_code sm)"
    unfolding code exit by (cases "ss_signal_printed s"; cases "ss_signal_end s") auto
  with sm show ?thesis by blast
qed

section \<open>Sample schedules\<close>

text \<open>The deadline strikes while the tests run; a signal comes after the summary was printed.\<close>

definition sample_stopped :: stop_state where
  "sample_stopped = (stop_start 60)\<lparr>ss_hit := True, ss_cancelled := True, ss_timer := TimerEnded, ss_main := ReadAtEnd,
     ss_stopped := True, ss_deadline_exceeded := True, ss_interrupted := True\<rparr>"

definition sample_late :: stop_state where
  "sample_late = (stop_start 0)\<lparr>ss_seen := Some Interrupt, ss_handler := HandlerSaw, ss_main := ReadAtEnd,
     ss_signal_end := Some Interrupt\<rparr>"

lemma step_to: "stops d s \<Longrightarrow> stop_step s t \<Longrightarrow> t = t' \<Longrightarrow> stops d t'"
  using stops.step by simp

lemma sample_stopped_reachable: "stops 60 sample_stopped"
proof -
  let ?s = "stop_start 60"
  note d = stop_start_def sample_stopped_def
  have "stops 60 (?s\<lparr>ss_timer := TimerDecided\<rparr>)"
    by (rule step_to [OF stops.start stop_step.wake]) (simp_all add: d)
  then have "stops 60 (?s\<lparr>ss_timer := TimerMarked, ss_hit := True\<rparr>)"
    by (rule step_to [OF _ stop_step.mark]) (simp_all add: d)
  then have "stops 60 (?s\<lparr>ss_timer := TimerEnded, ss_hit := True, ss_cancelled := True\<rparr>)" (is "stops 60 ?s'")
    by (rule step_to [OF _ stop_step.expire]) (simp_all add: d)
  then have "stops 60 (?s'\<lparr>ss_main := TestsDone, ss_stopped := True\<rparr>)"
    by (rule step_to [OF _ stop_step.tests_done]) (simp_all add: d)
  then have "stops 60 (?s'\<lparr>ss_main := ReadDeadline, ss_stopped := True, ss_deadline_exceeded := True\<rparr>)" (is "stops 60 ?s''")
    by (rule step_to [OF _ stop_step.read_deadline]) (simp_all add: d)
  then have "stops 60 (?s''\<lparr>ss_main := ReadSignal\<rparr>)"
    by (rule step_to [OF _ stop_step.read_signal]) (simp_all add: d)
  then have "stops 60 (?s''\<lparr>ss_main := ReadToken, ss_interrupted := True\<rparr>)"
    by (rule step_to [OF _ stop_step.read_token]) (simp_all add: d)
  then have "stops 60 (?s''\<lparr>ss_main := ReadForSummary, ss_interrupted := True\<rparr>)"
    by (rule step_to [OF _ stop_step.read_for_summary]) (simp_all add: d)
  then show ?thesis by (rule step_to [OF _ stop_step.read_at_end]) (simp_all add: d)
qed

lemma sample_late_reachable: "stops 0 sample_late"
proof -
  let ?s = "stop_start 0"
  note d = stop_start_def sample_late_def
  have "stops 0 (?s\<lparr>ss_main := TestsDone\<rparr>)"
    by (rule step_to [OF stops.start stop_step.tests_done]) (simp_all add: d)
  then have "stops 0 (?s\<lparr>ss_main := ReadDeadline\<rparr>)"
    by (rule step_to [OF _ stop_step.read_deadline]) (simp_all add: d)
  then have "stops 0 (?s\<lparr>ss_main := ReadSignal\<rparr>)"
    by (rule step_to [OF _ stop_step.read_signal]) (simp_all add: d)
  then have "stops 0 (?s\<lparr>ss_main := ReadToken\<rparr>)"
    by (rule step_to [OF _ stop_step.read_token]) (simp_all add: d)
  then have "stops 0 (?s\<lparr>ss_main := ReadForSummary\<rparr>)"
    by (rule step_to [OF _ stop_step.read_for_summary]) (simp_all add: d)
  then have "stops 0 (?s\<lparr>ss_main := ReadForSummary, ss_seen := Some Interrupt, ss_handler := HandlerSaw\<rparr>)"
    by (rule step_to [OF _ stop_step.catch]) (simp_all add: d)
  then show ?thesis by (rule step_to [OF _ stop_step.read_at_end]) (simp_all add: d)
qed

theorem stopped_runs_know_why_witness:
  "stops 60 sample_stopped \<and> ss_stopped sample_stopped \<and> ss_deadline_exceeded sample_stopped \<and>
   ss_interrupted sample_stopped"
  using stopped_runs_know_why [OF sample_stopped_reachable] sample_stopped_reachable
  by (simp add: sample_stopped_def)

theorem printed_exit_code_against_process_witness:
  "\<exists>(e :: check_end) sm. SummaryDocument sm \<in> set (ce_lines e) \<and>
     (cs_exit_code sm = snd (main_exit (ce_result e)) \<or>
      cs_exit_code sm \<in> {0, 1} \<and> snd (main_exit (ce_result e)) \<in> {130, 143})"
proof -
  obtain e where e: "fst (run_state (finish_check (sample_finish (Some Interrupt)) (\<lambda>_ _. Unsent ''u'') (\<lambda>_. None)
      default_config (sample_options\<lparr>op_format := Jsonl\<rparr>) sample_header None [sample_skipped] Map.empty) []) = Some e"
    using sample_finish_runs by blast
  have "ss_main sample_late = ReadAtEnd" "read_by sample_late (sample_finish (Some Interrupt))"
    by (simp_all add: sample_late_def read_by_def sample_finish_def stop_start_def)
  from printed_exit_code_against_process [OF sample_late_reachable this _ e]
  show ?thesis by auto
qed

end
