(* ===== verification/Images.thy ===== *)
theory Images
  imports Check
begin

text \<open>
  Images and the Docker client as \<^verbatim>\<open>src/runner/container.rs\<close> uses them: the errors of a client that cannot
  connect, where the Dockerfile is looked for, the \<open>docker build\<close> of the prepared image, the id of an image,
  the statistics of a container; and how often a check builds the image. Docker and the command's
  outcome are arguments.
\<close>

section \<open>The client\<close>

definition docker_endpoint :: "(string \<Rightarrow> string option) \<Rightarrow> string" where
  "docker_endpoint env = unwrap_or (env ''DOCKER_HOST'') ''unix:///var/run/docker.sock''"

definition unreachable :: "(string \<Rightarrow> string option) \<Rightarrow> string \<Rightarrow> anyhow" where
  "unreachable env e =
     [''Docker daemon unreachable at '' @ docker_endpoint env @ '': '' @ e @ ''. Start Docker or use --local'']"

definition client_try_new :: "(string \<Rightarrow> string option) \<Rightarrow> string option \<Rightarrow> anyhow + pull_policy" where
  \<comment> \<open>the error of connecting, if any; a new manager pulls what is not present\<close>
  "client_try_new env e = (case e of Some m \<Rightarrow> Inl (unreachable env m) | None \<Rightarrow> Inr IfNotPresent)"

definition client_preflight :: "(string \<Rightarrow> string option) \<Rightarrow> string option \<Rightarrow> anyhow + unit" where
  \<comment> \<open>the error of the ping, if any\<close>
  "client_preflight env e = (case e of Some m \<Rightarrow> Inl (unreachable env m) | None \<Rightarrow> Inr ())"

definition preflight_default ::
  "(string \<Rightarrow> string option) \<Rightarrow> string option \<Rightarrow> string option \<Rightarrow> anyhow + unit" where
  "preflight_default env connect ping =
     (case connect of Some m \<Rightarrow> Inl (unreachable env m) | None \<Rightarrow> client_preflight env ping)"

definition image_id_of :: "anyhow + image_plan \<Rightarrow> (string \<Rightarrow> string option option) \<Rightarrow> string option" where
  \<comment> \<open>inspecting an image gives an error or its id, if it has one\<close>
  "image_id_of plan inspect =
     (case plan of Inl _ \<Rightarrow> None | Inr p \<Rightarrow> Option.bind (inspect (ip_run_image p)) id)"

definition pid_alive :: "bool \<Rightarrow> (string \<Rightarrow> bool) \<Rightarrow> u32 \<Rightarrow> bool" where
  "pid_alive linux exists_path pid = (if linux then exists_path (''/proc/'' @ show_nat (unat pid)) else True)"

section \<open>Statistics\<close>

record container_stats =
  ct_memory :: "u64 option"
  ct_cpu :: "u64 option"
  ct_networks :: "(u64 option \<times> u64 option) list option" \<comment> \<open>bytes received and sent\<close>

definition sample_container_stats :: "container_stats option \<Rightarrow> stats_sample option" where
  \<comment> \<open>sums wrap; the debug build panics on overflow\<close>
  "sample_container_stats s =
     map_option
       (\<lambda>st. (unwrap_or (ct_memory st) 0, unwrap_or (ct_cpu st) 0,
          fold (\<lambda>(rx, tx) (r, t). (r + unwrap_or rx 0, t + unwrap_or tx 0)) (unwrap_or (ct_networks st) []) (0, 0))) s"

section \<open>Building\<close>

definition dockerfile_candidates :: "string list" where
  "dockerfile_candidates =
     [''docker/Dockerfile.base'', ''/data/projects/automated_flywheel_setup_checker/docker/Dockerfile.base'']"

definition find_dockerfile :: "(string \<Rightarrow> bool) \<Rightarrow> string option \<Rightarrow> anyhow + string" where
  \<comment> \<open>\<open>manifest_dir\<close>: the directory the program was built in, if it was built by cargo\<close>
  "find_dockerfile exists_path manifest_dir =
     (case find exists_path (dockerfile_candidates @
         (case manifest_dir of Some d \<Rightarrow> [Config.path_join d ''docker/Dockerfile.base''] | None \<Rightarrow> [])) of
        Some p \<Rightarrow> Inr p
      | None \<Rightarrow> Inl [''Cannot find docker/Dockerfile.base. Looked in: ['' @
          join '', '' (map debug_str dockerfile_candidates) @ '']''])"

definition build_args :: "container_config \<Rightarrow> pull_policy \<Rightarrow> image_plan \<Rightarrow> string \<Rightarrow> string \<Rightarrow> string list" where
  "build_args cfg policy plan dockerfile context_dir =
     [''build''] @ (if cc_rebuild cfg \<or> policy = Always then [''--pull''] else []) @
     (if cc_rebuild cfg then [''--no-cache''] else []) @
     [''--build-arg'', ''BASE='' @ ip_base plan, ''-t'', ip_run_image plan, ''-f'', dockerfile, context_dir]"

datatype build_run =
  BuildTimedOut | BuildNotStarted anyhow | BuildEnded bool string \<comment> \<open>success and stderr\<close>

definition relevant_line :: "string \<Rightarrow> bool" where
  "relevant_line l \<longleftrightarrow> \<not> contains l ''DEPRECATED'' \<and> \<not> contains l ''buildx'' \<and> trim l \<noteq> []"

definition build_timeout :: "container_config \<Rightarrow> u64" where
  "build_timeout cfg = max (cc_build_timeout_seconds cfg) 60"

definition build_result :: "container_config \<Rightarrow> image_plan \<Rightarrow> build_run \<Rightarrow> anyhow + unit" where
  "build_result cfg plan b =
     (case b of
        BuildTimedOut \<Rightarrow> Inl [''Timed out after '' @ show_nat (unat (build_timeout cfg)) @ ''s building '' @
          ip_run_image plan @ '' (raise [docker].build_timeout_seconds)'']
      | BuildNotStarted e \<Rightarrow> Inl (''Failed to run docker build (is the docker CLI installed?)'' # e)
      | BuildEnded ok err \<Rightarrow>
          if ok then Inr ()
          else Inl [''Failed to build '' @ ip_run_image plan @ '' from '' @ ip_base plan @ '':'' @ nl #
            take_chars 1500 (join [nl] (filter relevant_line (lines err)))])"

definition build_prepared_image ::
  "(string \<Rightarrow> bool) \<Rightarrow> string option \<Rightarrow> (string \<Rightarrow> anyhow + string) \<Rightarrow> (string \<Rightarrow> string option)
    \<Rightarrow> (string list \<Rightarrow> build_run) \<Rightarrow> container_config \<Rightarrow> pull_policy \<Rightarrow> image_plan \<Rightarrow> anyhow + unit" where
  \<comment> \<open>\<open>canonical\<close> resolves a path, \<open>parent\<close> is \<open>Path::parent\<close>, \<open>docker\<close> runs the command with arguments\<close>
  "build_prepared_image exists_path manifest_dir canonical parent docker cfg policy plan =
     (case find_dockerfile exists_path manifest_dir of
        Inl e \<Rightarrow> Inl e
      | Inr found \<Rightarrow>
          (case with_context ''Failed to canonicalize Dockerfile.base path'' (canonical found) of
             Inl e \<Rightarrow> Inl e
           | Inr path \<Rightarrow>
               (case Option.bind (parent path) parent of
                  None \<Rightarrow> Inl [''Cannot determine build context from Dockerfile path'']
                | Some dir \<Rightarrow> build_result cfg plan (docker (build_args cfg policy plan path dir)))))"

section \<open>How often the image is built\<close>

definition is_build :: "docker_event \<Rightarrow> bool" where
  "is_build e \<longleftrightarrow> (case e of EvBuild tag base \<Rightarrow> True | _ \<Rightarrow> False)"

definition builds :: "docker_event list \<Rightarrow> nat" where "builds evs = length (filter is_build evs)"

lemma builds_simps [simp]:
  "builds [] = 0" "builds (e # es) = (if is_build e then Suc (builds es) else builds es)"
  "builds (es @ es') = builds es + builds es'"
  by (simp_all add: builds_def)

lemma is_build_simps [simp]:
  "is_build (EvBuild t b)" "\<not> is_build (EvTag t)" "\<not> is_build (EvPull r t)" "\<not> is_build (EvCreate nm body)"
  "\<not> is_build (EvStart c)" "\<not> is_build (EvExec c cmd)" "\<not> is_build (EvStop c k)" "\<not> is_build (EvRemove c)"
  by (simp_all add: is_build_def)

lemma builds_none: "\<forall>e\<in>set es. \<not> is_build e \<Longrightarrow> builds es = 0"
  by (induction es) simp_all

lemma ensure_image_builds:
  assumes "ensure_image w sha cfg policy = (evs, Inr plan)" "cc_prepare cfg"
  shows "image_plan_of sha (dw_dockerfile w) cfg = Inr plan"
    "builds evs = (if cc_rebuild cfg \<or> \<not> dw_image_present w (ip_run_image plan) then 1 else 0)"
  using assms
  by (auto simp: ensure_image_def image_plan_of_def Let_def split: sum.splits option.splits if_splits prod.splits)

lemma attempt_config_image:
  "cc_rebuild (attempt_container_config cfg t cc) = cc_rebuild cc"
  "cc_prepare (attempt_container_config cfg t cc) = cc_prepare cc"
  "image_plan_of sha d (attempt_container_config cfg t cc) = image_plan_of sha d cc"
  by (simp_all add: attempt_container_config_def image_plan_of_def Let_def)

lemma run_test_docker_builds:
  assumes "run_test_docker rx sha cfg cc policy t da = (evs, Inr r)" "cc_prepare cc"
  shows "\<exists>plan. image_plan_of sha (dw_dockerfile (da_world da)) cc = Inr plan \<and>
    builds evs = (if cc_rebuild cc \<or> \<not> dw_image_present (da_world da) (ip_run_image plan) then 1 else 0)"
  using assms(1)
proof (cases rule: run_test_docker_Inr)
  case (1 pre exe cid r')
  from 1(1) obtain pre' plan where ens: "ensure_image (da_world da) sha (attempt_container_config cfg t cc) policy = (pre', Inr plan)"
    and pre: "pre = pre' @ [create_event (da_world da) (attempt_container_config cfg t cc) (it_name t) plan, EvStart cid]"
    by (rule create_container_Inr)
  have "builds exe = 0" using docker_execute_events [OF 1(2)] by (intro builds_none) auto
  moreover have "builds [create_event (da_world da) (attempt_container_config cfg t cc) (it_name t) plan] = 0"
    by (simp add: create_event_def)
  ultimately have "builds evs = builds pre'" using 1(3) pre by (simp add: create_event_def)
  then show ?thesis
    using ensure_image_builds [OF ens] assms(2) by (simp add: attempt_config_image)
qed

section \<open>Properties\<close>

text \<open>
  C20: how often the image is built. Every attempt of a check in prepared containers ensures the image anew, with the
  run's own setting: it builds it when it is not there, and with \<open>--rebuild-base\<close> always,
  although the command has built it once before the first test. So a rebuilding run builds the
  image once per attempt of every installer.
\<close>

theorem every_attempt_ensures_the_image:
  assumes "run_test rx sha (build_runner_config cfg False tmo retries rebuild run_id) t ae = (evs, Inr r)"
    and "\<not> ae_cancelled_before ae" "dk_prepare (cf_docker cfg)"
  shows "\<exists>cc plan. rn_backend (build_runner_config cfg False tmo retries rebuild run_id) =
      Docker cc (parse_policy (dk_pull_policy (cf_docker cfg))) \<and>
    image_plan_of sha (dw_dockerfile (da_world (ae_docker ae))) cc = Inr plan \<and>
    builds evs = (if rebuild \<or> \<not> dw_image_present (da_world (ae_docker ae)) (ip_run_image plan) then 1 else 0)"
proof -
  obtain cc where cc: "rn_backend (build_runner_config cfg False tmo retries rebuild run_id) =
      Docker cc (parse_policy (dk_pull_policy (cf_docker cfg)))" "cc_rebuild cc = rebuild" "cc_prepare cc"
    using assms(3) by (simp add: build_runner_config_def Let_def)
  obtain r' where "run_test_docker rx sha (build_runner_config cfg False tmo retries rebuild run_id) cc
      (parse_policy (dk_pull_policy (cf_docker cfg))) t (ae_docker ae) = (evs, Inr r')"
    using assms(1,2) cc(1) by (auto simp: run_test_def split: prod.splits sum.splits if_splits)
  from run_test_docker_builds [OF this] cc show ?thesis by auto
qed

section \<open>Sample input\<close>

definition sample_rebuild :: attempt_env where
  \<comment> \<open>the image is there, and the installer runs into its timeout\<close>
  "sample_rebuild = sample_attempt\<lparr>ae_docker := sample_docker\<lparr>da_world := sample_world\<lparr>dw_dockerfile := Inr ''F''\<rparr>,
     da_exec := None\<rparr>\<rparr>"

lemma sample_tag: "prepared_image_tag ''ubuntu:24.04'' ''0123456789ab'' = Some ''afsc-base:0123456789ab''"
  by code_simp

lemma sample_rebuild_plan:
  assumes "cc_image cc = ''afsc-base:latest''" "cc_prepare cc"
  shows "image_plan_of (\<lambda>_. ''0123456789ab'') (Inr ''F'') cc =
     Inr \<lparr>ip_base = ''ubuntu:24.04'', ip_run_image = ''afsc-base:0123456789ab'', ip_prepared = True\<rparr>"
proof -
  have "plan_base ''afsc-base:latest'' = ''ubuntu:24.04''" by code_simp
  with assms show ?thesis by (simp add: image_plan_of_def template_hash_def sample_tag)
qed

lemma sample_rebuild_runs:
  "\<exists>evs r. run_test literal_rx (\<lambda>_. ''0123456789ab'') (build_runner_config default_config False 300 3 True ''r'')
     sample_test sample_rebuild = (evs, Inr r)"
proof -
  let ?rc = "build_runner_config default_config False 300 3 True ''r''"
  obtain cc where cc: "rn_backend ?rc = Docker cc (parse_policy (dk_pull_policy (cf_docker default_config)))"
    "cc_image cc = ''afsc-base:latest''" "cc_prepare cc" "cc_rebuild cc"
    by (simp add: build_runner_config_def default_config_def default_docker_config_def Let_def)
  have "image_plan_of (\<lambda>_. ''0123456789ab'') (Inr ''F'') (attempt_container_config ?rc sample_test cc) =
     Inr \<lparr>ip_base = ''ubuntu:24.04'', ip_run_image = ''afsc-base:0123456789ab'', ip_prepared = True\<rparr>"
    using cc by (simp add: attempt_config_image sample_rebuild_plan)
  then show ?thesis
    using cc by (simp add: run_test_def run_test_docker_def create_container_def ensure_image_def docker_execute_def
        sample_rebuild_def sample_attempt_def sample_docker_def sample_world_def attempt_config_image Let_def
        guard_cleanup_def guard_new_def split: prod.split)
qed

theorem every_attempt_ensures_the_image_witness:
  "\<exists>evs r. run_test literal_rx (\<lambda>_. ''0123456789ab'') (build_runner_config default_config False 300 3 True ''r'')
     sample_test sample_rebuild = (evs, Inr r) \<and> builds evs = 1"
proof -
  obtain evs r where run: "run_test literal_rx (\<lambda>_. ''0123456789ab'')
      (build_runner_config default_config False 300 3 True ''r'') sample_test sample_rebuild = (evs, Inr r)"
    using sample_rebuild_runs by blast
  have "\<not> ae_cancelled_before sample_rebuild" "dk_prepare (cf_docker default_config)"
    by (simp_all add: sample_rebuild_def sample_attempt_def default_config_def default_docker_config_def)
  from every_attempt_ensures_the_image [OF run this] run show ?thesis by auto
qed

end
