(* ===== verification/Reports.thy ===== *)
theory Reports
  imports Refresh
begin

text \<open>
  What \<^verbatim>\<open>remediate checksums\<close> prints (\<^verbatim>\<open>cmd_remediate_checksums\<close> of \<^verbatim>\<open>src/main.rs\<close>), and that it panics exactly where
  the command of \<open>Refresh\<close> says.
\<close>

datatype refresh_line =
  RefreshText string
| NothingToRefresh string
| RefreshDocument remediation_mode refresh_run
| RefreshEntryLine refresh_entry
| RefreshCounts nat nat "(string \<times> string) list" nat "string option" "proposal_result option" remediation_mode
    \<comment> \<open>checked, drifted, skipped, verified, candidate, proposal, mode\<close>

definition nothing_lines :: "output_format \<Rightarrow> string \<Rightarrow> refresh_line list" where
  "nothing_lines fmt run_id =
     [if fmt = Human
      then RefreshText (''Nothing to refresh: run '' @ take_chars 8 run_id @ '' had no checksum mismatches'')
      else NothingToRefresh run_id]"

definition verification_mark :: "refresh_entry \<Rightarrow> string" where
  "verification_mark e =
     (if is_verified e then [CHR 0xE2, CHR 0x9C, CHR 0x93]
      else if rq_verification e \<noteq> None then [CHR 0xE2, CHR 0x9C, CHR 0x97] else ''-'')"

definition entry_line :: "refresh_entry \<Rightarrow> string option" where
  \<comment> \<open>\<open>None\<close>: a slice panics\<close>
  "entry_line e =
     (case (slice_12 (rq_old_sha256 e), slice_12 (rq_new_sha256 e)) of
        (Some old, Some new) \<Rightarrow>
          Some (''  '' @ verification_mark e @ '' '' @ rq_name e @ ''  '' @ old @ ellipsis @ '' -> '' @ new @ ellipsis @
            ''  drift: '' @ (case rq_drift e of Some d \<Rightarrow> drift_summary d
              | None \<Rightarrow> ''no known-good baseline in the ledger'') @
            ''  verify: '' @ (case rq_verification e of
                Some v \<Rightarrow> vf_status v @
                  (case vf_installed_version v of Some s \<Rightarrow> '' ('' @ s @ '')'' | None \<Rightarrow> [])
              | None \<Rightarrow> ''not run''))
      | _ \<Rightarrow> None)"

definition last_words :: "string \<Rightarrow> string list" where
  \<comment> \<open>the last five lines that are not blank\<close>
  "last_words err = (let ls = filter (\<lambda>l. l \<noteq> []) (map trim (lines err)) in drop (length ls - 5) ls)"

definition failure_lines :: "regex_crate \<Rightarrow> refresh_entry \<Rightarrow> string list" where
  "failure_lines rx e =
     (case rq_verification e of
        None \<Rightarrow> []
      | Some v \<Rightarrow>
          if vf_passed v then []
          else map (\<lambda>l. ''      stderr: '' @ redact rx l) (last_words (vf_stderr_tail v)) @
            (if vf_status v = ''timedout''
             then [''      hint: raise [docker] timeout_seconds, set [installers.'' @ rq_name e @
                   ''] timeout_seconds, or add an execution profile floor (acfs_profile.rs)'']
             else []))"

definition drift_lines :: "string \<Rightarrow> refresh_entry \<Rightarrow> string list" where
  \<comment> \<open>\<open>scripts\<close>: the directory of the ledger's scripts\<close>
  "drift_lines scripts e =
     (case rq_drift e of
        None \<Rightarrow> []
      | Some d \<Rightarrow>
          if dp_score d = Routine then []
          else map (\<lambda>l. ''      '' @ l) (take 40 (lines (dp_unified_diff d))) @
            (if dp_diff_truncated d \<or> length (lines (dp_unified_diff d)) > 40
             then [''      '' @ ellipsis @ '' (full diff in the ledger under '' @ scripts @ '')''] else []))"

fun entry_reports :: "regex_crate \<Rightarrow> string \<Rightarrow> refresh_entry list \<Rightarrow> string list option" where
  "entry_reports rx scripts [] = Some []"
| "entry_reports rx scripts (e # es) =
     Option.bind (entry_line e)
       (\<lambda>l. map_option (\<lambda>rest. l # failure_lines rx e @ drift_lines scripts e @ rest) (entry_reports rx scripts es))"

definition proposal_lines :: "remediation_mode \<Rightarrow> refresh_run \<Rightarrow> string list option" where
  "proposal_lines mode run =
     (case fr_proposal run of
        Some pr \<Rightarrow>
          map_option
            (\<lambda>c. [''Branch '' @ po_branch pr @ '' ('' @ c @ '') in worktree '' @ po_worktree pr @
               (if po_pushed pr then '', pushed'' else []) @
               (case po_pr_url pr of Some u \<Rightarrow> '', PR '' @ u | None \<Rightarrow> [])])
            (slice_12 (po_commit pr))
      | None \<Rightarrow> Some
          (if rp_entries (fr_plan run) = [] then [''No drift: every pinned hash matches what is served.'']
           else if mode = Propose \<or> mode = Apply then [''Nothing proposed: no entry passed verification.''] else []))"

definition refresh_text ::
  "regex_crate \<Rightarrow> string \<Rightarrow> bool \<Rightarrow> remediation_mode \<Rightarrow> refresh_run \<Rightarrow> string list option" where
  "refresh_text rx scripts verify mode run =
     (let plan = fr_plan run
      in Option.bind (entry_reports rx scripts (rp_entries plan))
           (\<lambda>es. map_option
              (\<lambda>ps.
                 [''Checked '' @ show_nat (rp_checked plan) @ '' installer(s): '' @ show_nat (length (rp_entries plan)) @
                    '' drifted, '' @ show_nat (length (rp_skipped plan)) @ '' skipped'' @
                    (if verify then '', '' @ show_nat (length (verified plan)) @ '' verified'' else [])] @
                 map (\<lambda>(n, why). ''  - '' @ n @ '': skipped ('' @ why @ '')'') (rp_skipped plan) @ es @
                 (if fr_diff run \<noteq> [] then [[], trim_end (fr_diff run)] else []) @
                 (case fr_candidate_path run of Some p \<Rightarrow> [nl # ''Candidate written to '' @ p] | None \<Rightarrow> []) @ ps)
              (proposal_lines mode run)))"

definition refresh_report ::
  "regex_crate \<Rightarrow> string \<Rightarrow> bool \<Rightarrow> remediation_mode \<Rightarrow> output_format \<Rightarrow> refresh_run \<Rightarrow> refresh_line list option" where
  "refresh_report rx scripts verify mode fmt run =
     (case fmt of
        Human \<Rightarrow> map_option (map RefreshText) (refresh_text rx scripts verify mode run)
      | Json \<Rightarrow> Some [RefreshDocument mode run]
      | _ \<Rightarrow> Some (map RefreshEntryLine (rp_entries (fr_plan run)) @
          [RefreshCounts (rp_checked (fr_plan run)) (length (rp_entries (fr_plan run))) (rp_skipped (fr_plan run))
             (length (verified (fr_plan run))) (fr_candidate_path run) (fr_proposal run) mode]))"

section \<open>Lemmas\<close>

lemma entry_reports_None:
  "entry_reports rx scripts es = None \<longleftrightarrow>
     (\<exists>e\<in>set es. slice_12 (rq_old_sha256 e) = None \<or> slice_12 (rq_new_sha256 e) = None)"
  by (induction es) (auto simp: entry_line_def split: option.split)

section \<open>Properties\<close>

text \<open>
  the report of a refresh panics exactly when the command is said to: with the human format, when an old or new pin
  or the commit cannot be cut at twelve bytes. What was written and pushed before stays.
\<close>

theorem report_panics_as_modelled:
  "refresh_report rx scripts verify mode fmt run = None \<longleftrightarrow> fmt = Human \<and> \<not> printable run"
proof -
  have "proposal_lines mode run = None \<longleftrightarrow> (\<exists>p. fr_proposal run = Some p \<and> slice_12 (po_commit p) = None)"
    by (auto simp: proposal_lines_def split: option.split)
  moreover have "refresh_text rx scripts verify mode run = None \<longleftrightarrow>
      entry_reports rx scripts (rp_entries (fr_plan run)) = None \<or> proposal_lines mode run = None"
    unfolding refresh_text_def Let_def
    by (cases "entry_reports rx scripts (rp_entries (fr_plan run))")
      (simp_all only: Option.bind.simps option.map_disc_iff option.distinct simp_thms)
  ultimately have "refresh_text rx scripts verify mode run = None \<longleftrightarrow> \<not> printable run"
    by (auto simp: printable_def entry_reports_None)
  then show ?thesis by (cases fmt) (simp_all add: refresh_report_def)
qed

end
