(* ===== verification/Spec2Isabelle.thy ===== *)
theory Spec2Isabelle
  imports Parallel Settings Remediate Notify Validate Watchdog Server Doctor Signals Images Reports
begin

text \<open>
  automated_flywheel_setup_checker runs the installer scripts that the ACFS repository pins in its
  \<^verbatim>\<open>checksums.yaml\<close>, each in a fresh container or in a temporary home directory, classifies what
  fails, and keeps the results. This development models the program in the order of its data flow;
  a theory stands beside the source file it translates and keeps its names.

  Parts and theories.

  \<^item> Vocabulary: \<open>Prelude\<close> (machine integers, durations, strings as their UTF-8 bytes, error chains),
    \<open>Fmt\<close> (Rust's formatting), \<open>Regex\<close> (the interface of the \<open>regex\<close> crate), \<open>OrderedMap\<close>
    (\<open>BTreeMap\<close> as a sorted association list).
  \<^item> Settings: \<open>Toml\<close> (values, flattening, dotted keys), \<open>Config\<close> (\<^verbatim>\<open>src/config/schema.rs\<close>: sections,
    defaults, serialisation), \<open>Settings\<close> (\<^verbatim>\<open>src/config/resolve.rs\<close>: the layers and their sources).
  \<^item> Pins: \<open>Checksums\<close> (\<^verbatim>\<open>src/checksums/parser.rs\<close>, \<^verbatim>\<open>validator.rs\<close>), \<open>Acfs\<close> (\<^verbatim>\<open>acfs.rs\<close>: what the
    ACFS checkout calls), \<open>Ledger\<close> (\<^verbatim>\<open>ledger.rs\<close>: the scripts seen), \<open>Drift\<close> (\<^verbatim>\<open>drift.rs\<close>: what changed
    between two of them).
  \<^item> Runner: \<open>Spec\<close> (\<^verbatim>\<open>src/runner/spec.rs\<close>, \<^verbatim>\<open>acfs_profile.rs\<close>: how an installer is to be run), \<open>Results\<close>
    (\<^verbatim>\<open>installer.rs\<close>), \<open>Retry\<close> (\<^verbatim>\<open>retry.rs\<close>), \<open>Container\<close> (\<^verbatim>\<open>container.rs\<close>), \<open>Images\<close>
    (its builds and client), \<open>Executor\<close> with \<open>Attempts\<close> and \<open>RetryLoop\<close> (\<^verbatim>\<open>executor.rs\<close>: one attempt, and the loop over attempts), \<open>Parallel\<close>
    (\<^verbatim>\<open>parallel.rs\<close>: the pool), \<open>Classifier\<close> (\<^verbatim>\<open>src/parser/classifier.rs\<close>), \<open>Lock\<close> (\<^verbatim>\<open>src/lock.rs\<close>).
  \<^item> Remediation: \<open>Advice\<close> (\<^verbatim>\<open>src/remediation/safety.rs\<close>, \<^verbatim>\<open>outcome.rs\<close>, \<^verbatim>\<open>fallback.rs\<close>), \<open>Breaker\<close> and
    \<open>Claude\<close> (\<^verbatim>\<open>claude.rs\<close>: the resilience components and the client that uses them), \<open>Prompts\<close>
    (\<^verbatim>\<open>prompts.rs\<close>), \<open>Refresh\<close> (\<^verbatim>\<open>checksums.rs\<close> and the command \<^verbatim>\<open>remediate checksums\<close>: new pins, the
    rewritten file, its proposal), \<open>Reports\<close> (what that command prints), \<open>Propose\<close>
    (\<^verbatim>\<open>propose.rs\<close>: gated edit sessions), \<open>Remediate\<close> (what \<^verbatim>\<open>check --remediate\<close> makes of the failures of a run). \<open>Commands\<close> and \<open>Traces\<close> hold the style these
    programs are written in and its logic.
  \<^item> Reports: \<open>Redact\<close> (\<^verbatim>\<open>src/reporting/redact.rs\<close>), \<open>Persist\<close> (\<^verbatim>\<open>jsonl.rs\<close>, \<^verbatim>\<open>summary.rs\<close>: logs and results
    files), \<open>History\<close> (\<^verbatim>\<open>history.rs\<close>: timelines, comparison, flakiness), \<open>Metrics\<close> (\<^verbatim>\<open>metrics.rs\<close>: the
    report, the exporter, the snapshot), \<open>Rendering\<close> (\<^verbatim>\<open>markdown.rs\<close>: runs and differences as
    tables), \<open>Notify\<close> (\<^verbatim>\<open>notify.rs\<close> and the command \<^verbatim>\<open>notify\<close>: the rolling issue, Slack, the digest).
  \<^item> Commands: \<open>Naming\<close> (names and URLs in error texts), \<open>Check\<close> (\<^verbatim>\<open>src/error.rs\<close> and, of \<^verbatim>\<open>src/main.rs\<close>,
    options, dispatch and the check command with its exit codes), \<open>Validate\<close> (the command
    \<^verbatim>\<open>validate\<close>), \<open>Watchdog\<close> (\<^verbatim>\<open>watchdog.rs\<close> and \<^verbatim>\<open>real_main\<close>: pings beside the program), \<open>Server\<close>
    (\<^verbatim>\<open>server.rs\<close>: the endpoints for health and metrics), \<open>Doctor\<close> (\<^verbatim>\<open>doctor.rs\<close>: the checks of the
    host), \<open>Show\<close> (the commands that only show something: \<^verbatim>\<open>list\<close>, \<^verbatim>\<open>status\<close>,
    \<^verbatim>\<open>classify-error\<close>, \<^verbatim>\<open>config\<close>, \<^verbatim>\<open>check --reap\<close>), \<open>EventLog\<close> (\<^verbatim>\<open>eventlog.rs\<close>) and \<open>Finish\<close> (what
    \<^verbatim>\<open>check\<close> does around its tests: dry run, events, printing, storing, metrics, notification, verdict), \<open>Signals\<close>
    (signal handler and deadline beside the main task).
    \<open>Padding\<close> holds the columns of what they print.

  How state and effects correspond. A struct is a record whose fields carry a short prefix, an enum
  a datatype with the source's constructors, an integer a word of its width (\<open>usize\<close> counts are
  natural numbers, lengths that memory bounds), an \<open>f64\<close> the rational it denotes, with the rounding
  of every operation an argument. A fallible function returns \<open>anyhow + 'a\<close>, a panic is \<open>None\<close> or is
  excluded by what the theory says of it. A method that changes its object returns the changed
  record. What the program does to the file system is a list of file operations (\<open>fs_op\<close>) that a
  crash may cut anywhere; what it does to Docker is a list of \<open>docker_event\<close>s; tasks and processes
  that interleave are step relations (\<open>pool_step\<close>, \<open>lock_step\<close>); \<^verbatim>\<open>git\<close>, \<^verbatim>\<open>gh\<close> and the files a
  remediation writes are a log of \<open>action\<close>s answered by a world that may depend on all of it. The answers of everything outside
  (Docker, processes, the network, the clock, randomness, \<open>serde\<close>, \<open>regex\<close>, \<open>similar\<close>, SHA-256)
  are arguments, and what a result needs of them is among its hypotheses.

  What the lemmas show. Per component: the invariant of its state and that every operation keeps it
  (\<open>pool_inv\<close>, \<open>breaker_refines_its_specification\<close>, \<open>ledger_is_content_addressed\<close>); what each
  operation decides on every branch; refinement of the abstract specification where there is one
  (the circuit breaker, the layered settings and specifications); round trips of what is written and
  read (\<open>flatten_roundtrip\<close>, \<open>persisted_run_reads_back\<close>); atomicity under crashes; termination of
  the loops. The interfaces between components are locales, interpreted on the model where it is
  defined: \<open>attempt_runner\<close>, \<open>backoff_schedule\<close> and \<open>classified_runs\<close> (attempt, loop, pool),
  \<open>atomic_writer\<close> (file replacement, used by the ledger and the results), \<open>ordered_map\<close>,
  \<open>setting_store\<close>. This theory composes components: what a resolved specification makes the executor
  do, and how two components read one pin.

  Bounds. The loops are structural or have a measure (the retry loop the attempts left, an edit
  session its rounds, the lock two tries); only waiting for a token has fuel, the rounds of the
  limiter, and two are enough (\<open>claude_always_answers\<close>). The pool ends because every step lowers
  \<open>pool_weight\<close>.

  Output. A command that prints gives the list of its lines: a text as it is, a JSON or TOML document as the
  values it is made of. How a document is laid out, and what goes to the log of the process, is left out.

  Not modelled: the setup of logging (\<^verbatim>\<open>logging.rs\<close>) and the module roots, which compute nothing; the Docker
  daemon, whose answers are arguments; parsing and formatting times, which is that of \<open>chrono\<close>; the decoders
  and the command line parser that \<open>serde\<close> and \<open>clap\<close> derive; getters and constructors that only wrap a value;
  the unit tests.
\<close>

section \<open>From specification to execution\<close>

text \<open>
  C5: what a resolved specification makes the executor do. When the override names no interpreter,
  or \<open>bash\<close> or \<open>sh\<close>, the installer's command line is exactly the words: that interpreter (the
  profile's without an override), the staged script, the override's arguments or else the
  profile's. And however the attempts go, the run makes at most one more attempt than the
  effective number of retries.
\<close>

theorem resolved_spec_execution:
  fixes name :: string and entry :: installer_entry and gd :: global_defaults
  assumes "\<And>i. Option.bind ovr ov_interpreter = Some i \<Longrightarrow> interpreter_parse i \<noteq> None"
    and "run_test_with_retry rx F cfg (to_test (resolve_spec name entry ovr gd)) le = Inr r"
  shows "\<exists>interp. sh_words False None
        (installer_command cfg (to_test (resolve_spec name entry ovr gd)) path) =
      Some (interpreter_str interp # path #
        unwrap_or (Option.bind ovr ov_args) (pf_args (profile_of name)) @
        (if rn_dry_run cfg then [''--dry-run''] else [])) \<and>
      (case Option.bind ovr ov_interpreter of
         None \<Rightarrow> interp = pf_interpreter (profile_of name)
       | Some i \<Rightarrow> trim i = interpreter_str interp) \<and>
      length (tr_attempts r) \<le> Suc (unat (unwrap_or (Option.bind ovr ov_retry) (gd_retries gd)))"
proof -
  let ?s = "resolve_spec name entry ovr gd"
  define interp where "interp = (case Option.bind ovr ov_interpreter of
      None \<Rightarrow> pf_interpreter (profile_of name) | Some i \<Rightarrow> the (interpreter_parse i))"
  have i: "fst (resolve_interpreter name ovr) = interpreter_str interp"
    using assms(1) by (auto simp: resolve_interpreter_def interp_def split: option.splits)
  have plain: "interpreter_str interp \<noteq> [] \<and> (\<forall>c\<in>set (interpreter_str interp). plain_char c)"
    by (cases interp) (simp, code_simp)+
  have a: "fst (resolve_args name ovr) =
      unwrap_or (Option.bind ovr ov_args) (pf_args (profile_of name))"
    by (auto simp: resolve_args_def split: option.splits)
  have decided: "case Option.bind ovr ov_interpreter of
         None \<Rightarrow> interp = pf_interpreter (profile_of name)
       | Some i \<Rightarrow> trim i = interpreter_str interp"
    using assms(1)
    by (auto simp: interp_def interpreter_parse_def split: option.splits if_splits)
  have words: "sh_words False None (installer_command cfg (to_test ?s) path) =
      Some (interpreter_str interp # path #
        unwrap_or (Option.bind ovr ov_args) (pf_args (profile_of name)) @
        (if rn_dry_run cfg then [''--dry-run''] else []))"
    using installer_command_words [of "to_test ?s" cfg path] plain
    by (simp add: to_test_fields resolved_fields i a)
  have r: "fst (resolve_retries ovr gd) = unwrap_or (Option.bind ovr ov_retry) (gd_retries gd)"
    by (auto simp: resolve_retries_def split: option.splits)
  obtain n rl where "loop_outcome rx le (max (it_retry_count (to_test ?s)) 1) n rl r"
    using run_test_with_retry_outcome [OF assms(2)] by blast
  then have "length (tr_attempts r) \<le> unat (max (it_retry_count (to_test ?s)) 1)"
    by (simp add: loop_outcome_def)
  also have "\<dots> \<le> Suc (unat (sp_retries ?s))"
    by (simp add: to_test_fields max.assoc retry_count_value)
  finally have "length (tr_attempts r) \<le>
      Suc (unat (unwrap_or (Option.bind ovr ov_retry) (gd_retries gd)))"
    by (simp add: resolved_fields r)
  with decided words show ?thesis by blast
qed

theorem resolved_spec_execution_witness:
  "\<exists>r. run_test_with_retry literal_rx exact_f64 sample_config
      (to_test (resolve_spec ''rust'' sample_entry None \<lparr>gd_timeout_seconds = 300, gd_retries = 3\<rparr>))
      sample_runs = Inr r \<and> length (tr_attempts r) \<le> 4"
proof -
  let ?t = "to_test (resolve_spec ''rust'' sample_entry None \<lparr>gd_timeout_seconds = 300, gd_retries = 3\<rparr>)"
  obtain evs r0 where run: "run_test literal_rx id sample_config sample_test sample_attempt =
      (evs, Inr r0)" "tr_success r0" by (rule sample_run)
  then have "le_run sample_runs 1 = Inr r0" "\<not> wants_retry literal_rx sample_runs n 1 r0" for n
    by (simp_all add: sample_runs_def runner_attempts_def wants_retry_def should_retry_result_def)
  then obtain r where r: "run_test_with_retry literal_rx exact_f64 sample_config ?t sample_runs = Inr r"
    by (simp add: run_test_with_retry_def retry_loop.simps [of _ _ _ _ _ 1])
  from resolved_spec_execution [OF _ r] have "length (tr_attempts r) \<le> 4" by simp
  with r show ?thesis by blast
qed

section \<open>Two readings of one pin\<close>

text \<open>
  C33: the hash check and the executor read one pin differently. Given the very same bytes, when
  \<open>check_hashes\<close> says that the installer matches its pin, the local backend still reports a
  mismatch exactly when the pin is not written in lower case without surrounding blanks:
  validation normalises it, the executor compares it as it stands.
\<close>

theorem hash_check_versus_executor:
  fixes name :: string and entry :: installer_entry and gd :: global_defaults
  assumes "hc_matches (check_hash sha a name u (normalized_pin entry))"
    and "strip_prefix u ''file://'' = None" "fa_get a u = Inr (st, Inr bytes)"
    and "ie_sha256 entry = Some pin"
    and "la_temp_dir la = Inr dir" "la_curl la = Inr (Some 0, err)" "la_script la = Inr bytes"
  shows "(\<exists>r. run_test_local rx sha cfg (to_test (resolve_spec name entry ovr gd)) la = Inr r \<and>
            tr_checksum_state r = Mismatch) \<longleftrightarrow> pin \<noteq> to_lower (trim pin)"
proof -
  let ?t = "to_test (resolve_spec name entry ovr gd)"
  have h: "sha bytes = to_lower (trim pin)"
    using assms(1-4) by (simp add: check_hash_matches normalized_pin_def)
  have t: "it_expected_sha256 ?t = Some pin" by (simp add: to_test_fields resolved_fields assms(4))
  show ?thesis
  proof (cases "sha bytes = pin")
    case True
    have "tr_checksum_state r \<noteq> Mismatch" if "run_test_local rx sha cfg ?t la = Inr r" for r
      using that True t assms(5-7) local_execute_frame
      by (auto simp: run_test_local_def local_checksum_def with_checksum_result_def Let_def)
    with True h show ?thesis by auto
  next
    case False
    with t assms(5-7) h show ?thesis
      by (auto simp: run_test_local_def local_checksum_def local_early_def
          with_checksum_result_def)
  qed
qed

theorem hash_check_versus_executor_witness:
  "\<exists>r. run_test_local literal_rx to_lower sample_config
      (to_test (resolve_spec ''uv'' (sample_entry\<lparr>ie_sha256 := Some ''EVIL''\<rparr>) None
         \<lparr>gd_timeout_seconds = 300, gd_retries = 3\<rparr>)) sample_local = Inr r \<and>
     tr_checksum_state r = Mismatch"
proof -
  let ?e = "sample_entry\<lparr>ie_sha256 := Some ''EVIL''\<rparr>"
  let ?a = "\<lparr>fa_file = (\<lambda>_. Inl []), fa_get = (\<lambda>_. Inr (200, Inr ''evil'')), fa_elapsed_ms = 0\<rparr>"
  have "normalized_pin ?e = Some ''evil''" "strip_prefix ''https://x'' ''file://'' = None"
    "to_lower ''evil'' = ''evil''" "to_lower (trim ''EVIL'') \<noteq> ''EVIL''"
    by code_simp+
  moreover from this have "hc_matches (check_hash to_lower ?a ''uv'' ''https://x'' (normalized_pin ?e))"
    by (simp add: check_hash_matches)
  moreover have "la_temp_dir sample_local = Inr ''/tmp/a''" "la_curl sample_local = Inr (Some 0, [])"
    "la_script sample_local = Inr ''evil''" by (simp_all add: sample_local_def)
  ultimately show ?thesis
    using hash_check_versus_executor [of to_lower ?a "''uv''" "''https://x''" ?e 200 "''evil''"
        "''EVIL''" sample_local "''/tmp/a''" "[]" literal_rx sample_config None
        "\<lparr>gd_timeout_seconds = 300, gd_retries = 3\<rparr>"]
    by (simp; force)
qed

end
